(* ===== verification/Prelude.thy ===== *)
theory Prelude
  imports Complex_Main "HOL-Library.Sublist" "HOL-Library.AList"
    "HOL-Library.Char_ord" "HOL-Library.List_Lexorder"
begin

text \<open>
  What the component theories share: the exceptions of the Python code as values, the
  result type of code that may raise, Python values that cross component boundaries
  (JSON-like payloads, log records, connector records), the \<open>str\<close> operations the code
  uses, and insertion-ordered dictionaries.

  A \<open>str\<close> is a \<^typ>\<open>string\<close> whose characters stand for the code points 0 to 255. The
  one character outside that range that occurs in a literal of the code, the em dash
  U+2014, is written with its Windows-1252 code 0x97, so lengths are those of the code.
  A \<open>float\<close> is a \<^typ>\<open>rat\<close>: arithmetic is exact, rounding is not modelled.
\<close>

named_theorems py_defs \<open>unfolding rules of small helper definitions\<close>

section \<open>Exceptions and results\<close>

datatype exn =
    ValueError | KeyError | TypeError | RuntimeError | ImportError | ZeroDivisionError
  | OverflowError | TimeoutError | BackendError
  | BudgetExceededError | UnknownModelPricingError
  | AgentConfigurationError | AgentExecutionError | AgentAuthenticationError
  | AgentTimeoutError | AgentValidationError | AgentBudgetExceededError
  | ReviewNotFoundError | ReviewAlreadyDecidedError | PluginPackError
  | HTTPException nat
  | OtherError

type_synonym 'a result = "exn + 'a"

definition rbind :: "'e + 'a \<Rightarrow> ('a \<Rightarrow> 'e + 'b) \<Rightarrow> 'e + 'b" where
  "rbind m f = (case m of Inl e \<Rightarrow> Inl e | Inr x \<Rightarrow> f x)"

lemma rbind_simps [simp]: "rbind (Inl e) f = Inl e" "rbind (Inr x) f = f x"
  by (simp_all add: rbind_def)

lemma rbind_Inr_iff: "rbind m f = Inr y \<longleftrightarrow> (\<exists>x. m = Inr x \<and> f x = Inr y)"
  by (cases m) auto

lemma rbind_Inl_iff: "rbind m f = Inl e \<longleftrightarrow> m = Inl e \<or> (\<exists>x. m = Inr x \<and> f x = Inl e)"
  by (cases m) auto

lemma rbind_split: "P (rbind m f) \<longleftrightarrow> (\<forall>e. m = Inl e \<longrightarrow> P (Inl e)) \<and> (\<forall>x. m = Inr x \<longrightarrow> P (f x))"
  by (cases m) auto

definition http_status :: "'a result \<Rightarrow> nat" where
  \<comment> \<open>what a client sees of a handler; an exception no handler turns into a response is a 500\<close>
  "http_status r = (case r of Inr x \<Rightarrow> 200 | Inl (HTTPException n) \<Rightarrow> n | Inl e \<Rightarrow> 500)"

section \<open>Python values\<close>

datatype pyval =
    VNone | VBool bool | VInt int | VFloat rat | VStr string
  | VList "pyval list" | VDict "(string \<times> pyval) list"

type_synonym pydict = "(string \<times> pyval) list"

text \<open>\<open>bool(v)\<close>: what \<open>if v\<close>, \<open>not v\<close>, \<open>v or w\<close> look at.\<close>

fun truthy :: "pyval \<Rightarrow> bool" where
  "truthy VNone = False"
| "truthy (VBool b) = b"
| "truthy (VInt i) = (i \<noteq> 0)"
| "truthy (VFloat r) = (r \<noteq> 0)"
| "truthy (VStr s) = (s \<noteq> [])"
| "truthy (VList xs) = (xs \<noteq> [])"
| "truthy (VDict d) = (d \<noteq> [])"

definition py_or :: "pyval \<Rightarrow> pyval \<Rightarrow> pyval" where
  "py_or a b = (if truthy a then a else b)"

definition dget :: "pydict \<Rightarrow> string \<Rightarrow> pyval" where
  \<comment> \<open>\<open>d.get(k)\<close>\<close>
  "dget d k = (case map_of d k of None \<Rightarrow> VNone | Some v \<Rightarrow> v)"

definition dget_or :: "pydict \<Rightarrow> string \<Rightarrow> pyval \<Rightarrow> pyval" where
  \<comment> \<open>\<open>d.get(k, default)\<close>\<close>
  "dget_or d k v0 = (case map_of d k of None \<Rightarrow> v0 | Some v \<Rightarrow> v)"

fun as_dict :: "pyval \<Rightarrow> pydict" where
  "as_dict (VDict d) = d"
| "as_dict _ = []"

fun as_list :: "pyval \<Rightarrow> pyval list" where
  "as_list (VList xs) = xs"
| "as_list _ = []"

text \<open>Decimal rendering of \<open>int\<close>.\<close>

fun digit_char :: "nat \<Rightarrow> char" where
  "digit_char n = char_of (48 + n)"

fun show_nat :: "nat \<Rightarrow> string" where
  "show_nat n = (if n < 10 then [digit_char n] else show_nat (n div 10) @ [digit_char (n mod 10)])"

declare show_nat.simps [simp del]

definition show_int :: "int \<Rightarrow> string" where
  "show_int i = (if i < 0 then CHR ''-'' # show_nat (nat (- i)) else show_nat (nat i))"

text \<open>\<open>str(v)\<close>; the rendering of floats and containers is the argument \<open>rend\<close>.\<close>

fun py_str :: "(pyval \<Rightarrow> string) \<Rightarrow> pyval \<Rightarrow> string" where
  "py_str rend VNone = ''None''"
| "py_str rend (VBool b) = (if b then ''True'' else ''False'')"
| "py_str rend (VInt i) = show_int i"
| "py_str rend (VStr s) = s"
| "py_str rend v = rend v"

section \<open>Strings\<close>

abbreviation NL :: char where "NL \<equiv> CHR 0x0A"

definition em_dash :: string where "em_dash = [CHR 0x97]"

definition py_isspace :: "char \<Rightarrow> bool" where
  "py_isspace c \<longleftrightarrow> (let n = (of_char c :: nat) in
     (9 \<le> n \<and> n \<le> 13) \<or> (28 \<le> n \<and> n \<le> 32) \<or> n = 133 \<or> n = 160)"

definition lstrip :: "string \<Rightarrow> string" where
  "lstrip s = dropWhile py_isspace s"

definition rstrip :: "string \<Rightarrow> string" where
  "rstrip s = rev (dropWhile py_isspace (rev s))"

definition strip :: "string \<Rightarrow> string" where
  "strip s = rstrip (lstrip s)"

definition blank :: "string \<Rightarrow> bool" where
  \<comment> \<open>\<open>not s or not s.strip()\<close>\<close>
  "blank s \<longleftrightarrow> s = [] \<or> strip s = []"

definition startswith :: "string \<Rightarrow> string \<Rightarrow> bool" where
  "startswith p s \<longleftrightarrow> take (length p) s = p"

fun has_sub :: "string \<Rightarrow> string \<Rightarrow> bool" where
  \<comment> \<open>\<open>p in s\<close>\<close>
  "has_sub p [] = (p = [])"
| "has_sub p (c # s) = (take (length p) (c # s) = p \<or> has_sub p s)"

fun split_on :: "char \<Rightarrow> string \<Rightarrow> string list" where
  \<comment> \<open>\<open>s.split(sep)\<close> for a one-character separator\<close>
  "split_on sep [] = [[]]"
| "split_on sep (c # s) =
     (if c = sep then [] # split_on sep s
      else (case split_on sep s of [] \<Rightarrow> [[c]] | w # ws \<Rightarrow> (c # w) # ws))"

fun join :: "string \<Rightarrow> string list \<Rightarrow> string" where
  "join sep [] = []"
| "join sep [w] = w"
| "join sep (w # v # ws) = w @ sep @ join sep (v # ws)"

definition lower_char :: "char \<Rightarrow> char" where
  "lower_char c = (let n = (of_char c :: nat) in
     if (65 \<le> n \<and> n \<le> 90) \<or> (192 \<le> n \<and> n \<le> 222 \<and> n \<noteq> 215) then char_of (n + 32) else c)"

definition lower :: "string \<Rightarrow> string" where
  "lower s = map lower_char s"

definition dedupe :: "'a list \<Rightarrow> 'a list" where
  \<comment> \<open>\<open>list(dict.fromkeys(xs))\<close>: the first occurrence of each element, in order\<close>
  "dedupe xs = rev (remdups (rev xs))"

text \<open>\<open>int(s)\<close> for text: blanks around, an optional sign, digits with single underscores.\<close>

fun digits_val :: "bool \<Rightarrow> int \<Rightarrow> string \<Rightarrow> int option" where
  "digits_val after_digit acc [] = (if after_digit then Some acc else None)"
| "digits_val after_digit acc (c # s) =
     (let n = (of_char c :: nat) in
      if 48 \<le> n \<and> n \<le> 57 then digits_val True (10 * acc + int (n - 48)) s
      else if c = CHR ''_'' \<and> after_digit then digits_val False acc s
      else None)"

definition py_int :: "string \<Rightarrow> int option" where
  "py_int s = (case strip s of
       [] \<Rightarrow> None
     | c # t \<Rightarrow> if c = CHR ''-'' then map_option uminus (digits_val False 0 t)
               else if c = CHR ''+'' then digits_val False 0 t
               else digits_val False 0 (c # t))"

subsection \<open>Lemmas on strings\<close>

lemma dropWhile_hd_not: "dropWhile P xs = y # ys \<Longrightarrow> \<not> P y"
  by (metis hd_dropWhile list.discI list.sel(1))

lemma dropWhile_fix: "xs = [] \<or> \<not> P (hd xs) \<Longrightarrow> dropWhile P xs = xs"
  by (cases xs) auto

lemma rstrip_last: "rstrip s \<noteq> [] \<Longrightarrow> \<not> py_isspace (last (rstrip s))"
  unfolding rstrip_def by (metis hd_dropWhile last_rev rev_is_Nil_conv)

lemma lstrip_hd: "lstrip s \<noteq> [] \<Longrightarrow> \<not> py_isspace (hd (lstrip s))"
  by (auto simp: lstrip_def hd_dropWhile)

lemma rstrip_prefix: "prefix (rstrip s) s"
  unfolding rstrip_def
  by (metis rev_rev_ident suffix_dropWhile suffix_to_prefix)

lemma rstrip_fix: "s = [] \<or> \<not> py_isspace (last s) \<Longrightarrow> rstrip s = s"
  by (cases s rule: rev_cases) (auto simp: rstrip_def)

lemma lstrip_fix: "s = [] \<or> \<not> py_isspace (hd s) \<Longrightarrow> lstrip s = s"
  by (simp add: lstrip_def dropWhile_fix)

lemma hd_rstrip: "rstrip s \<noteq> [] \<Longrightarrow> hd (rstrip s) = hd s"
  using rstrip_prefix [of s] by (metis hd_append2 prefix_def)

lemma strip_ends:
  assumes "strip s \<noteq> []"
  shows "\<not> py_isspace (hd (strip s))" and "\<not> py_isspace (last (strip s))"
proof -
  from assms have l: "lstrip s \<noteq> []" by (auto simp: strip_def rstrip_def)
  show "\<not> py_isspace (last (strip s))" using assms unfolding strip_def by (rule rstrip_last)
  show "\<not> py_isspace (hd (strip s))"
    using assms l hd_rstrip [of "lstrip s"] lstrip_hd [of s] by (simp add: strip_def)
qed

lemma strip_fix:
  "s = [] \<or> (\<not> py_isspace (hd s) \<and> \<not> py_isspace (last s)) \<Longrightarrow> strip s = s"
  by (auto simp: strip_def lstrip_fix rstrip_fix)

lemma strip_idem [simp]: "strip (strip s) = strip s"
  by (rule strip_fix) (use strip_ends [of s] in blast)

lemma strip_Nil [simp]: "strip [] = []"
  by (simp add: strip_def lstrip_def rstrip_def)

lemma blank_iff: "blank s \<longleftrightarrow> strip s = []"
  by (auto simp: blank_def)

lemma set_strip: "set (strip s) \<subseteq> set s"
  by (auto simp: strip_def rstrip_def lstrip_def dest!: set_dropWhileD)

lemma length_strip: "length (strip s) \<le> length s"
proof -
  have "length (strip s) \<le> length (lstrip s)"
    unfolding strip_def rstrip_def by (metis length_dropWhile_le length_rev)
  also have "\<dots> \<le> length s" by (simp add: lstrip_def length_dropWhile_le)
  finally show ?thesis .
qed

lemma has_sub_iff: "has_sub p s \<longleftrightarrow> (\<exists>a b. s = a @ p @ b)"
proof (induction s)
  case Nil
  then show ?case by simp
next
  case (Cons c s)
  have "(take (length p) (c # s) = p) \<longleftrightarrow> (\<exists>b. c # s = p @ b)"
    by (metis append_eq_conv_conj append_take_drop_id)
  moreover have "(\<exists>a b. c # s = a @ p @ b) \<longleftrightarrow>
      (\<exists>b. c # s = p @ b) \<or> (\<exists>a b. s = a @ p @ b)"
    by (metis append_Cons append_Nil list.exhaust list.inject)
  ultimately show ?case using Cons.IH by simp
qed

lemma has_sub_refl [simp]: "has_sub p p"
  unfolding has_sub_iff by (metis append_Nil append_Nil2)

lemma has_sub_append1: "has_sub p s \<Longrightarrow> has_sub p (s @ t)"
  unfolding has_sub_iff by (metis append.assoc)

lemma has_sub_append2: "has_sub p t \<Longrightarrow> has_sub p (s @ t)"
  unfolding has_sub_iff by (metis append.assoc)

lemma startswith_iff: "startswith p s \<longleftrightarrow> prefix p s"
  by (auto simp: startswith_def prefix_def) (metis append_take_drop_id)

lemma startswith_append [simp]: "startswith p (p @ s)"
  by (simp add: startswith_def)

lemma lower_append [simp]: "lower (s @ t) = lower s @ lower t"
  by (simp add: lower_def)

lemma lower_Bearer: "lower ''Bearer '' = ''bearer ''"
  by code_simp

lemma split_on_nonempty [simp]: "split_on sep s \<noteq> []"
  by (induction s) (auto split: list.splits)

subsection \<open>Lemmas on ordered dictionaries and lists\<close>

lemma set_dedupe [simp]: "set (dedupe xs) = set xs"
  by (simp add: dedupe_def)

lemma distinct_dedupe [simp]: "distinct (dedupe xs)"
  by (simp add: dedupe_def)

lemma dedupe_id: "distinct xs \<Longrightarrow> dedupe xs = xs"
  by (simp add: dedupe_def distinct_remdups_id)

lemma map_of_update [simp]: "map_of (AList.update k v al) = (map_of al)(k \<mapsto> v)"
  by (simp add: update_conv')

lemma dget_update: "dget (AList.update k v d) k' = (if k' = k then v else dget d k')"
  by (simp add: dget_def)

lemma length_filter_mono: "(\<And>x. x \<in> set xs \<Longrightarrow> P x \<Longrightarrow> Q x) \<Longrightarrow> length (filter P xs) \<le> length (filter Q xs)"
  by (induction xs) (auto intro: le_SucI)

lemma dropWhile_sorted_filter:
  "sorted (xs :: 'a :: linorder list) \<Longrightarrow> dropWhile (\<lambda>t. t < c) xs = filter (\<lambda>t. c \<le> t) xs"
  by (induction xs) (auto simp: not_less intro!: filter_True [symmetric])

lemma set_alist_update:
  "distinct (map fst al) \<Longrightarrow> set (AList.update k v al) = insert (k, v) {e \<in> set al. fst e \<noteq> k}"
  by (induction al) force+

lemma fst_update_in: "k \<in> fst ` set al \<Longrightarrow> map fst (AList.update k v al) = map fst al"
  by (induction al) auto

lemma fst_update_notin: "k \<notin> fst ` set al \<Longrightarrow> AList.update k v al = al @ [(k, v)]"
  by (induction al) auto

subsection \<open>Numbers as text\<close>

lemma digits_val_append:
  "digits_val b acc s = Some v \<Longrightarrow> s \<noteq> [] \<Longrightarrow> digits_val b acc (s @ t) = digits_val True v t"
proof (induction s arbitrary: b acc)
  case (Cons c s)
  then show ?case by (cases "s = []") (auto simp: Let_def split: if_splits)
qed simp

lemma digit_char_code: "n < 10 \<Longrightarrow> of_char (digit_char n) = 48 + n"
  by simp

lemma show_nat_val: "digits_val False 0 (show_nat n) = Some (int n) \<and> show_nat n \<noteq> []
    \<and> list_all (\<lambda>c. (of_char c :: nat) \<in> {48..57}) (show_nat n)"
proof (induction n rule: show_nat.induct)
  case (1 n)
  show ?case
  proof (cases "n < 10")
    case True
    then show ?thesis by (subst (1 2 3) show_nat.simps) (simp add: digit_char_code Let_def del: digit_char.simps)
  next
    case False
    note ih = "1" [OF False]
    have "int (n div 10) * 10 + int (n mod 10) = int n"
      by (metis div_mult_mod_eq of_nat_add of_nat_mult of_nat_numeral)
    then show ?thesis using False ih
      by (subst (1 2 3) show_nat.simps)
        (simp add: digits_val_append digit_char_code Let_def del: digit_char.simps)
  qed
qed

lemma strip_solid: "list_all (\<lambda>c. \<not> py_isspace c) s \<Longrightarrow> strip s = s"
  by (rule strip_fix) (auto simp: list_all_iff)

lemma show_nat_solid: "list_all (\<lambda>c. \<not> py_isspace c) (show_nat n)"
  using show_nat_val [of n] by (auto simp: list_all_iff py_isspace_def)

lemma py_int_show_int: "py_int (show_int i) = Some i"
proof -
  have minus: "\<not> py_isspace (CHR ''-'')" by (simp add: py_isspace_def)
  have hd: "hd (show_nat n) \<noteq> CHR ''-'' \<and> hd (show_nat n) \<noteq> CHR ''+''" for n
    using show_nat_val [of n] by (cases "show_nat n") auto
  show ?thesis
  proof (cases "i < 0")
    case True
    have "strip (show_int i) = show_int i" using True minus show_nat_solid by (intro strip_solid) (simp add: show_int_def)
    then show ?thesis using True show_nat_val [of "nat (- i)"] by (simp add: py_int_def show_int_def)
  next
    case False
    have "strip (show_int i) = show_int i" using False show_nat_solid by (intro strip_solid) (simp add: show_int_def)
    then show ?thesis using False show_nat_val [of "nat i"] hd [of "nat i"]
      by (cases "show_nat (nat i)") (auto simp: py_int_def show_int_def Let_def of_nat_diff split: if_splits)
  qed
qed

end
