(* ===== verification/InputSafety.thy ===== *)
theory InputSafety
  imports Prelude
begin

text \<open>
  The request-side checks of \<open>core/security.py\<close>: the query validator, the untrusted-content
  delimiters, the outbound-URL guard, the bounded request body, Bearer verification and the
  proxy-aware client identity. \<open>urlparse\<close>, \<open>ipaddress\<close>, \<open>getaddrinfo\<close> and
  \<open>sha256\<close> are arguments of the definitions that call them.
\<close>

section \<open>Collapsing newline runs: \<open>re.sub(r"\\n{3,}", "\\n\\n", s)\<close>\<close>

lemma length_dropWhile_less [termination_simp]: "length (dropWhile P s) < Suc (length s)"
  by (simp add: length_dropWhile_le le_imp_less_Suc)

fun collapse_newlines :: "string \<Rightarrow> string" where
  "collapse_newlines [] = []"
| "collapse_newlines (c # s) =
     (if c = NL then
        (let run = takeWhile (\<lambda>x. x = NL) (c # s)
         in (if 3 \<le> length run then [NL, NL] else run)
            @ collapse_newlines (dropWhile (\<lambda>x. x = NL) s))
      else c # collapse_newlines s)"

lemma collapse_hd: "s \<noteq> [] \<Longrightarrow> hd (collapse_newlines s) = hd s \<and> collapse_newlines s \<noteq> []"
  by (cases s) (auto simp: Let_def)

lemma takeWhile_replicate_append: "P a \<Longrightarrow> takeWhile P (replicate m a @ s) = replicate m a @ takeWhile P s"
  by (induction m) auto

lemma dropWhile_replicate_append: "P a \<Longrightarrow> dropWhile P (replicate m a @ s) = dropWhile P s"
  by (induction m) auto

lemma takeWhile_eq_replicate:
  "takeWhile (\<lambda>x. x = a) s = replicate (length (takeWhile (\<lambda>x. x = a) s)) a"
  by (induction s) auto

text \<open>Splitting a non-empty text into its leading run and the rest.\<close>

lemma collapse_run:
  assumes "s = [] \<or> hd s \<noteq> NL"
  shows "collapse_newlines (replicate n NL @ s)
       = replicate (min n 2) NL @ collapse_newlines s"
proof (cases n)
  case 0
  then show ?thesis by simp
next
  case (Suc m)
  have tw: "takeWhile (\<lambda>x. x = NL) (replicate m NL @ s) = replicate m NL"
    using assms by (cases s) (auto simp: takeWhile_replicate_append)
  have dw: "dropWhile (\<lambda>x. x = NL) (replicate m NL @ s) = s"
    using assms by (cases s) (auto simp: dropWhile_replicate_append)
  show ?thesis
  proof (cases "2 \<le> m")
    case True
    with Suc tw dw show ?thesis by (simp add: Let_def numeral_2_eq_2)
  next
    case False
    then have "m = 0 \<or> m = 1" by arith
    with Suc tw dw show ?thesis by (auto simp: Let_def numeral_2_eq_2)
  qed
qed

lemma collapse_replicate: "collapse_newlines (replicate n NL) = replicate (min n 2) NL"
  using collapse_run [of "[]" n] by simp

lemma collapse_non_nl: "c \<noteq> NL \<Longrightarrow> collapse_newlines (c # s) = c # collapse_newlines s"
  by simp

text \<open>An induction principle that follows the runs.\<close>

lemma run_induct [case_names Nil char run]:
  assumes "P []"
    and "\<And>c s. c \<noteq> NL \<Longrightarrow> P s \<Longrightarrow> P (c # s)"
    and "\<And>n s. s = [] \<or> hd s \<noteq> NL \<Longrightarrow> P s \<Longrightarrow> P (replicate (Suc n) NL @ s)"
  shows "P (s :: string)"
proof (induction s rule: length_induct)
  case (1 s)
  show ?case
  proof (cases s)
    case Nil
    with assms(1) show ?thesis by simp
  next
    case (Cons c t)
    show ?thesis
    proof (cases "c = NL")
      case False
      with 1 Cons assms(2) show ?thesis by simp
    next
      case True
      let ?u = "dropWhile (\<lambda>x. x = NL) t"
      have t: "t = replicate (length (takeWhile (\<lambda>x. x = NL) t)) NL @ ?u"
        by (metis takeWhile_dropWhile_id takeWhile_eq_replicate)
      have "length ?u < length s" using Cons length_dropWhile_le [of _ t] by (simp add: le_imp_less_Suc)
      with 1 have "P ?u" by blast
      moreover have "?u = [] \<or> hd ?u \<noteq> NL" using hd_dropWhile [of "\<lambda>x. x = NL" t] by blast
      ultimately have "P (replicate (Suc (length (takeWhile (\<lambda>x. x = NL) t))) NL @ ?u)"
        by (rule assms(3) [rotated])
      with t True Cons show ?thesis by simp
    qed
  qed
qed

lemma collapse_idem: "collapse_newlines (collapse_newlines s) = collapse_newlines s"
proof (induction s rule: run_induct)
  case (run n s)
  have "collapse_newlines s = [] \<or> hd (collapse_newlines s) \<noteq> NL"
    using run(1) collapse_hd [of s] by (cases s) auto
  with run show ?case by (simp add: collapse_run del: replicate_Suc collapse_newlines.simps(2))
qed (simp_all add: collapse_non_nl del: collapse_newlines.simps(2))

lemma collapse_length: "length (collapse_newlines s) \<le> length s"
  by (induction s rule: run_induct)
    (simp_all add: collapse_non_nl collapse_run del: replicate_Suc collapse_newlines.simps(2))

lemma collapse_set: "set (collapse_newlines s) = set s"
  by (induction s rule: run_induct)
    (auto simp: collapse_non_nl collapse_run simp del: replicate_Suc collapse_newlines.simps(2))

lemma collapse_last: "s \<noteq> [] \<Longrightarrow> last (collapse_newlines s) = last s"
proof (induction s rule: run_induct)
  case (char c s)
  then show ?case using collapse_hd [of s] by (cases s) (auto simp: collapse_non_nl simp del: collapse_newlines.simps(2))
next
  case (run n s)
  then show ?case using collapse_hd [of s]
    by (cases "s = []") (simp_all add: collapse_run collapse_replicate last_append del: replicate_Suc collapse_newlines.simps(2))
qed simp

lemma no_sub_cons: "c \<noteq> hd p \<Longrightarrow> p \<noteq> [] \<Longrightarrow> has_sub p (c # s) = has_sub p s"
  by (cases p) auto

lemma collapse_no_triple: "\<not> has_sub [NL, NL, NL] (collapse_newlines s)"
proof (induction s rule: run_induct)
  case Nil
  then show ?case by simp
next
  case (char c s)
  then show ?case by (simp add: collapse_non_nl del: collapse_newlines.simps(2))
next
  case (run n s)
  let ?r = "collapse_newlines s"
  have h: "?r = [] \<or> hd ?r \<noteq> NL" using run(1) collapse_hd [of s] by (cases s) auto
  then have "\<not> has_sub [NL, NL, NL] (NL # NL # ?r)" and "\<not> has_sub [NL, NL, NL] (NL # ?r)"
    using run.IH by (cases ?r; auto)+
  then show ?case using collapse_run [OF run(1), of "Suc n"]
    by (cases n) (simp_all add: numeral_2_eq_2 del: collapse_newlines.simps(2) has_sub.simps)
qed

section \<open>\<open>InputValidator\<close>\<close>

record input_validator =
  max_length :: int

definition DEFAULT_MAX_LENGTH :: int where "DEFAULT_MAX_LENGTH = 2000"

definition input_validator_init :: "int \<Rightarrow> input_validator result" where
  "input_validator_init n = (if n < 1 then Inl ValueError else Inr \<lparr>max_length = n\<rparr>)"

definition check_content_safety :: "input_validator \<Rightarrow> string \<Rightarrow> int option \<Rightarrow> string result" where
  "check_content_safety v text max_len =
     (let limit = (case max_len of None \<Rightarrow> max_length v | Some m \<Rightarrow> m) in
      if int (length text) > limit then Inl ValueError
      else if CHR 0x00 \<in> set text then Inl ValueError
      else Inr (collapse_newlines (strip text)))"

definition validate :: "input_validator \<Rightarrow> string \<Rightarrow> string result" where
  "validate v query =
     (if int (length query) > max_length v then Inl ValueError
      else check_content_safety v query (Some (max_length v)))"

lemma collapse_strip_fix: "strip (collapse_newlines (strip s)) = collapse_newlines (strip s)"
proof (cases "strip s = []")
  case True
  then show ?thesis by simp
next
  case False
  then show ?thesis
    using strip_ends [OF False] collapse_hd [OF False] collapse_last [OF False]
    by (intro strip_fix) auto
qed

lemma validate_eq:
  "validate v q = (if int (length q) \<le> max_length v \<and> CHR 0x00 \<notin> set q
                   then Inr (collapse_newlines (strip q)) else Inl ValueError)"
  by (auto simp: validate_def check_content_safety_def)

lemma check_content_safety_Inr:
  "check_content_safety v s (Some m) = (if int (length s) \<le> m \<and> CHR 0x00 \<notin> set s
     then Inr (collapse_newlines (strip s)) else Inl ValueError)"
  by (auto simp: check_content_safety_def)

lemma sanitised_length: "length (collapse_newlines (strip q)) \<le> length q"
  using collapse_length length_strip le_trans by blast

lemma sanitised_no_nul: "CHR 0x00 \<notin> set q \<Longrightarrow> CHR 0x00 \<notin> set (collapse_newlines (strip q))"
  using set_strip [of q] by (auto simp: collapse_set)

text \<open>What the query validator returns is safe for the logs and the prompt: no longer
  than the limit, free of NUL bytes, without surrounding white space, without three
  newlines in a row, and a fixed point of the validator.\<close>

theorem validate_safe:
  assumes "validate v q = Inr r"
  shows "int (length r) \<le> max_length v \<and> CHR 0x00 \<notin> set r \<and> strip r = r
       \<and> \<not> has_sub [NL, NL, NL] r \<and> validate v r = Inr r"
proof -
  from assms have q: "int (length q) \<le> max_length v" "CHR 0x00 \<notin> set q"
    and r: "r = collapse_newlines (strip q)"
    by (auto simp: validate_eq split: if_splits)
  have len: "int (length r) \<le> max_length v"
    using q(1) sanitised_length [of q] by (simp add: r)
  show ?thesis
    using len sanitised_no_nul [OF q(2)] collapse_strip_fix [of q] collapse_no_triple
    by (simp add: r validate_eq collapse_idem)
qed

theorem validate_safe_witness:
  "validate \<lparr>max_length = 2000\<rparr> '' a\<newline>\<newline>\<newline>\<newline>b '' = Inr ''a\<newline>\<newline>b''
   \<and> strip ''a\<newline>\<newline>b'' = ''a\<newline>\<newline>b''"
proof -
  have h: "validate \<lparr>max_length = 2000\<rparr> '' a\<newline>\<newline>\<newline>\<newline>b '' = Inr ''a\<newline>\<newline>b''"
    by (simp add: validate_eq strip_def lstrip_def rstrip_def py_isspace_def)
  show ?thesis using validate_safe [OF h] h by blast
qed

end
