(* ===== verification/NetGuard.thy ===== *)
theory NetGuard
  imports Prelude
begin

text \<open>
  The network-side guards of \<open>core/security.py\<close>: outbound URLs (SSRF), the bounded request
  body, Bearer tokens and the proxy-aware client identity used by the rate limiter.
  Library code is an argument: \<open>urlparse\<close> as a function to scheme and host, \<open>ipaddress\<close>
  and \<open>getaddrinfo\<close> as partial functions, SHA-256 as a function to a hexadecimal text.
\<close>

section \<open>Outbound URLs\<close>

record ip_addr =
  is_loopback :: bool
  is_private :: bool
  is_link_local :: bool
  is_reserved :: bool
  is_multicast :: bool
  is_unspecified :: bool

record parsed_url =
  scheme :: string
  hostname :: "string option"

definition BLOCKED_OUTBOUND_HOSTNAMES :: "string list" where
  "BLOCKED_OUTBOUND_HOSTNAMES = [''localhost'', ''metadata.google.internal'', ''metadata.google'']"

definition is_blocked_outbound_ip :: "ip_addr \<Rightarrow> bool" where
  "is_blocked_outbound_ip a \<longleftrightarrow> is_loopback a \<or> is_private a \<or> is_link_local a
     \<or> is_reserved a \<or> is_multicast a \<or> is_unspecified a"

text \<open>The loop over \<open>getaddrinfo\<close>'s answers: empty socket addresses, repeated texts and texts
  \<open>ip_address\<close> rejects are skipped.\<close>

fun collect_addresses ::
  "(string \<Rightarrow> ip_addr option) \<Rightarrow> string list \<Rightarrow> string option list \<Rightarrow> ip_addr list" where
  "collect_addresses ip_of seen [] = []"
| "collect_addresses ip_of seen (None # infos) = collect_addresses ip_of seen infos"
| "collect_addresses ip_of seen (Some s # infos) =
     (if s \<in> set seen then collect_addresses ip_of seen infos
      else (case ip_of s of
              None \<Rightarrow> collect_addresses ip_of (s # seen) infos
            | Some a \<Rightarrow> a # collect_addresses ip_of (s # seen) infos))"

definition resolve_outbound_host_ips ::
  "(string \<Rightarrow> ip_addr option) \<Rightarrow> (string \<Rightarrow> string option list option) \<Rightarrow> string
     \<Rightarrow> ip_addr list result" where
  "resolve_outbound_host_ips ip_of getaddrinfo host =
     (case getaddrinfo host of
        None \<Rightarrow> Inl ValueError
      | Some infos \<Rightarrow>
          (let addresses = collect_addresses ip_of [] infos
           in if addresses = [] then Inl ValueError else Inr addresses))"

definition rstrip_dots :: "string \<Rightarrow> string" where
  "rstrip_dots s = rev (dropWhile (\<lambda>c. c = CHR ''.'') (rev s))"

definition strip_brackets :: "string \<Rightarrow> string" where
  "strip_brackets s =
     (let b = (\<lambda>c. c = CHR ''['' \<or> c = CHR '']'') in rev (dropWhile b (rev (dropWhile b s))))"

definition validate_outbound_url ::
  "(string \<Rightarrow> parsed_url) \<Rightarrow> (string \<Rightarrow> ip_addr option) \<Rightarrow> (string \<Rightarrow> string option list option)
     \<Rightarrow> string \<Rightarrow> string result" where
  "validate_outbound_url urlparse ip_of getaddrinfo url =
     (let parsed = urlparse url in
      if scheme parsed \<notin> {''http'', ''https''} then Inl ValueError
      else (case hostname parsed of
          None \<Rightarrow> Inl ValueError
        | Some host \<Rightarrow>
            if host = [] then Inl ValueError
            else
              (let host_lower = rstrip_dots (lower host) in
               if host_lower \<in> set BLOCKED_OUTBOUND_HOSTNAMES then Inl ValueError
               else
                 rbind (case ip_of (strip_brackets host_lower) of
                          Some a \<Rightarrow> Inr [a]
                        | None \<Rightarrow> resolve_outbound_host_ips ip_of getaddrinfo host_lower)
                   (\<lambda>addresses. if list_ex is_blocked_outbound_ip addresses
                                then Inl ValueError else Inr url))))"

lemma collect_addresses_complete:
  "Some s \<in> set infos \<Longrightarrow> ip_of s = Some a \<Longrightarrow> s \<notin> set seen
     \<Longrightarrow> a \<in> set (collect_addresses ip_of seen infos)"
proof (induction ip_of seen infos rule: collect_addresses.induct)
  case (3 ip_of seen t infos)
  then show ?case by (cases "t = s") (auto split: option.splits)
qed auto

text \<open>C17. An accepted URL is returned unchanged, uses http or https, does not name a blocked
  host, and no address its host stands for (as a literal or through any resolved record)
  is loopback, private, link-local, reserved, multicast or unspecified.\<close>

theorem outbound_url_no_internal_target:
  assumes ok: "validate_outbound_url urlparse ip_of getaddrinfo url = Inr u"
    and host: "hostname (urlparse url) = Some host"
    and target: "ip_of (strip_brackets (rstrip_dots (lower host))) = Some a
       \<or> (ip_of (strip_brackets (rstrip_dots (lower host))) = None
          \<and> getaddrinfo (rstrip_dots (lower host)) = Some infos
          \<and> Some s \<in> set infos \<and> ip_of s = Some a)"
  shows "u = url \<and> scheme (urlparse url) \<in> {''http'', ''https''}
    \<and> rstrip_dots (lower host) \<notin> set BLOCKED_OUTBOUND_HOSTNAMES
    \<and> \<not> is_blocked_outbound_ip a"
proof -
  let ?h = "rstrip_dots (lower host)"
  from ok host obtain addrs where
    addrs: "(case ip_of (strip_brackets ?h) of Some a \<Rightarrow> Inr [a]
             | None \<Rightarrow> resolve_outbound_host_ips ip_of getaddrinfo ?h) = Inr addrs"
    and nb: "\<not> list_ex is_blocked_outbound_ip addrs" and u: "u = url"
    and sch: "scheme (urlparse url) \<in> {''http'', ''https''}"
    and nh: "?h \<notin> set BLOCKED_OUTBOUND_HOSTNAMES"
    by (auto simp: validate_outbound_url_def Let_def rbind_Inr_iff split: if_splits)
  have "a \<in> set addrs"
    using target addrs collect_addresses_complete [of s infos ip_of a "[]"]
    by (auto simp: resolve_outbound_host_ips_def Let_def split: if_splits)
  with nb u sch nh show ?thesis by (auto simp: list_ex_iff)
qed

definition public_ip :: ip_addr where
  "public_ip = \<lparr>is_loopback = False, is_private = False, is_link_local = False,
     is_reserved = False, is_multicast = False, is_unspecified = False\<rparr>"

theorem outbound_url_no_internal_target_witness:
  "\<not> is_blocked_outbound_ip public_ip
   \<and> validate_outbound_url (\<lambda>u. \<lparr>scheme = ''https'', hostname = Some ''Api.example.com.''\<rparr>)
        (\<lambda>t. if t = ''93.184.216.34'' then Some public_ip else None)
        (\<lambda>h. Some [None, Some ''93.184.216.34'']) ''https://Api.example.com./''
      = Inr ''https://Api.example.com./''"
proof -
  let ?up = "\<lambda>u::string. \<lparr>scheme = ''https'', hostname = Some ''Api.example.com.''\<rparr>"
  let ?ip = "\<lambda>t. if t = ''93.184.216.34'' then Some public_ip else None"
  let ?ga = "\<lambda>h::string. Some [None, Some ''93.184.216.34'']"
  have ok: "validate_outbound_url ?up ?ip ?ga ''https://Api.example.com./''
          = Inr ''https://Api.example.com./''"
    by (simp add: validate_outbound_url_def Let_def resolve_outbound_host_ips_def
        rstrip_dots_def strip_brackets_def lower_def lower_char_def public_ip_def
        BLOCKED_OUTBOUND_HOSTNAMES_def is_blocked_outbound_ip_def)
  have "\<not> is_blocked_outbound_ip public_ip"
    using outbound_url_no_internal_target [OF ok, of "''Api.example.com.''" public_ip
        "[None, Some ''93.184.216.34'']" "''93.184.216.34''"]
    by (simp add: rstrip_dots_def strip_brackets_def lower_def lower_char_def)
  with ok show ?thesis by simp
qed

section \<open>Bounded request bodies\<close>

type_synonym bytes = "char list"

definition BODY_METHODS :: "string list" where
  "BODY_METHODS = [''POST'', ''PUT'', ''PATCH'']"

definition parse_content_length :: "string option \<Rightarrow> int option result" where
  "parse_content_length h =
     (case h of
        None \<Rightarrow> Inr None
      | Some s \<Rightarrow> if strip s = [] then Inr None
                 else (case py_int s of Some n \<Rightarrow> Inr (Some n) | None \<Rightarrow> Inl ValueError))"

text \<open>The streaming loop; the second component of the result is what has been buffered.\<close>

fun read_stream :: "int \<Rightarrow> bytes \<Rightarrow> bytes list \<Rightarrow> bytes option \<times> bytes" where
  "read_stream max_bytes body [] = (Some body, body)"
| "read_stream max_bytes body (chunk # chunks) =
     (let body' = body @ chunk in
      if int (length body') > max_bytes then (None, body')
      else read_stream max_bytes body' chunks)"

datatype bounded =
    Untouched \<comment> \<open>the request itself\<close>
  | Rebuilt bytes \<comment> \<open>a request that replays this body\<close>
  | Rejected \<comment> \<open>a detail for the 413 response\<close>

definition ensure_request_body_within_limit ::
  "string \<Rightarrow> string option \<Rightarrow> bytes list \<Rightarrow> int \<Rightarrow> bounded" where
  "ensure_request_body_within_limit mthd content_length chunks max_bytes =
     (if mthd \<notin> set BODY_METHODS then Untouched
      else (case parse_content_length content_length of
          Inl _ \<Rightarrow> Rejected
        | Inr (Some declared) \<Rightarrow> if declared > max_bytes then Rejected else Untouched
        | Inr None \<Rightarrow> (case fst (read_stream max_bytes [] chunks) of
              None \<Rightarrow> Rejected
            | Some body \<Rightarrow> Rebuilt body)))"

lemma read_stream_Some:
  "int (length body) \<le> m \<Longrightarrow>
   fst (read_stream m body chunks) =
     (if int (length (body @ concat chunks)) \<le> m then Some (body @ concat chunks) else None)"
  by (induction m body chunks rule: read_stream.induct) (auto simp: Let_def)

lemma read_stream_buffer:
  "int (length body) \<le> m \<Longrightarrow> (\<forall>c\<in>set chunks. int (length c) \<le> k) \<Longrightarrow> 0 \<le> k \<Longrightarrow>
   int (length (snd (read_stream m body chunks))) \<le> m + k"
  by (induction m body chunks rule: read_stream.induct) (auto simp: Let_def)

text \<open>Without a declared length, a body-carrying request reaches the handlers exactly when
  its chunks fit the limit, with all its bytes in order; and whatever is sent, no more than
  the limit plus one chunk is ever buffered.\<close>

theorem streamed_body_bounded:
  assumes "mthd \<in> set BODY_METHODS" "0 \<le> max_bytes"
    and "content_length = None \<or> content_length = Some ''  ''"
    and "\<forall>c\<in>set chunks. length c \<le> k"
  shows "ensure_request_body_within_limit mthd content_length chunks max_bytes =
           (if int (length (concat chunks)) \<le> max_bytes then Rebuilt (concat chunks) else Rejected)
       \<and> int (length (snd (read_stream max_bytes [] chunks))) \<le> max_bytes + int k"
proof
  have "parse_content_length content_length = Inr None"
    using assms(3) by (auto simp: parse_content_length_def strip_def lstrip_def rstrip_def py_isspace_def)
  then show "ensure_request_body_within_limit mthd content_length chunks max_bytes =
           (if int (length (concat chunks)) \<le> max_bytes then Rebuilt (concat chunks) else Rejected)"
    using assms(1,2) by (simp add: ensure_request_body_within_limit_def read_stream_Some)
  show "int (length (snd (read_stream max_bytes [] chunks))) \<le> max_bytes + int k"
    using assms(2,4) by (intro read_stream_buffer) auto
qed

theorem streamed_body_bounded_witness:
  "ensure_request_body_within_limit ''POST'' None [''ab'', ''cd'', ''e''] 4 = Rejected
   \<and> int (length (snd (read_stream 4 [] [''ab'', ''cd'', ''e'']))) \<le> 4 + 2"
  using streamed_body_bounded [of "''POST''" 4 None "[''ab'', ''cd'', ''e'']" 2]
  by (simp add: BODY_METHODS_def)

section \<open>Bearer tokens\<close>

definition ascii :: "string \<Rightarrow> bool" where
  "ascii s = list_all (\<lambda>c. of_char c < (128 :: nat)) s"

definition compare_digest :: "string \<Rightarrow> string \<Rightarrow> bool result" where
  \<comment> \<open>\<open>hmac.compare_digest\<close> on two texts: TypeError unless both are ASCII\<close>
  "compare_digest a b = (if ascii a \<and> ascii b then Inr (a = b) else Inl TypeError)"

fun compare_all :: "string \<Rightarrow> bool \<Rightarrow> string list \<Rightarrow> bool result" where
  \<comment> \<open>the loop that never stops at the first match\<close>
  "compare_all token matched [] = Inr matched"
| "compare_all token matched (key # keys) =
     rbind (compare_digest token key) (\<lambda>eq. compare_all token (if eq then True else matched) keys)"

definition verify_bearer_token :: "string \<Rightarrow> string list \<Rightarrow> bool result" where
  "verify_bearer_token token keys =
     (if token = [] \<or> keys = [] then Inr False else compare_all token False keys)"

lemma compare_all_eq:
  "compare_all token m keys =
    (if keys = [] \<or> list_all ascii (token # keys) then Inr (m \<or> token \<in> set keys) else Inl TypeError)"
  by (induction token m keys rule: compare_all.induct) (auto simp: compare_digest_def)

lemma verify_bearer_token_eq:
  "verify_bearer_token token keys =
    (if token = [] \<or> keys = [] then Inr False
     else if list_all ascii (token # keys) then Inr (token \<in> set keys) else Inl TypeError)"
  by (simp add: verify_bearer_token_def compare_all_eq)

section \<open>Client identity behind proxies\<close>

type_synonym headers = "string \<rightharpoonup> string"

text \<open>\<open>ip_network\<close> maps a CIDR text to the test for membership, or rejects it (ValueError).\<close>

fun forwarded_allow_networks ::
  "(string \<Rightarrow> ('ip \<Rightarrow> bool) option) \<Rightarrow> string list \<Rightarrow> ('ip \<Rightarrow> bool) list result" where
  "forwarded_allow_networks ip_network [] = Inr []"
| "forwarded_allow_networks ip_network (raw # entries) =
     (let entry = strip raw in
      if entry = [] then forwarded_allow_networks ip_network entries
      else
        (let cidr = (if CHR ''/'' \<in> set entry then entry
                     else if CHR '':'' \<notin> set entry then entry @ ''/32'' else entry @ ''/128'') in
         case ip_network cidr of
           None \<Rightarrow> Inl ValueError
         | Some net \<Rightarrow> rbind (forwarded_allow_networks ip_network entries)
                         (\<lambda>nets. Inr (net # nets))))"

definition peer_is_trusted ::
  "(string \<Rightarrow> 'ip option) \<Rightarrow> (string \<Rightarrow> ('ip \<Rightarrow> bool) option) \<Rightarrow> string option \<Rightarrow> string
     \<Rightarrow> bool result" where
  "peer_is_trusted ip_address ip_network peer_host forwarded_allow_ips =
     (case peer_host of
        None \<Rightarrow> Inr False
      | Some peer \<Rightarrow>
          if peer = [] \<or> strip forwarded_allow_ips = [] then Inr False
          else (case ip_address peer of
                  None \<Rightarrow> Inr False
                | Some a \<Rightarrow> rbind (forwarded_allow_networks ip_network (split_on CHR '','' forwarded_allow_ips))
                              (\<lambda>nets. Inr (list_ex (\<lambda>net. net a) nets))))"

definition first_xff_ip :: "(string \<Rightarrow> 'ip option) \<Rightarrow> string \<Rightarrow> string option" where
  "first_xff_ip ip_address xff =
     (if strip xff = [] then None
      else (let candidate = strip (hd (split_on CHR '','' xff))
            in if ip_address candidate = None then None else Some candidate))"

definition strip_quotes :: "string \<Rightarrow> string" where
  "strip_quotes s = (let q = (\<lambda>c. c = CHR 0x22) in rev (dropWhile q (rev (dropWhile q s))))"

fun forwarded_directives :: "(string \<Rightarrow> 'ip option) \<Rightarrow> string list \<Rightarrow> string option" where
  "forwarded_directives ip_address [] = None"
| "forwarded_directives ip_address (d # ds) =
     (let directive = strip d in
      if \<not> startswith ''for='' (lower directive) then forwarded_directives ip_address ds
      else
        (let value = strip_quotes (strip (drop 4 directive)) in
         if lower value = ''unknown'' then forwarded_directives ip_address ds
         else
           (let value' = (if startswith ''['' value \<and> CHR '']'' \<in> set value
                          then takeWhile (\<lambda>c. c \<noteq> CHR '']'') (tl value) else value)
            in if ip_address value' = None then forwarded_directives ip_address ds
               else Some value')))"

definition forwarded_header_ip :: "(string \<Rightarrow> 'ip option) \<Rightarrow> string \<Rightarrow> string option" where
  "forwarded_header_ip ip_address forwarded =
     forwarded_directives ip_address
       (concat (map (split_on CHR '';'') (split_on CHR '','' forwarded)))"

fun first_header :: "(string \<Rightarrow> string option) \<Rightarrow> headers \<Rightarrow> string list \<Rightarrow> string option" where
  \<comment> \<open>the first of the keys whose header yields a non-empty address\<close>
  "first_header f hs [] = None"
| "first_header f hs (k # ks) =
     (case hs k of
        None \<Rightarrow> first_header f hs ks
      | Some v \<Rightarrow> (case f v of
           None \<Rightarrow> first_header f hs ks
         | Some ip \<Rightarrow> if ip = [] then first_header f hs ks else Some ip))"

definition resolve_client_ip ::
  "(string \<Rightarrow> 'ip option) \<Rightarrow> (string \<Rightarrow> ('ip \<Rightarrow> bool) option) \<Rightarrow> string option \<Rightarrow> headers
     \<Rightarrow> bool \<Rightarrow> string \<Rightarrow> string result" where
  "resolve_client_ip ip_address ip_network peer_host hs trust_proxy forwarded_allow_ips =
     (case peer_host of
        None \<Rightarrow> Inr ''unknown''
      | Some peer \<Rightarrow>
          if peer = [] then Inr ''unknown''
          else
            rbind (if trust_proxy
                   then peer_is_trusted ip_address ip_network peer_host forwarded_allow_ips
                   else Inr False)
              (\<lambda>trusted.
                 if trusted then
                   (case first_header (first_xff_ip ip_address) hs
                           [''x-forwarded-for'', ''X-Forwarded-For''] of
                      Some ip \<Rightarrow> Inr ip
                    | None \<Rightarrow>
                       (case first_header (forwarded_header_ip ip_address) hs
                               [''forwarded'', ''Forwarded''] of
                          Some ip \<Rightarrow> Inr ip
                        | None \<Rightarrow> Inr peer))
                 else Inr peer))"

definition bearer_part :: "headers \<Rightarrow> string" where
  \<comment> \<open>\<open>headers.get("authorization") or headers.get("Authorization") or ""\<close>\<close>
  "bearer_part hs =
     (case hs ''authorization'' of
        Some (c # s) \<Rightarrow> c # s
      | _ \<Rightarrow> (case hs ''Authorization'' of Some s \<Rightarrow> s | None \<Rightarrow> []))"

definition rate_limit_client_key ::
  "(string \<Rightarrow> string) \<Rightarrow> (string \<Rightarrow> 'ip option) \<Rightarrow> (string \<Rightarrow> ('ip \<Rightarrow> bool) option)
     \<Rightarrow> string option \<Rightarrow> headers \<Rightarrow> bool \<Rightarrow> string \<Rightarrow> string option \<Rightarrow> bool \<Rightarrow> string result" where
  "rate_limit_client_key sha256_hex ip_address ip_network peer_host hs trust_proxy
      forwarded_allow_ips api_key rate_limit_per_token =
     (let auth = bearer_part hs; token = strip (drop 7 auth) in
      if rate_limit_per_token \<and> api_key \<noteq> None \<and> api_key \<noteq> Some []
         \<and> startswith ''bearer '' (lower auth) \<and> token \<noteq> []
      then Inr (''token:'' @ take 16 (sha256_hex token))
      else rbind (resolve_client_ip ip_address ip_network peer_host hs trust_proxy forwarded_allow_ips)
             (\<lambda>client_ip. Inr (''ip:'' @ client_ip)))"

lemma resolve_client_ip_untrusted:
  assumes "\<not> trust_proxy \<or> peer_is_trusted ip_address ip_network peer_host allow = Inr False"
  shows "resolve_client_ip ip_address ip_network peer_host hs trust_proxy allow
       = Inr (case peer_host of None \<Rightarrow> ''unknown'' | Some p \<Rightarrow> if p = [] then ''unknown'' else p)"
proof -
  have "(if trust_proxy then peer_is_trusted ip_address ip_network peer_host allow else Inr False)
      = Inr False" using assms by auto
  then show ?thesis
    by (cases peer_host; cases trust_proxy) (auto simp: resolve_client_ip_def)
qed

text \<open>A caller that is not behind a trusted proxy cannot choose its identity: unless the
  proxy trust is on and the TCP peer is in the allow list, the client address is the peer's
  and no header changes it; per-address buckets of the rate limiter therefore ignore the
  forwarding headers.\<close>

theorem client_ip_not_spoofable:
  assumes "\<not> trust_proxy \<or> peer_is_trusted ip_address ip_network (Some peer) allow = Inr False"
    and "peer \<noteq> []"
  shows "resolve_client_ip ip_address ip_network (Some peer) hs trust_proxy allow = Inr peer
    \<and> rate_limit_client_key sha ip_address ip_network (Some peer) hs trust_proxy allow key False
       = Inr (''ip:'' @ peer)"
proof -
  have "resolve_client_ip ip_address ip_network (Some peer) hs trust_proxy allow = Inr peer"
    by (subst resolve_client_ip_untrusted [OF assms(1)]) (simp add: assms(2))
  then show ?thesis by (simp add: rate_limit_client_key_def)
qed

theorem client_ip_not_spoofable_witness:
  "resolve_client_ip (\<lambda>s. Some s) (\<lambda>c. Some (\<lambda>a. a = ''10.0.0.1'')) (Some ''203.0.113.9'')
      [''x-forwarded-for'' \<mapsto> ''1.2.3.4''] True ''10.0.0.1'' = Inr ''203.0.113.9''"
  by (rule client_ip_not_spoofable [THEN conjunct1])
    (simp_all add: peer_is_trusted_def strip_def lstrip_def rstrip_def py_isspace_def Let_def)

text \<open>With several tenants configured, the bucket depends on the presented token alone: two
  requests with the same Bearer token share one bucket from whatever address they come, and
  a token bucket is never an address bucket.\<close>

theorem token_bucket_ignores_address:
  assumes "api_key \<noteq> None" "api_key \<noteq> Some []" "tok \<noteq> []" "strip tok = tok"
    and "hs ''authorization'' = Some (''Bearer '' @ tok)"
    and "hs' ''authorization'' = Some (''Bearer '' @ tok)"
  shows "rate_limit_client_key sha ip net p hs t a api_key True
       = rate_limit_client_key sha ip net p' hs' t' a' api_key True
    \<and> rate_limit_client_key sha ip net p hs t a api_key True \<noteq> Inr (''ip:'' @ x)"
proof -
  have "bearer_part hs = ''Bearer '' @ tok" and "bearer_part hs' = ''Bearer '' @ tok"
    using assms(5,6) by (simp_all add: bearer_part_def)
  moreover have "startswith ''bearer '' (lower (''Bearer '' @ tok))"
    unfolding lower_append lower_Bearer by (rule startswith_append)
  moreover have "drop 7 (''Bearer '' @ tok) = tok" by simp
  ultimately show ?thesis
    using assms(1-4) unfolding rate_limit_client_key_def Let_def by simp
qed

theorem token_bucket_ignores_address_witness:
  "rate_limit_client_key (\<lambda>t. ''deadbeef'') (\<lambda>s. Some s) (\<lambda>c. None) (Some ''198.51.100.1'')
      [''authorization'' \<mapsto> ''Bearer tenant-a''] False '''' (Some ''tenant-a'') True
   = rate_limit_client_key (\<lambda>t. ''deadbeef'') (\<lambda>s. Some s) (\<lambda>c. None) None
      [''authorization'' \<mapsto> ''Bearer tenant-a''] True ''10.0.0.0/8'' (Some ''tenant-a'') True"
  by (rule token_bucket_ignores_address [of "Some ''tenant-a''" "''tenant-a''", THEN conjunct1])
    (simp_all add: strip_def lstrip_def rstrip_def py_isspace_def)

end
