(* ===== verification/LogSanitize.thy ===== *)
theory LogSanitize
  imports Prelude
begin

text \<open>
  Log hygiene of \<open>core/security.py\<close>: \<open>sanitize_log_data\<close> with its key pattern, and the
  structural check of API keys. The two regular expressions are written out as searches.
\<close>

section \<open>Sensitive keys: \<open>(?<![a-z0-9])(key|token|...)(?![a-z0-9])\<close>\<close>

definition SENSITIVE_WORDS :: "string list" where
  "SENSITIVE_WORDS = [''key'', ''token'', ''secret'', ''password'', ''passwd'', ''pwd'',
     ''credential'', ''authorization'', ''auth_token'']"

definition lc_alnum :: "char \<Rightarrow> bool" where
  "lc_alnum c \<longleftrightarrow> (let n = (of_char c :: nat) in (48 \<le> n \<and> n \<le> 57) \<or> (97 \<le> n \<and> n \<le> 122))"

definition word_here :: "string \<Rightarrow> bool" where
  "word_here s \<longleftrightarrow> list_ex (\<lambda>w. startswith w s
      \<and> (case drop (length w) s of [] \<Rightarrow> True | c # _ \<Rightarrow> \<not> lc_alnum c)) SENSITIVE_WORDS"

fun sensitive_search :: "bool \<Rightarrow> string \<Rightarrow> bool" where
  \<comment> \<open>the flag: the character before this position is alphanumeric\<close>
  "sensitive_search after_alnum [] = False"
| "sensitive_search after_alnum (c # s) =
     ((\<not> after_alnum \<and> word_here (c # s)) \<or> sensitive_search (lc_alnum c) s)"

definition is_sensitive_key :: "string \<Rightarrow> bool" where
  "is_sensitive_key key = sensitive_search False (lower key)"

definition MASK :: string where "MASK = ''***REDACTED***''"

section \<open>\<open>sanitize_log_data\<close>\<close>

lemma size_dict_entry [termination_simp]: "(k, v) \<in> set d \<Longrightarrow> size v < Suc (size_list (size_prod (\<lambda>_. 0) size) d)"
  by (induction d) auto

lemma size_list_item [termination_simp]: "(v :: pyval) \<in> set xs \<Longrightarrow> size v < Suc (size_list size xs)"
  by (induction xs) auto

fun sanitize_value :: "pyval \<Rightarrow> pyval" where
  "sanitize_value (VDict d) =
     VDict (map (\<lambda>(k, v). (k, if is_sensitive_key k then VStr MASK else sanitize_value v)) d)"
| "sanitize_value (VList xs) =
     VList (map (\<lambda>item. case item of VDict d \<Rightarrow> sanitize_value item | _ \<Rightarrow> item) xs)"
| "sanitize_value v = v"

definition sanitize_log_data :: "pydict \<Rightarrow> pydict" where
  "sanitize_log_data data =
     map (\<lambda>(k, v). (k, if is_sensitive_key k then VStr MASK else sanitize_value v)) data"

text \<open>A value exposes a secret when, through dictionaries and lists nested in any way, it has
  an unmasked value under a sensitive key.\<close>

fun exposes :: "pyval \<Rightarrow> bool" where
  "exposes (VDict d) = (\<exists>(k, v)\<in>set d. if is_sensitive_key k then v \<noteq> VStr MASK else exposes v)"
| "exposes (VList xs) = (\<exists>item\<in>set xs. exposes item)"
| "exposes v = False"

text \<open>Where \<open>sanitize_log_data\<close> does not look: a secret below a list that is itself an element of
  a list.\<close>

fun below_inner_list :: "pyval \<Rightarrow> bool" where
  "below_inner_list (VDict d) = (\<exists>(k, v)\<in>set d. \<not> is_sensitive_key k \<and> below_inner_list v)"
| "below_inner_list (VList xs) =
     (\<exists>item\<in>set xs. case item of VDict d \<Rightarrow> below_inner_list item | VList ys \<Rightarrow> exposes item | _ \<Rightarrow> False)"
| "below_inner_list v = False"

lemma sanitize_value_dict: "sanitize_value (VDict d) = VDict (sanitize_log_data d)"
  by (simp add: sanitize_log_data_def)

declare sanitize_value.simps(1) [simp del]

lemma sanitize_value_exposes: "exposes (sanitize_value v) \<longleftrightarrow> below_inner_list v"
proof (induction v rule: sanitize_value.induct)
  case (1 d)
  have "exposes (sanitize_value v) \<longleftrightarrow> below_inner_list v" if "(k, v) \<in> set d" "\<not> is_sensitive_key k" for k v
    using 1 that by auto
  then show ?case by (auto simp: sanitize_value_dict sanitize_log_data_def split: if_splits intro!: bexI [of _ "(_, _)"])
next
  case (2 xs)
  have "exposes (case item of VDict d \<Rightarrow> sanitize_value item | _ \<Rightarrow> item) \<longleftrightarrow>
      (case item of VDict d \<Rightarrow> below_inner_list item | VList ys \<Rightarrow> exposes item | _ \<Rightarrow> False)" if "item \<in> set xs" for item
    by (insert that, cases item) (simp_all add: 2 del: exposes.simps(1) below_inner_list.simps(1))
  then show ?case
    by (simp only: sanitize_value.simps exposes.simps below_inner_list.simps set_map bex_simps cong: bex_cong)
qed simp_all

lemma sanitize_value_idem: "sanitize_value (sanitize_value v) = sanitize_value v"
proof (induction v rule: sanitize_value.induct)
  case (1 d)
  then show ?case by (auto simp: sanitize_value_dict sanitize_log_data_def split: if_splits)
next
  case (2 xs)
  have "sanitize_log_data (sanitize_log_data d) = sanitize_log_data d" if "VDict d \<in> set xs" for d
    using 2 [OF that refl] by (simp add: sanitize_value_dict)
  then show ?case by (auto simp: sanitize_value_dict split: pyval.splits)
qed simp_all

text \<open>Whatever is logged, the sanitised record exposes a value under a sensitive key only below
  a list inside a list, where the recursion stops; it keeps the keys and their order;
  sanitising again changes nothing.\<close>

theorem sanitize_exposure:
  "(exposes (VDict (sanitize_log_data d)) \<longleftrightarrow> below_inner_list (VDict d))
   \<and> map fst (sanitize_log_data d) = map fst d
   \<and> sanitize_log_data (sanitize_log_data d) = sanitize_log_data d"
proof (intro conjI)
  show "exposes (VDict (sanitize_log_data d)) \<longleftrightarrow> below_inner_list (VDict d)"
    by (metis sanitize_value_exposes sanitize_value_dict)
  show "map fst (sanitize_log_data d) = map fst d"
    by (simp add: sanitize_log_data_def split_beta comp_def)
  show "sanitize_log_data (sanitize_log_data d) = sanitize_log_data d"
    by (metis sanitize_value_idem sanitize_value_dict pyval.inject(6))
qed

text \<open>The recursion stops at lists inside lists: a secret two lists deep is logged as it
  is, although the documentation promises a recursive traversal of nested lists.\<close>

theorem sanitize_misses_nested_lists:
  "sanitize_log_data [(''items'', VList [VList [VDict [(''password'', VStr s)]]])]
     = [(''items'', VList [VList [VDict [(''password'', VStr s)]]])]
   \<and> (s \<noteq> MASK \<longleftrightarrow>
      exposes (VDict (sanitize_log_data [(''items'', VList [VList [VDict [(''password'', VStr s)]]])])))"
proof -
  have "\<not> is_sensitive_key ''items''" and "is_sensitive_key ''password''" by code_simp+
  then show ?thesis by (simp add: sanitize_log_data_def)
qed

section \<open>\<open>validate_api_key_format\<close>\<close>

definition key_char :: "char \<Rightarrow> bool" where
  \<comment> \<open>\<open>[A-Za-z0-9\\-_]\<close>\<close>
  "key_char c \<longleftrightarrow> (let n = (of_char c :: nat) in
     (65 \<le> n \<and> n \<le> 90) \<or> (97 \<le> n \<and> n \<le> 122) \<or> (48 \<le> n \<and> n \<le> 57) \<or> c = CHR ''-'' \<or> c = CHR ''_'')"

definition hex_char :: "char \<Rightarrow> bool" where
  "hex_char c \<longleftrightarrow> (let n = (of_char c :: nat) in
     (65 \<le> n \<and> n \<le> 70) \<or> (97 \<le> n \<and> n \<le> 102) \<or> (48 \<le> n \<and> n \<le> 57))"

definition prefixed_key :: "string \<Rightarrow> nat \<Rightarrow> string \<Rightarrow> bool" where
  "prefixed_key pre n s \<longleftrightarrow> startswith pre s \<and> n \<le> length (drop (length pre) s)
     \<and> list_all key_char (drop (length pre) s)"

definition dollar_match :: "(string \<Rightarrow> bool) \<Rightarrow> string \<Rightarrow> bool" where
  \<comment> \<open>\<open>^...$\<close>: the dollar also matches before a final newline\<close>
  "dollar_match P s \<longleftrightarrow> P s \<or> (s \<noteq> [] \<and> last s = NL \<and> P (butlast s))"

definition api_key_pattern :: "string \<Rightarrow> string \<Rightarrow> bool" where
  "api_key_pattern provider =
     (if provider = ''anthropic'' then prefixed_key ''sk-ant-'' 10
      else if provider = ''openai'' then prefixed_key ''sk-'' 20
      else if provider = ''azure'' then (\<lambda>s. length s = 32 \<and> list_all hex_char s)
      else prefixed_key [] 8)"

definition validate_api_key_format :: "string \<Rightarrow> string \<Rightarrow> bool" where
  "validate_api_key_format key provider = dollar_match (api_key_pattern provider) key"

text \<open>The format check is exact but for one newline: a key is accepted iff it, or it without
  one final newline, has the provider's shape; in particular a key with a newline pasted at
  its end passes the startup check.\<close>

theorem api_key_format_trailing_newline:
  "validate_api_key_format key provider \<longleftrightarrow>
     (\<exists>k. api_key_pattern provider k \<and> (key = k \<or> key = k @ [NL]))"
  unfolding validate_api_key_format_def dollar_match_def
  by (metis append_butlast_last_id butlast_snoc last_snoc snoc_eq_iff_butlast)

end
