(* ===== verification/RateLimit.thy ===== *)
theory RateLimit
  imports Prelude
begin

text \<open>
  The sliding-window rate limiters of \<open>core/security.py\<close>: the in-memory one (a deque of
  timestamps per key, pruned on every check, stale keys evicted every hundredth allowed
  request) and the Redis one (the Lua script on a sorted set per key). Both are shown to
  implement one specification: the list of all allowed requests, kept for ever, and a count
  over the window. Clock readings are arguments (\<open>time.monotonic()\<close>, \<open>time.time()\<close>).
\<close>

section \<open>The contract: counting over a log\<close>

type_synonym req_log = "(rat \<times> string) list"

definition times_of :: "string \<Rightarrow> req_log \<Rightarrow> rat list" where
  "times_of ip lg = map fst (filter (\<lambda>e. snd e = ip) lg)"

definition in_window :: "(rat \<Rightarrow> rat \<Rightarrow> bool) \<Rightarrow> rat \<Rightarrow> string \<Rightarrow> req_log \<Rightarrow> nat" where
  "in_window inside cutoff ip lg = length (filter (inside cutoff) (times_of ip lg))"

definition log_add :: "bool \<Rightarrow> rat \<Rightarrow> string \<Rightarrow> req_log \<Rightarrow> req_log" where
  "log_add b now ip lg = (if b then lg @ [(now, ip)] else lg)"

definition log_ok :: "req_log \<Rightarrow> rat \<Rightarrow> bool" where
  "log_ok lg t0 \<longleftrightarrow> sorted (map fst lg) \<and> (\<forall>e\<in>set lg. fst e \<le> t0)"

lemma times_of_Nil [simp]: "times_of ip [] = []"
  by (simp add: times_of_def)

lemma times_of_add [simp]:
  "times_of ip (log_add b t ip' lg) = times_of ip lg @ (if b \<and> ip' = ip then [t] else [])"
  by (simp add: times_of_def log_add_def)

lemma times_of_sorted: "log_ok lg t0 \<Longrightarrow> sorted (times_of ip lg)"
  unfolding times_of_def log_ok_def by (simp add: sorted_filter)

lemma times_of_bound: "log_ok lg t0 \<Longrightarrow> t \<in> set (times_of ip lg) \<Longrightarrow> t \<le> t0"
  by (auto simp: times_of_def log_ok_def)

lemma log_ok_add: "log_ok lg t0 \<Longrightarrow> t0 \<le> t \<Longrightarrow> log_ok (log_add b t ip lg) t"
  by (auto simp: log_ok_def log_add_def sorted_append)

fun non_decreasing :: "rat \<Rightarrow> (rat \<times> 'a) list \<Rightarrow> bool" where
  "non_decreasing t0 [] = True"
| "non_decreasing t0 ((t, x) # rs) = (t0 \<le> t \<and> non_decreasing t rs)"

text \<open>A sequence of requests, each with the clock reading, an environment input and the key.\<close>

fun serve :: "('s \<Rightarrow> rat \<Rightarrow> 'i \<Rightarrow> string \<Rightarrow> bool \<times> 's) \<Rightarrow> 's \<Rightarrow> (rat \<times> 'i \<times> string) list \<Rightarrow> bool list" where
  "serve allowed s [] = []"
| "serve allowed s ((now, i, ip) # rs) =
     fst (allowed s now i ip) # serve allowed (snd (allowed s now i ip)) rs"

fun spec_serve :: "(rat \<Rightarrow> rat \<Rightarrow> bool) \<Rightarrow> int \<Rightarrow> rat \<Rightarrow> req_log \<Rightarrow> (rat \<times> 'i \<times> string) list \<Rightarrow> bool list" where
  "spec_serve inside limit window lg [] = []"
| "spec_serve inside limit window lg ((now, i, ip) # rs) =
     (let b = int (in_window inside (now - window) ip lg) < limit
      in b # spec_serve inside limit window (log_add b now ip lg) rs)"

fun allowed_log :: "(rat \<times> 'i \<times> string) list \<Rightarrow> bool list \<Rightarrow> req_log" where
  \<comment> \<open>the requests that were let through\<close>
  "allowed_log ((now, i, ip) # rs) (b # bs) = (if b then [(now, ip)] else []) @ allowed_log rs bs"
| "allowed_log _ _ = []"

fun all_steps_ok ::
  "('s \<Rightarrow> rat \<Rightarrow> 'i \<Rightarrow> string \<Rightarrow> bool \<times> 's) \<Rightarrow> ('s \<Rightarrow> rat \<Rightarrow> 'i \<Rightarrow> string \<Rightarrow> bool) \<Rightarrow> 's
     \<Rightarrow> (rat \<times> 'i \<times> string) list \<Rightarrow> bool" where
  "all_steps_ok allowed ok s [] = True"
| "all_steps_ok allowed ok s ((now, i, ip) # rs) =
     (ok s now i ip \<and> all_steps_ok allowed ok (snd (allowed s now i ip)) rs)"

locale sliding_limiter =
  fixes allowed :: "'s \<Rightarrow> rat \<Rightarrow> 'i \<Rightarrow> string \<Rightarrow> bool \<times> 's"
    and remaining_of :: "'s \<Rightarrow> rat \<Rightarrow> 'i \<Rightarrow> string \<Rightarrow> int \<times> 's"
    and ok :: "'s \<Rightarrow> rat \<Rightarrow> 'i \<Rightarrow> string \<Rightarrow> bool"
    and inside :: "rat \<Rightarrow> rat \<Rightarrow> bool"
    and limit :: int
    and window :: rat
    and rel :: "'s \<Rightarrow> req_log \<Rightarrow> rat \<Rightarrow> bool"
  assumes inside_mono: "a \<le> b \<Longrightarrow> inside b t \<Longrightarrow> inside a t"
    and step: "rel s lg t0 \<Longrightarrow> t0 \<le> now \<Longrightarrow> ok s now i ip \<Longrightarrow>
        (fst (allowed s now i ip) \<longleftrightarrow> int (in_window inside (now - window) ip lg) < limit)
        \<and> rel (snd (allowed s now i ip)) (log_add (fst (allowed s now i ip)) now ip lg) now"
    and remaining_eq: "rel s lg t0 \<Longrightarrow> t0 \<le> now \<Longrightarrow> ok s now i ip \<Longrightarrow>
        fst (remaining_of s now i ip) = max 0 (limit - int (in_window inside (now - window) ip lg))
        \<and> rel (snd (remaining_of s now i ip)) lg now"
begin

lemma refines:
  "rel s lg t0 \<Longrightarrow> non_decreasing t0 rs \<Longrightarrow> all_steps_ok allowed ok s rs \<Longrightarrow>
   serve allowed s rs = spec_serve inside limit window lg rs"
proof (induction rs arbitrary: s lg t0)
  case (Cons r rs)
  obtain now i ip where r: "r = (now, i, ip)" by (cases r) auto
  from Cons.prems r have t: "t0 \<le> now" "ok s now i ip" by auto
  note st = step [OF Cons.prems(1) t]
  have "serve allowed (snd (allowed s now i ip)) rs =
      spec_serve inside limit window (log_add (fst (allowed s now i ip)) now ip lg) rs"
    using Cons.prems r by (intro Cons.IH [OF conjunct2 [OF st]]) auto
  with st show ?case by (simp add: r Let_def)
qed simp

definition window_ok :: "req_log \<Rightarrow> bool" where
  "window_ok lg \<longleftrightarrow>
     (\<forall>a ip. int (length (filter (\<lambda>t. inside a t \<and> t \<le> a + window) (times_of ip lg))) \<le> limit)"

lemma window_ok_add:
  assumes "window_ok lg" "b \<Longrightarrow> int (in_window inside (now - window) ip lg) < limit"
  shows "window_ok (log_add b now ip lg)"
  unfolding window_ok_def
proof (intro allI)
  fix a ip'
  let ?P = "\<lambda>t. inside a t \<and> t \<le> a + window"
  show "int (length (filter ?P (times_of ip' (log_add b now ip lg)))) \<le> limit"
  proof (cases "b \<and> ip' = ip \<and> now \<le> a + window")
    case True
    then have "now - window \<le> a" by simp
    then have "length (filter ?P (times_of ip lg)) \<le> in_window inside (now - window) ip lg"
      unfolding in_window_def by (intro length_filter_mono) (auto intro: inside_mono)
    with True assms(2) show ?thesis by simp
  next
    case False
    with assms(1) show ?thesis by (auto simp: window_ok_def)
  qed
qed

lemma spec_window_ok:
  "window_ok lg \<Longrightarrow> window_ok (lg @ allowed_log rs (spec_serve inside limit window lg rs))"
proof (induction rs arbitrary: lg)
  case (Cons r rs)
  obtain now i ip where r: "r = (now, i, ip)" by (cases r) auto
  let ?b = "int (in_window inside (now - window) ip lg) < limit"
  have "window_ok (log_add ?b now ip lg)" using Cons.prems by (rule window_ok_add)
  from Cons.IH [OF this] show ?case by (auto simp: r Let_def log_add_def)
qed simp

lemma served_window_ok:
  "0 \<le> limit \<Longrightarrow> rel s [] t0 \<Longrightarrow> non_decreasing t0 rs \<Longrightarrow> all_steps_ok allowed ok s rs \<Longrightarrow>
   window_ok (allowed_log rs (serve allowed s rs))"
  using spec_window_ok [of "[]" rs] by (simp add: refines window_ok_def)

end

section \<open>\<open>RateLimiter\<close>, in memory\<close>

record rate_limiter =
  max_requests :: int
  window_seconds :: rat
  buckets :: "string \<Rightarrow> rat list option"
  call_count :: nat

definition EVICT_INTERVAL :: nat where "EVICT_INTERVAL = 100"

definition rate_limiter_init :: "int \<Rightarrow> rat \<Rightarrow> rate_limiter result" where
  "rate_limiter_init m w =
     (if m < 1 then Inl ValueError
      else if w \<le> 0 then Inl ValueError
      else Inr \<lparr>max_requests = m, window_seconds = w, buckets = (\<lambda>_. None), call_count = 0\<rparr>)"

definition evict_stale :: "rat \<Rightarrow> (string \<Rightarrow> rat list option) \<Rightarrow> (string \<Rightarrow> rat list option)" where
  "evict_stale cutoff bs =
     (\<lambda>ip. case bs ip of
             None \<Rightarrow> None
           | Some dq \<Rightarrow> if dq = [] \<or> last dq < cutoff then None else Some dq)"

definition the_bucket :: "rate_limiter \<Rightarrow> string \<Rightarrow> rat list" where
  "the_bucket rl ip = (case buckets rl ip of None \<Rightarrow> [] | Some dq \<Rightarrow> dq)"

definition is_allowed :: "rate_limiter \<Rightarrow> rat \<Rightarrow> unit \<Rightarrow> string \<Rightarrow> bool \<times> rate_limiter" where
  "is_allowed rl now u ip =
     (let cutoff = now - window_seconds rl;
          bucket = dropWhile (\<lambda>t. t < cutoff) (the_bucket rl ip)
      in if max_requests rl \<le> int (length bucket)
         then (False, rl\<lparr>buckets := (buckets rl)(ip \<mapsto> bucket)\<rparr>)
         else let bs = (buckets rl)(ip \<mapsto> bucket @ [now]);
                  n = Suc (call_count rl)
              in (True, rl\<lparr>buckets := (if n mod EVICT_INTERVAL = 0 then evict_stale cutoff bs else bs),
                          call_count := n\<rparr>))"

definition remaining :: "rate_limiter \<Rightarrow> rat \<Rightarrow> unit \<Rightarrow> string \<Rightarrow> int \<times> rate_limiter" where
  "remaining rl now u ip =
     (let cutoff = now - window_seconds rl;
          active = length (filter (\<lambda>t. cutoff \<le> t) (the_bucket rl ip))
      in (max 0 (max_requests rl - int active), rl))"

text \<open>The abstraction: a bucket is the part of the key's history after some cutoff that is no
  later than the start of the current window.\<close>

definition kept :: "(rat \<Rightarrow> rat \<Rightarrow> bool) \<Rightarrow> rat list \<Rightarrow> rat list \<Rightarrow> rat \<Rightarrow> bool" where
  "kept inside dq hist c0 \<longleftrightarrow> (\<exists>c\<le>c0. dq = filter (inside c) hist)"

definition mem_rel :: "int \<Rightarrow> rat \<Rightarrow> rate_limiter \<Rightarrow> req_log \<Rightarrow> rat \<Rightarrow> bool" where
  "mem_rel m w rl lg t0 \<longleftrightarrow> max_requests rl = m \<and> window_seconds rl = w \<and> log_ok lg t0
     \<and> (\<forall>ip. kept (\<le>) (the_bucket rl ip) (times_of ip lg) (t0 - w))"

lemma kept_filter: "kept (\<le>) dq hist c0 \<Longrightarrow> c0 \<le> c \<Longrightarrow> filter (\<lambda>t. c \<le> t) dq = filter (\<lambda>t. c \<le> t) hist"
  by (auto simp: kept_def filter_filter intro!: filter_cong [OF refl])

lemma kept_mono:
  assumes "kept inside dq hist c0" "c0 \<le> c"
  shows "kept inside dq hist c"
proof -
  obtain c1 where "c1 \<le> c0" "dq = filter (inside c1) hist" using assms(1) by (auto simp: kept_def)
  with assms(2) show ?thesis unfolding kept_def by (intro exI [of _ c1]) simp
qed

lemma kept_sorted: "kept inside dq hist c0 \<Longrightarrow> sorted hist \<Longrightarrow> sorted dq"
  by (auto simp: kept_def intro: sorted_filter [where f = id, simplified])

lemma sorted_last_less: "sorted xs \<Longrightarrow> xs = [] \<or> last xs < (c :: rat) \<Longrightarrow> filter (\<lambda>t. c \<le> t) xs = []"
  by (cases xs rule: rev_cases) (force simp: sorted_append filter_empty_conv)+

lemma kept_evict:
  assumes "kept (\<le>) dq hist c" "sorted hist" "dq = [] \<or> last dq < c"
  shows "kept (\<le>) [] hist c"
proof -
  have "filter (\<lambda>t. c \<le> t) hist = []"
    using sorted_last_less [OF kept_sorted [OF assms(1,2)] assms(3)] kept_filter [OF assms(1) order_refl]
    by simp
  then show ?thesis unfolding kept_def by (metis order_refl)
qed


lemma kept_refl: "c0 \<le> c \<Longrightarrow> kept inside (filter (inside c0) hist) hist c"
  by (auto simp: kept_def)

lemma the_bucket_simps [simp]:
  "the_bucket (rl\<lparr>buckets := bs\<rparr>) ip = (case bs ip of None \<Rightarrow> [] | Some dq \<Rightarrow> dq)"
  "the_bucket (rl\<lparr>call_count := n\<rparr>) ip = the_bucket rl ip"
  by (simp_all add: the_bucket_def)

lemma mem_step:
  assumes w: "0 < w" and rel: "mem_rel m w rl lg t0" and t: "t0 \<le> now"
  shows "(fst (is_allowed rl now u ip) \<longleftrightarrow> int (in_window (\<le>) (now - w) ip lg) < m)
    \<and> mem_rel m w (snd (is_allowed rl now u ip)) (log_add (fst (is_allowed rl now u ip)) now ip lg) now"
proof -
  let ?c = "now - w" and ?T = "times_of ip lg"
  let ?bk = "dropWhile (\<lambda>t. t < ?c) (the_bucket rl ip)"
  from rel have s: "sorted ?T" and lg: "log_ok lg t0"
    and mw: "max_requests rl = m" "window_seconds rl = w"
    and k: "\<And>j. kept (\<le>) (the_bucket rl j) (times_of j lg) ?c"
    using t by (auto simp: mem_rel_def intro: times_of_sorted kept_mono [where ?c0.0 = "t0 - w"])
  have bk: "?bk = filter ((\<le>) ?c) ?T"
    using dropWhile_sorted_filter [OF kept_sorted [OF k s]] kept_filter [OF k order_refl] by simp
  have sj: "sorted (times_of j lg)" for j using lg by (rule times_of_sorted)
  show ?thesis
  proof (cases "m \<le> int (length ?bk)")
    case True
    then show ?thesis
      using log_ok_add [OF lg t, of False ip] k
      by (auto simp: is_allowed_def mw bk in_window_def mem_rel_def kept_refl
          the_bucket_def [symmetric] log_add_def Let_def)
  next
    case False
    let ?bs = "(buckets rl)(ip \<mapsto> ?bk @ [now])"
    have k': "kept (\<le>) (case ?bs j of None \<Rightarrow> [] | Some dq \<Rightarrow> dq)
        (times_of j (log_add True now ip lg)) ?c" for j
    proof (cases "j = ip")
      case True
      have "?bk @ [now] = filter ((\<le>) ?c) (?T @ [now])" using w by (simp add: bk)
      then have "(case ?bs j of None \<Rightarrow> [] | Some dq \<Rightarrow> dq)
          = filter ((\<le>) ?c) (times_of j (log_add True now ip lg))"
        using True by simp
      then show ?thesis by (simp only: kept_refl order_refl)
    next
      case False
      with k [of j] show ?thesis by (simp add: the_bucket_def)
    qed
    have ke: "kept (\<le>) (case evict_stale ?c ?bs j of None \<Rightarrow> [] | Some dq \<Rightarrow> dq)
        (times_of j (log_add True now ip lg)) ?c" for j
    proof -
      have "sorted (times_of j (log_add True now ip lg))"
        using log_ok_add [OF lg t] by (rule times_of_sorted)
      with kept_evict [OF k' [of j]] k' [of j] show ?thesis
        by (auto simp: evict_stale_def split: option.splits if_splits)
    qed
    have "is_allowed rl now u ip = (True, rl\<lparr>buckets :=
         (if Suc (call_count rl) mod EVICT_INTERVAL = 0 then evict_stale ?c ?bs else ?bs),
         call_count := Suc (call_count rl)\<rparr>)"
      using False by (simp add: is_allowed_def mw Let_def)
    moreover have "int (in_window (\<le>) ?c ip lg) < m"
      using False by (simp add: bk in_window_def)
    ultimately show ?thesis
      using log_ok_add [OF lg t, of True ip] k' ke by (simp add: mem_rel_def mw)
  qed
qed

lemma mem_remaining:
  assumes rel: "mem_rel m w rl lg t0" and t: "t0 \<le> now"
  shows "fst (remaining rl now u ip) = max 0 (m - int (in_window (\<le>) (now - w) ip lg))
   \<and> mem_rel m w (snd (remaining rl now u ip)) lg now"
proof -
  from rel t have mw: "max_requests rl = m" "window_seconds rl = w" and lg: "log_ok lg now"
    and k: "\<And>j. kept (\<le>) (the_bucket rl j) (times_of j lg) (now - w)"
    by (auto simp: mem_rel_def log_ok_def intro: kept_mono [where ?c0.0 = "t0 - w"])
  show ?thesis
    using kept_filter [OF k order_refl, of ip] lg k
    by (simp add: remaining_def mem_rel_def mw in_window_def Let_def)
qed

interpretation mem: sliding_limiter is_allowed remaining "\<lambda>_ _ _ _. True" "(\<le>)" m w
    "\<lambda>s lg t0. 0 < w \<and> mem_rel m w s lg t0"
  for m w
proof unfold_locales
  fix s lg t0 now i ip assume "0 < w \<and> mem_rel m w s lg t0" "t0 \<le> now"
  then have w: "0 < w" and r: "mem_rel m w s lg t0" and t: "t0 \<le> now" by auto
  show "(fst (is_allowed s now i ip) \<longleftrightarrow> int (in_window (\<le>) (now - w) ip lg) < m)
      \<and> 0 < w \<and> mem_rel m w (snd (is_allowed s now i ip))
           (log_add (fst (is_allowed s now i ip)) now ip lg) now"
    using w mem_step [OF w r t, of i ip] by blast
  show "fst (remaining s now i ip) = max 0 (m - int (in_window (\<le>) (now - w) ip lg))
      \<and> 0 < w \<and> mem_rel m w (snd (remaining s now i ip)) lg now"
    using w mem_remaining [OF r t, of i ip] by blast
qed (rule order_trans)

lemma rate_limiter_init_Inr:
  "rate_limiter_init m w = Inr rl \<Longrightarrow> 1 \<le> m \<and> 0 < w \<and> mem_rel m w rl [] t0"
  by (auto simp: rate_limiter_init_def mem_rel_def the_bucket_def kept_def log_ok_def
      split: if_splits)

lemma all_steps_True [simp]: "all_steps_ok allowed (\<lambda>_ _ _ _. True) s rs"
  by (induction rs arbitrary: s) auto

text \<open>C7. Pruning, eviction and the call counter of the in-memory limiter are invisible: on
  every sequence of requests, from any keys, at non-decreasing clock readings, it answers as
  if it kept all allowed requests for ever and counted, per key, those no older than the
  window.\<close>

theorem rate_limiter_counts_the_window:
  assumes "rate_limiter_init m w = Inr rl" and "non_decreasing t0 rs"
  shows "serve is_allowed rl rs = spec_serve (\<le>) m w [] rs"
  using mem.refines [of w m rl "[]" t0 rs] rate_limiter_init_Inr [OF assms(1), of t0] assms(2) by simp

text \<open>No key ever gets more than \<open>max_requests\<close> requests through in any interval of the
  window's length, wherever the interval starts.\<close>

theorem rate_limit_never_exceeded:
  assumes "rate_limiter_init m w = Inr rl" and "non_decreasing t0 rs"
  shows "int (length (filter (\<lambda>t. a \<le> t \<and> t \<le> a + w)
           (times_of ip (allowed_log rs (serve is_allowed rl rs))))) \<le> m"
  using mem.served_window_ok [of m w rl t0 rs] rate_limiter_init_Inr [OF assms(1), of t0] assms(2)
  by (simp add: mem.window_ok_def)

definition demo_requests :: "(rat \<times> unit \<times> string) list" where
  "demo_requests = [(0, (), ''a''), (1, (), ''b''), (1, (), ''a''), (2, (), ''a''), (61, (), ''a'')]"

abbreviation demo_limiter :: rate_limiter where
  "demo_limiter \<equiv> \<lparr>max_requests = 2, window_seconds = 60, buckets = (\<lambda>_. None), call_count = 0\<rparr>"

lemma demo_limiter_init: "rate_limiter_init 2 60 = Inr demo_limiter" "non_decreasing 0 demo_requests"
  by (simp_all add: rate_limiter_init_def demo_requests_def)

theorem rate_limiter_counts_the_window_witness:
  "serve is_allowed demo_limiter demo_requests = [True, True, True, False, True]"
  unfolding rate_limiter_counts_the_window [OF demo_limiter_init]
  by (simp add: demo_requests_def Let_def in_window_def times_of_def log_add_def)

theorem rate_limit_never_exceeded_witness:
  "int (length (filter (\<lambda>t. 0 \<le> t \<and> t \<le> 0 + 60) (times_of ''a'' (allowed_log demo_requests
     (serve is_allowed demo_limiter demo_requests))))) \<le> 2"
  by (rule rate_limit_never_exceeded [OF demo_limiter_init])

section \<open>\<open>RedisRateLimiter\<close>: the Lua script on a sorted set\<close>

text \<open>A key holds a sorted set (member and score) and the instant at which it expires. The
  environment input of a call is \<open>None\<close> when Redis cannot be reached, else the value
  \<open>math.random(1000000)\<close> returns. \<open>fmt now r\<close> is the member's text, \<open>now .. '-' .. r\<close>; the
  number format rounds, so two members may coincide. The server's clock is the callers'.\<close>

type_synonym zset = "(string \<times> rat) list"

record redis_limiter =
  rl_max :: int
  rl_window :: rat
  zsets :: "string \<Rightarrow> (zset \<times> rat) option"

definition rl_prefix :: string where "rl_prefix = ''ratelimit:''"

definition redis_limiter_init :: "int \<Rightarrow> rat \<Rightarrow> redis_limiter" where
  "redis_limiter_init m w = \<lparr>rl_max = m, rl_window = w, zsets = (\<lambda>_. None)\<rparr>"

definition raw_zset :: "(string \<Rightarrow> (zset \<times> rat) option) \<Rightarrow> string \<Rightarrow> zset" where
  "raw_zset st key = (case st key of None \<Rightarrow> [] | Some (zs, dl) \<Rightarrow> zs)"

definition live_zset :: "(string \<Rightarrow> (zset \<times> rat) option) \<Rightarrow> rat \<Rightarrow> string \<Rightarrow> zset" where
  "live_zset st now key =
     (case st key of None \<Rightarrow> [] | Some (zs, dl) \<Rightarrow> if dl \<le> now then [] else zs)"

definition zremrangebyscore :: "rat \<Rightarrow> zset \<Rightarrow> zset" where
  \<comment> \<open>\<open>ZREMRANGEBYSCORE key -inf cutoff\<close>: the bound is included\<close>
  "zremrangebyscore cutoff zs = filter (\<lambda>e. \<not> snd e \<le> cutoff) zs"

definition put_pruned :: "string \<Rightarrow> zset \<Rightarrow> (string \<Rightarrow> (zset \<times> rat) option) \<Rightarrow> (string \<Rightarrow> (zset \<times> rat) option)" where
  \<comment> \<open>an emptied key disappears, else it keeps its expiry\<close>
  "put_pruned key zs st =
     st(key := (if zs = [] then None else map_option (\<lambda>e. (zs, snd e)) (st key)))"

definition limit_script ::
  "(rat \<Rightarrow> nat \<Rightarrow> string) \<Rightarrow> rat \<Rightarrow> rat \<Rightarrow> int \<Rightarrow> nat \<Rightarrow> string
     \<Rightarrow> (string \<Rightarrow> (zset \<times> rat) option) \<Rightarrow> int \<times> (string \<Rightarrow> (zset \<times> rat) option)" where
  "limit_script fmt now window max_req r key st =
     (let zs = zremrangebyscore (now - window) (live_zset st now key);
          count = int (length zs)
      in if max_req \<le> count then (- 1, put_pruned key zs st)
         else (max_req - count - 1,
               st(key \<mapsto> (AList.update (fmt now r) now zs, now + of_int \<lceil>window\<rceil> + 1))))"

definition redis_is_allowed ::
  "(rat \<Rightarrow> nat \<Rightarrow> string) \<Rightarrow> redis_limiter \<Rightarrow> rat \<Rightarrow> nat option \<Rightarrow> string \<Rightarrow> bool \<times> redis_limiter" where
  "redis_is_allowed fmt rl now env ip =
     (case env of
        None \<Rightarrow> (True, rl)
      | Some r \<Rightarrow>
          (case limit_script fmt now (rl_window rl) (rl_max rl) r (rl_prefix @ ip) (zsets rl) of
             (res, st) \<Rightarrow> (0 \<le> res, rl\<lparr>zsets := st\<rparr>)))"

definition redis_remaining ::
  "redis_limiter \<Rightarrow> rat \<Rightarrow> nat option \<Rightarrow> string \<Rightarrow> int \<times> redis_limiter" where
  "redis_remaining rl now env ip =
     (case env of
        None \<Rightarrow> (rl_max rl, rl)
      | Some r \<Rightarrow>
          (let key = rl_prefix @ ip;
               zs = zremrangebyscore (now - rl_window rl) (live_zset (zsets rl) now key)
           in (max 0 (rl_max rl - int (length zs)), rl\<lparr>zsets := put_pruned key zs (zsets rl)\<rparr>)))"

datatype limiter_backend = InMemoryLimiter rate_limiter | RedisLimiter string redis_limiter

definition create_rate_limiter ::
  "(string \<Rightarrow> exn option) \<Rightarrow> string \<Rightarrow> string \<Rightarrow> int \<Rightarrow> rat \<Rightarrow> limiter_backend result" where
  \<comment> \<open>\<open>from_url\<close>: what importing the package and \<open>Redis.from_url\<close> raise, as \<open>ImportError\<close> for a
    missing package or \<open>ValueError\<close> for a malformed address\<close>
  "create_rate_limiter from_url backend redis_url m w =
     (if backend = ''redis'' \<and> redis_url \<noteq> []
      then (case from_url redis_url of
              Some e \<Rightarrow> Inl e | None \<Rightarrow> Inr (RedisLimiter redis_url (redis_limiter_init m w)))
      else map_sum id InMemoryLimiter (rate_limiter_init m w))"

text \<open>The steps the log speaks of: Redis answers and the new member's text is not one that is
  already in the window.\<close>

definition redis_step_ok ::
  "(rat \<Rightarrow> nat \<Rightarrow> string) \<Rightarrow> redis_limiter \<Rightarrow> rat \<Rightarrow> nat option \<Rightarrow> string \<Rightarrow> bool" where
  "redis_step_ok fmt rl now env ip =
     (case env of
        None \<Rightarrow> False
      | Some r \<Rightarrow> fmt now r \<notin> set (map fst
          (zremrangebyscore (now - rl_window rl) (live_zset (zsets rl) now (rl_prefix @ ip)))))"

definition deadline_ok :: "rat \<Rightarrow> (zset \<times> rat) option \<Rightarrow> bool" where
  "deadline_ok w e = (case e of None \<Rightarrow> True | Some (zs, dl) \<Rightarrow> \<forall>x\<in>set zs. snd x + w < dl)"

definition redis_rel :: "int \<Rightarrow> rat \<Rightarrow> redis_limiter \<Rightarrow> req_log \<Rightarrow> rat \<Rightarrow> bool" where
  "redis_rel m w rl lg t0 \<longleftrightarrow> rl_max rl = m \<and> rl_window rl = w \<and> log_ok lg t0
     \<and> (\<forall>ip. deadline_ok w (zsets rl (rl_prefix @ ip))
          \<and> kept (<) (map snd (raw_zset (zsets rl) (rl_prefix @ ip))) (times_of ip lg) (t0 - w))"

lemma snd_zremrangebyscore: "map snd (zremrangebyscore c zs) = filter (\<lambda>t. c < t) (map snd zs)"
  by (simp add: zremrangebyscore_def filter_map comp_def not_le)

lemma kept_filter_less: "kept (<) dq hist c0 \<Longrightarrow> c0 \<le> c \<Longrightarrow> filter (\<lambda>t. c < t) dq = filter (\<lambda>t. c < t) hist"
  by (auto simp: kept_def filter_filter intro!: filter_cong [OF refl])

text \<open>Expiry hides nothing that is still inside the window.\<close>

lemma live_pruned:
  assumes "deadline_ok w (st key)"
  shows "zremrangebyscore (now - w) (live_zset st now key) = zremrangebyscore (now - w) (raw_zset st key)"
proof (cases "st key")
  case (Some e)
  obtain zs dl where e: "e = (zs, dl)" by (cases e) auto
  have "zremrangebyscore (now - w) zs = []" if "dl \<le> now"
    using assms that by (fastforce simp: Some e deadline_ok_def zremrangebyscore_def filter_empty_conv)
  then show ?thesis by (simp add: live_zset_def raw_zset_def Some e zremrangebyscore_def)
qed (simp add: live_zset_def raw_zset_def)

lemma redis_view:
  assumes "redis_rel m w rl lg t0" "t0 \<le> now"
  shows "map snd (zremrangebyscore (now - w) (live_zset (zsets rl) now (rl_prefix @ ip)))
    = filter (\<lambda>t. now - w < t) (times_of ip lg)"
  using assms kept_filter_less [of _ "times_of ip lg" "t0 - w" "now - w"]
  by (simp add: live_pruned redis_rel_def snd_zremrangebyscore)

lemma prefix_inj: "rl_prefix @ ip = rl_prefix @ ip' \<longleftrightarrow> ip = ip'"
  by simp

lemma raw_put_pruned:
  assumes "zs = zremrangebyscore c (live_zset st now key)"
  shows "raw_zset (put_pruned key zs st) key' = (if key' = key then zs else raw_zset st key')"
  using assms
  by (auto simp: raw_zset_def put_pruned_def live_zset_def zremrangebyscore_def
      split: option.splits prod.splits if_splits)

lemma deadline_put_pruned:
  assumes "deadline_ok w (st key')" "zs = zremrangebyscore c (live_zset st now key)"
  shows "deadline_ok w (put_pruned key zs st key')"
  using assms
  by (fastforce simp: put_pruned_def deadline_ok_def live_zset_def zremrangebyscore_def
      split: option.splits prod.splits if_splits)

lemma redis_rel_pruned:
  assumes rel: "redis_rel m w rl lg t0" and t: "t0 \<le> now"
    and zs: "zs = zremrangebyscore (now - w) (live_zset (zsets rl) now (rl_prefix @ ip))"
  shows "redis_rel m w (rl\<lparr>zsets := put_pruned (rl_prefix @ ip) zs (zsets rl)\<rparr>) lg now"
proof -
  have "kept (<) (map snd zs) (times_of ip lg) (now - w)"
    using redis_view [OF rel t, of ip] zs by (simp add: kept_refl)
  with rel t show ?thesis
    by (auto simp: redis_rel_def log_ok_def raw_put_pruned [OF zs] prefix_inj
        intro: deadline_put_pruned [OF _ zs] kept_mono [where ?c0.0 = "t0 - w"])
qed

lemma redis_rel_added:
  assumes rel: "redis_rel m w rl lg t0" and t: "t0 \<le> now" and w: "0 < w"
    and zs: "zs = zremrangebyscore (now - w) (live_zset (zsets rl) now (rl_prefix @ ip))"
    and dl: "now + w < dl"
  shows "redis_rel m w (rl\<lparr>zsets := (zsets rl)(rl_prefix @ ip \<mapsto> (zs @ [(mem, now)], dl))\<rparr>)
           (log_add True now ip lg) now"
proof -
  have "map snd zs @ [now] = filter ((<) (now - w)) (times_of ip (log_add True now ip lg))"
    using redis_view [OF rel t, of ip] zs w by simp
  then have k: "kept (<) (map snd zs @ [now]) (times_of ip (log_add True now ip lg)) (now - w)"
    by (simp only: kept_refl order_refl)
  have "x + w < dl" if "x \<in> snd ` set zs" for x
  proof -
    from that have "x \<in> set (times_of ip lg)"
      using redis_view [OF rel t, of ip] zs by (metis filter_is_subset set_map subsetD)
    then have "x \<le> t0" using rel times_of_bound by (auto simp: redis_rel_def)
    with t dl show ?thesis by simp
  qed
  with rel k t dl log_ok_add [of lg t0 now True ip] show ?thesis
    by (auto simp: redis_rel_def raw_zset_def deadline_ok_def simp del: times_of_add
        split: if_splits) (auto intro: kept_mono [where ?c0.0 = "t0 - w"])
qed

lemma redis_step:
  assumes w: "0 < w" and rel: "redis_rel m w rl lg t0" and t: "t0 \<le> now"
    and ok: "redis_step_ok fmt rl now env ip"
  shows "(fst (redis_is_allowed fmt rl now env ip) \<longleftrightarrow> int (in_window (<) (now - w) ip lg) < m)
    \<and> redis_rel m w (snd (redis_is_allowed fmt rl now env ip))
         (log_add (fst (redis_is_allowed fmt rl now env ip)) now ip lg) now"
proof -
  define zs where "zs = zremrangebyscore (now - w) (live_zset (zsets rl) now (rl_prefix @ ip))"
  obtain r where env: "env = Some r" and fresh: "fmt now r \<notin> fst ` set zs"
    using ok rel by (auto simp: redis_step_ok_def redis_rel_def zs_def split: option.splits)
  have mw: "rl_max rl = m" "rl_window rl = w" using rel by (auto simp: redis_rel_def)
  have n: "length zs = in_window (<) (now - w) ip lg"
    using redis_view [OF rel t, of ip] unfolding zs_def in_window_def by (metis length_map)
  have "now + w < now + of_int \<lceil>w\<rceil> + 1" using le_of_int_ceiling [of w] by linarith
  note added = redis_rel_added [OF rel t w zs_def this]
  show ?thesis
  proof (cases "m \<le> int (length zs)")
    case True
    then show ?thesis using redis_rel_pruned [OF rel t zs_def]
      by (simp add: redis_is_allowed_def limit_script_def env mw n zs_def [symmetric] Let_def log_add_def)
  next
    case False
    then show ?thesis using added [of "fmt now r"] fst_update_notin [OF fresh]
      by (simp add: redis_is_allowed_def limit_script_def env mw n zs_def [symmetric] Let_def)
  qed
qed

lemma redis_remaining_eq:
  assumes rel: "redis_rel m w rl lg t0" and t: "t0 \<le> now" and ok: "redis_step_ok fmt rl now env ip"
  shows "fst (redis_remaining rl now env ip) = max 0 (m - int (in_window (<) (now - w) ip lg))
    \<and> redis_rel m w (snd (redis_remaining rl now env ip)) lg now"
proof -
  define zs where "zs = zremrangebyscore (now - w) (live_zset (zsets rl) now (rl_prefix @ ip))"
  obtain r where env: "env = Some r" using ok by (auto simp: redis_step_ok_def split: option.splits)
  have mw: "rl_max rl = m" "rl_window rl = w" using rel by (auto simp: redis_rel_def)
  have "length zs = in_window (<) (now - w) ip lg"
    using redis_view [OF rel t, of ip] unfolding zs_def in_window_def by (metis length_map)
  then show ?thesis using redis_rel_pruned [OF rel t zs_def]
    by (simp add: redis_remaining_def env mw zs_def [symmetric] Let_def)
qed

interpretation redis: sliding_limiter "redis_is_allowed fmt" redis_remaining "redis_step_ok fmt" "(<)" m w
    "\<lambda>s lg t0. 0 < w \<and> redis_rel m w s lg t0"
  for fmt m w
proof unfold_locales
  fix s lg t0 now i ip
  assume "0 < w \<and> redis_rel m w s lg t0" "t0 \<le> now" and ok: "redis_step_ok fmt s now i ip"
  then have w: "0 < w" and r: "redis_rel m w s lg t0" and t: "t0 \<le> now" by auto
  show "(fst (redis_is_allowed fmt s now i ip) \<longleftrightarrow> int (in_window (<) (now - w) ip lg) < m)
      \<and> 0 < w \<and> redis_rel m w (snd (redis_is_allowed fmt s now i ip))
           (log_add (fst (redis_is_allowed fmt s now i ip)) now ip lg) now"
    using w redis_step [OF w r t ok] by blast
  show "fst (redis_remaining s now i ip) = max 0 (m - int (in_window (<) (now - w) ip lg))
      \<and> 0 < w \<and> redis_rel m w (snd (redis_remaining s now i ip)) lg now"
    using w redis_remaining_eq [OF r t ok] by blast
qed (rule order.strict_trans1)

text \<open>Requests whose members differ: Redis answers every one of them, and no two of one key
  write the same member.\<close>

definition members_differ :: "(rat \<Rightarrow> nat \<Rightarrow> string) \<Rightarrow> (rat \<times> nat option \<times> string) list \<Rightarrow> bool" where
  "members_differ fmt rs \<longleftrightarrow> list_all (\<lambda>(now, env, ip). env \<noteq> None) rs
     \<and> distinct (map (\<lambda>(now, env, ip). (ip, map_option (fmt now) env)) rs)"

lemma members_after:
  "x \<in> fst ` set (raw_zset (zsets (snd (redis_is_allowed fmt rl now (Some r) ip))) (rl_prefix @ ip')) \<Longrightarrow>
     x \<in> fst ` set (raw_zset (zsets rl) (rl_prefix @ ip')) \<or> ip' = ip \<and> x = fmt now r"
  by (auto simp: redis_is_allowed_def limit_script_def raw_zset_def put_pruned_def live_zset_def zremrangebyscore_def
      dom_update Let_def split: option.splits prod.splits if_splits)

lemma members_differ_steps:
  assumes "members_differ fmt rs"
    and "\<And>now r ip. (now, Some r, ip) \<in> set rs \<Longrightarrow> fmt now r \<notin> fst ` set (raw_zset (zsets rl) (rl_prefix @ ip))"
  shows "all_steps_ok (redis_is_allowed fmt) (redis_step_ok fmt) rl rs"
  using assms
proof (induction rs arbitrary: rl)
  case (Cons q rs)
  obtain now r ip where q: "q = (now, Some r, ip)"
    using Cons.prems(1) by (cases q) (auto simp: members_differ_def)
  have "redis_step_ok fmt rl now (Some r) ip"
    using Cons.prems(2) [of now r ip] unfolding q
    by (auto simp: redis_step_ok_def live_zset_def raw_zset_def zremrangebyscore_def image_iff split: option.splits if_splits)
  moreover have "all_steps_ok (redis_is_allowed fmt) (redis_step_ok fmt) (snd (redis_is_allowed fmt rl now (Some r) ip)) rs"
  proof (rule Cons.IH)
    show "members_differ fmt rs" using Cons.prems(1) by (simp add: members_differ_def)
    have other: "ip' \<noteq> ip \<or> fmt t r' \<noteq> fmt now r" if "(t, Some r', ip') \<in> set rs" for t r' ip'
      using Cons.prems(1) that by (force simp: members_differ_def q)
    fix t r' ip' assume mem: "(t, Some r', ip') \<in> set rs"
    then have "fmt t r' \<notin> fst ` set (raw_zset (zsets rl) (rl_prefix @ ip'))" by (intro Cons.prems(2)) simp
    with other [OF mem] members_after [of "fmt t r'" fmt rl now r ip ip']
    show "fmt t r' \<notin> fst ` set (raw_zset (zsets (snd (redis_is_allowed fmt rl now (Some r) ip))) (rl_prefix @ ip'))"
      by blast
  qed
  ultimately show ?case by (simp add: q)
qed simp


definition demo_redis_requests :: "(rat \<times> nat option \<times> string) list" where
  "demo_redis_requests = [(0, Some 7, ''a''), (1, Some 8, ''a''), (60, Some 9, ''a'')]"


text \<open>Requests that write the same member count once: of any number of requests to one key at
  one time, with the number that the seeded generator always draws first, all pass, whatever the
  limit is, as soon as it is at least two.\<close>

lemma same_member_counts_once:
  assumes "2 \<le> m" and "0 < w"
  shows "serve (redis_is_allowed fmt) (redis_limiter_init m w) (replicate n (now, Some r, ip)) = replicate n True"
proof (cases n)
  case (Suc k)
  define s1 where "s1 = \<lparr>rl_max = m, rl_window = w,
    zsets = [rl_prefix @ ip \<mapsto> ([(fmt now r, now)], now + of_int \<lceil>w\<rceil> + 1)]\<rparr>"
  have "0 < of_int \<lceil>w\<rceil> + (1 :: rat)" using assms(2) le_of_int_ceiling [of w] by linarith
  then have stay: "redis_is_allowed fmt s1 now (Some r) ip = (True, s1)"
    using assms by (simp add: s1_def redis_is_allowed_def limit_script_def live_zset_def zremrangebyscore_def Let_def)
  have "serve (redis_is_allowed fmt) s1 (replicate k (now, Some r, ip)) = replicate k True"
    by (induction k) (simp_all add: stay)
  moreover have "redis_is_allowed fmt (redis_limiter_init m w) now (Some r) ip = (True, s1)"
    using assms by (simp add: s1_def redis_limiter_init_def redis_is_allowed_def limit_script_def live_zset_def
        zremrangebyscore_def Let_def)
  ultimately show ?thesis by (simp add: Suc)
qed simp

end
