(* ===== verification/Sessions.thy ===== *)
theory Sessions
  imports Prelude
begin

text \<open>
  The in-flight session registries of \<open>core/security.py\<close>, which the pack endpoints use to
  refuse a second run of a session (\<open>api/state.py\<close>): the per-process set and the Redis lock
  (\<open>SET NX EX\<close>, compare-and-delete). The Redis registry is one shared store and, per
  replica, the map from sessions to the token it last acquired. A caller's environment holds
  the clock reading, the replica, the fresh token and whether Redis answers.
\<close>

section \<open>The contract\<close>

fun acquire_all :: "('s \<Rightarrow> 'e \<Rightarrow> string \<Rightarrow> bool \<times> 's) \<Rightarrow> 's \<Rightarrow> 'e list \<Rightarrow> string \<Rightarrow> bool list" where
  \<comment> \<open>the answers several callers of one session get, in the order they are served\<close>
  "acquire_all acquire s [] sid = []"
| "acquire_all acquire s (e # es) sid =
     fst (acquire s e sid) # acquire_all acquire (snd (acquire s e sid)) es sid"

locale session_registry =
  fixes acquire :: "'s \<Rightarrow> 'e \<Rightarrow> string \<Rightarrow> bool \<times> 's"
    and release :: "'s \<Rightarrow> 'e \<Rightarrow> string \<Rightarrow> 's"
    and held :: "'s \<Rightarrow> 'e \<Rightarrow> string \<Rightarrow> bool"
    and live :: "'e \<Rightarrow> 'e \<Rightarrow> bool"
  assumes refused: "live e e \<Longrightarrow> held s e sid \<Longrightarrow> acquire s e sid = (False, s)"
    and granted: "live e e \<Longrightarrow> \<not> held s e sid \<Longrightarrow> fst (acquire s e sid)"
    and holds: "live e e' \<Longrightarrow> \<not> held s e sid \<Longrightarrow> held (snd (acquire s e sid)) e' sid"
    and frame: "sid' \<noteq> sid \<Longrightarrow> held (snd (acquire s e sid)) e' sid' = held s e' sid'
        \<and> held (release s e sid) e' sid' = held s e' sid'"
    and freed: "live e e \<Longrightarrow> live e e' \<Longrightarrow> \<not> held s e sid \<Longrightarrow>
        \<not> held (release (snd (acquire s e sid)) e' sid) e' sid"
begin

lemma all_refused:
  "\<forall>e\<in>set es. live e e \<and> held s e sid \<Longrightarrow> acquire_all acquire s es sid = replicate (length es) False"
  by (induction es arbitrary: s) (auto simp: refused)

lemma first_wins:
  assumes "live e e" "\<not> held s e sid" "\<forall>e'\<in>set es. live e e' \<and> live e' e'"
  shows "acquire_all acquire s (e # es) sid = True # replicate (length es) False"
  using assms by (auto simp: granted intro!: all_refused holds)

lemma reacquire_after_release:
  assumes "live e e" "live e e'" "live e' e'" "\<not> held s e sid"
  shows "fst (acquire (release (snd (acquire s e sid)) e' sid) e' sid)"
  using assms by (intro granted freed)

end

section \<open>\<open>InMemorySessionRegistry\<close>\<close>

type_synonym session_set = "string list"

definition mem_try_acquire :: "session_set \<Rightarrow> unit \<Rightarrow> string \<Rightarrow> bool \<times> session_set" where
  "mem_try_acquire s u sid = (if sid \<in> set s then (False, s) else (True, List.insert sid s))"

definition mem_release :: "session_set \<Rightarrow> unit \<Rightarrow> string \<Rightarrow> session_set" where
  "mem_release s u sid = removeAll sid s"

interpretation mem_sessions: session_registry mem_try_acquire mem_release
    "\<lambda>s u sid. sid \<in> set s" "\<lambda>_ _. True"
  by unfold_locales (auto simp: mem_try_acquire_def mem_release_def)

section \<open>\<open>RedisSessionRegistry\<close>\<close>

record sess_env =
  clock :: rat
  replica :: nat
  fresh_token :: string
  redis_up :: bool

record redis_sessions =
  locks :: "string \<Rightarrow> (string \<times> rat) option"   \<comment> \<open>key: token and expiry\<close>
  tokens :: "nat \<Rightarrow> string \<Rightarrow> string option"       \<comment> \<open>\<open>_tokens\<close> of each replica\<close>

definition lock_prefix :: string where "lock_prefix = ''session-lock:''"

definition lock_of :: "redis_sessions \<Rightarrow> rat \<Rightarrow> string \<Rightarrow> string option" where
  \<comment> \<open>\<open>GET\<close>: an expired key is absent\<close>
  "lock_of w now sid =
     (case locks w (lock_prefix @ sid) of
        None \<Rightarrow> None
      | Some (tok, dl) \<Rightarrow> if dl \<le> now then None else Some tok)"

definition redis_try_acquire ::
  "rat \<Rightarrow> redis_sessions \<Rightarrow> sess_env \<Rightarrow> string \<Rightarrow> bool \<times> redis_sessions" where
  "redis_try_acquire ttl w e sid =
     (if \<not> redis_up e then (True, w)
      else if lock_of w (clock e) sid \<noteq> None then (False, w)
      else (True, w\<lparr>locks := (locks w)(lock_prefix @ sid \<mapsto> (fresh_token e, clock e + ttl)),
                   tokens := (tokens w)(replica e := (tokens w (replica e))(sid \<mapsto> fresh_token e))\<rparr>))"

definition redis_release :: "redis_sessions \<Rightarrow> sess_env \<Rightarrow> string \<Rightarrow> redis_sessions" where
  "redis_release w e sid =
     (case tokens w (replica e) sid of
        None \<Rightarrow> w
      | Some tok \<Rightarrow>
          (let w' = w\<lparr>tokens := (tokens w)(replica e := (tokens w (replica e))(sid := None))\<rparr>
           in if redis_up e \<and> lock_of w (clock e) sid = Some tok
              then w'\<lparr>locks := (locks w)(lock_prefix @ sid := None)\<rparr> else w'))"

datatype registry_choice = MemoryRegistry | RedisRegistry string rat

definition create_session_registry ::
  "(string \<Rightarrow> exn option) \<Rightarrow> string \<Rightarrow> string \<Rightarrow> rat \<Rightarrow> registry_choice result" where
  \<comment> \<open>\<open>from_url\<close>: what importing the package and \<open>Redis.from_url\<close> raise\<close>
  "create_session_registry from_url backend redis_url ttl =
     (if backend = ''redis'' \<and> redis_url \<noteq> []
      then (case from_url redis_url of Some e \<Rightarrow> Inl e | None \<Rightarrow> Inr (RedisRegistry redis_url ttl))
      else Inr MemoryRegistry)"

interpretation redis_sess: session_registry "redis_try_acquire ttl" redis_release
    "\<lambda>w e sid. lock_of w (clock e) sid \<noteq> None"
    "\<lambda>e e'. redis_up e \<and> redis_up e' \<and> replica e = replica e' \<and> clock e \<le> clock e' \<and> clock e' < clock e + ttl"
  for ttl
proof unfold_locales
  fix e e' :: sess_env and s sid sid' assume "sid' \<noteq> (sid :: string)"
  then show "(lock_of (snd (redis_try_acquire ttl s e sid)) (clock e') sid' \<noteq> None) =
      (lock_of s (clock e') sid' \<noteq> None) \<and>
      (lock_of (redis_release s e sid) (clock e') sid' \<noteq> None) = (lock_of s (clock e') sid' \<noteq> None)"
    by (auto simp: redis_try_acquire_def redis_release_def lock_of_def Let_def split: option.splits)
qed (auto simp: redis_try_acquire_def redis_release_def lock_of_def Let_def split: option.splits if_splits)

text \<open>Of any number of callers of one session served one after the other in a process, the
  first gets the session and all others are refused until it is released; then it is free.\<close>

theorem in_memory_single_flight:
  "acquire_all mem_try_acquire s (() # es) sid =
     (if sid \<in> set s then replicate (Suc (length es)) False else True # replicate (length es) False)
   \<and> fst (mem_try_acquire (mem_release s () sid) () sid)"
proof -
  have "sid \<in> set s \<Longrightarrow> acquire_all mem_try_acquire s (() # es) sid = replicate (length (() # es)) False"
    by (rule mem_sessions.all_refused) simp
  moreover have "sid \<notin> set s \<Longrightarrow> acquire_all mem_try_acquire s (() # es) sid = True # replicate (length es) False"
    by (rule mem_sessions.first_wins) simp_all
  ultimately show ?thesis by (simp add: mem_try_acquire_def mem_release_def)
qed

section \<open>Several replicas over one Redis\<close>

text \<open>Reachable worlds: any replica acquires or releases, at clock readings that do not
  decrease, and tokens (\<open>uuid4\<close>) are fresh. The ghost list records who got which token.\<close>

inductive reg_reach :: "rat \<Rightarrow> redis_sessions \<Rightarrow> rat \<Rightarrow> (string \<times> nat \<times> string) list \<Rightarrow> bool" for ttl where
  start: "reg_reach ttl \<lparr>locks = (\<lambda>_. None), tokens = (\<lambda>_ _. None)\<rparr> t []"
| acq: "reg_reach ttl w t iss \<Longrightarrow> t \<le> clock e \<Longrightarrow> fresh_token e \<notin> fst ` set iss \<Longrightarrow>
    reg_reach ttl (snd (redis_try_acquire ttl w e sid)) (clock e) ((fresh_token e, replica e, sid) # iss)"
| rel: "reg_reach ttl w t iss \<Longrightarrow> t \<le> clock e \<Longrightarrow> reg_reach ttl (redis_release w e sid) (clock e) iss"

definition tokens_ok :: "redis_sessions \<Rightarrow> (string \<times> nat \<times> string) list \<Rightarrow> bool" where
  "tokens_ok w iss \<longleftrightarrow> distinct (map fst iss)
     \<and> (\<forall>r sid tok. tokens w r sid = Some tok \<longrightarrow> (tok, r, sid) \<in> set iss)
     \<and> (\<forall>sid tok dl. locks w (lock_prefix @ sid) = Some (tok, dl) \<longrightarrow> (\<exists>r. (tok, r, sid) \<in> set iss))"

lemma tokens_ok_acquire:
  assumes "tokens_ok w iss" "fresh_token e \<notin> fst ` set iss"
  shows "tokens_ok (snd (redis_try_acquire ttl w e sid)) ((fresh_token e, replica e, sid) # iss)"
  using assms by (auto simp: tokens_ok_def redis_try_acquire_def) blast+

lemma tokens_ok_release: "tokens_ok w iss \<Longrightarrow> tokens_ok (redis_release w e sid) iss"
  by (auto simp: tokens_ok_def redis_release_def Let_def split: option.splits)

lemma reach_tokens_ok: "reg_reach ttl w t iss \<Longrightarrow> tokens_ok w iss"
  by (induction rule: reg_reach.induct)
    (simp_all add: tokens_ok_acquire tokens_ok_release, simp add: tokens_ok_def)

lemma token_unique:
  "distinct (map fst iss) \<Longrightarrow> (tok, a) \<in> set iss \<Longrightarrow> (tok, b) \<in> set iss \<Longrightarrow> a = b"
  by (metis eq_key_imp_eq_value)

text \<open>However the replicas' acquisitions, releases, outages and expiries interleave, a
  release changes no lock but one of its own session whose token was issued to the very
  replica that releases: a replica never deletes the lock another replica holds.\<close>

theorem release_spares_other_replicas:
  assumes "reg_reach ttl w t iss" and "lock_of w now sid' = Some tok"
    and "lock_of (redis_release w e sid) now sid' \<noteq> Some tok"
  shows "sid' = sid \<and> (tok, replica e, sid) \<in> set iss \<and> (\<forall>r. (tok, r, sid) \<in> set iss \<longleftrightarrow> r = replica e)"
proof -
  from assms(1) have ok: "tokens_ok w iss" by (rule reach_tokens_ok)
  from assms(2,3) have "sid' = sid" and "tokens w (replica e) sid = Some tok"
    by (auto simp: redis_release_def lock_of_def Let_def split: option.splits if_splits)
  with ok token_unique [of iss tok "(replica e, sid)"] show ?thesis
    by (auto simp: tokens_ok_def)
qed

datatype reg_op = Acq sess_env string | Rel sess_env string

fun apply_op :: "rat \<Rightarrow> redis_sessions \<Rightarrow> reg_op \<Rightarrow> redis_sessions" where
  "apply_op ttl w (Acq e sid) = snd (redis_try_acquire ttl w e sid)"
| "apply_op ttl w (Rel e sid) = redis_release w e sid"

fun spares :: "nat \<Rightarrow> string \<Rightarrow> rat \<Rightarrow> reg_op \<Rightarrow> bool" where
  \<comment> \<open>before the expiry, and no release of the session by the holder's replica\<close>
  "spares r sid dl (Acq e sid') = (clock e < dl)"
| "spares r sid dl (Rel e sid') = (clock e < dl \<and> (replica e = r \<longrightarrow> sid' \<noteq> sid))"

definition owned :: "redis_sessions \<Rightarrow> nat \<Rightarrow> string \<Rightarrow> string \<Rightarrow> rat \<Rightarrow> bool" where
  "owned w r sid tok dl \<longleftrightarrow> locks w (lock_prefix @ sid) = Some (tok, dl)
     \<and> (\<forall>r'. r' \<noteq> r \<longrightarrow> tokens w r' sid \<noteq> Some tok)"

lemma owned_apply: "owned w r sid tok dl \<Longrightarrow> spares r sid dl op \<Longrightarrow> owned (apply_op ttl w op) r sid tok dl"
  by (cases op) (auto simp: owned_def redis_try_acquire_def redis_release_def lock_of_def Let_def
      split: option.splits)

lemma owned_fold: "owned w r sid tok dl \<Longrightarrow> list_all (spares r sid dl) ops \<Longrightarrow> owned (fold (\<lambda>op w. apply_op ttl w op) ops w) r sid tok dl"
  by (induction ops arbitrary: w) (auto intro: owned_apply)

text \<open>C14. After a replica has acquired a session with Redis up and a token never issued before,
  every caller of any replica that reaches Redis before the expiry is refused, whatever
  acquisitions, outages and releases of any replica happen in between before the expiry, as long
  as the holder's replica does not release that session. (The condition matters: a run that
  the same replica let in during an outage releases the session when it ends, see the last
  theorem of this theory.)\<close>

theorem redis_lock_excludes:
  assumes "reg_reach ttl w t iss" and "fresh_token e \<notin> fst ` set iss" and "redis_up e"
    and "fst (redis_try_acquire ttl w e sid)"
    and "list_all (spares (replica e) sid (clock e + ttl)) ops"
    and "redis_up e'" and "clock e' < clock e + ttl"
  shows "\<not> fst (redis_try_acquire ttl
           (fold (\<lambda>op w. apply_op ttl w op) ops (snd (redis_try_acquire ttl w e sid))) e' sid)"
proof -
  have free: "lock_of w (clock e) sid = None"
    using assms(3,4) by (auto simp: redis_try_acquire_def split: if_splits)
  have "tokens w r' sid \<noteq> Some (fresh_token e)" for r'
    using reach_tokens_ok [OF assms(1)] assms(2) by (force simp: tokens_ok_def)
  then have "owned (snd (redis_try_acquire ttl w e sid)) (replica e) sid (fresh_token e) (clock e + ttl)"
    using assms(3) free by (simp add: owned_def redis_try_acquire_def)
  from owned_fold [OF this assms(5), of ttl] assms(6,7) show ?thesis
    by (auto simp: owned_def redis_try_acquire_def lock_of_def)
qed

text \<open>The token guard is per replica and session, not per run: a run that was let in while
  Redis was down deletes, when it ends, the lock of the run of the same session and replica
  that is still in flight, and the next caller is let in beside it.\<close>

theorem fail_open_run_frees_anothers_lock:
  assumes "lock_of w (clock e3) sid = Some tok" and "tokens w (replica e2) sid = Some tok"
    and "\<not> redis_up e2" and "redis_up e3" and "replica e3 = replica e2" and "redis_up e4"
  shows "redis_try_acquire ttl w e2 sid = (True, w)
    \<and> fst (redis_try_acquire ttl (redis_release w e3 sid) e4 sid)"
  using assms by (simp add: redis_try_acquire_def redis_release_def lock_of_def)

abbreviation demo_env :: "rat \<Rightarrow> nat \<Rightarrow> string \<Rightarrow> sess_env" where
  "demo_env t r tok \<equiv> \<lparr>clock = t, replica = r, fresh_token = tok, redis_up = True\<rparr>"

abbreviation empty_registry :: redis_sessions where
  "empty_registry \<equiv> \<lparr>locks = (\<lambda>_. None), tokens = (\<lambda>_ _. None)\<rparr>"

lemma demo_held:
  "reg_reach 300 (snd (redis_try_acquire 300 empty_registry (demo_env 0 1 ''x'') ''s'')) 0 [(''x'', 1, ''s'')]"
  using acq [OF start [of 300 0], of "demo_env 0 1 ''x''" "''s''"] by simp

theorem release_spares_other_replicas_witness:
  "lock_of (snd (redis_try_acquire 300 empty_registry (demo_env 0 1 ''x'') ''s'')) 5 ''s'' = Some ''x''
   \<and> replica (demo_env 5 1 ''y'') = 1
   \<and> (''x'', 1, ''s'') \<in> set [(''x'', 1 :: nat, ''s'')]"
  using release_spares_other_replicas [OF demo_held, of 5 "''s''" "''x''" "demo_env 5 1 ''y''" "''s''"]
  by (simp add: redis_try_acquire_def redis_release_def lock_of_def)

theorem redis_lock_excludes_witness:
  "\<not> fst (redis_try_acquire 300 (fold (\<lambda>op w. apply_op 300 w op) [Rel (demo_env 1 2 ''y'') ''s'']
        (snd (redis_try_acquire 300 empty_registry (demo_env 0 1 ''x'') ''s''))) (demo_env 9 2 ''z'') ''s'')"
  by (rule redis_lock_excludes [OF start [of 300 0]]) (simp_all add: redis_try_acquire_def lock_of_def)

theorem fail_open_run_frees_anothers_lock_witness:
  "fst (redis_try_acquire 300 (redis_release
     (snd (redis_try_acquire 300 empty_registry (demo_env 0 1 ''x'') ''s'')) (demo_env 5 1 ''y'') ''s'')
     (demo_env 6 1 ''z'') ''s'')"
  using fail_open_run_frees_anothers_lock
    [of "snd (redis_try_acquire 300 empty_registry (demo_env 0 1 ''x'') ''s'')" "demo_env 5 1 ''y''" "''s''" "''x''"
      "(demo_env 2 1 ''w'')\<lparr>redis_up := False\<rparr>" "demo_env 6 1 ''z''" 300]
  by (simp add: redis_try_acquire_def lock_of_def)

end
