(* ===== verification/PackRegistry.thy ===== *)
theory PackRegistry
  imports Prelude
begin

text \<open>
  The pack registry: registration, version selection (exact, sticky by a digest of the
  caller, random by weight), weight updates (\<open>pack_kernel/registry.py\<close>), the built-in packs
  (\<open>pack_kernel/builtin_packs.py\<close>) and the allowlisted plugin packs
  (\<open>pack_kernel/plugins.py\<close>). A class object is a record of the attributes the code reads
  with \<open>getattr\<close>; \<open>None\<close> is a missing attribute. SHA-256 is a function to the first 32 bits
  of the digest (\<open>int(digest[:8], 16)\<close>), \<open>random.random()\<close> a rational in [0,1).
\<close>

section \<open>Versions and classes\<close>

datatype schema_attr = NoSchema | NotModel | Model "string option"
  \<comment> \<open>a pydantic model with its \<open>model_config['extra']\<close>\<close>

record pack_class =
  pc_ref :: string                     \<comment> \<open>the class object itself\<close>
  pc_is_base_pack :: bool              \<comment> \<open>a subclass of \<open>BaseDomainPack\<close>\<close>
  pc_id :: "string option"
  pc_name :: "string option"
  pc_description :: "string option"
  pc_version :: "string option"
  pc_input :: schema_attr
  pc_output :: schema_attr

record pack_version =
  pv_version :: string
  pv_cls :: pack_class
  pv_weight :: rat

type_synonym registry = "(string \<times> pack_version list) list"

definition pack_version_init :: "string \<Rightarrow> pack_class \<Rightarrow> rat \<Rightarrow> pack_version result" where
  "pack_version_init v c w =
     (if w < 0 then Inl ValueError else Inr \<lparr>pv_version = v, pv_cls = c, pv_weight = w\<rparr>)"

definition attr_text :: "string option \<Rightarrow> string" where
  \<comment> \<open>a missing attribute and an empty one are both falsy\<close>
  "attr_text a = (case a of None \<Rightarrow> [] | Some s \<Rightarrow> s)"

section \<open>Registration\<close>

fun put_version :: "pack_version \<Rightarrow> pack_version list \<Rightarrow> pack_version list" where
  \<comment> \<open>the loop of \<open>register\<close>: replace the first entry of the same version, else append\<close>
  "put_version pv [] = [pv]"
| "put_version pv (e # es) = (if pv_version e = pv_version pv then pv # es else e # put_version pv es)"

definition register :: "pack_class \<Rightarrow> registry \<Rightarrow> registry result" where
  "register c reg =
     (if attr_text (pc_id c) = [] then Inl ValueError
      else if attr_text (pc_name c) = [] then Inl ValueError
      else if attr_text (pc_description c) = [] then Inl ValueError
      else rbind (pack_version_init (case pc_version c of None \<Rightarrow> ''1.0'' | Some v \<Rightarrow> v) c 1) (\<lambda>pv.
        let pid = attr_text (pc_id c)
        in Inr (AList.update pid (case map_of reg pid of
                   None \<Rightarrow> [pv] | Some versions \<Rightarrow> put_version pv versions) reg)))"

definition get_versions :: "string \<Rightarrow> registry \<Rightarrow> pack_version list result" where
  "get_versions pid reg = (case map_of reg pid of None \<Rightarrow> Inl KeyError | Some vs \<Rightarrow> Inr vs)"

definition list_packs :: "registry \<Rightarrow> string list" where
  "list_packs reg = sort (map fst reg)"

section \<open>Selection\<close>

fun sticky_pick :: "rat \<Rightarrow> rat \<Rightarrow> pack_version list \<Rightarrow> pack_version option" where
  \<comment> \<open>the loop over the cumulative weights\<close>
  "sticky_pick threshold cumulative [] = None"
| "sticky_pick threshold cumulative (pv # pvs) =
     (if threshold \<le> cumulative + pv_weight pv then Some pv
      else sticky_pick threshold (cumulative + pv_weight pv) pvs)"

fun choices_pick :: "rat \<Rightarrow> rat \<Rightarrow> pack_version list \<Rightarrow> pack_version option" where
  \<comment> \<open>\<open>random.choices\<close>: bisection (to the right) of the cumulative weights but the last\<close>
  "choices_pick x cumulative [] = None"
| "choices_pick x cumulative [pv] = Some pv"
| "choices_pick x cumulative (pv # pv' # pvs) =
     (if x < cumulative + pv_weight pv then Some pv
      else choices_pick x (cumulative + pv_weight pv) (pv' # pvs))"

definition total_weight :: "pack_version list \<Rightarrow> rat" where
  "total_weight vs = sum_list (map pv_weight vs)"

definition max_digest :: rat where "max_digest = 4294967295"   \<comment> \<open>\<open>0xFFFFFFFF\<close>\<close>

definition sticky_threshold :: "nat \<Rightarrow> pack_version list \<Rightarrow> rat" where
  "sticky_threshold digest32 vs = of_nat digest32 / max_digest * total_weight vs"

definition select_weighted ::
  "(string \<Rightarrow> nat) \<Rightarrow> rat \<Rightarrow> string option \<Rightarrow> pack_version list \<Rightarrow> pack_version option" where
  "select_weighted digest32 rnd affinity_key versions =
     (if attr_text affinity_key \<noteq> []
      then (case sticky_pick (sticky_threshold (digest32 (attr_text affinity_key)) versions) 0 versions of
              Some pv \<Rightarrow> Some pv
            | None \<Rightarrow> (if versions = [] then None else Some (last versions)))
      else choices_pick (rnd * total_weight versions) 0 versions)"

definition get_pack ::
  "(string \<Rightarrow> nat) \<Rightarrow> rat \<Rightarrow> string \<Rightarrow> string option \<Rightarrow> string option \<Rightarrow> registry \<Rightarrow> pack_class result" where
  "get_pack digest32 rnd pid version affinity_key reg =
     rbind (get_versions pid reg) (\<lambda>versions.
       case version of
         Some v \<Rightarrow> (case find (\<lambda>pv. pv_version pv = v) versions of
                      None \<Rightarrow> Inl KeyError | Some pv \<Rightarrow> Inr (pv_cls pv))
       | None \<Rightarrow>
           if length versions = 1 then Inr (pv_cls (hd versions))
           else if total_weight versions = 0 then Inl KeyError
           else (case select_weighted digest32 rnd affinity_key versions of
                   None \<Rightarrow> Inl OtherError | Some pv \<Rightarrow> Inr (pv_cls pv)))"

section \<open>Weights\<close>

fun put_weight :: "string \<Rightarrow> rat \<Rightarrow> pack_version list \<Rightarrow> pack_version list option" where
  "put_weight v w [] = None"
| "put_weight v w (pv # pvs) =
     (if pv_version pv = v then Some (pv\<lparr>pv_weight := w\<rparr> # pvs)
      else map_option ((#) pv) (put_weight v w pvs))"

fun set_weights_loop :: "(string \<times> rat) list \<Rightarrow> pack_version list \<Rightarrow> exn option \<times> pack_version list" where
  \<comment> \<open>what was set before an error stays set\<close>
  "set_weights_loop [] versions = (None, versions)"
| "set_weights_loop ((v, w) # ws) versions =
     (if w < 0 then (Some ValueError, versions)
      else (case put_weight v w versions of
              None \<Rightarrow> (Some KeyError, versions)
            | Some versions' \<Rightarrow> set_weights_loop ws versions'))"

definition set_weights :: "string \<Rightarrow> (string \<times> rat) list \<Rightarrow> registry \<Rightarrow> exn option \<times> registry" where
  "set_weights pid ws reg =
     (case map_of reg pid of
        None \<Rightarrow> (Some KeyError, reg)
      | Some versions \<Rightarrow>
          (case set_weights_loop ws versions of
             (err, versions') \<Rightarrow> (err, AList.update pid versions' reg)))"

section \<open>The registry invariant\<close>

definition versions_ok :: "pack_version list \<Rightarrow> bool" where
  "versions_ok vs \<longleftrightarrow> vs \<noteq> [] \<and> distinct (map pv_version vs) \<and> (\<forall>pv\<in>set vs. 0 \<le> pv_weight pv)"

definition registry_ok :: "registry \<Rightarrow> bool" where
  "registry_ok reg \<longleftrightarrow> distinct (map fst reg) \<and>
     (\<forall>(pid, vs)\<in>set reg. pid \<noteq> [] \<and> versions_ok vs
        \<and> (\<forall>pv\<in>set vs. attr_text (pc_id (pv_cls pv)) = pid))"

lemma put_version_set:
  "set (put_version pv vs) \<subseteq> insert pv (set vs)" "pv \<in> set (put_version pv vs)"
  by (induction vs) auto

lemma put_version_versions:
  "pv_version ` set (put_version pv vs) = insert (pv_version pv) (pv_version ` set vs)"
  by (induction vs) auto

lemma put_version_distinct: "distinct (map pv_version vs) \<Longrightarrow> distinct (map pv_version (put_version pv vs))"
  by (induction vs) (auto simp flip: set_map simp: put_version_versions [simplified image_set])

lemma put_version_find:
  "find (\<lambda>e. pv_version e = v) (put_version pv vs) =
     (if v = pv_version pv then Some pv else find (\<lambda>e. pv_version e = v) vs)"
  by (induction vs) auto

lemma put_weight_versions: "put_weight v w vs = Some vs' \<Longrightarrow> map pv_version vs' = map pv_version vs"
  by (induction vs arbitrary: vs') (auto split: if_splits)

lemma put_weight_cls: "put_weight v w vs = Some vs' \<Longrightarrow> map pv_cls vs' = map pv_cls vs"
  by (induction vs arbitrary: vs') (auto split: if_splits)

lemma put_weight_weights:
  "put_weight v w vs = Some vs' \<Longrightarrow> 0 \<le> w \<Longrightarrow> \<forall>pv\<in>set vs. 0 \<le> pv_weight pv \<Longrightarrow> \<forall>pv\<in>set vs'. 0 \<le> pv_weight pv"
  by (induction vs arbitrary: vs') (auto split: if_splits)

lemma set_weights_loop_keeps:
  "set_weights_loop ws vs = (err, vs') \<Longrightarrow>
   map pv_version vs' = map pv_version vs \<and> map pv_cls vs' = map pv_cls vs
   \<and> ((\<forall>pv\<in>set vs. 0 \<le> pv_weight pv) \<longrightarrow> (\<forall>pv\<in>set vs'. 0 \<le> pv_weight pv))"
proof (induction ws vs rule: set_weights_loop.induct)
  case (2 v w ws versions)
  then show ?case
    using put_weight_versions [of v w versions] put_weight_cls [of v w versions]
      put_weight_weights [of v w versions]
    by (force split: if_splits option.splits)
qed auto

lemma alist_update_mem: "(k', v') \<in> set (AList.update k v al) \<Longrightarrow> distinct (map fst al) \<Longrightarrow>
    (k' = k \<and> v' = v) \<or> (k' \<noteq> k \<and> (k', v') \<in> set al)"
  by (induction al) (force split: if_splits)+

lemma registry_ok_get: "registry_ok reg \<Longrightarrow> map_of reg pid = Some vs \<Longrightarrow>
    versions_ok vs \<and> pid \<noteq> [] \<and> (\<forall>pv\<in>set vs. attr_text (pc_id (pv_cls pv)) = pid)"
  by (drule map_of_SomeD) (auto simp: registry_ok_def)

lemma registry_ok_update:
  assumes "registry_ok reg" "versions_ok vs" "pid \<noteq> []" "\<forall>pv\<in>set vs. attr_text (pc_id (pv_cls pv)) = pid"
  shows "registry_ok (AList.update pid vs reg)"
proof -
  have "distinct (map fst reg)" using assms(1) by (simp add: registry_ok_def)
  with alist_update_mem [of _ _ pid vs reg] assms show ?thesis
    by (fastforce simp: registry_ok_def distinct_update)
qed

lemma versions_ok_put: "versions_ok vs \<Longrightarrow> 0 \<le> pv_weight pv \<Longrightarrow> versions_ok (put_version pv vs)"
  using put_version_set [of pv vs] by (auto simp: versions_ok_def put_version_distinct)

definition new_version :: "pack_class \<Rightarrow> pack_version" where
  "new_version c = \<lparr>pv_version = (case pc_version c of None \<Rightarrow> ''1.0'' | Some v \<Rightarrow> v),
     pv_cls = c, pv_weight = 1\<rparr>"

lemma register_Inr:
  "register c reg = Inr reg' \<longleftrightarrow>
     attr_text (pc_id c) \<noteq> [] \<and> attr_text (pc_name c) \<noteq> [] \<and> attr_text (pc_description c) \<noteq> []
     \<and> reg' = AList.update (attr_text (pc_id c))
         (put_version (new_version c) (case map_of reg (attr_text (pc_id c)) of None \<Rightarrow> [] | Some vs \<Rightarrow> vs)) reg"
  by (auto simp: register_def pack_version_init_def new_version_def Let_def split: option.splits)

lemma register_ok:
  assumes ok: "registry_ok reg" and r: "register c reg = Inr reg'"
  shows "registry_ok reg'"
proof -
  let ?vs = "case map_of reg (attr_text (pc_id c)) of None \<Rightarrow> [] | Some vs \<Rightarrow> vs"
  have "versions_ok (put_version (new_version c) ?vs)"
    using registry_ok_get [OF ok]
    by (auto simp: versions_ok_put new_version_def split: option.splits) (simp_all add: versions_ok_def)
  moreover have "\<forall>pv\<in>set (put_version (new_version c) ?vs). attr_text (pc_id (pv_cls pv)) = attr_text (pc_id c)"
    using registry_ok_get [OF ok, of "attr_text (pc_id c)"] put_version_set(1) [of "new_version c" ?vs]
    by (fastforce simp: new_version_def split: option.splits)
  ultimately show ?thesis using ok r by (auto simp: register_Inr intro: registry_ok_update)
qed

lemma set_weights_ok:
  assumes ok: "registry_ok reg"
  shows "registry_ok (snd (set_weights pid ws reg))"
proof (cases "map_of reg pid")
  case (Some vs)
  obtain err vs' where l: "set_weights_loop ws vs = (err, vs')" by fastforce
  have "versions_ok vs'" and "\<forall>pv\<in>set vs'. attr_text (pc_id (pv_cls pv)) = pid"
    using set_weights_loop_keeps [OF l] registry_ok_get [OF ok Some]
    by (auto simp: versions_ok_def) (metis in_set_conv_nth length_map nth_map)
  then show ?thesis using registry_ok_get [OF ok Some] ok
    by (simp add: set_weights_def Some l registry_ok_update)
qed (simp add: set_weights_def ok)

lemma sticky_pick_Some:
  "sticky_pick thr cum vs = Some pv \<Longrightarrow>
   \<exists>a b. vs = a @ pv # b \<and> thr \<le> cum + total_weight a + pv_weight pv \<and> (a = [] \<or> cum + total_weight a < thr)"
proof (induction thr cum vs rule: sticky_pick.induct)
  case (2 thr cum p ps)
  show ?case
  proof (cases "thr \<le> cum + pv_weight p")
    case True
    with 2 show ?thesis by (intro exI [of _ "[]"] exI [of _ ps]) (auto simp: total_weight_def)
  next
    case False
    with 2 obtain a b where "ps = a @ pv # b"
      "thr \<le> cum + pv_weight p + total_weight a + pv_weight pv"
      "a = [] \<or> cum + pv_weight p + total_weight a < thr" by fastforce
    with False show ?thesis
      by (intro exI [of _ "p # a"] exI [of _ b]) (auto simp: total_weight_def algebra_simps)
  qed
qed simp

lemma sticky_pick_None: "sticky_pick thr cum vs = None \<Longrightarrow> vs = [] \<or> cum + total_weight vs < thr"
  by (induction thr cum vs rule: sticky_pick.induct) (auto simp: total_weight_def add.assoc split: if_splits)

lemma choices_pick_total: "vs \<noteq> [] \<Longrightarrow> \<exists>pv. choices_pick x cum vs = Some pv"
  by (induction x cum vs rule: choices_pick.induct) auto

lemma choices_pick_Some:
  "choices_pick x cum vs = Some pv \<Longrightarrow> cum \<le> x \<Longrightarrow> x < cum + total_weight vs \<Longrightarrow>
   \<exists>a b. vs = a @ pv # b \<and> cum + total_weight a \<le> x \<and> x < cum + total_weight a + pv_weight pv"
proof (induction x cum vs rule: choices_pick.induct)
  case (2 x cum p)
  then show ?case by (intro exI [of _ "[]"]) (auto simp: total_weight_def)
next
  case (3 x cum p q ps)
  show ?case
  proof (cases "x < cum + pv_weight p")
    case True
    with 3 show ?thesis by (intro exI [of _ "[]"] exI [of _ "q # ps"]) (auto simp: total_weight_def)
  next
    case False
    with 3 obtain a b where "q # ps = a @ pv # b"
      "cum + pv_weight p + total_weight a \<le> x" "x < cum + pv_weight p + total_weight a + pv_weight pv"
      by (fastforce simp: total_weight_def algebra_simps)
    then show ?thesis
      by (intro exI [of _ "p # a"] exI [of _ b]) (auto simp: total_weight_def algebra_simps)
  qed
qed simp

lemma total_weight_nonneg: "\<forall>pv\<in>set vs. 0 \<le> pv_weight pv \<Longrightarrow> 0 \<le> total_weight vs"
  by (auto simp: total_weight_def intro!: sum_list_nonneg)

lemma find_Some_mem: "find P xs = Some x \<Longrightarrow> x \<in> set xs \<and> P x"
  by (auto simp: find_Some_iff)

section \<open>Properties of the registry\<close>

datatype reg_cmd = Register pack_class | SetWeights string "(string \<times> rat) list"

fun run_cmd :: "reg_cmd \<Rightarrow> registry \<Rightarrow> registry" where
  \<comment> \<open>an operation that raises leaves what it had done\<close>
  "run_cmd (Register c) reg = (case register c reg of Inl e \<Rightarrow> reg | Inr reg' \<Rightarrow> reg')"
| "run_cmd (SetWeights pid ws) reg = snd (set_weights pid ws reg)"

definition pick_point :: "(string \<Rightarrow> nat) \<Rightarrow> rat \<Rightarrow> string option \<Rightarrow> pack_version list \<Rightarrow> rat" where
  \<comment> \<open>where on the line of cumulative weights the choice falls\<close>
  "pick_point digest32 rnd key vs =
     (if attr_text key \<noteq> [] then sticky_threshold (digest32 (attr_text key)) vs else rnd * total_weight vs)"

lemma cmds_ok: "registry_ok reg \<Longrightarrow> registry_ok (fold run_cmd cmds reg)"
proof (induction cmds arbitrary: reg)
  case (Cons c cmds)
  have "registry_ok (run_cmd c reg)" using Cons.prems
    by (cases c) (auto simp: set_weights_ok intro: register_ok split: sum.splits)
  from Cons.IH [OF this] show ?case by simp
qed simp

lemma sticky_threshold_le:
  assumes "\<forall>pv\<in>set vs. 0 \<le> pv_weight pv" "of_nat d \<le> max_digest"
  shows "sticky_threshold d vs \<le> total_weight vs"
proof -
  have "of_nat d / max_digest \<le> 1" using assms(2) by (simp add: max_digest_def)
  then show ?thesis unfolding sticky_threshold_def
    using mult_right_mono [OF _ total_weight_nonneg [OF assms(1)]] by fastforce
qed

lemma select_weighted_Some:
  assumes vs: "versions_ok vs" and pos: "total_weight vs \<noteq> 0"
    and rnd: "0 \<le> rnd" "rnd < 1" and d: "\<forall>k. of_nat (digest32 k) \<le> max_digest"
  shows "\<exists>a pv b. select_weighted digest32 rnd key vs = Some pv \<and> vs = a @ pv # b
     \<and> (a = [] \<or> total_weight a \<le> pick_point digest32 rnd key vs)
     \<and> pick_point digest32 rnd key vs \<le> total_weight a + pv_weight pv
     \<and> (0 < pick_point digest32 rnd key vs \<or> attr_text key = [] \<longrightarrow> 0 < pv_weight pv)"
proof (cases "attr_text key = []")
  case True
  have ne: "vs \<noteq> []" and nn: "\<forall>pv\<in>set vs. 0 \<le> pv_weight pv" using vs by (auto simp: versions_ok_def)
  have t: "0 < total_weight vs" using total_weight_nonneg [OF nn] pos by simp
  let ?x = "rnd * total_weight vs"
  have x: "0 \<le> ?x" "?x < 0 + total_weight vs" using rnd t by simp_all
  obtain pv where p: "choices_pick ?x 0 vs = Some pv" using choices_pick_total [OF ne] by blast
  from choices_pick_Some [OF this x] obtain a b where
    "vs = a @ pv # b" "total_weight a \<le> ?x" "?x < total_weight a + pv_weight pv" by auto
  with p True show ?thesis by (intro exI [of _ a] exI [of _ pv] exI [of _ b])
      (auto simp: select_weighted_def pick_point_def)
next
  case False
  have ne: "vs \<noteq> []" and nn: "\<forall>pv\<in>set vs. 0 \<le> pv_weight pv" using vs by (auto simp: versions_ok_def)
  let ?t = "sticky_threshold (digest32 (attr_text key)) vs"
  have "?t \<le> total_weight vs" using sticky_threshold_le [OF nn] d by blast
  then obtain pv where p: "sticky_pick ?t 0 vs = Some pv"
    using sticky_pick_None [of ?t 0 vs] ne by (cases "sticky_pick ?t 0 vs") auto
  from sticky_pick_Some [OF this] obtain a b where
    "vs = a @ pv # b" "?t \<le> total_weight a + pv_weight pv" "a = [] \<or> total_weight a < ?t" by auto
  with p False show ?thesis by (intro exI [of _ a] exI [of _ pv] exI [of _ b])
      (auto simp: select_weighted_def pick_point_def total_weight_def)
qed

text \<open>After any sequence of registrations and weight updates, failed ones included, every
  pack has at least one version, versions of a pack are distinct, no weight is negative and
  each class sits under its own \<open>pack_id\<close>; a lookup then either yields a class of that pack,
  of the requested version if one was requested, or is a \<open>KeyError\<close> for exactly the
  documented reasons.\<close>

theorem registry_lookup_total:
  assumes "reg = fold run_cmd cmds []" and "0 \<le> rnd" and "rnd < 1"
    and "\<forall>k. of_nat (digest32 k) \<le> max_digest"
  shows "registry_ok reg \<and>
    (case get_pack digest32 rnd pid version key reg of
       Inr c \<Rightarrow> \<exists>vs. map_of reg pid = Some vs \<and> (\<exists>pv\<in>set vs. pv_cls pv = c
                  \<and> (\<forall>v. version = Some v \<longrightarrow> pv_version pv = v)) \<and> attr_text (pc_id c) = pid
     | Inl e \<Rightarrow> e = KeyError \<and>
         (case map_of reg pid of
            None \<Rightarrow> True
          | Some vs \<Rightarrow> (case version of
              Some v \<Rightarrow> v \<notin> set (map pv_version vs)
            | None \<Rightarrow> 1 < length vs \<and> (\<forall>pv\<in>set vs. pv_weight pv = 0))))"
proof -
  have ok: "registry_ok reg" unfolding assms(1) by (rule cmds_ok) (simp add: registry_ok_def)
  show ?thesis
  proof (cases "map_of reg pid")
    case None
    with ok show ?thesis by (simp add: get_pack_def get_versions_def)
  next
    case (Some vs)
    have vs: "versions_ok vs" and id: "\<forall>pv\<in>set vs. attr_text (pc_id (pv_cls pv)) = pid"
      using registry_ok_get [OF ok Some] by auto
    show ?thesis
    proof (cases version)
      case (Some v)
      with \<open>map_of reg pid = Some vs\<close> ok id show ?thesis
        by (auto simp: get_pack_def get_versions_def find_None_iff
            split: option.splits dest!: find_Some_mem)
    next
      case None
      have zero: "\<forall>pv\<in>set vs. pv_weight pv = 0" if "total_weight vs = 0"
        using that vs sum_list_nonneg_eq_0_iff [of "map pv_weight vs"]
        by (auto simp: versions_ok_def total_weight_def)
      have ne: "vs \<noteq> []" using vs by (simp add: versions_ok_def)
      then have len: "length vs \<noteq> 1 \<Longrightarrow> 1 < length vs" by (cases vs) auto
      have hd: "hd vs \<in> set vs" using ne by simp
      have sel: "\<exists>pv\<in>set vs. select_weighted digest32 rnd key vs = Some pv" if "total_weight vs \<noteq> 0"
        using select_weighted_Some [where key = key, OF vs that assms(2,3,4)]
        by (metis in_set_conv_decomp)
      from \<open>map_of reg pid = Some vs\<close> None ok id zero len hd sel show ?thesis
        by (cases "length vs = 1"; cases "total_weight vs = 0")
          (auto simp: get_pack_def get_versions_def)
    qed
  qed
qed

text \<open>A lookup without a version picks a version in proportion to its weight: the choice
  point (the caller's digest, or the random number, scaled to the total) lies in the interval
  of the line of cumulative weights that belongs to the version; so a version of weight 0 is
  never served, unless the digest is 0.\<close>

theorem weighted_lookup_by_interval:
  assumes "registry_ok reg" and "map_of reg pid = Some vs" and "1 < length vs"
    and "get_pack digest32 rnd pid None key reg = Inr c"
    and "0 \<le> rnd" and "rnd < 1" and "\<forall>k. of_nat (digest32 k) \<le> max_digest"
  shows "\<exists>a pv b. vs = a @ pv # b \<and> pv_cls pv = c
    \<and> (a = [] \<or> total_weight a \<le> pick_point digest32 rnd key vs)
    \<and> pick_point digest32 rnd key vs \<le> total_weight a + pv_weight pv
    \<and> (0 < pick_point digest32 rnd key vs \<or> attr_text key = [] \<longrightarrow> 0 < pv_weight pv)"
proof -
  have vs: "versions_ok vs" using registry_ok_get [OF assms(1,2)] by blast
  have pos: "total_weight vs \<noteq> 0" and sel: "\<exists>pv. select_weighted digest32 rnd key vs = Some pv \<and> pv_cls pv = c"
    using assms(2,3,4) by (auto simp: get_pack_def get_versions_def split: option.splits if_splits)
  obtain a pv b where s: "select_weighted digest32 rnd key vs = Some pv" and r: "vs = a @ pv # b"
    "a = [] \<or> total_weight a \<le> pick_point digest32 rnd key vs"
    "pick_point digest32 rnd key vs \<le> total_weight a + pv_weight pv"
    "0 < pick_point digest32 rnd key vs \<or> attr_text key = [] \<longrightarrow> 0 < pv_weight pv"
    using select_weighted_Some [where key = key, OF vs pos assms(5,6,7)] by blast
  have "pv_cls pv = c" using sel s by simp
  with r show ?thesis by blast
qed

text \<open>A caller whose digest begins with 32 zero bits is served the first version of the
  list whatever its weight, so also one that was drained by setting its weight to 0.\<close>

theorem sticky_zero_digest_serves_drained_version:
  assumes "map_of reg pid = Some (pv # vs)" and "vs \<noteq> []" and "total_weight (pv # vs) \<noteq> 0"
    and "pv_weight pv = 0" and "key \<noteq> []" and "digest32 key = 0"
  shows "get_pack digest32 rnd pid None (Some key) reg = Inr (pv_cls pv)"
  using assms by (auto simp: get_pack_def get_versions_def select_weighted_def attr_text_def
      sticky_threshold_def)

definition weight_of :: "pack_version list \<Rightarrow> string \<Rightarrow> rat option" where
  "weight_of vs v = map_option pv_weight (find (\<lambda>pv. pv_version pv = v) vs)"

definition versions_of :: "string \<Rightarrow> registry \<Rightarrow> pack_version list" where
  "versions_of pid reg = (case map_of reg pid of None \<Rightarrow> [] | Some vs \<Rightarrow> vs)"

lemma put_weight_of:
  "put_weight v w vs = Some vs' \<Longrightarrow> weight_of vs' = (weight_of vs)(v \<mapsto> w)"
  by (induction vs arbitrary: vs') (auto simp: weight_of_def fun_eq_iff split: if_splits)

lemma put_weight_None: "put_weight v w vs = None \<longleftrightarrow> v \<notin> pv_version ` set vs"
  by (induction vs) auto

lemma set_weights_loop_effect:
  "set_weights_loop ws vs = (err, vs') \<Longrightarrow>
   \<exists>n. weight_of vs' = weight_of vs ++ map_of (rev (take n ws))
     \<and> (n = length ws \<and> err = None
        \<or> n < length ws \<and> err = Some (if snd (ws ! n) < 0 then ValueError else KeyError)
          \<and> (snd (ws ! n) < 0 \<or> fst (ws ! n) \<notin> pv_version ` set vs))"
proof (induction ws vs rule: set_weights_loop.induct)
  case (2 v w ws vs)
  show ?case
  proof (cases "w < 0 \<or> put_weight v w vs = None")
    case True
    then have "vs' = vs \<and> err = Some (if w < 0 then ValueError else KeyError)"
      and "w < 0 \<or> v \<notin> pv_version ` set vs"
      using 2 put_weight_None [of v w vs] by (auto split: if_splits option.splits)
    then show ?thesis by (intro exI [of _ 0]) simp
  next
    case False
    then obtain vs1 where p: "put_weight v w vs = Some vs1" by auto
    with 2(2) False have l: "set_weights_loop ws vs1 = (err, vs')" by simp
    from False have "\<not> w < 0" by simp
    from 2(1) [OF this p l] obtain n where n:
      "weight_of vs' = weight_of vs1 ++ map_of (rev (take n ws))"
      "n = length ws \<and> err = None
        \<or> n < length ws \<and> err = Some (if snd (ws ! n) < 0 then ValueError else KeyError)
          \<and> (snd (ws ! n) < 0 \<or> fst (ws ! n) \<notin> pv_version ` set vs1)" by blast
    have "pv_version ` set vs1 = pv_version ` set vs"
      using put_weight_versions [OF p] by (metis image_set)
    with n show ?thesis
      by (intro exI [of _ "Suc n"]) (simp add: put_weight_of [OF p])
  qed
qed (auto intro!: exI [of _ 0])

text \<open>\<open>set_weights\<close> changes weights and nothing else, and only of the named pack. Without an
  error every listed version has its (last) listed weight and the others keep theirs; with an
  error exactly the entries before the offending one have been applied.\<close>

theorem set_weights_effect:
  assumes "set_weights pid ws reg = (err, reg')"
  shows "(\<forall>q. q \<noteq> pid \<longrightarrow> map_of reg' q = map_of reg q)
    \<and> map pv_cls (versions_of pid reg') = map pv_cls (versions_of pid reg)
    \<and> map pv_version (versions_of pid reg') = map pv_version (versions_of pid reg)
    \<and> (\<exists>n. weight_of (versions_of pid reg') = weight_of (versions_of pid reg) ++ map_of (rev (take n ws))
        \<and> (case err of
             None \<Rightarrow> n = length ws
           | Some e \<Rightarrow> (map_of reg pid = None \<and> n = 0)
               \<or> (n < length ws \<and> (snd (ws ! n) < 0
                    \<or> fst (ws ! n) \<notin> pv_version ` set (versions_of pid reg)))))"
proof (cases "map_of reg pid")
  case None
  with assms show ?thesis by (auto simp: set_weights_def intro!: exI [of _ 0])
next
  case (Some vs)
  obtain vs' where l: "set_weights_loop ws vs = (err, vs')" and r: "reg' = AList.update pid vs' reg"
    using assms by (auto simp: set_weights_def Some split: prod.splits)
  have v: "versions_of pid reg' = vs'" "versions_of pid reg = vs" by (simp_all add: r versions_of_def Some)
  from set_weights_loop_effect [OF l] obtain n where
    "weight_of vs' = weight_of vs ++ map_of (rev (take n ws))"
    "n = length ws \<and> err = None \<or> n < length ws \<and> err = Some (if snd (ws ! n) < 0 then ValueError else KeyError)
       \<and> (snd (ws ! n) < 0 \<or> fst (ws ! n) \<notin> pv_version ` set vs)" by blast
  with set_weights_loop_keeps [OF l] show ?thesis unfolding v
    by (auto simp: r intro!: exI [of _ n])
qed

section \<open>Built-in packs\<close>

definition builtin_class :: "string \<Rightarrow> string \<Rightarrow> string \<Rightarrow> string \<Rightarrow> pack_class" where
  \<comment> \<open>a subclass that inherits \<open>version = "1.0"\<close> and forbids extra fields in both schemas\<close>
  "builtin_class ref pid name descr =
     \<lparr>pc_ref = ref, pc_is_base_pack = True, pc_id = Some pid, pc_name = Some name,
      pc_description = Some descr, pc_version = Some ''1.0'',
      pc_input = Model (Some ''forbid''), pc_output = Model (Some ''forbid'')\<rparr>"

definition all_builtin_pack_classes :: "pack_class list" where
  "all_builtin_pack_classes =
    [builtin_class ''ResearchAnalysisPack'' ''research_analysis''
       ''Research + Analysis''
       ''Sequences a ResearchAgent and an AnalystAgent to turn a free-text query into a structured AnalysisReport.'',
     builtin_class ''ResearchOnlyPack'' ''research_only''
       ''Research Only''
       ''Runs a single ResearchAgent to collect findings and a summary without an analysis phase.'',
     builtin_class ''SummariserPack'' ''summariser''
       ''Text Summariser''
       ''Summarises text into a configurable number of bullet points.'',
     builtin_class ''AnalysisOnlyPack'' ''analysis_only''
       ''Analysis Only''
       ''Runs AnalystAgent on pre-collected research findings and summary without a live research phase.'',
     builtin_class ''MeetingPrepPack'' ''meeting_prep''
       ''Meeting Prep''
       ''Generates a structured sales meeting brief: company overview, news, talking points, questions, and landmines.'',
     builtin_class ''RfpAssistantPack'' ''rfp_assistant''
       ''RFP Assistant''
       ''Analyses an RFP document: extracts requirements, gaps, risks, and drafts a response plan with section outlines.'',
     builtin_class ''SupportTriagePack'' ''support_triage''
       ''Support Triage''
       ''Triages a support ticket: category, priority, sentiment, draft reply, and escalation recommendation.'',
     builtin_class ''ExecutiveBriefPack'' ''executive_brief''
       ''Executive Brief''
       ''Distils long content into executive bullets, a 'so what', recommended decisions, and risks for a target audience.'',
     builtin_class ''ContractReviewerPack'' ''contract_reviewer''
       ''Contract Reviewer''
       ''Reviews a contract against standard playbook expectations: flags risky clauses, deviations, and recommended actions.'',
     builtin_class ''FinancialMemoPack'' ''financial_memo''
       ''Financial Memo''
       ''Produces a SCQA-style financial/strategy memo: situation, complications, options, recommendation, risks, and next steps.'',
     builtin_class ''TalentScreeningPack'' ''talent_screening''
       ''Talent Screening''
       ''Screens a candidate resume against a job description: fit score, skill gaps, interview questions, and red flags.'',
     builtin_class ''JobDescriptionWriterPack'' ''job_description_writer''
       ''Job Description Writer''
       ''Drafts an inclusive job description, competency matrix, screening rubric, and bias-check notes from hiring-manager inputs.'',
     builtin_class ''HrPolicyQaPack'' ''hr_policy_qa''
       ''HR Policy Q&A''
       ''Answers employee HR policy questions with citations, confidence, and escalation guidance when sensitive.''
    ]"

fun register_all :: "pack_class list \<Rightarrow> registry \<Rightarrow> registry result" where
  "register_all [] reg = Inr reg"
| "register_all (c # cs) reg = rbind (register c reg) (register_all cs)"

definition register_builtin_packs :: "registry \<Rightarrow> registry result" where
  "register_builtin_packs reg = register_all all_builtin_pack_classes reg"

section \<open>Plugin packs\<close>

text \<open>An entry point is its name and what \<open>load()\<close> gives: \<open>None\<close> when the import raises.\<close>

type_synonym entry_point = "string \<times> pack_class option"

definition schema_is_strict :: "schema_attr \<Rightarrow> bool" where
  "schema_is_strict s = (s = Model (Some ''forbid''))"

definition validate_plugin_pack_class :: "pack_class \<Rightarrow> pack_class result" where
  "validate_plugin_pack_class c =
     (if \<not> pc_is_base_pack c then Inl PluginPackError
      else if \<exists>a\<in>set [pc_id c, pc_name c, pc_description c, pc_version c]. attr_text a = [] then Inl PluginPackError
      else if \<exists>s\<in>set [pc_input c, pc_output c]. s = NoSchema \<or> s = NotModel \<or> \<not> schema_is_strict s
        then Inl PluginPackError
      else Inr c)"

fun discover_loop :: "string list \<Rightarrow> entry_point list \<Rightarrow> pack_class list" where
  "discover_loop allowed [] = []"
| "discover_loop allowed ((n, loaded) # eps) =
     (if n \<notin> set allowed then discover_loop allowed eps
      else (case loaded of
              None \<Rightarrow> discover_loop allowed eps
            | Some c \<Rightarrow> (case validate_plugin_pack_class c of
                           Inl e \<Rightarrow> discover_loop allowed eps
                         | Inr c' \<Rightarrow> c' # discover_loop allowed eps)))"

definition discover_plugin_packs :: "string list \<Rightarrow> entry_point list \<Rightarrow> pack_class list" where
  "discover_plugin_packs allowlist eps = (if allowlist = [] then [] else discover_loop allowlist eps)"

fun register_plugins_loop ::
  "string list \<Rightarrow> pack_class list \<Rightarrow> string list \<Rightarrow> registry \<Rightarrow> (string list \<times> registry) result" where
  "register_plugins_loop existing [] registered reg = Inr (registered, reg)"
| "register_plugins_loop existing (c # cs) registered reg =
     (let pid = attr_text (pc_id c)
      in if pid \<in> set existing \<and> pid \<notin> set registered
         then register_plugins_loop existing cs registered reg
         else rbind (register c reg) (register_plugins_loop existing cs
                (if pid \<in> set registered then registered else registered @ [pid])))"

definition register_plugin_packs ::
  "bool \<Rightarrow> string list \<Rightarrow> entry_point list \<Rightarrow> registry \<Rightarrow> (string list \<times> registry) result" where
  "register_plugin_packs enabled allowlist eps reg =
     (if \<not> enabled then Inr ([], reg)
      else if allowlist = [] then Inr ([], reg)
      else register_plugins_loop (list_packs reg) (discover_plugin_packs allowlist eps) [] reg)"

lemma discover_loop_set:
  "c \<in> set (discover_loop allowed eps) \<longleftrightarrow>
     (\<exists>n\<in>set allowed. (n, Some c) \<in> set eps \<and> validate_plugin_pack_class c = Inr c)"
proof (induction allowed eps rule: discover_loop.induct)
  case (2 allowed n loaded eps)
  have v: "validate_plugin_pack_class d = Inr d' \<Longrightarrow> d' = d \<and> validate_plugin_pack_class d = Inr d" for d d'
    by (auto simp: validate_plugin_pack_class_def split: if_splits)
  from 2 show ?case by (auto split: option.splits sum.splits dest: v)
qed simp

lemma validated_registers:
  "validate_plugin_pack_class c = Inr c \<Longrightarrow> \<exists>reg'. register c reg = Inr reg'"
  by (auto simp: validate_plugin_pack_class_def register_Inr split: if_splits)

lemma list_packs_set: "set (list_packs reg) = fst ` set reg"
  by (simp add: list_packs_def)

lemma register_other: "register c reg = Inr reg' \<Longrightarrow> q \<noteq> attr_text (pc_id c) \<Longrightarrow> map_of reg' q = map_of reg q"
  by (auto simp: register_Inr)

lemma register_plugins_loop_total:
  assumes "\<forall>c\<in>set cs. validate_plugin_pack_class c = Inr c" "set registered \<inter> set existing = {}"
  shows "\<exists>ids reg'. register_plugins_loop existing cs registered reg = Inr (ids, reg')
    \<and> (\<forall>q\<in>set existing. map_of reg' q = map_of reg q) \<and> set ids \<inter> set existing = {}
    \<and> (\<forall>q. map_of reg' q \<noteq> map_of reg q \<longrightarrow> (\<exists>c\<in>set cs. q = attr_text (pc_id c)))"
  using assms
proof (induction existing cs registered reg rule: register_plugins_loop.induct)
  case (2 existing c cs registered reg)
  let ?pid = "attr_text (pc_id c)"
  show ?case
  proof (cases "?pid \<in> set existing")
    case True
    with 2 have "?pid \<notin> set registered" by auto
    with 2 True show ?thesis by (auto simp: Let_def)
  next
    case False
    obtain reg1 where r: "register c reg = Inr reg1" using 2(3) validated_registers by force
    let ?regd = "if ?pid \<in> set registered then registered else registered @ [?pid]"
    have "set ?regd \<inter> set existing = {}" using 2(4) False by auto
    then have "\<exists>ids reg'. register_plugins_loop existing cs ?regd reg1 = Inr (ids, reg')
      \<and> (\<forall>q\<in>set existing. map_of reg' q = map_of reg1 q) \<and> set ids \<inter> set existing = {}
      \<and> (\<forall>q. map_of reg' q \<noteq> map_of reg1 q \<longrightarrow> (\<exists>c\<in>set cs. q = attr_text (pc_id c)))"
      using 2(2) [OF refl, of reg1] 2(3) False r by (simp add: Let_def)
    then obtain ids reg' where l: "register_plugins_loop existing cs ?regd reg1 = Inr (ids, reg')"
      "\<forall>q\<in>set existing. map_of reg' q = map_of reg1 q" "set ids \<inter> set existing = {}"
      "\<forall>q. map_of reg' q \<noteq> map_of reg1 q \<longrightarrow> (\<exists>c\<in>set cs. q = attr_text (pc_id c))"
      by blast
    have "map_of reg1 q = map_of reg q" if "q \<noteq> ?pid" for q using register_other [OF r that] .
    with l False r show ?thesis by (auto simp: Let_def) (metis+)
  qed
qed auto

text \<open>Plugin packs are deny-by-default and cannot displace anything: with plugins disabled
  or an empty allowlist the registry is unchanged; otherwise registration never fails, every
  pack id that existed keeps exactly its versions, and whatever changed stems from an
  allowlisted entry point whose class meets the contract, strict schemas included.\<close>

theorem plugins_cannot_override:
  "\<exists>ids reg'. register_plugin_packs enabled allowlist eps reg = Inr (ids, reg')
    \<and> (\<not> enabled \<or> allowlist = [] \<longrightarrow> ids = [] \<and> reg' = reg)
    \<and> (\<forall>q\<in>set (list_packs reg). map_of reg' q = map_of reg q \<and> q \<notin> set ids)
    \<and> (\<forall>q. map_of reg' q \<noteq> map_of reg q \<longrightarrow>
         (\<exists>n c. n \<in> set allowlist \<and> (n, Some c) \<in> set eps \<and> q = attr_text (pc_id c)
            \<and> validate_plugin_pack_class c = Inr c))"
proof (cases "\<not> enabled \<or> allowlist = []")
  case False
  have d: "\<forall>c\<in>set (discover_plugin_packs allowlist eps). validate_plugin_pack_class c = Inr c"
    by (auto simp: discover_plugin_packs_def discover_loop_set)
  obtain ids reg' where
    l: "register_plugins_loop (list_packs reg) (discover_plugin_packs allowlist eps) [] reg = Inr (ids, reg')"
      "\<forall>q\<in>set (list_packs reg). map_of reg' q = map_of reg q" "set ids \<inter> set (list_packs reg) = {}"
    and ch: "\<forall>q. map_of reg' q \<noteq> map_of reg q \<longrightarrow>
        (\<exists>c\<in>set (discover_plugin_packs allowlist eps). q = attr_text (pc_id c))"
    using register_plugins_loop_total [OF d, of "[]" "list_packs reg" reg] by auto
  have "\<exists>n c. n \<in> set allowlist \<and> (n, Some c) \<in> set eps \<and> q = attr_text (pc_id c)
      \<and> validate_plugin_pack_class c = Inr c" if "map_of reg' q \<noteq> map_of reg q" for q
  proof -
    from ch that obtain c where "c \<in> set (discover_loop allowlist eps)" "q = attr_text (pc_id c)"
      by (auto simp: discover_plugin_packs_def split: if_splits)
    then show ?thesis unfolding discover_loop_set by blast
  qed
  with l False show ?thesis by (auto simp: register_plugin_packs_def)
qed (auto simp: register_plugin_packs_def)

text \<open>Start-up registers the thirteen built-in packs, each once, under distinct ids, and
  each can then be looked up under its only version.\<close>

theorem builtin_packs_registered:
  "\<exists>reg. register_builtin_packs [] = Inr reg \<and> length reg = 13 \<and> registry_ok reg
     \<and> (\<forall>c\<in>set all_builtin_pack_classes.
          get_pack digest32 rnd (attr_text (pc_id c)) None key reg = Inr c)"
proof -
  have "register_builtin_packs [] = Inr (map (\<lambda>c. (attr_text (pc_id c), [new_version c])) all_builtin_pack_classes)"
    by code_simp
  moreover have "registry_ok (map (\<lambda>c. (attr_text (pc_id c), [new_version c])) all_builtin_pack_classes)"
  proof -
    have "distinct (map (\<lambda>c. attr_text (pc_id c)) all_builtin_pack_classes)"
      and "\<forall>c\<in>set all_builtin_pack_classes. attr_text (pc_id c) \<noteq> []" by code_simp+
    then show ?thesis by (auto simp: registry_ok_def versions_ok_def new_version_def comp_def)
  qed
  moreover have "get_pack digest32 rnd (attr_text (pc_id c)) None key
      (map (\<lambda>c. (attr_text (pc_id c), [new_version c])) all_builtin_pack_classes) = Inr c"
    if "c \<in> set all_builtin_pack_classes" for c
  proof -
    have "\<forall>c\<in>set all_builtin_pack_classes. map_of (map (\<lambda>c. (attr_text (pc_id c), [new_version c]))
        all_builtin_pack_classes) (attr_text (pc_id c)) = Some [new_version c]" by code_simp
    with that show ?thesis by (simp add: get_pack_def get_versions_def new_version_def)
  qed
  moreover have "length all_builtin_pack_classes = 13" by code_simp
  ultimately show ?thesis by (intro exI conjI ballI) simp_all
qed

section \<open>Witnesses\<close>

definition demo_class :: "string \<Rightarrow> pack_class" where
  "demo_class v = \<lparr>pc_ref = v, pc_is_base_pack = True, pc_id = Some ''p'', pc_name = Some ''P'',
     pc_description = Some ''d'', pc_version = Some v, pc_input = NoSchema, pc_output = NoSchema\<rparr>"

definition demo_cmds :: "reg_cmd list" where
  "demo_cmds = [Register (demo_class ''1''), Register (demo_class ''2''), SetWeights ''p'' [(''1'', 0)]]"

definition demo_versions :: "pack_version list" where
  "demo_versions = [\<lparr>pv_version = ''1'', pv_cls = demo_class ''1'', pv_weight = 0\<rparr>,
     \<lparr>pv_version = ''2'', pv_cls = demo_class ''2'', pv_weight = 1\<rparr>]"

lemma demo_registry: "fold run_cmd demo_cmds [] = [(''p'', demo_versions)]"
  by (simp add: demo_cmds_def demo_versions_def demo_class_def register_def attr_text_def
      pack_version_init_def set_weights_def Let_def)

lemma demo_registry_ok: "registry_ok [(''p'', demo_versions)]"
  by (simp add: registry_ok_def versions_ok_def demo_versions_def demo_class_def attr_text_def)

theorem registry_lookup_total_witness:
  "registry_ok [(''p'', demo_versions)] \<and>
   (case get_pack (\<lambda>_. 5) 0 ''p'' (Some ''2'') None [(''p'', demo_versions)] of
      Inr c \<Rightarrow> attr_text (pc_id c) = ''p'' | Inl e \<Rightarrow> False)"
  using registry_lookup_total [OF demo_registry [symmetric], where rnd = 0 and ?digest32.0 = "\<lambda>_. 5"
      and pid = "''p''" and version = "Some ''2''" and key = None]
  by (simp add: max_digest_def get_pack_def get_versions_def demo_versions_def demo_class_def)

theorem weighted_lookup_by_interval_witness:
  "\<exists>a pv b. demo_versions = a @ pv # b \<and> pv_cls pv = demo_class ''2'' \<and> 0 < pv_weight pv"
proof -
  have "get_pack (\<lambda>_. 5) 0 ''p'' None (Some ''k'') [(''p'', demo_versions)] = Inr (demo_class ''2'')"
    by (simp add: get_pack_def get_versions_def demo_versions_def total_weight_def
        select_weighted_def attr_text_def sticky_threshold_def max_digest_def)
  from weighted_lookup_by_interval [OF demo_registry_ok _ _ this]
  show ?thesis
    by (fastforce simp: demo_versions_def max_digest_def pick_point_def attr_text_def
        sticky_threshold_def total_weight_def)
qed

theorem sticky_zero_digest_serves_drained_version_witness:
  "get_pack (\<lambda>_. 0) 0 ''p'' None (Some ''k'') [(''p'', demo_versions)] = Inr (demo_class ''1'')"
  using sticky_zero_digest_serves_drained_version
    [where reg = "[(''p'', demo_versions)]" and pid = "''p''" and pv = "hd demo_versions"
      and vs = "tl demo_versions" and key = "''k''" and ?digest32.0 = "\<lambda>_. 0" and rnd = 0]
  by (simp add: demo_versions_def total_weight_def)

theorem set_weights_effect_witness:
  "map pv_version (versions_of ''p'' (snd (set_weights ''p'' [(''2'', 3), (''x'', 1)] [(''p'', demo_versions)])))
     = [''1'', ''2'']
   \<and> fst (set_weights ''p'' [(''2'', 3), (''x'', 1)] [(''p'', demo_versions)]) = Some KeyError"
  using set_weights_effect [OF prod.collapse [symmetric],
      where pid = "''p''" and ws = "[(''2'', 3), (''x'', 1)]" and reg = "[(''p'', demo_versions)]"]
  by (simp add: demo_versions_def set_weights_def versions_of_def)

theorem plugins_cannot_override_witness:
  "\<exists>ids reg'. register_plugin_packs True [''a''] [(''a'', Some (demo_class ''2''))] [(''p'', demo_versions)] = Inr (ids, reg')
     \<and> map_of reg' ''p'' = Some demo_versions \<and> ''p'' \<notin> set ids"
proof -
  have "''p'' \<in> set (list_packs [(''p'', demo_versions)])" by (simp add: list_packs_def)
  with plugins_cannot_override [of True "[''a'']" "[(''a'', Some (demo_class ''2''))]" "[(''p'', demo_versions)]"]
  show ?thesis by fastforce
qed

end
