(* ===== verification/Policies.thy ===== *)
theory Policies
  imports InputSafety
begin

text \<open>
  The control plane: pack policies and their registry (\<open>control_plane/policies.py\<close>,
  \<open>registry.py\<close>, the built-in table of \<open>__init__.py\<close>), their enforcement at the API
  boundary (\<open>enforce.py\<close>) and the compliance rules of regulated packs
  (\<open>domain_packs/common/compliance.py\<close>).
\<close>

section \<open>Policies and their registry\<close>

record execution_constraints =
  max_query_chars :: "int option"
  policy_stream_timeout :: "rat option"
  budget_usd_ceiling :: "rat option"

record pack_policy =
  pol_pack_id :: string
  constraints :: execution_constraints
  labels :: "string list"
  human_review_required :: bool
  compliance_disclaimer :: "string option"
  extensions :: pydict

type_synonym policy_registry = "(string \<times> pack_policy) list"

definition register_policy :: "pack_policy \<Rightarrow> policy_registry \<Rightarrow> policy_registry result" where
  "register_policy p reg = (if pol_pack_id p = [] then Inl ValueError else Inr (AList.update (pol_pack_id p) p reg))"

definition get_policy :: "policy_registry \<Rightarrow> string \<Rightarrow> pack_policy option" where
  "get_policy reg pid = map_of reg pid"

definition list_policies :: "policy_registry \<Rightarrow> string list" where
  "list_policies reg = sort (map fst reg)"

section \<open>Disclaimers\<close>

definition TALENT_SCREENING_DISCLAIMER :: string where
  "TALENT_SCREENING_DISCLAIMER =
     ''ASSISTIVE OUTPUT ONLY '' @
     em_dash @
     '' NOT A HIRING DECISION. This screening summary is generated by AI and must not be '' @
     ''used as the sole basis for any employment decision. A qualified human reviewer must '' @
     ''evaluate every candidate. Candidates may have rights regarding automated processing '' @
     ''(e.g. GDPR Art. 22, Qu'' @
     [CHR 0xE9] @
     ''bec Law 25, NYC Local Law 144). Operators are responsible for applicable bias '' @
     ''audits, candidate notices, and regulatory compliance (including EU AI Act high-risk '' @
     ''requirements for recruitment AI where applicable).''"

definition JOB_DESCRIPTION_WRITER_DISCLAIMER :: string where
  "JOB_DESCRIPTION_WRITER_DISCLAIMER =
     ''ASSISTIVE OUTPUT ONLY '' @
     em_dash @
     '' NOT APPROVED FOR PUBLICATION. This job description draft must be reviewed and '' @
     ''approved by HR and legal/compliance before posting. It may reflect model biases; '' @
     ''validate inclusive language and legal requirements in your jurisdiction.''"

definition HR_POLICY_QA_DISCLAIMER :: string where
  "HR_POLICY_QA_DISCLAIMER =
     ''INFORMATIONAL ONLY '' @
     em_dash @
     '' NOT LEGAL OR HR ADVICE. Answers are generated from supplied policy text and may be '' @
     ''incomplete or outdated. Employees with rights regarding automated processing must '' @
     ''receive appropriate notice. Escalate to qualified HR/legal staff for binding '' @
     ''interpretations.''"

definition CONTRACT_REVIEWER_DISCLAIMER :: string where
  "CONTRACT_REVIEWER_DISCLAIMER =
     ''ASSISTIVE OUTPUT ONLY '' @
     em_dash @
     '' NOT LEGAL ADVICE. This contract review is generated by AI and does not constitute '' @
     ''legal counsel. A qualified attorney must review all commercial agreements before '' @
     ''execution.''"

definition FINANCIAL_MEMO_DISCLAIMER :: string where
  "FINANCIAL_MEMO_DISCLAIMER =
     ''ASSISTIVE OUTPUT ONLY '' @
     em_dash @
     '' NOT FINANCIAL OR INVESTMENT ADVICE. This memo is generated by AI for internal '' @
     ''drafting purposes. A qualified finance professional must validate all figures, '' @
     ''assumptions, and recommendations before decisions.''"

definition DEFAULT_DISCLAIMERS :: "(string \<times> string) list" where
  "DEFAULT_DISCLAIMERS =
    [(''talent_screening'', TALENT_SCREENING_DISCLAIMER),
     (''job_description_writer'', JOB_DESCRIPTION_WRITER_DISCLAIMER),
     (''hr_policy_qa'', HR_POLICY_QA_DISCLAIMER),
     (''contract_reviewer'', CONTRACT_REVIEWER_DISCLAIMER),
     (''financial_memo'', FINANCIAL_MEMO_DISCLAIMER)]"

definition REGULATED_PACK_IDS :: "string list" where
  "REGULATED_PACK_IDS = map fst DEFAULT_DISCLAIMERS"

definition default_disclaimer_for_pack :: "string \<Rightarrow> string option" where
  "default_disclaimer_for_pack pid = map_of DEFAULT_DISCLAIMERS pid"

definition assert_regulated_pack_runtime_enabled :: "string \<Rightarrow> bool \<Rightarrow> unit result" where
  "assert_regulated_pack_runtime_enabled pid enabled =
     (if pid \<in> set REGULATED_PACK_IDS \<and> \<not> enabled then Inl ValueError else Inr ())"

definition GENERIC_DISCLAIMER :: string where
  "GENERIC_DISCLAIMER =
     ''ASSISTIVE OUTPUT ONLY. A qualified human must review this output '' @
     ''before any operational or legal use.''"

definition apply_compliance_output :: "policy_registry \<Rightarrow> string \<Rightarrow> pydict \<Rightarrow> pydict" where
  "apply_compliance_output reg pid data =
     (case get_policy reg pid of
        None \<Rightarrow> data
      | Some policy \<Rightarrow>
          if \<not> human_review_required policy then data
          else
            (let own = (case compliance_disclaimer policy of None \<Rightarrow> [] | Some s \<Rightarrow> s);
                 dflt = (case default_disclaimer_for_pack pid of None \<Rightarrow> [] | Some s \<Rightarrow> s);
                 d = (if own \<noteq> [] then own else dflt);
                 disclaimer = (if d = [] then GENERIC_DISCLAIMER else d)
             in AList.update ''disclaimer'' (VStr disclaimer)
                  (AList.update ''human_review_required'' (VBool True) data)))"

section \<open>The built-in table\<close>

definition plain_policy :: "string \<Rightarrow> int \<Rightarrow> string list \<Rightarrow> pack_policy" where
  "plain_policy pid chars ls =
     \<lparr>pol_pack_id = pid,
      constraints = \<lparr>max_query_chars = Some chars, policy_stream_timeout = None, budget_usd_ceiling = None\<rparr>,
      labels = ls, human_review_required = False, compliance_disclaimer = None, extensions = []\<rparr>"

definition regulated_policy :: "string \<Rightarrow> int \<Rightarrow> string list \<Rightarrow> string \<Rightarrow> pack_policy" where
  "regulated_policy pid chars ls disclaimer =
     (plain_policy pid chars ls)\<lparr>human_review_required := True, compliance_disclaimer := Some disclaimer,
        extensions := [(''output_integrity_fail_closed'', VBool True)]\<rparr>"

definition BUILTIN_POLICIES :: "pack_policy list" where
  "BUILTIN_POLICIES =
    [plain_policy ''research_analysis'' 2000 [''default'', ''full-pipeline''],
     plain_policy ''research_only'' 2000 [''research-only''],
     plain_policy ''summariser'' 4000 [''single-agent'', ''summarise''],
     plain_policy ''analysis_only'' 2000 [''analysis-only''],
     plain_policy ''meeting_prep'' 2000 [''sales'', ''meeting-prep''],
     plain_policy ''rfp_assistant'' 500 [''sales'', ''rfp'', ''rag''],
     plain_policy ''support_triage'' 8000 [''support'', ''single-agent''],
     plain_policy ''executive_brief'' 20000 [''executive'', ''summarise''],
     regulated_policy ''contract_reviewer'' 500 [''legal'', ''rag'', ''regulated'']
       CONTRACT_REVIEWER_DISCLAIMER,
     regulated_policy ''financial_memo'' 2000 [''finance'', ''strategy'', ''regulated'']
       FINANCIAL_MEMO_DISCLAIMER,
     regulated_policy ''talent_screening'' 10000 [''hr'', ''recruiting'', ''regulated'']
       TALENT_SCREENING_DISCLAIMER,
     regulated_policy ''job_description_writer'' 2000 [''hr'', ''recruiting'', ''regulated'']
       JOB_DESCRIPTION_WRITER_DISCLAIMER,
     regulated_policy ''hr_policy_qa'' 2000 [''hr'', ''rag'', ''regulated'']
       HR_POLICY_QA_DISCLAIMER]"

fun register_policies :: "pack_policy list \<Rightarrow> policy_registry \<Rightarrow> policy_registry result" where
  "register_policies [] reg = Inr reg"
| "register_policies (p # ps) reg = rbind (register_policy p reg) (register_policies ps)"

definition builtin_registry :: policy_registry where
  \<comment> \<open>the registry after the import of \<open>control_plane\<close>\<close>
  "builtin_registry = (case register_policies BUILTIN_POLICIES [] of Inl e \<Rightarrow> [] | Inr reg \<Rightarrow> reg)"

section \<open>Enforcement\<close>

record limits =   \<comment> \<open>what \<open>enforce.py\<close> reads of \<open>Settings\<close>\<close>
  pack_default_budget_usd :: "rat option"
  stream_timeout_seconds :: rat

definition effective_budget_usd :: "policy_registry \<Rightarrow> string \<Rightarrow> limits \<Rightarrow> rat option" where
  "effective_budget_usd reg pid st =
     (case pack_default_budget_usd st of
        Some b \<Rightarrow> Some b
      | None \<Rightarrow> (case get_policy reg pid of
                   None \<Rightarrow> None | Some p \<Rightarrow> budget_usd_ceiling (constraints p)))"

definition effective_stream_timeout_seconds :: "policy_registry \<Rightarrow> string \<Rightarrow> limits \<Rightarrow> rat" where
  "effective_stream_timeout_seconds reg pid st =
     (case get_policy reg pid of
        None \<Rightarrow> stream_timeout_seconds st
      | Some p \<Rightarrow> (case policy_stream_timeout (constraints p) of
          None \<Rightarrow> stream_timeout_seconds st
        | Some cap \<Rightarrow> min (stream_timeout_seconds st) cap))"

definition policy_max_chars :: "policy_registry \<Rightarrow> string \<Rightarrow> int option" where
  "policy_max_chars reg pid =
     (case get_policy reg pid of None \<Rightarrow> None | Some p \<Rightarrow> max_query_chars (constraints p))"

definition validate_query_for_pack ::
  "policy_registry \<Rightarrow> string \<Rightarrow> string \<Rightarrow> input_validator \<Rightarrow> string result" where
  "validate_query_for_pack reg query pid v =
     (case policy_max_chars reg pid of
        None \<Rightarrow> validate v query
      | Some m \<Rightarrow> if m < int (length query) then Inl ValueError else validate v query)"

text \<open>\<open>validate_pack_body\<close>: the body is \<open>model_dump()\<close>, \<open>field_max\<close> the \<open>maxLength\<close> of a
  property of the JSON schema.\<close>

fun check_items :: "input_validator \<Rightarrow> int \<Rightarrow> pyval list \<Rightarrow> unit result" where
  "check_items v cap [] = Inr ()"
| "check_items v cap (VStr s # xs) =
     (if s = [] then check_items v cap xs
      else rbind (check_content_safety v s (Some cap)) (\<lambda>_. check_items v cap xs))"
| "check_items v cap (_ # xs) = check_items v cap xs"

fun check_fields :: "input_validator \<Rightarrow> (string \<Rightarrow> int option) \<Rightarrow> int \<Rightarrow> pydict \<Rightarrow> unit result" where
  "check_fields v field_max fallback [] = Inr ()"
| "check_fields v field_max fallback ((name, val) # fs) =
     rbind
       (case val of
          VStr s \<Rightarrow> if s = [] then Inr ()
                    else map_sum id (\<lambda>_. ()) (check_content_safety v s
                      (Some (case field_max name of None \<Rightarrow> fallback | Some m \<Rightarrow> m)))
        | VList xs \<Rightarrow> check_items v fallback xs
        | _ \<Rightarrow> Inr ())
       (\<lambda>_. check_fields v field_max fallback fs)"

definition validate_pack_body ::
  "policy_registry \<Rightarrow> pydict \<Rightarrow> (string \<Rightarrow> int option) \<Rightarrow> string \<Rightarrow> input_validator \<Rightarrow> unit result" where
  "validate_pack_body reg body field_max pid v =
     check_fields v field_max
       (case policy_max_chars reg pid of None \<Rightarrow> max_length v | Some m \<Rightarrow> m) body"

section \<open>Properties\<close>

lemma builtin_registry_eq: "builtin_registry = map (\<lambda>p. (pol_pack_id p, p)) BUILTIN_POLICIES"
  by code_simp

lemma builtin_lookup:
  "get_policy builtin_registry pid = find (\<lambda>p. pol_pack_id p = pid) BUILTIN_POLICIES"
proof -
  have "map_of (map (\<lambda>p. (pol_pack_id p, p)) ps) pid = find (\<lambda>p. pol_pack_id p = pid) ps" for ps :: "pack_policy list"
    by (induction ps) auto
  then show ?thesis by (simp add: get_policy_def builtin_registry_eq)
qed

text \<open>The regulated rows of the table, by name.\<close>

lemma regulated_rows:
  "list_all (\<lambda>pid. case get_policy builtin_registry pid of
       None \<Rightarrow> False
     | Some p \<Rightarrow> human_review_required p \<and> compliance_disclaimer p = map_of DEFAULT_DISCLAIMERS pid
         \<and> map_of DEFAULT_DISCLAIMERS pid \<noteq> None \<and> map_of DEFAULT_DISCLAIMERS pid \<noteq> Some []
         \<and> dget (extensions p) ''output_integrity_fail_closed'' = VBool True) REGULATED_PACK_IDS"
  by code_simp

lemma unregulated_rows:
  "list_all (\<lambda>p. human_review_required p \<longleftrightarrow> pol_pack_id p \<in> set REGULATED_PACK_IDS) BUILTIN_POLICIES"
  by code_simp

lemma compliance_applied:
  assumes "pid \<in> set REGULATED_PACK_IDS"
  shows "dget (apply_compliance_output builtin_registry pid data) ''human_review_required'' = VBool True
     \<and> (\<exists>d. map_of DEFAULT_DISCLAIMERS pid = Some d \<and> d \<noteq> []
          \<and> dget (apply_compliance_output builtin_registry pid data) ''disclaimer'' = VStr d)
     \<and> (\<forall>k. k = ''human_review_required'' \<or> k = ''disclaimer''
          \<or> dget (apply_compliance_output builtin_registry pid data) k = dget data k)"
proof -
  obtain p where "get_policy builtin_registry pid = Some p" "human_review_required p"
    "compliance_disclaimer p = map_of DEFAULT_DISCLAIMERS pid" and "map_of DEFAULT_DISCLAIMERS pid \<noteq> None"
    "map_of DEFAULT_DISCLAIMERS pid \<noteq> Some []"
    using regulated_rows assms by (auto simp: list_all_iff split: option.splits)
  then show ?thesis by (auto simp: apply_compliance_output_def dget_update Let_def)
qed

text \<open>Whatever the model produced, the output of a regulated built-in pack carries the
  pack's own, non-empty disclaimer and the human-review flag; no other field is touched; and
  every other built-in pack's output is returned as it is.\<close>

theorem regulated_outputs_carry_disclaimer:
  "if pid \<in> set REGULATED_PACK_IDS
   then dget (apply_compliance_output builtin_registry pid data) ''human_review_required'' = VBool True
     \<and> (\<exists>d. map_of DEFAULT_DISCLAIMERS pid = Some d \<and> d \<noteq> []
          \<and> dget (apply_compliance_output builtin_registry pid data) ''disclaimer'' = VStr d)
     \<and> (\<forall>k. k = ''human_review_required'' \<or> k = ''disclaimer''
          \<or> dget (apply_compliance_output builtin_registry pid data) k = dget data k)
   else apply_compliance_output builtin_registry pid data = data"
proof (cases "pid \<in> set REGULATED_PACK_IDS")
  case True
  then show ?thesis using compliance_applied [OF True, of data] by simp
next
  case False
  have "\<not> human_review_required p" if "get_policy builtin_registry pid = Some p" for p
    using that False unregulated_rows
    by (auto simp: builtin_lookup list_all_iff find_Some_iff)
  with False show ?thesis by (auto simp: apply_compliance_output_def split: option.splits)
qed

text \<open>The governance tables agree with one another: a built-in policy demands human review
  exactly for the regulated packs, which are exactly those whose runs are refused without the
  operator's opt-in, and whose policies also demand that integrity failures close the output.\<close>

theorem regulated_tables_agree:
  "(assert_regulated_pack_runtime_enabled pid enabled = Inl ValueError \<longleftrightarrow>
      \<not> enabled \<and> (\<exists>p. get_policy builtin_registry pid = Some p \<and> human_review_required p))
   \<and> (pid \<in> set REGULATED_PACK_IDS \<longleftrightarrow>
      (\<exists>p. get_policy builtin_registry pid = Some p \<and> human_review_required p
         \<and> dget (extensions p) ''output_integrity_fail_closed'' = VBool True))"
proof -
  have "pid \<in> set REGULATED_PACK_IDS"
    if "get_policy builtin_registry pid = Some p" "human_review_required p" for p
    using that unregulated_rows by (auto simp: builtin_lookup list_all_iff find_Some_iff)
  moreover have "\<exists>p. get_policy builtin_registry pid = Some p \<and> human_review_required p
      \<and> dget (extensions p) ''output_integrity_fail_closed'' = VBool True"
    if "pid \<in> set REGULATED_PACK_IDS"
    using that regulated_rows by (auto simp: list_all_iff split: option.splits)
  ultimately show ?thesis by (auto simp: assert_regulated_pack_runtime_enabled_def)
qed

text \<open>A query is accepted for a pack exactly when it satisfies both length limits, the
  pack's and the validator's, and holds no NUL byte; then the sanitised text is returned.\<close>

theorem query_accepted_iff:
  "validate_query_for_pack reg q pid v =
     (if (case policy_max_chars reg pid of None \<Rightarrow> True | Some m \<Rightarrow> int (length q) \<le> m)
         \<and> int (length q) \<le> max_length v \<and> CHR 0x00 \<notin> set q
      then Inr (collapse_newlines (strip q)) else Inl ValueError)"
  by (auto simp: validate_query_for_pack_def validate_eq split: option.splits)

text \<open>With the validator the API uses (2000 characters) the larger limits of four built-in
  policies can never apply: every query over 2000 characters is refused for every pack.\<close>

theorem larger_policy_limits_unreachable:
  assumes "2000 < length q"
  shows "validate_query_for_pack builtin_registry q pid \<lparr>max_length = DEFAULT_MAX_LENGTH\<rparr> = Inl ValueError
    \<and> map (policy_max_chars builtin_registry)
        [''summariser'', ''support_triage'', ''executive_brief'', ''talent_screening'']
      = [Some 4000, Some 8000, Some 20000, Some 10000]"
proof -
  have "map (policy_max_chars builtin_registry)
      [''summariser'', ''support_triage'', ''executive_brief'', ''talent_screening'']
      = [Some 4000, Some 8000, Some 20000, Some 10000]" by code_simp
  with assms show ?thesis by (simp add: validate_query_for_pack_def validate_eq DEFAULT_MAX_LENGTH_def
        split: option.split)
qed

theorem larger_policy_limits_unreachable_witness:
  "validate_query_for_pack builtin_registry (replicate 3000 CHR ''a'') ''summariser''
     \<lparr>max_length = DEFAULT_MAX_LENGTH\<rparr> = Inl ValueError"
  using larger_policy_limits_unreachable [of "replicate 3000 CHR ''a''" "''summariser''"] by simp

definition text_safe :: "int \<Rightarrow> string \<Rightarrow> bool" where
  "text_safe cap s \<longleftrightarrow> s = [] \<or> (int (length s) \<le> cap \<and> CHR 0x00 \<notin> set s)"

fun field_safe :: "(string \<Rightarrow> int option) \<Rightarrow> int \<Rightarrow> string \<times> pyval \<Rightarrow> bool" where
  "field_safe field_max fallback (name, VStr s) =
     text_safe (case field_max name of None \<Rightarrow> fallback | Some m \<Rightarrow> m) s"
| "field_safe field_max fallback (name, VList xs) =
     (\<forall>x\<in>set xs. case x of VStr s \<Rightarrow> text_safe fallback s | _ \<Rightarrow> True)"
| "field_safe field_max fallback (name, _) = True"

lemma check_items_eq:
  "check_items v cap xs = (if \<forall>x\<in>set xs. case x of VStr s \<Rightarrow> text_safe cap s | _ \<Rightarrow> True
     then Inr () else Inl ValueError)"
  by (induction v cap xs rule: check_items.induct)
    (auto simp: text_safe_def check_content_safety_Inr split: if_splits)

lemma check_fields_eq:
  "check_fields v fm fb fs = (if \<forall>f\<in>set fs. field_safe fm fb f then Inr () else Inl ValueError)"
proof (induction fs)
  case (Cons f fs)
  obtain name val where f: "f = (name, val)" by fastforce
  show ?case using Cons.IH
    by (cases val) (auto simp: f check_items_eq text_safe_def check_content_safety_Inr split: if_splits)
qed simp

text \<open>A typed body passes the scan exactly when every non-empty string field is free of NUL
  bytes and within its own schema limit, or the pack's limit if it has none, and every
  non-empty string in a list field is within the pack's limit.\<close>

theorem body_scan_exact:
  "validate_pack_body reg body field_max pid v =
     (if \<forall>f\<in>set body. field_safe field_max
          (case policy_max_chars reg pid of None \<Rightarrow> max_length v | Some m \<Rightarrow> m) f
      then Inr () else Inl ValueError)"
  by (simp add: validate_pack_body_def check_fields_eq)

theorem body_scan_exact_witness:
  "validate_pack_body builtin_registry [(''query'', VStr ''hi''), (''tags'', VList [VStr [CHR 0x00]])]
     (\<lambda>_. None) ''rfp_assistant'' \<lparr>max_length = 2000\<rparr> = Inl ValueError"
  by (subst body_scan_exact) (auto simp: text_safe_def split: option.splits)

text \<open>The stream time-out of a pack is the smaller of the global one and the policy's cap,
  so a policy can only tighten it; a global budget, when set, replaces the policy's ceiling.\<close>

theorem policy_caps_only_tighten:
  "effective_stream_timeout_seconds reg pid st \<le> stream_timeout_seconds st
   \<and> (case get_policy reg pid of None \<Rightarrow> effective_stream_timeout_seconds reg pid st = stream_timeout_seconds st
        | Some p \<Rightarrow> (case policy_stream_timeout (constraints p) of
            None \<Rightarrow> effective_stream_timeout_seconds reg pid st = stream_timeout_seconds st
          | Some cap \<Rightarrow> effective_stream_timeout_seconds reg pid st \<le> cap
              \<and> effective_stream_timeout_seconds reg pid st \<in> {cap, stream_timeout_seconds st}))
   \<and> effective_budget_usd reg pid st =
       (if pack_default_budget_usd st \<noteq> None then pack_default_budget_usd st
        else Option.bind (get_policy reg pid) (\<lambda>p. budget_usd_ceiling (constraints p)))"
  by (auto simp: effective_stream_timeout_seconds_def effective_budget_usd_def split: option.splits)

end
