(* ===== verification/Reviews.thy ===== *)
theory Reviews
  imports Prelude
begin

text \<open>
  The human-review queue of regulated outputs (\<open>core/review_store.py\<close>) with its two backends,
  the insertion-ordered dictionary and the SQLite table, and the \<open>/reviews\<close> endpoints
  (\<open>api/endpoints/reviews.py\<close>). Both backends implement one abstract queue. Of SQL the
  documented meaning of the statements used is modelled: a table is a list of rows with their
  \<open>AUTOINCREMENT\<close> ids, \<open>UNIQUE\<close> makes an insertion fail, \<open>ORDER BY id DESC\<close> sorts.
\<close>

section \<open>Records and checks\<close>

record review =
  rv_run_id :: string
  rv_pack_id :: string
  rv_session_id :: "string option"
  rv_status :: string
  rv_output_summary :: string
  rv_created_at :: string
  rv_decided_at :: "string option"
  rv_reviewer :: "string option"
  rv_notes :: "string option"

definition OUTPUT_SUMMARY_MAX_CHARS :: nat where "OUTPUT_SUMMARY_MAX_CHARS = 500"

definition VALID_DECISIONS :: "string list" where "VALID_DECISIONS = [''approved'', ''rejected'']"

definition summarize_output :: "(pyval \<Rightarrow> string option) \<Rightarrow> (pyval \<Rightarrow> string) \<Rightarrow> pyval \<Rightarrow> string" where
  \<comment> \<open>\<open>json.dumps\<close>, which may raise, and \<open>str\<close>\<close>
  "summarize_output json_dumps to_str payload =
     (if payload = VNone then []
      else take OUTPUT_SUMMARY_MAX_CHARS
        (case json_dumps payload of Some text \<Rightarrow> text | None \<Rightarrow> to_str payload))"

definition validate_decision_args :: "string \<Rightarrow> string \<Rightarrow> unit result" where
  "validate_decision_args status reviewer =
     (if status \<notin> set VALID_DECISIONS then Inl ValueError
      else if blank reviewer then Inl ValueError else Inr ())"

definition validate_list_args :: "int \<Rightarrow> int \<Rightarrow> unit result" where
  "validate_list_args limit offset =
     (if limit < 1 then Inl ValueError else if offset < 0 then Inl ValueError else Inr ())"

definition new_review :: "string \<Rightarrow> string \<Rightarrow> string option \<Rightarrow> string \<Rightarrow> string \<Rightarrow> review" where
  "new_review run pack sess summary now =
     \<lparr>rv_run_id = run, rv_pack_id = pack, rv_session_id = sess, rv_status = ''pending'',
      rv_output_summary = take OUTPUT_SUMMARY_MAX_CHARS summary, rv_created_at = now,
      rv_decided_at = None, rv_reviewer = None, rv_notes = None\<rparr>"

definition decided :: "string \<Rightarrow> string \<Rightarrow> string option \<Rightarrow> string \<Rightarrow> review \<Rightarrow> review" where
  "decided status reviewer notes now r =
     r\<lparr>rv_status := status, rv_decided_at := Some now, rv_reviewer := Some (strip reviewer), rv_notes := notes\<rparr>"

section \<open>\<open>InMemoryReviewStore\<close>\<close>

type_synonym mem_store = "(string \<times> review) list"

definition mem_create ::
  "mem_store \<Rightarrow> string \<Rightarrow> string \<Rightarrow> string option \<Rightarrow> string \<Rightarrow> string \<Rightarrow> (review \<times> mem_store) result" where
  "mem_create s run pack sess summary now =
     (if blank run then Inl ValueError
      else if blank pack then Inl ValueError
      else (let r = new_review run pack sess summary now
            in if map_of s run \<noteq> None then Inl ValueError
               else Inr (r, AList.update run r s)))"

definition mem_get :: "mem_store \<Rightarrow> string \<Rightarrow> review option" where
  "mem_get s run = map_of s run"

definition mem_list_reviews :: "mem_store \<Rightarrow> string option \<Rightarrow> int \<Rightarrow> int \<Rightarrow> review list result" where
  "mem_list_reviews s status limit offset =
     rbind (validate_list_args limit offset) (\<lambda>_.
       let records = filter (\<lambda>r. status = None \<or> status = Some (rv_status r)) (rev (map snd s))
       in Inr (take (nat limit) (drop (nat offset) records)))"

definition mem_decide ::
  "mem_store \<Rightarrow> string \<Rightarrow> string \<Rightarrow> string \<Rightarrow> string option \<Rightarrow> string \<Rightarrow> (review \<times> mem_store) result" where
  "mem_decide s run status reviewer notes now =
     rbind (validate_decision_args status reviewer) (\<lambda>_.
       case map_of s run of
         None \<Rightarrow> Inl ReviewNotFoundError
       | Some r \<Rightarrow>
           if rv_status r \<noteq> ''pending'' then Inl ReviewAlreadyDecidedError
           else (let r' = decided status reviewer notes now r in Inr (r', AList.update run r' s)))"

section \<open>\<open>SqliteReviewStore\<close>\<close>

record sql_store =
  rows :: "(nat \<times> review) list"
  last_id :: nat

definition sql_create ::
  "sql_store \<Rightarrow> string \<Rightarrow> string \<Rightarrow> string option \<Rightarrow> string \<Rightarrow> string \<Rightarrow> (review \<times> sql_store) result" where
  "sql_create s run pack sess summary now =
     (if blank run then Inl ValueError
      else if blank pack then Inl ValueError
      else if \<exists>row\<in>set (rows s). rv_run_id (snd row) = run then Inl ValueError
      else (let r = new_review run pack sess summary now
            in Inr (r, s\<lparr>rows := rows s @ [(Suc (last_id s), r)], last_id := Suc (last_id s)\<rparr>)))"

definition sql_get :: "sql_store \<Rightarrow> string \<Rightarrow> review option" where
  "sql_get s run = map_option snd (find (\<lambda>row. rv_run_id (snd row) = run) (rows s))"

definition sqlite_fits :: "int \<Rightarrow> int \<Rightarrow> bool" where
  \<comment> \<open>SQLite integers have 64 bits; \<open>sqlite3\<close> raises \<open>OverflowError\<close> for a larger argument\<close>
  "sqlite_fits limit offset \<longleftrightarrow> limit < 2 ^ 63 \<and> offset < 2 ^ 63"

definition sql_list_reviews :: "sql_store \<Rightarrow> string option \<Rightarrow> int \<Rightarrow> int \<Rightarrow> review list result" where
  "sql_list_reviews s status limit offset =
     rbind (validate_list_args limit offset) (\<lambda>_.
       if \<not> sqlite_fits limit offset then Inl OverflowError else
       let sel = (case status of None \<Rightarrow> rows s | Some st \<Rightarrow> filter (\<lambda>row. rv_status (snd row) = st) (rows s))
       in Inr (take (nat limit) (drop (nat offset) (map snd (rev (sort_key fst sel))))))"

definition sql_decide ::
  "sql_store \<Rightarrow> string \<Rightarrow> string \<Rightarrow> string \<Rightarrow> string option \<Rightarrow> string \<Rightarrow> (review \<times> sql_store) result" where
  "sql_decide s run status reviewer notes now =
     rbind (validate_decision_args status reviewer) (\<lambda>_.
       let hit = (\<lambda>row. rv_run_id (snd row) = run \<and> rv_status (snd row) = ''pending'');
           rows' = map (\<lambda>row. if hit row then (fst row, decided status reviewer notes now (snd row)) else row) (rows s);
           rowcount = length (filter hit (rows s))
       in if rowcount = 0
          then Inl (if sql_get s run = None then ReviewNotFoundError else ReviewAlreadyDecidedError)
          else (case sql_get (s\<lparr>rows := rows'\<rparr>) run of
                  None \<Rightarrow> Inl ReviewNotFoundError
                | Some r \<Rightarrow> Inr (r, s\<lparr>rows := rows'\<rparr>)))"

section \<open>The abstract queue\<close>

text \<open>A list of reviews, oldest first.\<close>

definition q_create ::
  "review list \<Rightarrow> string \<Rightarrow> string \<Rightarrow> string option \<Rightarrow> string \<Rightarrow> string \<Rightarrow> (review \<times> review list) result" where
  "q_create q run pack sess summary now =
     (if blank run \<or> blank pack \<or> run \<in> rv_run_id ` set q then Inl ValueError
      else Inr (new_review run pack sess summary now, q @ [new_review run pack sess summary now]))"

definition q_get :: "review list \<Rightarrow> string \<Rightarrow> review option" where
  "q_get q run = find (\<lambda>r. rv_run_id r = run) q"

definition q_list :: "review list \<Rightarrow> string option \<Rightarrow> int \<Rightarrow> int \<Rightarrow> review list result" where
  "q_list q status limit offset =
     (if limit < 1 \<or> offset < 0 then Inl ValueError
      else Inr (take (nat limit) (drop (nat offset)
             (rev (filter (\<lambda>r. status = None \<or> status = Some (rv_status r)) q)))))"

definition q_decide ::
  "review list \<Rightarrow> string \<Rightarrow> string \<Rightarrow> string \<Rightarrow> string option \<Rightarrow> string \<Rightarrow> (review \<times> review list) result" where
  "q_decide q run status reviewer notes now =
     (if status \<notin> set VALID_DECISIONS \<or> blank reviewer then Inl ValueError
      else (case q_get q run of
              None \<Rightarrow> Inl ReviewNotFoundError
            | Some r \<Rightarrow>
                if rv_status r \<noteq> ''pending'' then Inl ReviewAlreadyDecidedError
                else Inr (decided status reviewer notes now r,
                       map (\<lambda>x. if rv_run_id x = run then decided status reviewer notes now x else x) q)))"

datatype review_cmd =
    Create string string "string option" string string
  | Get string
  | ListReviews "string option" int int
  | Decide string string string "string option" string

datatype review_answer = AReview review | AMaybe "review option" | APage "review list" | AError exn

definition answer_write :: "'s \<Rightarrow> (review \<times> 's) result \<Rightarrow> review_answer \<times> 's" where
  "answer_write s r = (case r of Inl e \<Rightarrow> (AError e, s) | Inr (x, s') \<Rightarrow> (AReview x, s'))"

definition answer_list :: "'s \<Rightarrow> review list result \<Rightarrow> review_answer \<times> 's" where
  "answer_list s r = (case r of Inl e \<Rightarrow> (AError e, s) | Inr xs \<Rightarrow> (APage xs, s))"

fun exec_with where
  "exec_with create get lst decide s (Create run pack sess summary now) =
     answer_write s (create s run pack sess summary now)"
| "exec_with create get lst decide s (Get run) = (AMaybe (get s run), s)"
| "exec_with create get lst decide s (ListReviews status limit offset) = answer_list s (lst s status limit offset)"
| "exec_with create get lst decide s (Decide run status reviewer notes now) =
     answer_write s (decide s run status reviewer notes now)"

fun adapt :: "(int \<Rightarrow> int \<Rightarrow> bool) \<Rightarrow> review_cmd \<Rightarrow> review_answer \<Rightarrow> review_answer" where
  \<comment> \<open>the answer of a store whose listings take only arguments that fit\<close>
  "adapt fits (ListReviews status limit offset) (APage xs) =
     (if fits limit offset then APage xs else AError OverflowError)"
| "adapt fits c a = a"

lemma adapt_other [simp]:
  "adapt fits (Create run pack sess summary now) = id" "adapt fits (Get run) = id"
  "adapt fits (Decide run status reviewer nts now) = id"
  by (rule ext, simp)+

fun answers :: "('s \<Rightarrow> review_cmd \<Rightarrow> review_answer \<times> 's) \<Rightarrow> 's \<Rightarrow> review_cmd list \<Rightarrow> review_answer list" where
  "answers exec s [] = []"
| "answers exec s (c # cs) = fst (exec s c) # answers exec (snd (exec s c)) cs"

abbreviation q_exec :: "review list \<Rightarrow> review_cmd \<Rightarrow> review_answer \<times> review list" where
  "q_exec \<equiv> exec_with q_create q_get q_list q_decide"

locale review_store =
  fixes create :: "'s \<Rightarrow> string \<Rightarrow> string \<Rightarrow> string option \<Rightarrow> string \<Rightarrow> string \<Rightarrow> (review \<times> 's) result"
    and get :: "'s \<Rightarrow> string \<Rightarrow> review option"
    and lst :: "'s \<Rightarrow> string option \<Rightarrow> int \<Rightarrow> int \<Rightarrow> review list result"
    and decide :: "'s \<Rightarrow> string \<Rightarrow> string \<Rightarrow> string \<Rightarrow> string option \<Rightarrow> string \<Rightarrow> (review \<times> 's) result"
    and abs :: "'s \<Rightarrow> review list"
    and inv :: "'s \<Rightarrow> bool"
    and fits :: "int \<Rightarrow> int \<Rightarrow> bool"
  assumes create_abs: "inv s \<Longrightarrow> map_sum id (map_prod id abs) (create s run pack sess summary now)
        = q_create (abs s) run pack sess summary now"
    and get_abs: "inv s \<Longrightarrow> get s run = q_get (abs s) run"
    and lst_abs: "inv s \<Longrightarrow> lst s flt limit offset = rbind (q_list (abs s) flt limit offset)
        (\<lambda>rs. if fits limit offset then Inr rs else Inl OverflowError)"
    and decide_abs: "inv s \<Longrightarrow> map_sum id (map_prod id abs) (decide s run status reviewer notes now)
        = q_decide (abs s) run status reviewer notes now"
    and inv_create: "inv s \<Longrightarrow> create s run pack sess summary now = Inr (r, s') \<Longrightarrow> inv s'"
    and inv_decide: "inv s \<Longrightarrow> decide s run status reviewer notes now = Inr (r, s') \<Longrightarrow> inv s'"
begin

abbreviation exec :: "'s \<Rightarrow> review_cmd \<Rightarrow> review_answer \<times> 's" where
  "exec \<equiv> exec_with create get lst decide"

lemma write_sim:
  assumes "map_sum id (map_prod id abs) r = qr"
  shows "map_prod id abs (answer_write s r) = answer_write (abs s) qr"
  unfolding assms [symmetric] by (auto simp: answer_write_def split: sum.splits)

lemma exec_sim: "inv s \<Longrightarrow> map_prod id abs (exec s c) = map_prod (adapt fits c) id (q_exec (abs s) c)"
proof (cases c)
  case (ListReviews flt limit offset)
  moreover assume "inv s"
  ultimately show ?thesis by (cases "q_list (abs s) flt limit offset") (simp_all add: lst_abs answer_list_def)
qed (simp_all add: get_abs write_sim [OF create_abs] write_sim [OF decide_abs] prod.map_id)

lemma exec_inv: "inv s \<Longrightarrow> inv (snd (exec s c))"
  by (cases c) (auto simp: answer_write_def answer_list_def split: sum.splits intro: inv_create inv_decide)

lemma answers_sim: "inv s \<Longrightarrow> answers exec s cs = map2 (adapt fits) cs (answers q_exec (abs s) cs)"
proof (induction cs arbitrary: s)
  case (Cons c cs)
  from exec_sim [OF Cons.prems, of c]
  have "fst (exec s c) = adapt fits c (fst (q_exec (abs s) c))" "abs (snd (exec s c)) = snd (q_exec (abs s) c)"
    by (metis fst_map_prod id_apply, metis snd_map_prod id_apply)
  with Cons.IH [OF exec_inv [OF Cons.prems, of c]] show ?case by simp
qed simp

end

section \<open>Both backends implement the queue\<close>

definition mem_inv :: "mem_store \<Rightarrow> bool" where
  "mem_inv s \<longleftrightarrow> distinct (map fst s) \<and> (\<forall>(k, r)\<in>set s. rv_run_id r = k)"

definition sql_inv :: "sql_store \<Rightarrow> bool" where
  "sql_inv s \<longleftrightarrow> sorted (map fst (rows s)) \<and> distinct (map fst (rows s))
     \<and> (\<forall>row\<in>set (rows s). fst row \<le> last_id s) \<and> distinct (map (\<lambda>row. rv_run_id (snd row)) (rows s))"

lemma new_review_id [simp]: "rv_run_id (new_review run pack sess summary now) = run"
  by (simp add: new_review_def)

lemma decided_id [simp]: "rv_run_id (decided status reviewer notes now r) = rv_run_id r"
  by (simp add: decided_def)

lemma mem_keys: "mem_inv s \<Longrightarrow> rv_run_id ` snd ` set s = fst ` set s"
  by (force simp: mem_inv_def)

lemma mem_get_abs: "mem_inv s \<Longrightarrow> map_of s run = q_get (map snd s) run"
  by (induction s) (auto simp: q_get_def mem_inv_def)

lemma mem_update_abs:
  "mem_inv s \<Longrightarrow> map_of s run = Some r \<Longrightarrow>
   map snd (AList.update run (f r) s) = map (\<lambda>x. if rv_run_id x = run then f x else x) (map snd s)"
proof (induction s)
  case (Cons e s)
  obtain k x where e: "e = (k, x)" by (cases e) auto
  show ?case
  proof (cases "k = run")
    case True
    with Cons.prems have "\<forall>y\<in>snd ` set s. rv_run_id y \<noteq> run"
      by (force simp: mem_inv_def e)
    then have "map (\<lambda>x. if rv_run_id x = run then f x else x) (map snd s) = map snd s"
      by (simp add: map_idI)
    with Cons.prems True show ?thesis by (auto simp: e mem_inv_def)
  next
    case False
    with Cons show ?thesis by (auto simp: e mem_inv_def)
  qed
qed simp

lemma mem_inv_update: "mem_inv s \<Longrightarrow> rv_run_id r = run \<Longrightarrow> mem_inv (AList.update run r s)"
proof -
  assume i: "mem_inv s" and r: "rv_run_id r = run"
  have "rv_run_id x = k" if "(k, x) \<in> set (AList.update run r s)" for k x
    using that i r by (induction s) (auto simp: mem_inv_def split: if_splits)
  with i show ?thesis by (auto simp: mem_inv_def distinct_update)
qed

lemma list_args_eq: "rbind (validate_list_args limit offset) (\<lambda>_. Inr x) =
    (if limit < 1 \<or> offset < 0 then Inl ValueError else Inr x)"
  by (simp add: validate_list_args_def)

lemma decision_args_eq: "validate_decision_args status reviewer =
    (if status \<notin> set VALID_DECISIONS \<or> blank reviewer then Inl ValueError else Inr ())"
  by (simp add: validate_decision_args_def)

interpretation mem_reviews: review_store mem_create mem_get mem_list_reviews mem_decide "map snd" mem_inv
    "\<lambda>limit offset. True"
proof unfold_locales
  fix s :: mem_store and run pack summary now status reviewer :: string and sess nts flt :: "string option"
    and limit offset :: int and r s'
  assume i: "mem_inv s"
  show "mem_get s run = q_get (map snd s) run" using i by (simp add: mem_get_def mem_get_abs)
  show "map_sum id (map_prod id (map snd)) (mem_create s run pack sess summary now) =
      q_create (map snd s) run pack sess summary now"
    using mem_keys [OF i] by (auto simp: mem_create_def q_create_def Let_def map_of_eq_None_iff fst_update_notin)
  show "mem_list_reviews s flt limit offset = rbind (q_list (map snd s) flt limit offset)
      (\<lambda>rs. if True then Inr rs else Inl OverflowError)"
    by (simp add: mem_list_reviews_def q_list_def Let_def list_args_eq rev_filter)
  show "map_sum id (map_prod id (map snd)) (mem_decide s run status reviewer nts now) =
      q_decide (map snd s) run status reviewer nts now"
    using mem_update_abs [OF i, of run _ "decided status reviewer nts now"]
    by (auto simp: mem_decide_def q_decide_def decision_args_eq Let_def mem_get_abs [OF i, symmetric]
        split: option.split)
  show "mem_inv s'" if "mem_create s run pack sess summary now = Inr (r, s')"
    using that i by (auto simp: mem_create_def Let_def mem_inv_update split: if_splits)
  show "mem_inv s'" if "mem_decide s run status reviewer nts now = Inr (r, s')"
  proof -
    from that obtain r0 where "map_of s run = Some r0" "s' = AList.update run (decided status reviewer nts now r0) s"
      by (auto simp: mem_decide_def decision_args_eq Let_def split: if_splits option.splits)
    moreover from this(1) have "rv_run_id r0 = run" using i by (auto simp: mem_inv_def dest: map_of_SomeD)
    ultimately show ?thesis by (simp add: mem_inv_update [OF i])
  qed
qed

lemma sort_key_id: "sorted (map f xs) \<Longrightarrow> sort_key f xs = xs"
  by (induction xs) (auto simp: insort_is_Cons)

lemma sql_get_abs: "sql_get s run = q_get (map snd (rows s)) run"
proof -
  have "map_option snd (find (\<lambda>row. rv_run_id (snd row) = run) rs) = find (\<lambda>r. rv_run_id r = run) (map snd rs)"
    for rs :: "(nat \<times> review) list" by (induction rs) auto
  then show ?thesis by (simp add: sql_get_def q_get_def)
qed

lemma sql_sorted_filter: "sql_inv s \<Longrightarrow> sort_key fst (filter P (rows s)) = filter P (rows s)"
  by (rule sort_key_id) (simp add: sql_inv_def sorted_filter)

lemma sql_list_abs:
  assumes "sql_inv s"
  shows "sql_list_reviews s flt limit offset = rbind (q_list (map snd (rows s)) flt limit offset)
    (\<lambda>rs. if sqlite_fits limit offset then Inr rs else Inl OverflowError)"
proof -
  have "map snd (rev (sort_key fst (case flt of None \<Rightarrow> rows s
        | Some st \<Rightarrow> filter (\<lambda>row. rv_status (snd row) = st) (rows s))))
      = rev (filter (\<lambda>r. flt = None \<or> flt = Some (rv_status r)) (map snd (rows s)))"
    using sql_sorted_filter [OF assms, of "\<lambda>row. True"] sql_sorted_filter [OF assms]
    by (cases flt) (auto simp: rev_map filter_map comp_def eq_commute)
  then show ?thesis by (simp add: sql_list_reviews_def q_list_def validate_list_args_def Let_def)
qed

lemma decided_not_pending: "status \<in> set VALID_DECISIONS \<Longrightarrow> rv_status (decided status reviewer nts now r) \<noteq> ''pending''"
  by (auto simp: VALID_DECISIONS_def decided_def)

lemma q_get_Some: "q_get q run = Some r \<Longrightarrow> r \<in> set q \<and> rv_run_id r = run"
  by (auto simp: q_get_def find_Some_iff)

lemma q_get_unique: "distinct (map rv_run_id q) \<Longrightarrow> r \<in> set q \<Longrightarrow> q_get q (rv_run_id r) = Some r"
  by (induction q) (auto simp: q_get_def)

lemma q_get_map: "(\<And>x. rv_run_id (f x) = rv_run_id x) \<Longrightarrow> q_get (map f q) run = map_option f (q_get q run)"
  by (induction q) (auto simp: q_get_def)

lemma sql_decide_abs:
  assumes i: "sql_inv s"
  shows "map_sum id (map_prod id (\<lambda>s. map snd (rows s))) (sql_decide s run status reviewer nts now)
    = q_decide (map snd (rows s)) run status reviewer nts now"
proof (cases "validate_decision_args status reviewer")
  case (Inl e)
  then show ?thesis by (auto simp: sql_decide_def q_decide_def decision_args_eq split: if_splits)
next
  case (Inr u)
  let ?q = "map snd (rows s)"
  let ?d = "decided status reviewer nts now"
  let ?hit = "\<lambda>row :: nat \<times> review. rv_run_id (snd row) = run \<and> rv_status (snd row) = ''pending''"
  let ?rows = "map (\<lambda>row. if ?hit row then (fst row, ?d (snd row)) else row) (rows s)"
  have dist: "distinct (map rv_run_id ?q)" using i by (simp add: sql_inv_def comp_def)
  have snds: "map snd ?rows = map (\<lambda>x. if rv_run_id x = run \<and> rv_status x = ''pending'' then ?d x else x) ?q"
    by (simp add: comp_def)
  show ?thesis
  proof (cases "q_get ?q run")
    case None
    then have "filter ?hit (rows s) = []"
      by (auto simp: q_get_def find_None_iff filter_empty_conv)
    with None Inr show ?thesis
      by (auto simp: sql_decide_def q_decide_def decision_args_eq sql_get_abs Let_def split: if_splits)
  next
    case (Some r)
    have r: "r \<in> set ?q" "rv_run_id r = run" using q_get_Some [OF Some] by auto
    have only: "x = r" if "x \<in> set ?q" "rv_run_id x = run" for x
      using q_get_unique [OF dist that(1)] that(2) Some by simp
    have hits: "filter ?hit (rows s) = [] \<longleftrightarrow> rv_status r \<noteq> ''pending''"
    proof -
      have "filter ?hit (rows s) = [] \<longleftrightarrow> (\<forall>x\<in>set ?q. rv_run_id x = run \<longrightarrow> rv_status x \<noteq> ''pending'')"
        unfolding filter_empty_conv set_map by blast
      also have "\<dots> \<longleftrightarrow> rv_status r \<noteq> ''pending''" using r only by metis
      finally show ?thesis .
    qed
    have get: "sql_get (s\<lparr>rows := ?rows\<rparr>) run = Some (if rv_status r = ''pending'' then ?d r else r)"
    proof -
      have "sql_get (s\<lparr>rows := ?rows\<rparr>) run = q_get (map snd ?rows) run"
        by (simp add: sql_get_abs)
      also have "\<dots> = map_option (\<lambda>x. if rv_run_id x = run \<and> rv_status x = ''pending'' then ?d x else x)
          (q_get ?q run)" unfolding snds by (rule q_get_map) simp
      finally show ?thesis using r Some by simp
    qed
    have upd: "map snd ?rows = map (\<lambda>x. if rv_run_id x = run then ?d x else x) ?q" if "rv_status r = ''pending''"
      unfolding snds using only that by (intro map_cong) auto
    have dec: "sql_decide s run status reviewer nts now = (if rv_status r = ''pending''
        then Inr (?d r, s\<lparr>rows := ?rows\<rparr>) else Inl ReviewAlreadyDecidedError)"
      unfolding sql_decide_def Let_def Inr rbind_simps length_0_conv hits get
      by (simp add: sql_get_abs Some)
    have qd: "q_decide ?q run status reviewer nts now = (if rv_status r = ''pending''
        then Inr (?d r, map (\<lambda>x. if rv_run_id x = run then ?d x else x) ?q) else Inl ReviewAlreadyDecidedError)"
      using Inr by (simp add: q_decide_def Some decision_args_eq split: if_splits)
    show ?thesis unfolding dec qd using upd by simp
  qed
qed

lemma sql_inv_map:
  assumes "sql_inv s" "\<And>row. fst (f row) = fst row" "\<And>row. rv_run_id (snd (f row)) = rv_run_id (snd row)"
  shows "sql_inv (s\<lparr>rows := map f (rows s)\<rparr>)"
  using assms by (simp add: sql_inv_def comp_def)

interpretation sql_reviews: review_store sql_create sql_get sql_list_reviews sql_decide
    "\<lambda>s. map snd (rows s)" sql_inv sqlite_fits
proof unfold_locales
  fix s :: sql_store and run pack summary now status reviewer :: string and sess nts flt :: "string option"
    and limit offset :: int and r s'
  assume i: "sql_inv s"
  show "sql_get s run = q_get (map snd (rows s)) run" by (rule sql_get_abs)
  show "sql_list_reviews s flt limit offset = rbind (q_list (map snd (rows s)) flt limit offset)
      (\<lambda>rs. if sqlite_fits limit offset then Inr rs else Inl OverflowError)"
    using i by (rule sql_list_abs)
  show "map_sum id (map_prod id (\<lambda>s. map snd (rows s))) (sql_create s run pack sess summary now) =
      q_create (map snd (rows s)) run pack sess summary now"
    by (auto simp: sql_create_def q_create_def Let_def)
  show "map_sum id (map_prod id (\<lambda>s. map snd (rows s))) (sql_decide s run status reviewer nts now) =
      q_decide (map snd (rows s)) run status reviewer nts now"
    using i by (rule sql_decide_abs)
  show "sql_inv s'" if "sql_create s run pack sess summary now = Inr (r, s')"
  proof -
    have "fst row \<le> last_id s" if "row \<in> set (rows s)" for row using i that by (simp add: sql_inv_def)
    with that i show ?thesis
      by (auto simp: sql_create_def sql_inv_def Let_def sorted_append split: if_splits)
        (metis fst_conv le_SucI Suc_n_not_le_n)+
  qed
  show "sql_inv s'" if "sql_decide s run status reviewer nts now = Inr (r, s')"
  proof -
    from that have "s' = s\<lparr>rows := map (\<lambda>row. if rv_run_id (snd row) = run \<and> rv_status (snd row) = ''pending''
        then (fst row, decided status reviewer nts now (snd row)) else row) (rows s)\<rparr>"
      by (auto simp: sql_decide_def rbind_Inr_iff Let_def split: if_splits option.splits)
    then show ?thesis using i by (simp only: ) (rule sql_inv_map; simp)
  qed
qed

section \<open>Properties of the queue\<close>

abbreviation mem_exec :: "mem_store \<Rightarrow> review_cmd \<Rightarrow> review_answer \<times> mem_store" where
  "mem_exec \<equiv> exec_with mem_create mem_get mem_list_reviews mem_decide"

abbreviation sql_exec :: "sql_store \<Rightarrow> review_cmd \<Rightarrow> review_answer \<times> sql_store" where
  "sql_exec \<equiv> exec_with sql_create sql_get sql_list_reviews sql_decide"

definition sql_empty :: sql_store where "sql_empty = \<lparr>rows = [], last_id = 0\<rparr>"

fun run_cmds :: "('s \<Rightarrow> review_cmd \<Rightarrow> review_answer \<times> 's) \<Rightarrow> 's \<Rightarrow> review_cmd list \<Rightarrow> 's" where
  "run_cmds exec s [] = s"
| "run_cmds exec s (c # cs) = run_cmds exec (snd (exec s c)) cs"

lemma adapt_True: "adapt (\<lambda>limit offset. True) c a = a"
  by (cases c; cases a) simp_all

lemma length_answers: "length (answers exec s cs) = length cs"
  by (induction cs arbitrary: s) simp_all

lemma map2_second: "length xs = length ys \<Longrightarrow> map2 (\<lambda>x y. y) xs ys = ys"
  by (induction rule: list_induct2) simp_all

lemma mem_answers: "answers mem_exec [] cs = answers q_exec [] cs"
proof -
  have "mem_inv []" by (simp add: mem_inv_def)
  then have "answers mem_exec [] cs = map2 (\<lambda>c a. a) cs (answers q_exec [] cs)"
    using mem_reviews.answers_sim [of "[]" cs] by (simp add: adapt_True cong: map_cong)
  then show ?thesis by (simp add: length_answers map2_second)
qed

text \<open>C10. The in-memory store and the SQLite store agree: on every sequence of creations,
  look-ups, listings and decisions, on a database that works, they give the same answers, errors
  included, with one exception: a listing with well-formed arguments of which one does not fit
  64 bits, for which SQLite raises \<open>OverflowError\<close> while the in-memory store answers.\<close>

theorem review_backends_equivalent:
  "answers sql_exec sql_empty cs = map2 (adapt sqlite_fits) cs (answers mem_exec [] cs)"
proof -
  have "sql_inv sql_empty" by (simp add: sql_inv_def sql_empty_def)
  then show ?thesis
    using sql_reviews.answers_sim [of sql_empty cs] by (simp add: mem_answers sql_empty_def)
qed

definition review_ok :: "review \<Rightarrow> bool" where
  "review_ok r \<longleftrightarrow> \<not> blank (rv_run_id r) \<and> \<not> blank (rv_pack_id r)
     \<and> length (rv_output_summary r) \<le> OUTPUT_SUMMARY_MAX_CHARS
     \<and> (if rv_status r = ''pending'' then rv_decided_at r = None \<and> rv_reviewer r = None
        else rv_status r \<in> set VALID_DECISIONS \<and> rv_decided_at r \<noteq> None
          \<and> (\<exists>w. rv_reviewer r = Some w \<and> w \<noteq> [] \<and> strip w = w))"

definition queue_ok :: "review list \<Rightarrow> bool" where
  "queue_ok q \<longleftrightarrow> distinct (map rv_run_id q) \<and> (\<forall>r\<in>set q. review_ok r)"

lemma decided_ok:
  "review_ok r \<Longrightarrow> status \<in> set VALID_DECISIONS \<Longrightarrow> \<not> blank reviewer \<Longrightarrow>
   review_ok (decided status reviewer nts now r)"
  by (auto simp: review_ok_def decided_def blank_iff VALID_DECISIONS_def)

lemma new_ok: "\<not> blank run \<Longrightarrow> \<not> blank pack \<Longrightarrow> review_ok (new_review run pack sess summary now)"
  by (simp add: review_ok_def new_review_def)

text \<open>What a command can do to the queue: nothing, append a pending review under a new id, or
  decide one pending review.\<close>

inductive queue_step :: "review list \<Rightarrow> review list \<Rightarrow> bool" where
  stay: "queue_step q q"
| add: "review_ok r \<Longrightarrow> rv_status r = ''pending'' \<Longrightarrow> rv_run_id r \<notin> rv_run_id ` set q \<Longrightarrow> queue_step q (q @ [r])"
| dec: "q_get q run = Some r \<Longrightarrow> rv_status r = ''pending'' \<Longrightarrow> status \<in> set VALID_DECISIONS \<Longrightarrow>
    \<not> blank reviewer \<Longrightarrow>
    queue_step q (map (\<lambda>x. if rv_run_id x = run then decided status reviewer nts now x else x) q)"

lemma pending_new: "rv_status (new_review run pack sess summary now) = ''pending''"
  by (simp add: new_review_def)

lemma q_exec_step: "queue_step q (snd (q_exec q c))"
proof (cases c)
  case (Create run pack sess summary now)
  show ?thesis
  proof (cases "blank run \<or> blank pack \<or> run \<in> rv_run_id ` set q")
    case False
    then have "queue_step q (q @ [new_review run pack sess summary now])"
      by (intro add) (auto simp: new_ok pending_new)
    with False show ?thesis by (simp add: Create answer_write_def q_create_def)
  qed (auto simp: Create answer_write_def q_create_def intro: stay)
next
  case (Decide run status reviewer nts now)
  show ?thesis
    by (auto simp: Decide answer_write_def q_decide_def intro: stay dec split: option.splits)
qed (auto simp: answer_list_def split: sum.splits intro: stay)

lemma step_ok: "queue_step q q' \<Longrightarrow> queue_ok q \<Longrightarrow> queue_ok q'"
proof (induction rule: queue_step.induct)
  case (dec q run r status reviewer nts now)
  let ?f = "\<lambda>x. if rv_run_id x = run then decided status reviewer nts now x else x"
  have ids: "map rv_run_id (map ?f q) = map rv_run_id q" by simp
  have "distinct (map rv_run_id (map ?f q))" unfolding ids using dec by (simp add: queue_ok_def)
  moreover have "\<forall>x\<in>set (map ?f q). review_ok x"
    using dec by (auto simp: queue_ok_def intro: decided_ok)
  ultimately show ?case unfolding queue_ok_def by (rule conjI)
qed (auto simp: queue_ok_def)

lemma q_get_append: "q_get (q @ q') run = (case q_get q run of None \<Rightarrow> q_get q' run | Some r \<Rightarrow> Some r)"
  by (induction q) (auto simp: q_get_def)

lemma step_keeps_decided:
  "queue_step q q' \<Longrightarrow> q_get q run = Some r \<Longrightarrow> rv_status r \<noteq> ''pending'' \<Longrightarrow> q_get q' run = Some r"
proof (induction rule: queue_step.induct)
  case (add x q)
  then show ?case by (simp add: q_get_append)
next
  case (dec q run' r' status reviewer nts now)
  then have "run' \<noteq> run" by auto
  moreover have "q_get (map (\<lambda>x. if rv_run_id x = run' then decided status reviewer nts now x else x) q) run
      = map_option (\<lambda>x. if rv_run_id x = run' then decided status reviewer nts now x else x) (q_get q run)"
    by (rule q_get_map) simp
  ultimately show ?case using dec q_get_Some by fastforce
qed simp

lemma run_keeps_decided:
  "q_get q run = Some r \<Longrightarrow> rv_status r \<noteq> ''pending'' \<Longrightarrow> q_get (run_cmds q_exec q cs) run = Some r"
  by (induction cs arbitrary: q) (auto intro: step_keeps_decided [OF q_exec_step])

lemma run_ok: "queue_ok q \<Longrightarrow> queue_ok (run_cmds q_exec q cs)"
  by (induction cs arbitrary: q) (auto intro: step_ok [OF q_exec_step])

context review_store begin

lemma run_abs: "inv s \<Longrightarrow> abs (run_cmds exec s cs) = run_cmds q_exec (abs s) cs \<and> inv (run_cmds exec s cs)"
proof (induction cs arbitrary: s)
  case (Cons c cs)
  from exec_sim [OF Cons.prems, of c] have "abs (snd (exec s c)) = snd (q_exec (abs s) c)"
    by (metis snd_map_prod id_apply)
  with Cons.IH [OF exec_inv [OF Cons.prems, of c]] show ?case by simp
qed simp

lemma decided_for_good:
  assumes "inv s" "get s run = Some r" "rv_status r \<noteq> ''pending''"
  shows "get (run_cmds exec s cs) run = Some r"
  using assms run_abs [OF assms(1), of cs] by (simp add: get_abs run_keeps_decided)

lemma decide_after_decision:
  assumes "inv s" "get s run = Some r" "rv_status r \<noteq> ''pending''"
    "status \<in> set VALID_DECISIONS" "\<not> blank reviewer"
  shows "decide (run_cmds exec s cs) run status reviewer nts now = Inl ReviewAlreadyDecidedError"
proof -
  have i: "inv (run_cmds exec s cs)" using run_abs assms(1) by blast
  have "q_get (abs (run_cmds exec s cs)) run = Some r"
    using decided_for_good [OF assms(1-3), of cs] get_abs [OF i] by simp
  with decide_abs [OF i, of run status reviewer nts now] assms(3-5)
  show ?thesis by (cases "decide (run_cmds exec s cs) run status reviewer nts now")
      (auto simp: q_decide_def)
qed

lemma reachable_ok: "inv s \<Longrightarrow> queue_ok (abs s) \<Longrightarrow> queue_ok (abs (run_cmds exec s cs))"
  by (simp add: run_abs run_ok)

end

text \<open>A review is decided at most once: after any history, once its status is not pending no
  later command changes the record, and every further well-formed decision is answered with
  the conflict error (stated for the SQLite store).\<close>

theorem review_decided_once:
  assumes "s = run_cmds sql_exec sql_empty cs" and "sql_get s run = Some r" and "rv_status r \<noteq> ''pending''"
    and "status \<in> set VALID_DECISIONS" and "\<not> blank reviewer"
  shows "sql_get (run_cmds sql_exec s cs') run = Some r
    \<and> sql_decide (run_cmds sql_exec s cs') run status reviewer nts now = Inl ReviewAlreadyDecidedError"
proof -
  have "sql_inv sql_empty" by (simp add: sql_inv_def sql_empty_def)
  then have "sql_inv s" using assms(1) sql_reviews.run_abs by blast
  then show ?thesis
    using sql_reviews.decided_for_good [OF _ assms(2,3)] sql_reviews.decide_after_decision [OF _ assms(2,3,4,5)]
    by blast
qed

text \<open>C15. Every review the queue ever holds is well formed: ids are unique and not blank, at most
  500 characters of output are kept, and a reviewer and a decision time are recorded exactly
  when the review is no longer pending, the reviewer's name being stripped and not empty.\<close>

theorem review_queue_invariant:
  "queue_ok (map snd (run_cmds mem_exec [] cs)) \<and> queue_ok (map snd (rows (run_cmds sql_exec sql_empty cs)))"
proof -
  have "mem_inv []" "sql_inv sql_empty" "queue_ok []"
    by (simp_all add: mem_inv_def sql_inv_def sql_empty_def queue_ok_def)
  then show ?thesis
    using mem_reviews.reachable_ok [of "[]" cs] sql_reviews.reachable_ok [of sql_empty cs]
    by (simp add: sql_empty_def)
qed

theorem review_decided_once_witness:
  "sql_decide (run_cmds sql_exec sql_empty
     [Create ''r1'' ''contract_reviewer'' None ''{}'' ''t0'', Decide ''r1'' ''approved'' '' Ann '' None ''t1''])
     ''r1'' ''rejected'' ''Bob'' None ''t2'' = Inl ReviewAlreadyDecidedError"
proof -
  let ?cs = "[Create ''r1'' ''contract_reviewer'' None ''{}'' ''t0'', Decide ''r1'' ''approved'' '' Ann '' None ''t1'']"
  have "map_option rv_status (sql_get (run_cmds sql_exec sql_empty ?cs) ''r1'') = Some ''approved''"
    by code_simp
  then obtain r where "sql_get (run_cmds sql_exec sql_empty ?cs) ''r1'' = Some r" "rv_status r \<noteq> ''pending''"
    by auto
  moreover have "''rejected'' \<in> set VALID_DECISIONS" "\<not> blank ''Bob''" by code_simp+
  ultimately show ?thesis
    using review_decided_once [OF refl, where cs' = "[]" and cs = ?cs and run = "''r1''"
        and status = "''rejected''" and reviewer = "''Bob''" and nts = None and now = "''t2''"] by simp
qed

section \<open>The \<open>/reviews\<close> endpoints\<close>

text \<open>Request validation (path, query and body constraints) answers 422 before a handler runs.
  The store is \<open>None\<close> when the application has none; its operations are arguments.\<close>

definition run_id_char :: "char \<Rightarrow> bool" where
  "run_id_char c \<longleftrightarrow> (let n = (of_char c :: nat) in
     (97 \<le> n \<and> n \<le> 122) \<or> (65 \<le> n \<and> n \<le> 90) \<or> (48 \<le> n \<and> n \<le> 57) \<or> c = CHR ''_'' \<or> c = CHR ''-'')"

definition run_id_path_ok :: "string \<Rightarrow> bool" where
  "run_id_path_ok s \<longleftrightarrow> 1 \<le> length s \<and> length s \<le> 64 \<and> list_all run_id_char s"

definition decision_body_ok :: "string \<Rightarrow> string \<Rightarrow> string option \<Rightarrow> bool" where
  "decision_body_ok status reviewer notes \<longleftrightarrow> status \<in> {''approved'', ''rejected''}
     \<and> 1 \<le> length reviewer \<and> length reviewer \<le> 200
     \<and> (case notes of None \<Rightarrow> True | Some n \<Rightarrow> length n \<le> 4000)"

definition require_store :: "'s option \<Rightarrow> 's result" where
  "require_store st = (case st of None \<Rightarrow> Inl (HTTPException 503) | Some s \<Rightarrow> Inr s)"

definition list_reviews_endpoint ::
  "('s \<Rightarrow> string option \<Rightarrow> int \<Rightarrow> int \<Rightarrow> review list result) \<Rightarrow> 's option
     \<Rightarrow> string option \<Rightarrow> int \<Rightarrow> int \<Rightarrow> (review list \<times> nat) result" where
  "list_reviews_endpoint lst st flt limit offset =
     (if (flt \<noteq> None \<and> the flt \<notin> {''pending'', ''approved'', ''rejected''}) \<or> limit < 1 \<or> 200 < limit \<or> offset < 0
      then Inl (HTTPException 422)
      else rbind (require_store st) (\<lambda>s. rbind (lst s flt limit offset) (\<lambda>rs. Inr (rs, length rs))))"

definition get_review_endpoint ::
  "('s \<Rightarrow> string \<Rightarrow> review option) \<Rightarrow> 's option \<Rightarrow> string \<Rightarrow> review result" where
  "get_review_endpoint get st run =
     (if \<not> run_id_path_ok run then Inl (HTTPException 422)
      else rbind (require_store st) (\<lambda>s.
        case get s run of None \<Rightarrow> Inl (HTTPException 404) | Some r \<Rightarrow> Inr r))"

definition decide_review_endpoint ::
  "('s \<Rightarrow> string \<Rightarrow> string \<Rightarrow> string \<Rightarrow> string option \<Rightarrow> string \<Rightarrow> (review \<times> 's) result) \<Rightarrow> 's option
     \<Rightarrow> string \<Rightarrow> string \<Rightarrow> string \<Rightarrow> string option \<Rightarrow> string \<Rightarrow> (review \<times> 's) result" where
  "decide_review_endpoint decide st run status reviewer notes now =
     (if \<not> run_id_path_ok run \<or> \<not> decision_body_ok status reviewer notes then Inl (HTTPException 422)
      else rbind (require_store st) (\<lambda>s.
        case decide s run status reviewer notes now of
          Inl ReviewNotFoundError \<Rightarrow> Inl (HTTPException 404)
        | Inl ReviewAlreadyDecidedError \<Rightarrow> Inl (HTTPException 409)
        | Inl e \<Rightarrow> Inl e
        | Inr r \<Rightarrow> Inr r))"

text \<open>The endpoint bounds the limit but not the offset, so the exception is reachable: 500 with
  SQLite, an empty page in memory.\<close>

lemma huge_offset_is_500:
  "http_status (list_reviews_endpoint sql_list_reviews (Some s) None 50 (2 ^ 63)) = 500
   \<and> list_reviews_endpoint mem_list_reviews (Some []) None 50 (2 ^ 63) = Inr ([], 0)"
  by (simp add: list_reviews_endpoint_def require_store_def sql_list_reviews_def mem_list_reviews_def
      validate_list_args_def sqlite_fits_def http_status_def)

text \<open>The status code of a decision request is a function of the request and of the stored
  record: 422 for a malformed request, 404, 409 or 200 as documented; but a reviewer name of
  blanks only, which the request model lets through, is answered with a server error.\<close>

theorem decision_status_codes:
  "http_status (decide_review_endpoint sql_decide (Some (run_cmds sql_exec sql_empty cs)) run status reviewer nts now)
   = (if \<not> run_id_path_ok run \<or> \<not> decision_body_ok status reviewer nts then 422
      else if blank reviewer then 500
      else (case sql_get (run_cmds sql_exec sql_empty cs) run of
              None \<Rightarrow> 404
            | Some r \<Rightarrow> if rv_status r = ''pending'' then 200 else 409))"
proof -
  let ?s = "run_cmds sql_exec sql_empty cs"
  have "sql_inv sql_empty" by (simp add: sql_inv_def sql_empty_def)
  then have i: "sql_inv ?s" using sql_reviews.run_abs by blast
  have "decision_body_ok status reviewer nts \<Longrightarrow> status \<in> set VALID_DECISIONS"
    by (auto simp: decision_body_ok_def VALID_DECISIONS_def)
  then show ?thesis
    using sql_decide_abs [OF i, of run status reviewer nts now] sql_get_abs [of ?s run]
    by (cases "sql_decide ?s run status reviewer nts now")
      (auto simp: decide_review_endpoint_def require_store_def http_status_def q_decide_def
        split: option.splits if_splits)
qed

end
