(* ===== verification/RunHistory.thy ===== *)
theory RunHistory
  imports Prelude
begin

text \<open>
  Run history (\<open>core/memory.py\<close>): the SQLite table \<open>runs\<close> (\<open>ConversationMemory\<close>), the
  PostgreSQL table of the same shape, the Redis hashes and sorted sets, and the factory that
  falls back to SQLite. All implement one abstract history, the latest save of each run in
  the order of the saves. A JSON column is the value it decodes to; \<open>created_at\<close> is a number,
  the ISO text being ordered as the time it denotes.
\<close>

section \<open>The abstract history\<close>

record run_row =
  row_query :: string
  row_result :: pyval
  row_meta :: pydict
  row_created :: rat

type_synonym history = "(string \<times> run_row) list"   \<comment> \<open>oldest save first\<close>

definition in_session :: "string \<Rightarrow> run_row \<Rightarrow> bool" where
  "in_session sid r \<longleftrightarrow> dget (row_meta r) ''session_id'' = VStr sid"

definition of_pack :: "string \<Rightarrow> run_row \<Rightarrow> bool" where
  "of_pack pid r \<longleftrightarrow> dget (row_meta r) ''pack_id'' = VStr pid"

definition new_row :: "string \<Rightarrow> pyval \<Rightarrow> pydict option \<Rightarrow> rat \<Rightarrow> run_row" where
  "new_row query res meta now =
     \<lparr>row_query = strip query, row_result = res,
      row_meta = (case meta of None \<Rightarrow> [] | Some m \<Rightarrow> m), row_created = now\<rparr>"

definition save_args_ok :: "string \<Rightarrow> string \<Rightarrow> bool" where
  "save_args_ok run query \<longleftrightarrow> \<not> blank run \<and> \<not> blank query"

definition h_save :: "history \<Rightarrow> string \<Rightarrow> run_row \<Rightarrow> history" where
  "h_save h run r = filter (\<lambda>e. fst e \<noteq> run) h @ [(run, r)]"

definition h_list :: "history \<Rightarrow> int \<Rightarrow> history" where
  "h_list h limit = take (nat limit) (rev h)"

definition h_session :: "history \<Rightarrow> string \<Rightarrow> int \<Rightarrow> history" where
  "h_session h sid limit = take (nat limit) (rev (filter (\<lambda>e. in_session sid (snd e)) h))"

definition h_version :: "history \<Rightarrow> string \<Rightarrow> string \<Rightarrow> pyval" where
  "h_version h sid pid =
     (case rev (filter (\<lambda>e. in_session sid (snd e) \<and> of_pack pid (snd e)) h) of
        [] \<Rightarrow> VNone | e # es \<Rightarrow> dget (row_meta (snd e)) ''pack_version'')"

definition text_or_none :: "pyval \<Rightarrow> bool" where
  "text_or_none v \<longleftrightarrow> (case v of VNone \<Rightarrow> True | VStr s \<Rightarrow> True | _ \<Rightarrow> False)"

text \<open>A row as the readers return it, with the backend's own \<open>id\<close>.\<close>

record run_record =
  rec_id :: pyval
  rec_run :: string
  rec_row :: run_row

definition entry :: "run_record \<Rightarrow> string \<times> run_row" where
  "entry r = (rec_run r, rec_row r)"

lemma entry_simp [simp]: "entry \<lparr>rec_id = i, rec_run = run, rec_row = r\<rparr> = (run, r)"
  by (simp add: entry_def)

text \<open>What the API saves: text ids without a colon, a version, a later time than all before.\<close>

definition save_ok :: "history \<Rightarrow> string \<Rightarrow> run_row \<Rightarrow> bool" where
  "save_ok h run r \<longleftrightarrow> (\<forall>e\<in>set h. row_created (snd e) < row_created r)
     \<and> (\<forall>k\<in>{''session_id'', ''pack_id'', ''pack_version''}. text_or_none (dget (row_meta r) k))
     \<and> (\<forall>s. (dget (row_meta r) ''session_id'' = VStr s \<or> dget (row_meta r) ''pack_id'' = VStr s) \<longrightarrow> CHR '':'' \<notin> set s)"

definition keeps_session :: "history \<Rightarrow> string \<Rightarrow> run_row \<Rightarrow> bool" where
  \<comment> \<open>a run saved again stays in its session and pack\<close>
  "keeps_session h run r \<longleftrightarrow> (\<forall>r0. (run, r0) \<in> set h \<longrightarrow>
      dget (row_meta r) ''session_id'' = dget (row_meta r0) ''session_id''
      \<and> dget (row_meta r) ''pack_id'' = dget (row_meta r0) ''pack_id'')"

definition history_ok :: "history \<Rightarrow> bool" where
  "history_ok h \<longleftrightarrow> distinct (map fst h) \<and> sorted (map (\<lambda>e. row_created (snd e)) h)
     \<and> distinct (map (\<lambda>e. row_created (snd e)) h)
     \<and> (\<forall>e\<in>set h. save_ok [] (fst e) (snd e))"

lemma history_ok_save: "history_ok h \<Longrightarrow> save_ok h run r \<Longrightarrow> history_ok (h_save h run r)"
  unfolding history_ok_def h_save_def save_ok_def
  by (force simp: sorted_append distinct_map_filter less_imp_le intro: sorted_filter [where f = "\<lambda>e. row_created (snd e)"])

lemma h_save_map: "map_of (h_save h run r) = (map_of h)(run \<mapsto> r)"
  by (induction h) (auto simp: h_save_def fun_eq_iff map_add_def split: option.splits)

locale run_history =
  fixes save :: "'s \<Rightarrow> string \<Rightarrow> string \<Rightarrow> pyval \<Rightarrow> pydict option \<Rightarrow> rat \<Rightarrow> 's result"
    and get :: "'s \<Rightarrow> string \<Rightarrow> run_record option"
    and lst :: "'s \<Rightarrow> int \<Rightarrow> run_record list result"
    and by_session :: "'s \<Rightarrow> string \<Rightarrow> int \<Rightarrow> run_record list result"
    and version :: "'s \<Rightarrow> string \<Rightarrow> string \<Rightarrow> pyval"
    and ok :: "history \<Rightarrow> string \<Rightarrow> run_row \<Rightarrow> bool"
    and rel :: "'s \<Rightarrow> history \<Rightarrow> bool"
  assumes save_err: "\<not> save_args_ok run query \<Longrightarrow> save s run query res meta now = Inl ValueError"
    and save_rel: "rel s h \<Longrightarrow> save_args_ok run query \<Longrightarrow> save_ok h run (new_row query res meta now) \<Longrightarrow>
        ok h run (new_row query res meta now) \<Longrightarrow>
        \<exists>s'. save s run query res meta now = Inr s' \<and> rel s' (h_save h run (new_row query res meta now))"
    and get_eq: "rel s h \<Longrightarrow> map_option entry (get s run) = map_option (Pair run) (map_of h run)"
    and lst_eq: "rel s h \<Longrightarrow> limit < 2 ^ 63 \<Longrightarrow> map_sum id (map entry) (lst s limit) =
        (if limit < 1 then Inl ValueError else Inr (h_list h limit))"
    and by_session_eq: "rel s h \<Longrightarrow> CHR '':'' \<notin> set sid \<Longrightarrow> limit < 2 ^ 63 \<Longrightarrow>
        map_sum id (map entry) (by_session s sid limit) =
        (if blank sid \<or> limit < 1 then Inl ValueError else Inr (h_session h sid limit))"
    and version_eq: "rel s h \<Longrightarrow> \<not> blank sid \<Longrightarrow> pid \<noteq> [] \<Longrightarrow> CHR '':'' \<notin> set sid \<Longrightarrow> CHR '':'' \<notin> set pid \<Longrightarrow>
        version s sid pid = h_version h sid pid"

section \<open>SQL tables: \<open>ConversationMemory\<close> and \<open>PostgresRunHistory\<close>\<close>

type_synonym sql_runs = "(string \<times> run_row) list"   \<comment> \<open>a table, in whatever order\<close>

definition order_desc :: "history \<Rightarrow> history" where
  \<comment> \<open>\<open>ORDER BY created_at DESC\<close>\<close>
  "order_desc t = rev (sort_key (\<lambda>e. row_created (snd e)) t)"

definition sqlite_save ::
  "sql_runs \<Rightarrow> string \<Rightarrow> string \<Rightarrow> pyval \<Rightarrow> pydict option \<Rightarrow> rat \<Rightarrow> sql_runs result" where
  \<comment> \<open>\<open>ON CONFLICT(run_id) DO UPDATE\<close>: the row of the run is replaced in place\<close>
  "sqlite_save t run query res meta now =
     (if blank run then Inl ValueError
      else if blank query then Inl ValueError
      else Inr (AList.update run (new_row query res meta now) t))"

definition row_number :: "sql_runs \<Rightarrow> string \<Rightarrow> nat" where
  \<comment> \<open>\<open>AUTOINCREMENT\<close>: rows are numbered as they come, an update keeps the number, none is deleted\<close>
  "row_number t run = Suc (length (takeWhile (\<lambda>e. fst e \<noteq> run) t))"

definition sqlite_record :: "sql_runs \<Rightarrow> string \<times> run_row \<Rightarrow> run_record" where
  "sqlite_record t e = \<lparr>rec_id = VInt (int (row_number t (fst e))), rec_run = fst e, rec_row = snd e\<rparr>"

definition sqlite_get :: "sql_runs \<Rightarrow> string \<Rightarrow> run_record option" where
  "sqlite_get t run = map_option (\<lambda>r. sqlite_record t (run, r)) (map_of t run)"

definition sqlite_list :: "sql_runs \<Rightarrow> int \<Rightarrow> run_record list result" where
  \<comment> \<open>\<open>sqlite3\<close> rejects a parameter beyond 64 bits\<close>
  "sqlite_list t limit =
     (if limit < 1 then Inl ValueError
      else if 2 ^ 63 \<le> limit then Inl OverflowError
      else Inr (map (sqlite_record t) (take (nat limit) (order_desc t))))"

definition sqlite_by_session :: "sql_runs \<Rightarrow> string \<Rightarrow> int \<Rightarrow> run_record list result" where
  "sqlite_by_session t sid limit =
     (if blank sid then Inl ValueError
      else if limit < 1 then Inl ValueError
      else if 2 ^ 63 \<le> limit then Inl OverflowError
      else Inr (map (sqlite_record t) (take (nat limit) (order_desc (filter (\<lambda>e. in_session sid (snd e)) t)))))"

definition sqlite_version :: "sql_runs \<Rightarrow> string \<Rightarrow> string \<Rightarrow> pyval" where
  "sqlite_version t sid pid =
     (case take 1 (order_desc (filter (\<lambda>e. in_session sid (snd e) \<and> of_pack pid (snd e)) t)) of
        [] \<Rightarrow> VNone
      | e # es \<Rightarrow> dget (row_meta (snd e)) ''pack_version'')"

record pg_runs =
  pg_rows :: sql_runs
  pg_ids :: "string \<Rightarrow> nat"
  pg_sequence :: nat     \<comment> \<open>\<open>SERIAL\<close>: every insertion draws a number, also one that turns into an update\<close>

definition postgres_save ::
  "pg_runs \<Rightarrow> string \<Rightarrow> string \<Rightarrow> pyval \<Rightarrow> pydict option \<Rightarrow> rat \<Rightarrow> pg_runs result" where
  "postgres_save t run query res meta now =
     (if blank run then Inl ValueError
      else if blank query then Inl ValueError
      else (let n = Suc (pg_sequence t) in
        Inr \<lparr>pg_rows = AList.update run (new_row query res meta now) (pg_rows t),
             pg_ids = (if map_of (pg_rows t) run = None then (pg_ids t)(run := n) else pg_ids t),
             pg_sequence = n\<rparr>))"

definition postgres_record :: "pg_runs \<Rightarrow> string \<times> run_row \<Rightarrow> run_record" where
  "postgres_record t e = \<lparr>rec_id = VInt (int (pg_ids t (fst e))), rec_run = fst e, rec_row = snd e\<rparr>"

definition postgres_get :: "pg_runs \<Rightarrow> string \<Rightarrow> run_record option" where
  "postgres_get t run = map_option (\<lambda>r. postgres_record t (run, r)) (map_of (pg_rows t) run)"

definition postgres_list :: "pg_runs \<Rightarrow> int \<Rightarrow> run_record list result" where
  \<comment> \<open>the server rejects a \<open>LIMIT\<close> beyond 64 bits\<close>
  "postgres_list t limit =
     (if limit < 1 then Inl ValueError
      else if 2 ^ 63 \<le> limit then Inl OtherError
      else Inr (map (postgres_record t) (take (nat limit) (order_desc (pg_rows t)))))"

definition postgres_by_session :: "pg_runs \<Rightarrow> string \<Rightarrow> int \<Rightarrow> run_record list result" where
  "postgres_by_session t sid limit =
     (if blank sid then Inl ValueError
      else if limit < 1 then Inl ValueError
      else if 2 ^ 63 \<le> limit then Inl OtherError
      else Inr (map (postgres_record t)
             (take (nat limit) (order_desc (filter (\<lambda>e. in_session sid (snd e)) (pg_rows t))))))"

definition version_text :: "(pyval \<Rightarrow> string) \<Rightarrow> pyval \<Rightarrow> pyval" where
  \<comment> \<open>\<open>str(version) if version is not None else None\<close>\<close>
  "version_text rend v = (if v = VNone then VNone else VStr (py_str rend v))"

definition postgres_version :: "(pyval \<Rightarrow> string) \<Rightarrow> pg_runs \<Rightarrow> string \<Rightarrow> string \<Rightarrow> pyval" where
  "postgres_version rend t sid pid =
     (if blank sid \<or> pid = [] then VNone
      else (case take 1 (order_desc (filter (\<lambda>e. in_session sid (snd e) \<and> of_pack pid (snd e)) (pg_rows t))) of
              [] \<Rightarrow> VNone
            | e # es \<Rightarrow> version_text rend (dget (row_meta (snd e)) ''pack_version'')))"

definition sql_rel :: "sql_runs \<Rightarrow> history \<Rightarrow> bool" where
  "sql_rel t h \<longleftrightarrow> history_ok h \<and> distinct (map fst t) \<and> set t = set h"

lemma strict_unique:
  fixes f :: "'a \<Rightarrow> rat"
  assumes "set xs = set ys" "sorted (map f xs)" "distinct (map f xs)" "sorted (map f ys)" "distinct (map f ys)"
  shows "xs = ys"
proof -
  have "map f xs = map f ys" by (rule sorted_distinct_set_unique) (use assms in auto)
  moreover have "inj_on f (set xs \<union> set ys)" using assms(1,3) by (simp add: distinct_map)
  ultimately show ?thesis by (rule map_inj_on)
qed

lemma order_desc_rel:
  assumes "distinct (map fst t)" "set t = set (filter P h)" "history_ok h"
  shows "order_desc t = rev (filter P h)"
proof -
  let ?f = "\<lambda>e :: string \<times> run_row. row_created (snd e)"
  have s: "sorted (map ?f (filter P h))" "distinct (map ?f (filter P h))"
    using assms(3) by (auto simp: history_ok_def sorted_filter distinct_map_filter)
  have "inj_on ?f (set t)" using s(2) assms(2) by (simp add: distinct_map)
  then have "distinct (map ?f (sort_key ?f t))"
    using assms(1) by (simp add: distinct_map)
  then have "sort_key ?f t = filter P h"
    using strict_unique [of "sort_key ?f t" "filter P h" ?f] assms(2) s by simp
  then show ?thesis by (simp add: order_desc_def)
qed

lemma order_desc_filter:
  "sql_rel t h \<Longrightarrow> order_desc (filter P t) = rev (filter P h)"
  by (rule order_desc_rel) (auto simp: sql_rel_def distinct_map_filter)

lemma order_desc_all: "sql_rel t h \<Longrightarrow> order_desc t = rev h"
  using order_desc_filter [of t h "\<lambda>_. True"] by simp

lemma save_args_cases:
  "(if blank run then Inl ValueError else if blank query then Inl ValueError else x)
   = (if save_args_ok run query then x else Inl ValueError)"
  by (simp add: save_args_ok_def)

lemma sql_rel_save:
  assumes "sql_rel t h" "save_ok h run r"
  shows "sql_rel (AList.update run r t) (h_save h run r)"
  using assms history_ok_save [of h run r]
  by (auto simp: sql_rel_def distinct_update set_alist_update h_save_def)

lemma sql_rel_get: "sql_rel t h \<Longrightarrow> map_of t run = map_of h run"
  using map_of_inject_set [of t h] by (simp add: sql_rel_def history_ok_def)

lemma take_1_case: "(case take 1 xs of [] \<Rightarrow> a | e # es \<Rightarrow> f e) = (case xs of [] \<Rightarrow> a | e # es \<Rightarrow> f e)"
  by (cases xs) auto

lemma h_version_text:
  assumes "history_ok h"
  shows "text_or_none (h_version h sid pid)"
proof (cases "rev (filter (\<lambda>e. in_session sid (snd e) \<and> of_pack pid (snd e)) h)")
  case (Cons e es)
  then have "e \<in> set (rev (filter (\<lambda>e. in_session sid (snd e) \<and> of_pack pid (snd e)) h))" by simp
  then have "e \<in> set h" by simp
  then have "text_or_none (dget (row_meta (snd e)) ''pack_version'')"
    using assms unfolding history_ok_def save_ok_def by blast
  then show ?thesis by (simp add: h_version_def Cons)
qed (simp add: h_version_def text_or_none_def)

lemma version_text_id: "text_or_none v \<Longrightarrow> version_text rend v = v"
  by (auto simp: text_or_none_def version_text_def split: pyval.splits)

lemma entry_records [simp]: "entry \<circ> sqlite_record t = id" "entry \<circ> postgres_record p = id"
  "entry (sqlite_record t e) = e" "entry (postgres_record p e) = e"
  by (simp_all add: fun_eq_iff sqlite_record_def postgres_record_def)

interpretation sqlite: run_history sqlite_save sqlite_get sqlite_list sqlite_by_session sqlite_version
    "\<lambda>h run r. True" sql_rel
proof unfold_locales
  fix t :: sql_runs and h and sid pid :: string and limit assume r: "sql_rel t h"
  show "map_sum id (map entry) (sqlite_list t limit) = (if limit < 1 then Inl ValueError else Inr (h_list h limit))"
    if "limit < 2 ^ 63"
    using that by (simp add: sqlite_list_def h_list_def order_desc_all [OF r])
  show "map_sum id (map entry) (sqlite_by_session t sid limit) =
      (if blank sid \<or> limit < 1 then Inl ValueError else Inr (h_session h sid limit))" if "limit < 2 ^ 63"
    using that by (simp add: sqlite_by_session_def h_session_def order_desc_filter [OF r])
  show "sqlite_version t sid pid = h_version h sid pid"
    by (simp only: sqlite_version_def h_version_def order_desc_filter [OF r] take_1_case)
qed (auto simp: sqlite_save_def sqlite_get_def save_args_cases sql_rel_get option.map_comp comp_def intro: sql_rel_save)

interpretation postgres: run_history postgres_save postgres_get postgres_list postgres_by_session
    "postgres_version rend" "\<lambda>h run r. True" "\<lambda>t. sql_rel (pg_rows t)" for rend
proof unfold_locales
  fix t :: pg_runs and h and sid pid :: string and limit assume r: "sql_rel (pg_rows t) h"
  show "map_sum id (map entry) (postgres_list t limit) = (if limit < 1 then Inl ValueError else Inr (h_list h limit))"
    if "limit < 2 ^ 63"
    using that by (simp add: postgres_list_def h_list_def order_desc_all [OF r])
  show "map_sum id (map entry) (postgres_by_session t sid limit) =
      (if blank sid \<or> limit < 1 then Inl ValueError else Inr (h_session h sid limit))" if "limit < 2 ^ 63"
    using that by (simp add: postgres_by_session_def h_session_def order_desc_filter [OF r])
  assume "\<not> blank sid" "pid \<noteq> []"
  then have "postgres_version rend t sid pid = version_text rend (h_version h sid pid)"
    by (simp add: postgres_version_def h_version_def order_desc_filter [OF r] take_1_case
        version_text_def split: list.split)
  then show "postgres_version rend t sid pid = h_version h sid pid"
    using r h_version_text by (simp add: sql_rel_def version_text_id)
qed (auto simp: postgres_save_def postgres_get_def save_args_cases sql_rel_get option.map_comp comp_def Let_def intro: sql_rel_save)

section \<open>Redis\<close>

record redis_runs =
  hashes :: "string \<Rightarrow> run_row option"           \<comment> \<open>hash keys\<close>
  zsets :: "string \<Rightarrow> (string \<times> rat) list"       \<comment> \<open>sorted-set keys\<close>

definition run_key :: "string \<Rightarrow> string" where "run_key run = ''runhistory:run:'' @ run"
definition timeline_key :: string where "timeline_key = ''runhistory:timeline''"
definition session_key :: "string \<Rightarrow> string" where "session_key sid = ''runhistory:session:'' @ sid"
definition session_pack_key :: "string \<Rightarrow> string \<Rightarrow> string" where
  "session_pack_key sid pid = ''runhistory:session:'' @ sid @ '':pack:'' @ pid"

definition zadd :: "string \<Rightarrow> string \<Rightarrow> rat \<Rightarrow> (string \<Rightarrow> (string \<times> rat) list) \<Rightarrow> string \<Rightarrow> (string \<times> rat) list" where
  "zadd key m score z = z(key := AList.update m score (z key))"

definition zrevrange :: "int \<Rightarrow> (string \<times> rat) list \<Rightarrow> string list" where
  \<comment> \<open>the first members by descending score, ties by descending member\<close>
  "zrevrange n zs = take (nat n) (map fst (rev (sort_key snd (sort_key fst zs))))"

definition redis_save ::
  "(pyval \<Rightarrow> string) \<Rightarrow> redis_runs \<Rightarrow> string \<Rightarrow> string \<Rightarrow> pyval \<Rightarrow> pydict option \<Rightarrow> rat \<Rightarrow> redis_runs result" where
  "redis_save rend s run query res meta now =
     (if blank run then Inl ValueError
      else if blank query then Inl ValueError
      else (let r = new_row query res meta now;
                sid = dget (row_meta r) ''session_id'';
                pid = dget (row_meta r) ''pack_id'';
                z1 = zadd timeline_key run now (zsets s);
                z2 = (if truthy sid then zadd (session_key (py_str rend sid)) run now z1 else z1);
                z3 = (if truthy sid \<and> truthy pid
                      then zadd (session_pack_key (py_str rend sid) (py_str rend pid)) run now z2 else z2)
            in Inr \<lparr>hashes = (hashes s)(run_key run \<mapsto> r), zsets = z3\<rparr>))"

definition redis_get :: "redis_runs \<Rightarrow> string \<Rightarrow> run_record option" where
  \<comment> \<open>the hash holds the run's id, which \<open>_decode\<close> also gives as \<open>id\<close>\<close>
  "redis_get s run = map_option (\<lambda>r. \<lparr>rec_id = VStr run, rec_run = run, rec_row = r\<rparr>) (hashes s (run_key run))"

definition fetch :: "redis_runs \<Rightarrow> string list \<Rightarrow> run_record list" where
  \<comment> \<open>\<open>[r for rid in run_ids if (r := self.get_run(rid)) is not None]\<close>\<close>
  "fetch s ids = concat (map (\<lambda>i. case redis_get s i of None \<Rightarrow> [] | Some r \<Rightarrow> [r]) ids)"

definition redis_list :: "redis_runs \<Rightarrow> int \<Rightarrow> run_record list result" where
  \<comment> \<open>the server rejects an index \<open>limit - 1\<close> beyond 64 bits\<close>
  "redis_list s limit =
     (if limit < 1 then Inl ValueError
      else if 2 ^ 63 < limit then Inl OtherError
      else Inr (fetch s (zrevrange limit (zsets s timeline_key))))"

definition redis_by_session :: "redis_runs \<Rightarrow> string \<Rightarrow> int \<Rightarrow> run_record list result" where
  "redis_by_session s sid limit =
     (if blank sid then Inl ValueError
      else if limit < 1 then Inl ValueError
      else if 2 ^ 63 < limit then Inl OtherError
      else Inr (fetch s (zrevrange limit (zsets s (session_key sid)))))"

definition redis_version :: "(pyval \<Rightarrow> string) \<Rightarrow> redis_runs \<Rightarrow> string \<Rightarrow> string \<Rightarrow> pyval" where
  "redis_version rend s sid pid =
     (if blank sid \<or> pid = [] then VNone
      else (case zrevrange 1 (zsets s (session_pack_key sid pid)) of
              [] \<Rightarrow> (case redis_by_session s sid 50 of
                       Inl e \<Rightarrow> VNone
                     | Inr runs \<Rightarrow> (case find (\<lambda>r. of_pack pid (rec_row r)) runs of
                         None \<Rightarrow> VNone | Some r \<Rightarrow> dget (row_meta (rec_row r)) ''pack_version''))
            | rid # ids \<Rightarrow> (case redis_get s rid of
                None \<Rightarrow> VNone
              | Some r \<Rightarrow> version_text rend (dget (row_meta (rec_row r)) ''pack_version''))))"

definition scores :: "(run_row \<Rightarrow> bool) \<Rightarrow> history \<Rightarrow> (string \<times> rat) set" where
  "scores P h = (\<lambda>e. (fst e, row_created (snd e))) ` {e \<in> set h. P (snd e)}"

definition zset_is :: "(string \<times> rat) list \<Rightarrow> (run_row \<Rightarrow> bool) \<Rightarrow> history \<Rightarrow> bool" where
  "zset_is zs P h \<longleftrightarrow> distinct (map fst zs) \<and> set zs = scores P h"

definition redis_rel :: "redis_runs \<Rightarrow> history \<Rightarrow> bool" where
  "redis_rel s h \<longleftrightarrow> history_ok h
     \<and> (\<forall>run. hashes s (run_key run) = map_of h run)
     \<and> zset_is (zsets s timeline_key) (\<lambda>_. True) h
     \<and> (\<forall>sid. sid \<noteq> [] \<and> CHR '':'' \<notin> set sid \<longrightarrow> zset_is (zsets s (session_key sid)) (in_session sid) h)
     \<and> (\<forall>sid pid. sid \<noteq> [] \<and> pid \<noteq> [] \<and> CHR '':'' \<notin> set sid \<and> CHR '':'' \<notin> set pid \<longrightarrow>
          zset_is (zsets s (session_pack_key sid pid)) (\<lambda>r. in_session sid r \<and> of_pack pid r) h)"

lemma zrevrange_is:
  assumes h: "history_ok h" and z: "zset_is zs P h"
  shows "zrevrange n zs = take (nat n) (map fst (rev (filter (\<lambda>e. P (snd e)) h)))"
proof -
  let ?f = "\<lambda>e :: string \<times> run_row. (fst e, row_created (snd e))"
  let ?hp = "filter (\<lambda>e. P (snd e)) h"
  have s: "sorted (map snd (map ?f ?hp))" "distinct (map snd (map ?f ?hp))"
    using h by (auto simp: history_ok_def sorted_filter distinct_map_filter comp_def)
  have set: "set (sort_key snd (sort_key fst zs)) = set (map ?f ?hp)"
    using z by (auto simp: zset_is_def scores_def)
  have "inj_on snd (set (map ?f ?hp))" using s(2) by (simp only: distinct_map)
  then have "inj_on snd (set zs)" unfolding set [symmetric] by simp
  moreover have "distinct zs" using z by (simp add: zset_is_def distinct_map)
  ultimately have "distinct (map snd (sort_key snd (sort_key fst zs)))" by (simp add: distinct_map)
  then have "sort_key snd (sort_key fst zs) = map ?f ?hp"
    using strict_unique [OF set _ _ s] by simp
  then show ?thesis by (simp add: zrevrange_def rev_map comp_def)
qed

lemma fetch_ids:
  assumes "\<forall>run. hashes s (run_key run) = map_of h run" "distinct (map fst h)" "set es \<subseteq> set h"
  shows "map entry (fetch s (map fst es)) = es"
  using assms(3)
proof (induction es)
  case (Cons e es)
  then have "map_of h (fst e) = Some (snd e)" using assms(2) by (simp add: map_of_is_SomeI)
  with Cons assms(1) show ?case by (simp add: fetch_def redis_get_def)
qed (simp add: fetch_def)

lemma colon_split:
  "CHR '':'' \<notin> set a \<Longrightarrow> CHR '':'' \<notin> set b \<Longrightarrow> a @ CHR '':'' # x = b @ CHR '':'' # y \<longleftrightarrow> a = b \<and> x = y"
proof (induction a arbitrary: b)
  case Nil
  then show ?case by (cases b) auto
next
  case (Cons c a)
  then show ?case by (cases b) auto
qed

lemma key_distinct:
  "timeline_key \<noteq> session_key sid" "timeline_key \<noteq> session_pack_key sid pid"
  by (simp_all add: session_key_def session_pack_key_def timeline_key_def)

lemma session_key_no_pack: "CHR '':'' \<notin> set sid \<Longrightarrow> session_key sid \<noteq> session_pack_key sid' pid"
proof
  assume "CHR '':'' \<notin> set sid" "session_key sid = session_pack_key sid' pid"
  then have "sid = sid' @ '':pack:'' @ pid" by (simp only: session_key_def session_pack_key_def same_append_eq)
  then have "CHR '':'' \<in> set sid" by simp
  with \<open>CHR '':'' \<notin> set sid\<close> show False by contradiction
qed

lemma session_pack_key_inj:
  "CHR '':'' \<notin> set sid \<Longrightarrow> CHR '':'' \<notin> set sid' \<Longrightarrow>
   session_pack_key sid pid = session_pack_key sid' pid' \<longleftrightarrow> sid = sid' \<and> pid = pid'"
  using colon_split [of sid sid' "''pack:'' @ pid" "''pack:'' @ pid'"] by (simp add: session_pack_key_def)

lemma session_key_inj: "session_key sid = session_key sid' \<longleftrightarrow> sid = sid'"
  by (simp add: session_key_def)

lemma image_other_keys: "(\<And>e. fst (g e) = fst e) \<Longrightarrow> g ` {e \<in> A. fst e \<noteq> run} = {x \<in> g ` A. fst x \<noteq> run}"
  by auto

lemma zset_is_hit:
  assumes z: "zset_is zs P h" and h: "distinct (map fst h)" and r: "P r" "row_created r = now"
  shows "zset_is (AList.update run now zs) P (h_save h run r)"
proof -
  have "scores P (h_save h run r) = insert (run, now) {e \<in> scores P h. fst e \<noteq> run}"
  proof -
    let ?f = "\<lambda>e :: string \<times> run_row. (fst e, row_created (snd e))"
    have "{e \<in> set (h_save h run r). P (snd e)} = insert (run, r) {e \<in> {e \<in> set h. P (snd e)}. fst e \<noteq> run}"
      using r(1) by (auto simp: h_save_def)
    moreover have "?f ` {e \<in> A. fst e \<noteq> run} = {x \<in> ?f ` A. fst x \<noteq> run}" for A
      by (rule image_other_keys) simp
    ultimately show ?thesis unfolding scores_def r(2) [symmetric] by (simp only: image_insert fst_conv snd_conv)
  qed
  with z show ?thesis by (simp add: zset_is_def distinct_update set_alist_update)
qed

lemma zset_is_miss:
  assumes z: "zset_is zs P h" and r: "\<not> P r" and old: "\<forall>r0. (run, r0) \<in> set h \<longrightarrow> \<not> P r0"
  shows "zset_is zs P (h_save h run r)"
proof -
  have "scores P (h_save h run r) = scores P h"
    using r old by (force simp: scores_def h_save_def)
  with z show ?thesis by (simp add: zset_is_def)
qed

lemma zset_is_save:
  assumes "zset_is zs P h" "distinct (map fst h)" "row_created r = now" "\<forall>r0. (run, r0) \<in> set h \<longrightarrow> P r0 = P r"
  shows "zset_is (if P r then AList.update run now zs else zs) P (h_save h run r)"
  using zset_is_hit [OF assms(1,2) _ assms(3), of run] zset_is_miss [OF assms(1), of r run] assms(4) by simp

lemma text_cases: "text_or_none v \<Longrightarrow> v = VNone \<or> (\<exists>s. v = VStr s)"
  by (auto simp: text_or_none_def split: pyval.splits)

lemma redis_rel_save:
  assumes rel: "redis_rel s h" and args: "save_args_ok run query"
    and ok: "save_ok h run (new_row query res meta now)" and keep: "keeps_session h run (new_row query res meta now)"
  shows "\<exists>s'. redis_save rend s run query res meta now = Inr s'
    \<and> redis_rel s' (h_save h run (new_row query res meta now))"
proof -
  let ?r = "new_row query res meta now"
  let ?sid = "dget (row_meta ?r) ''session_id''" and ?pid = "dget (row_meta ?r) ''pack_id''"
  let ?z1 = "zadd timeline_key run now (zsets s)"
  let ?z2 = "if truthy ?sid then zadd (session_key (py_str rend ?sid)) run now ?z1 else ?z1"
  let ?z3 = "if truthy ?sid \<and> truthy ?pid
      then zadd (session_pack_key (py_str rend ?sid) (py_str rend ?pid)) run now ?z2 else ?z2"
  let ?s = "\<lparr>hashes = (hashes s)(run_key run \<mapsto> ?r), zsets = ?z3\<rparr>"
  have created: "row_created ?r = now" by (simp add: new_row_def)
  have h: "history_ok h" and dh: "distinct (map fst h)" using rel by (auto simp: redis_rel_def history_ok_def)
  have "text_or_none ?sid" "text_or_none ?pid" using ok by (auto simp: save_ok_def)
  then have sv: "?sid = VNone \<or> (\<exists>x. ?sid = VStr x \<and> CHR '':'' \<notin> set x)"
    and pv: "?pid = VNone \<or> (\<exists>x. ?pid = VStr x \<and> CHR '':'' \<notin> set x)"
    using text_cases [of ?sid] text_cases [of ?pid] ok unfolding save_ok_def by blast+
  have old_s: "\<forall>r0. (run, r0) \<in> set h \<longrightarrow> in_session x r0 = in_session x ?r"
    and old_p: "\<forall>r0. (run, r0) \<in> set h \<longrightarrow> of_pack x r0 = of_pack x ?r" for x
    using keep by (auto simp: keeps_session_def in_session_def of_pack_def)
  have hash: "\<forall>run'. hashes ?s (run_key run') = map_of (h_save h run ?r) run'"
    using rel by (auto simp: redis_rel_def h_save_map run_key_def)
  have z_time: "?z3 timeline_key = AList.update run now (zsets s timeline_key)"
    by (simp add: zadd_def key_distinct)
  have z_sess: "?z3 (session_key x) = (if in_session x ?r then AList.update run now (zsets s (session_key x))
      else zsets s (session_key x))" if "x \<noteq> []" "CHR '':'' \<notin> set x" for x
    using sv that key_distinct [THEN not_sym] session_key_no_pack [of x]
    by (auto simp: zadd_def session_key_inj in_session_def)
  have z_pack: "?z3 (session_pack_key x y) = (if in_session x ?r \<and> of_pack y ?r
      then AList.update run now (zsets s (session_pack_key x y)) else zsets s (session_pack_key x y))"
    if "x \<noteq> []" "y \<noteq> []" "CHR '':'' \<notin> set x" "CHR '':'' \<notin> set y" for x y
    using sv pv that key_distinct [THEN not_sym] session_key_no_pack [THEN not_sym] session_pack_key_inj
    by (elim disjE exE conjE) (auto simp: zadd_def in_session_def of_pack_def)
  have time: "zset_is (?z3 timeline_key) (\<lambda>_. True) (h_save h run ?r)"
    unfolding z_time using rel dh created by (intro zset_is_hit) (auto simp: redis_rel_def)
  have sess: "zset_is (?z3 (session_key x)) (in_session x) (h_save h run ?r)"
    if "x \<noteq> []" "CHR '':'' \<notin> set x" for x
    unfolding z_sess [OF that]
  proof (rule zset_is_save [OF _ dh created])
    show "zset_is (zsets s (session_key x)) (in_session x) h" using rel that by (simp add: redis_rel_def)
  qed (use old_s in blast)
  have pack: "zset_is (?z3 (session_pack_key x y)) (\<lambda>r. in_session x r \<and> of_pack y r) (h_save h run ?r)"
    if "x \<noteq> []" "y \<noteq> []" "CHR '':'' \<notin> set x" "CHR '':'' \<notin> set y" for x y
    unfolding z_pack [OF that]
  proof (rule zset_is_save [OF _ dh created])
    show "zset_is (zsets s (session_pack_key x y)) (\<lambda>r. in_session x r \<and> of_pack y r) h"
      using rel that by (simp add: redis_rel_def)
  qed (use old_s old_p in blast)
  have "redis_save rend s run query res meta now = Inr ?s"
    using args by (simp add: redis_save_def save_args_ok_def Let_def)
  moreover have "redis_rel ?s (h_save h run ?r)"
    unfolding redis_rel_def using history_ok_save [OF h ok] hash time sess pack by auto
  ultimately show ?thesis by blast
qed

lemma fetch_take:
  assumes "redis_rel s h"
  shows "map entry (fetch s (take n (map fst (rev (filter P h))))) = take n (rev (filter P h))"
proof -
  have "set (take n (rev (filter P h))) \<subseteq> set h" by (auto dest: in_set_takeD)
  then have "map entry (fetch s (map fst (take n (rev (filter P h))))) = take n (rev (filter P h))"
    using assms by (intro fetch_ids [of s h]) (auto simp: redis_rel_def history_ok_def)
  then show ?thesis by (simp add: take_map)
qed

lemma redis_by_session_eq:
  assumes rel: "redis_rel s h" and sid: "CHR '':'' \<notin> set sid" and limit: "limit < 2 ^ 63"
  shows "map_sum id (map entry) (redis_by_session s sid limit) = (if blank sid \<or> limit < 1 then Inl ValueError else Inr (h_session h sid limit))"
proof (cases "blank sid")
  case False
  then have "sid \<noteq> []" by (auto simp: blank_def)
  with rel sid have "history_ok h" "zset_is (zsets s (session_key sid)) (in_session sid) h"
    by (auto simp: redis_rel_def)
  from zrevrange_is [OF this] False limit show ?thesis
    by (simp add: redis_by_session_def h_session_def fetch_take [OF rel])
qed (simp add: redis_by_session_def)

lemma redis_version_eq:
  assumes rel: "redis_rel s h" and sid: "\<not> blank sid" "CHR '':'' \<notin> set sid" and pid: "pid \<noteq> []" "CHR '':'' \<notin> set pid"
  shows "redis_version rend s sid pid = h_version h sid pid"
proof -
  let ?F = "filter (\<lambda>e. in_session sid (snd e) \<and> of_pack pid (snd e)) h"
  have ne: "sid \<noteq> []" using sid(1) by (auto simp: blank_def)
  have h: "history_ok h" and z: "zset_is (zsets s (session_pack_key sid pid)) (\<lambda>r. in_session sid r \<and> of_pack pid r) h"
    using rel ne sid(2) pid by (auto simp: redis_rel_def)
  have range: "zrevrange 1 (zsets s (session_pack_key sid pid)) = take 1 (map fst (rev ?F))"
    using zrevrange_is [OF h z, of 1] by simp
  show ?thesis
  proof (cases "rev ?F")
    case Nil
    then have none: "\<forall>e\<in>set h. in_session sid (snd e) \<longrightarrow> \<not> of_pack pid (snd e)" by (simp add: filter_empty_conv)
    obtain runs where runs: "redis_by_session s sid 50 = Inr runs" "map entry runs = h_session h sid 50"
      using redis_by_session_eq [OF rel sid(2), of 50] sid(1)
      by (cases "redis_by_session s sid 50") (auto split: if_splits)
    have "\<not> of_pack pid (rec_row r)" if "r \<in> set runs" for r
    proof -
      have "entry r \<in> set (h_session h sid 50)" using that runs(2) by (metis image_eqI list.set_map)
      then have "in_session sid (rec_row r) \<and> (rec_run r, rec_row r) \<in> set h"
        by (auto simp: h_session_def entry_def dest!: in_set_takeD)
      then show ?thesis using none by (metis snd_conv)
    qed
    then have "find (\<lambda>r. of_pack pid (rec_row r)) runs = None" by (simp add: find_None_iff)
    with sid pid Nil range runs(1) show ?thesis
      by (simp add: redis_version_def h_version_def)
  next
    case (Cons e es)
    then have "e \<in> set (rev ?F)" by simp
    then have "e \<in> set h" by simp
    then have "map_of h (fst e) = Some (snd e)" using h by (simp add: history_ok_def map_of_is_SomeI)
    then have get: "map_option rec_row (redis_get s (fst e)) = Some (snd e)"
      using rel by (simp add: redis_rel_def redis_get_def)
    have "text_or_none (dget (row_meta (snd e)) ''pack_version'')"
      using h_version_text [OF h, of sid pid] by (simp add: h_version_def Cons)
    with sid pid Cons range get show ?thesis
      by (auto simp: redis_version_def h_version_def version_text_id)
  qed
qed

interpretation redis: run_history "redis_save rend" redis_get redis_list redis_by_session "redis_version rend"
    keeps_session redis_rel for rend
proof unfold_locales
  fix s h limit assume rel: "redis_rel s h"
  then have "history_ok h" "zset_is (zsets s timeline_key) (\<lambda>_. True) h" by (auto simp: redis_rel_def)
  from zrevrange_is [OF this] fetch_take [OF rel, of _ "\<lambda>_. True"]
  show "map_sum id (map entry) (redis_list s limit) = (if limit < 1 then Inl ValueError else Inr (h_list h limit))"
    if "limit < 2 ^ 63"
    using that by (simp add: redis_list_def h_list_def)
next
  fix s run query res meta now assume "\<not> save_args_ok run query"
  then show "redis_save rend s run query res meta now = Inl ValueError"
    by (auto simp: redis_save_def save_args_ok_def)
qed (simp_all add: redis_rel_save redis_by_session_eq redis_version_eq,
  simp add: redis_rel_def redis_get_def option.map_comp comp_def)

section \<open>Sequences of saves\<close>

record save_call =
  sv_run :: string
  sv_query :: string
  sv_result :: pyval
  sv_meta :: "pydict option"
  sv_now :: rat

definition call_row :: "save_call \<Rightarrow> run_row" where
  "call_row c = new_row (sv_query c) (sv_result c) (sv_meta c) (sv_now c)"

fun save_all :: "('s \<Rightarrow> string \<Rightarrow> string \<Rightarrow> pyval \<Rightarrow> pydict option \<Rightarrow> rat \<Rightarrow> 's result) \<Rightarrow> 's \<Rightarrow> save_call list \<Rightarrow> 's" where
  \<comment> \<open>a failed save changes nothing\<close>
  "save_all save s [] = s"
| "save_all save s (c # cs) = save_all save
     (case save s (sv_run c) (sv_query c) (sv_result c) (sv_meta c) (sv_now c) of Inl e \<Rightarrow> s | Inr s' \<Rightarrow> s') cs"

fun h_save_all :: "history \<Rightarrow> save_call list \<Rightarrow> history" where
  "h_save_all h [] = h"
| "h_save_all h (c # cs) = h_save_all
     (if save_args_ok (sv_run c) (sv_query c) then h_save h (sv_run c) (call_row c) else h) cs"

fun saves_ok :: "(history \<Rightarrow> string \<Rightarrow> run_row \<Rightarrow> bool) \<Rightarrow> history \<Rightarrow> save_call list \<Rightarrow> bool" where
  "saves_ok ok h [] = True"
| "saves_ok ok h (c # cs) =
     (if save_args_ok (sv_run c) (sv_query c)
      then save_ok h (sv_run c) (call_row c) \<and> ok h (sv_run c) (call_row c)
        \<and> saves_ok ok (h_save h (sv_run c) (call_row c)) cs
      else saves_ok ok h cs)"

context run_history begin

lemma save_all_rel: "rel s h \<Longrightarrow> saves_ok ok h cs \<Longrightarrow> rel (save_all save s cs) (h_save_all h cs)"
proof (induction cs arbitrary: s h)
  case (Cons c cs)
  show ?case
  proof (cases "save_args_ok (sv_run c) (sv_query c)")
    case True
    with Cons.prems have ok: "save_ok h (sv_run c) (call_row c)" "ok h (sv_run c) (call_row c)"
      and rest: "saves_ok ok (h_save h (sv_run c) (call_row c)) cs" by auto
    obtain s' where "save s (sv_run c) (sv_query c) (sv_result c) (sv_meta c) (sv_now c) = Inr s'"
      "rel s' (h_save h (sv_run c) (call_row c))"
      using save_rel [OF Cons.prems(1) True] ok unfolding call_row_def by blast
    with Cons.IH [OF _ rest] True show ?thesis by simp
  next
    case False
    with Cons save_err [OF False] show ?thesis by simp
  qed
qed simp

end

lemma saves_ok_weaken: "saves_ok ok h cs \<Longrightarrow> saves_ok (\<lambda>h run r. True) h cs"
  by (induction cs arbitrary: h) (auto split: if_splits)

definition redis_empty :: redis_runs where
  "redis_empty = \<lparr>hashes = (\<lambda>_. None), zsets = (\<lambda>_. [])\<rparr>"

definition postgres_empty :: pg_runs where
  "postgres_empty = \<lparr>pg_rows = [], pg_ids = (\<lambda>_. 0), pg_sequence = 0\<rparr>"

lemma empty_rel: "sql_rel [] []" "sql_rel (pg_rows postgres_empty) []" "redis_rel redis_empty []"
  by (simp_all add: sql_rel_def redis_rel_def history_ok_def redis_empty_def postgres_empty_def zset_is_def scores_def)

abbreviation runs_of :: "run_record list result \<Rightarrow> history result" where
  \<comment> \<open>a listing without the backends' own \<open>id\<close>\<close>
  "runs_of r \<equiv> map_sum id (map entry) r"


text \<open>Whatever was saved, a listing returns at most \<open>limit\<close> runs, newest first, each run once
  with its latest save, and a session's listing only runs of that session (for SQLite).\<close>

theorem history_listing:
  assumes "saves_ok (\<lambda>h run r. True) [] cs" and "sqlite_list (save_all sqlite_save [] cs) limit = Inr xs"
  shows "int (length xs) \<le> limit \<and> distinct (map rec_run xs) \<and> sorted (rev (map (\<lambda>r. row_created (rec_row r)) xs))
    \<and> (\<forall>r\<in>set xs. sqlite_get (save_all sqlite_save [] cs) (rec_run r) = Some r)
    \<and> (case sqlite_by_session (save_all sqlite_save [] cs) sid limit of
         Inl e \<Rightarrow> blank sid
       | Inr ys \<Rightarrow> \<forall>r\<in>set ys. in_session sid (rec_row r) \<and> sqlite_get (save_all sqlite_save [] cs) (rec_run r) = Some r)"
proof -
  let ?t = "save_all sqlite_save [] cs" and ?h = "h_save_all [] cs"
  have r: "sql_rel ?t ?h" using assms(1) by (rule sqlite.save_all_rel [OF empty_rel(1)])
  have od: "order_desc ?t = rev ?h" by (rule order_desc_all [OF r])
  have ods: "order_desc (filter (\<lambda>e. in_session sid (snd e)) ?t) = rev (filter (\<lambda>e. in_session sid (snd e)) ?h)"
    by (rule order_desc_filter [OF r])
  from r have h: "distinct (map fst ?h)" "sorted (map (\<lambda>e. row_created (snd e)) ?h)"
    by (auto simp: sql_rel_def history_ok_def)
  have get: "sqlite_get ?t (fst e) = Some (sqlite_record ?t e)" if "e \<in> set ?h" for e
    by (insert that h(1), cases e) (simp add: sqlite_get_def sql_rel_get [OF r])
  have rec: "rec_run (sqlite_record t e) = fst e" "rec_row (sqlite_record t e) = snd e" for t e
    by (simp_all add: sqlite_record_def)
  have xs: "xs = map (sqlite_record ?t) (take (nat limit) (rev ?h))" and l: "1 \<le> limit" "limit < 2 ^ 63"
    using assms(2) by (auto simp: sqlite_list_def od split: if_splits)
  have len: "int (length xs) \<le> limit" using xs l by simp
  have "map rec_run xs = take (nat limit) (rev (map fst ?h))"
    by (simp add: xs rec comp_def take_map rev_map)
  then have dist: "distinct (map rec_run xs)" using h(1) by simp
  have "rev (map (\<lambda>r. row_created (rec_row r)) xs) = drop (length ?h - nat limit) (map (\<lambda>e. row_created (snd e)) ?h)"
    by (simp add: xs rec comp_def rev_map rev_take drop_map)
  then have sort: "sorted (rev (map (\<lambda>r. row_created (rec_row r)) xs))"
    using h(2) by (simp add: sorted_wrt_drop)
  have mem: "\<forall>r\<in>set xs. sqlite_get ?t (rec_run r) = Some r"
    using get by (auto simp: xs rec dest!: in_set_takeD)
  have "case sqlite_by_session ?t sid limit of Inl e \<Rightarrow> blank sid
       | Inr ys \<Rightarrow> \<forall>r\<in>set ys. in_session sid (rec_row r) \<and> sqlite_get ?t (rec_run r) = Some r"
    using get l by (auto simp: sqlite_by_session_def ods rec dest!: in_set_takeD)
  with len dist sort mem show ?thesis by blast
qed

text \<open>Saving a run again under another session moves it in the SQL backends, but in Redis the
  index of the first session keeps it: the first session still lists the other's run.\<close>

theorem redis_stale_session_index:
  assumes "\<not> blank run" and "\<not> blank q" and "\<not> blank sid" and "\<not> blank sid'" and "sid \<noteq> sid'"
    and "CHR '':'' \<notin> set sid" and "CHR '':'' \<notin> set sid'"
    and "cs = [\<lparr>sv_run = run, sv_query = q, sv_result = res, sv_meta = Some [(''session_id'', VStr sid)], sv_now = 1\<rparr>,
               \<lparr>sv_run = run, sv_query = q, sv_result = res, sv_meta = Some [(''session_id'', VStr sid')], sv_now = 2\<rparr>]"
  shows "sqlite_by_session (save_all sqlite_save [] cs) sid 50 = Inr []
    \<and> (\<exists>r. redis_by_session (save_all (redis_save rend) redis_empty cs) sid 50 = Inr [r]
      \<and> rec_run r = run \<and> in_session sid' (rec_row r))"
proof -
  have ne: "sid \<noteq> []" "sid' \<noteq> []" using assms(3,4) by (auto simp: blank_def)
  have k: "session_key sid \<noteq> session_key sid'" "session_key sid \<noteq> timeline_key"
    using assms(5) key_distinct(1) [of sid] by (auto simp: session_key_inj)
  show ?thesis
    using assms(1-6) ne k
    by (simp add: assms(8) sqlite_save_def sqlite_by_session_def order_desc_def new_row_def in_session_def
        dget_def redis_save_def redis_by_session_def zadd_def zrevrange_def fetch_def redis_get_def
        redis_empty_def run_key_def Let_def)
qed

definition demo_saves :: "save_call list" where
  "demo_saves = [\<lparr>sv_run = ''r1'', sv_query = '' q '', sv_result = VNone,
      sv_meta = Some [(''session_id'', VStr ''s''), (''pack_id'', VStr ''p''), (''pack_version'', VStr ''2.0'')], sv_now = 1\<rparr>,
     \<lparr>sv_run = ''r2'', sv_query = ''q'', sv_result = VNone, sv_meta = None, sv_now = 2\<rparr>]"

lemma demo_saves_ok: "saves_ok keeps_session [] demo_saves" "saves_ok (\<lambda>h run r. True) [] demo_saves"
proof -
  have "save_args_ok ''r1'' '' q ''" "save_args_ok ''r2'' ''q''" by code_simp+
  then show "saves_ok keeps_session [] demo_saves"
    by (simp add: demo_saves_def save_ok_def h_save_def call_row_def new_row_def dget_def text_or_none_def
        keeps_session_def) auto
  then show "saves_ok (\<lambda>h run r. True) [] demo_saves" by (rule saves_ok_weaken)
qed


theorem history_listing_witness:
  "\<exists>xs. sqlite_list (save_all sqlite_save [] demo_saves) 1 = Inr xs \<and> int (length xs) \<le> 1"
proof -
  obtain xs where "sqlite_list (save_all sqlite_save [] demo_saves) 1 = Inr xs" by (simp add: sqlite_list_def)
  with history_listing [OF demo_saves_ok(2) this, of "''s''"] show ?thesis by blast
qed

theorem redis_stale_session_index_witness:
  "sqlite_by_session (save_all sqlite_save []
     [\<lparr>sv_run = ''r'', sv_query = ''q'', sv_result = VNone, sv_meta = Some [(''session_id'', VStr ''a'')], sv_now = 1\<rparr>,
      \<lparr>sv_run = ''r'', sv_query = ''q'', sv_result = VNone, sv_meta = Some [(''session_id'', VStr ''b'')], sv_now = 2\<rparr>])
     ''a'' 50 = Inr []"
proof -
  have "\<not> blank ''r''" "\<not> blank ''q''" "\<not> blank ''a''" "\<not> blank ''b''" by code_simp+
  from redis_stale_session_index [OF this _ _ _ refl, where res = VNone] show ?thesis by simp
qed

end
