(* ===== verification/Checkpointers.thy ===== *)
theory Checkpointers
  imports Prelude
begin

text \<open>
  The persistence factories of \<open>core/memory.py\<close>: the LangGraph checkpointer for each backend
  (asynchronous at start-up, synchronous for scripts), the fall-back to the in-process saver
  that only development allows, the context managers kept for shutdown, the run-history
  factory, and the redaction of connection URLs in the logs. What creating a directory,
  connecting and setting up raise, if anything, are arguments.
\<close>

datatype backend = SQLITE | REDIS | POSTGRES | UnknownBackend

datatype checkpointer =
    MemorySaver
  | AsyncSqliteSaver string | AsyncRedisSaver string | AsyncPostgresSaver string
  | SqliteSaver string | RedisSaver string | PostgresSaver string

record memory_settings =
  memory_backend :: backend
  sqlite_path :: string
  redis_url :: string
  postgres_url :: "string option"

record runtime =
  environment :: string
  installed :: "string \<Rightarrow> bool"                \<comment> \<open>the import succeeds\<close>
  makes_dir :: "string \<Rightarrow> exn option"          \<comment> \<open>what creating the directory of the file raises\<close>
  enters :: "checkpointer \<Rightarrow> exn option"       \<comment> \<open>what connecting (entering the context manager) raises\<close>
  sets_up :: "checkpointer \<Rightarrow> exn option"      \<comment> \<open>what \<open>setup()\<close> raises\<close>

record cm_state =
  sync_cm :: "checkpointer option"    \<comment> \<open>\<open>_active_checkpointer_cm\<close>\<close>
  async_cm :: "checkpointer option"   \<comment> \<open>\<open>_active_async_checkpointer_cm\<close>\<close>
  entered :: "checkpointer list"      \<comment> \<open>the context managers that were entered\<close>
  exited :: "checkpointer list"       \<comment> \<open>the context managers that were exited\<close>

type_synonym cm_step = "cm_state \<Rightarrow> checkpointer result \<times> cm_state"

definition fallback_or_raise :: "runtime \<Rightarrow> checkpointer result" where
  "fallback_or_raise rt = (if environment rt \<noteq> ''development'' then Inl RuntimeError else Inr MemorySaver)"

definition set_checkpointer_cm :: "checkpointer \<Rightarrow> cm_state \<Rightarrow> cm_state" where
  "set_checkpointer_cm cm st = st\<lparr>sync_cm := Some cm\<rparr>"

definition set_async_checkpointer_cm :: "checkpointer \<Rightarrow> cm_state \<Rightarrow> cm_state" where
  "set_async_checkpointer_cm cm st = st\<lparr>async_cm := Some cm\<rparr>"

definition enter_cm :: "runtime \<Rightarrow> checkpointer \<Rightarrow> cm_step" where
  "enter_cm rt cp st =
     (case enters rt cp of Some e \<Rightarrow> (Inl e, st) | None \<Rightarrow> (Inr cp, st\<lparr>entered := entered st @ [cp]\<rparr>))"

definition setup_saver :: "runtime \<Rightarrow> checkpointer \<Rightarrow> cm_step" where
  "setup_saver rt cp st = (case sets_up rt cp of Some e \<Rightarrow> (Inl e, st) | None \<Rightarrow> (Inr cp, st))"

definition then_do :: "cm_step \<Rightarrow> (checkpointer \<Rightarrow> cm_step) \<Rightarrow> cm_step" where
  "then_do f g st = (case f st of (Inl e, st') \<Rightarrow> (Inl e, st') | (Inr cp, st') \<Rightarrow> g cp st')"

definition enter_async_checkpointer_cm :: "runtime \<Rightarrow> checkpointer \<Rightarrow> cm_step" where
  "enter_async_checkpointer_cm rt cp = then_do (enter_cm rt cp) (setup_saver rt)"

definition unless_missing :: "runtime \<Rightarrow> string \<Rightarrow> cm_step \<Rightarrow> cm_step" where
  \<comment> \<open>the \<open>try\<close> around the import and the construction: only \<open>ImportError\<close> falls back\<close>
  "unless_missing rt package body st =
     (if \<not> installed rt package then (fallback_or_raise rt, st)
      else (case body st of
              (Inl e, st') \<Rightarrow> (if e = ImportError then fallback_or_raise rt else Inl e, st')
            | (Inr cp, st') \<Rightarrow> (Inr cp, st')))"

definition async_saver :: "runtime \<Rightarrow> checkpointer \<Rightarrow> cm_step" where
  \<comment> \<open>the manager is remembered after \<open>setup\<close>\<close>
  "async_saver rt cp = then_do (enter_async_checkpointer_cm rt cp) (\<lambda>c st. (Inr c, set_async_checkpointer_cm cp st))"

definition init_sqlite_checkpointer :: "runtime \<Rightarrow> string \<Rightarrow> cm_step" where
  "init_sqlite_checkpointer rt path st =
     (case makes_dir rt path of
        Some e \<Rightarrow> (Inl e, st)
      | None \<Rightarrow> unless_missing rt ''langgraph.checkpoint.sqlite.aio'' (async_saver rt (AsyncSqliteSaver path)) st)"

definition create_sqlite_checkpointer :: "runtime \<Rightarrow> string \<Rightarrow> cm_step" where
  \<comment> \<open>a plain connection, no context manager\<close>
  "create_sqlite_checkpointer rt path st =
     (case makes_dir rt path of
        Some e \<Rightarrow> (Inl e, st)
      | None \<Rightarrow> unless_missing rt ''langgraph.checkpoint.sqlite''
          (\<lambda>st. (case enters rt (SqliteSaver path) of Some e \<Rightarrow> Inl e | None \<Rightarrow> Inr (SqliteSaver path), st)) st)"

definition init_redis_checkpointer :: "runtime \<Rightarrow> string \<Rightarrow> cm_step" where
  "init_redis_checkpointer rt url =
     unless_missing rt ''langgraph.checkpoint.redis.aio'' (async_saver rt (AsyncRedisSaver url))"

definition create_redis_checkpointer :: "runtime \<Rightarrow> string \<Rightarrow> cm_step" where
  "create_redis_checkpointer rt url =
     unless_missing rt ''langgraph.checkpoint.redis''
       (then_do (enter_cm rt (RedisSaver url)) (\<lambda>c st. (Inr c, set_checkpointer_cm c st)))"

definition init_postgres_checkpointer :: "runtime \<Rightarrow> string option \<Rightarrow> cm_step" where
  "init_postgres_checkpointer rt url st =
     (case url of
        None \<Rightarrow> (fallback_or_raise rt, st)
      | Some u \<Rightarrow> if u = [] then (fallback_or_raise rt, st)
          else unless_missing rt ''langgraph.checkpoint.postgres.aio'' (async_saver rt (AsyncPostgresSaver u)) st)"

definition create_postgres_checkpointer :: "runtime \<Rightarrow> string option \<Rightarrow> cm_step" where
  \<comment> \<open>the manager is remembered before \<open>setup\<close>\<close>
  "create_postgres_checkpointer rt url st =
     (case url of
        None \<Rightarrow> (fallback_or_raise rt, st)
      | Some u \<Rightarrow> if u = [] then (fallback_or_raise rt, st)
          else unless_missing rt ''langgraph.checkpoint.postgres''
            (then_do (enter_cm rt (PostgresSaver u)) (\<lambda>c st. setup_saver rt c (set_checkpointer_cm c st))) st)"

definition init_checkpointer :: "runtime \<Rightarrow> memory_settings \<Rightarrow> cm_state \<Rightarrow> checkpointer result \<times> cm_state" where
  "init_checkpointer rt s st =
     (case memory_backend s of
        SQLITE \<Rightarrow> init_sqlite_checkpointer rt (sqlite_path s) st
      | REDIS \<Rightarrow> init_redis_checkpointer rt (redis_url s) st
      | POSTGRES \<Rightarrow> init_postgres_checkpointer rt (postgres_url s) st
      | UnknownBackend \<Rightarrow> (fallback_or_raise rt, st))"

definition create_checkpointer :: "runtime \<Rightarrow> memory_settings \<Rightarrow> cm_state \<Rightarrow> checkpointer result \<times> cm_state" where
  "create_checkpointer rt s st =
     (case memory_backend s of
        SQLITE \<Rightarrow> create_sqlite_checkpointer rt (sqlite_path s) st
      | REDIS \<Rightarrow> create_redis_checkpointer rt (redis_url s) st
      | POSTGRES \<Rightarrow> create_postgres_checkpointer rt (postgres_url s) st
      | UnknownBackend \<Rightarrow> (fallback_or_raise rt, st))"

definition cleanup_checkpointer :: "cm_state \<Rightarrow> cm_state" where
  "cleanup_checkpointer st =
     (case sync_cm st of
        None \<Rightarrow> st
      | Some cm \<Rightarrow> st\<lparr>sync_cm := None, exited := exited st @ [cm]\<rparr>)"

definition cleanup_checkpointer_async :: "cm_state \<Rightarrow> cm_state" where
  "cleanup_checkpointer_async st =
     cleanup_checkpointer
       (case async_cm st of
          None \<Rightarrow> st\<lparr>async_cm := None\<rparr>
        | Some cm \<Rightarrow> st\<lparr>async_cm := None, exited := exited st @ [cm]\<rparr>)"

section \<open>Run-history factory and URL redaction\<close>

datatype history_backend = RedisHistory string | PostgresHistory string | SqliteHistory string

definition create_run_history :: "(history_backend \<Rightarrow> exn option) \<Rightarrow> memory_settings \<Rightarrow> history_backend result" where
  \<comment> \<open>\<open>builds\<close>: what the constructor raises; the last one is outside every \<open>try\<close>\<close>
  "create_run_history builds s =
     (let sqlite = SqliteHistory (sqlite_path s);
          fallback = (case builds sqlite of Some e \<Rightarrow> Inl e | None \<Rightarrow> Inr sqlite) in
      if memory_backend s = REDIS \<and> redis_url s \<noteq> [] \<and> builds (RedisHistory (redis_url s)) = None
      then Inr (RedisHistory (redis_url s))
      else (case postgres_url s of
              Some u \<Rightarrow> if memory_backend s = POSTGRES \<and> u \<noteq> [] \<and> builds (PostgresHistory u) = None
                        then Inr (PostgresHistory u) else fallback
            | None \<Rightarrow> fallback))"

record dsn =
  dsn_scheme :: string
  dsn_userinfo :: string
  dsn_hostname :: "string option"
  dsn_port :: "nat option option"     \<comment> \<open>\<open>None\<close>: reading the port raises \<open>ValueError\<close>\<close>
  dsn_path :: string
  dsn_query :: string

definition redact_url :: "(string \<Rightarrow> dsn option) \<Rightarrow> string \<Rightarrow> string" where
  "redact_url urlparse url =
     (case urlparse url of
        None \<Rightarrow> ''[REDACTED]''
      | Some p \<Rightarrow>
          (case dsn_hostname p of
             None \<Rightarrow> ''[REDACTED]''
           | Some host \<Rightarrow>
               if host = [] then ''[REDACTED]''
               else (case dsn_port p of
                       None \<Rightarrow> ''[REDACTED]''
                     | Some port \<Rightarrow>
                         (let netloc = (case port of None \<Rightarrow> host | Some n \<Rightarrow> host @ '':'' @ show_nat n)
                          in dsn_scheme p @ ''://'' @ netloc @ dsn_path p))))"

lemmas checkpointer_defs = init_checkpointer_def create_checkpointer_def
  init_sqlite_checkpointer_def create_sqlite_checkpointer_def init_redis_checkpointer_def
  create_redis_checkpointer_def init_postgres_checkpointer_def create_postgres_checkpointer_def
  async_saver_def enter_async_checkpointer_cm_def unless_missing_def then_do_def enter_cm_def setup_saver_def
  fallback_or_raise_def set_checkpointer_cm_def set_async_checkpointer_cm_def

text \<open>Outside development the factories never fall back to the in-process saver: they give
  the saver of the configured backend, bound to the configured address, or raise; only a
  development environment may get \<open>MemorySaver\<close>, and only when the package is missing, the
  address is missing or the backend unknown.\<close>

theorem no_silent_memory_fallback:
  "(case fst (init_checkpointer rt s st) of
      Inl e \<Rightarrow> True
    | Inr c \<Rightarrow> (c = MemorySaver \<longrightarrow> environment rt = ''development'')
        \<and> c \<in> {MemorySaver, AsyncSqliteSaver (sqlite_path s), AsyncRedisSaver (redis_url s)}
              \<union> AsyncPostgresSaver ` (set_option (postgres_url s) - {[]}))
   \<and> (case fst (create_checkpointer rt s st) of
      Inl e \<Rightarrow> True
    | Inr c \<Rightarrow> (c = MemorySaver \<longrightarrow> environment rt = ''development'')
        \<and> c \<in> {MemorySaver, SqliteSaver (sqlite_path s), RedisSaver (redis_url s)}
              \<union> PostgresSaver ` (set_option (postgres_url s) - {[]}))"
  by (cases "memory_backend s"; cases "postgres_url s")
    (simp_all add: checkpointer_defs split: option.split)

definition bare_runtime :: runtime where
  "bare_runtime = \<lparr>environment = ''production'', installed = (\<lambda>_. False), makes_dir = (\<lambda>_. None),
     enters = (\<lambda>_. None), sets_up = (\<lambda>_. None)\<rparr>"

definition no_cms :: cm_state where
  "no_cms = \<lparr>sync_cm = None, async_cm = None, entered = [], exited = []\<rparr>"

definition demo_memory :: memory_settings where
  "demo_memory = \<lparr>memory_backend = SQLITE, sqlite_path = ''db'', redis_url = [], postgres_url = None\<rparr>"

theorem no_silent_memory_fallback_witness:
  "fst (create_checkpointer bare_runtime demo_memory no_cms) \<noteq> Inr MemorySaver
   \<and> fst (create_checkpointer (bare_runtime\<lparr>environment := ''development''\<rparr>) demo_memory no_cms) = Inr MemorySaver"
proof
  show "fst (create_checkpointer bare_runtime demo_memory no_cms) \<noteq> Inr MemorySaver"
    using no_silent_memory_fallback [of bare_runtime demo_memory no_cms] by (auto simp: bare_runtime_def)
qed (simp add: checkpointer_defs bare_runtime_def demo_memory_def)

text \<open>What start-up opens, shutdown closes: when initialisation gives a saver, the context
  manager it entered is remembered, the clean-up exits it exactly once, and a second clean-up
  does nothing. When initialisation fails, a manager may have been entered: the one whose
  \<open>setup\<close> failed. It is not remembered and nothing ever exits it.\<close>

lemma init_checkpointer_cms:
  assumes "init_checkpointer rt s st = (res, st')"
  shows "sync_cm st' = sync_cm st \<and> exited st' = exited st
    \<and> (case res of
         Inr cp \<Rightarrow> (if cp = MemorySaver then async_cm st' = async_cm st else async_cm st' = Some cp \<and> entered st' = entered st @ [cp])
       | Inl e \<Rightarrow> async_cm st' = async_cm st \<and> (entered st' = entered st
            \<or> (\<exists>cp e'. sets_up rt cp = Some e' \<and> entered st' = entered st @ [cp])))"
  using assms
  by (cases "memory_backend s"; cases "postgres_url s")
    (auto simp: checkpointer_defs split: if_splits option.splits)

theorem checkpointer_lifecycle:
  assumes "init_checkpointer rt s no_cms = (Inr cp, st)" and "\<forall>c. sets_up rt c = None"
  shows "cleanup_checkpointer_async st = no_cms\<lparr>entered := entered st, exited := entered st\<rparr>
    \<and> entered st = (if cp = MemorySaver then [] else [cp])
    \<and> cleanup_checkpointer_async (cleanup_checkpointer_async st) = cleanup_checkpointer_async st"
  using assms
  by (cases "memory_backend s"; cases "postgres_url s") (auto simp: checkpointer_defs cleanup_checkpointer_async_def cleanup_checkpointer_def
      no_cms_def split: if_splits option.splits)

definition full_runtime :: runtime where
  "full_runtime = bare_runtime\<lparr>installed := (\<lambda>_. True)\<rparr>"

theorem checkpointer_lifecycle_witness:
  "cleanup_checkpointer_async (no_cms\<lparr>async_cm := Some (AsyncSqliteSaver ''db''), entered := [AsyncSqliteSaver ''db'']\<rparr>)
     = no_cms\<lparr>entered := [AsyncSqliteSaver ''db''], exited := [AsyncSqliteSaver ''db'']\<rparr>"
proof -
  have "init_checkpointer full_runtime demo_memory no_cms
    = (Inr (AsyncSqliteSaver ''db''), no_cms\<lparr>async_cm := Some (AsyncSqliteSaver ''db''), entered := [AsyncSqliteSaver ''db'']\<rparr>)"
    by (simp add: checkpointer_defs full_runtime_def bare_runtime_def demo_memory_def no_cms_def)
  from checkpointer_lifecycle [OF this] show ?thesis by (simp add: full_runtime_def bare_runtime_def no_cms_def)
qed

lemma setup_failure_leaks:
  assumes "memory_backend s = REDIS" and "installed rt ''langgraph.checkpoint.redis.aio''"
    and "enters rt (AsyncRedisSaver (redis_url s)) = None"
    and "sets_up rt (AsyncRedisSaver (redis_url s)) = Some e" and "e \<noteq> ImportError"
  shows "fst (init_checkpointer rt s no_cms) = Inl e
    \<and> (let st = cleanup_checkpointer_async (snd (init_checkpointer rt s no_cms))
       in entered st = [AsyncRedisSaver (redis_url s)] \<and> exited st = [])"
  using assms by (simp add: checkpointer_defs no_cms_def cleanup_checkpointer_async_def cleanup_checkpointer_def Let_def)

lemma redact_url_hides_credentials:
  "redact_url (\<lambda>_. Some (p\<lparr>dsn_userinfo := u, dsn_query := q\<rparr>)) url = redact_url (\<lambda>_. Some p) url'"
  by (simp add: redact_url_def split: option.split)

end
