(* ===== verification/Cost.thy ===== *)
theory Cost
  imports Prelude
begin

text \<open>
  LLM cost accounting (\<open>core/cost.py\<close>): the pricing table and its JSON override, the
  resolution of model ids (exact, dated, Bedrock, prefix aliases), the price of a call with
  cache and batch rates, and the \<open>CostTracker\<close> call-back that refuses a call whose worst case
  does not fit the budget and stops a run whose spend exceeds it. Rates are exact rationals.
\<close>

section \<open>Pricing\<close>

record model_pricing =
  input_per_1k :: rat
  output_per_1k :: rat
  cache_read_per_1k :: "rat option"
  cache_write_per_1k :: "rat option"
  batch_multiplier :: rat

type_synonym price_table = "(string \<times> model_pricing) list"

definition pricing :: "rat \<Rightarrow> rat \<Rightarrow> model_pricing" where
  "pricing i out = \<lparr>input_per_1k = i, output_per_1k = out, cache_read_per_1k = None,
     cache_write_per_1k = None, batch_multiplier = 1 / 2\<rparr>"

definition cache_read_rate :: "model_pricing \<Rightarrow> rat" where
  "cache_read_rate p = (case cache_read_per_1k p of Some r \<Rightarrow> r | None \<Rightarrow> input_per_1k p * (1 / 10))"

definition cache_write_rate :: "model_pricing \<Rightarrow> rat" where
  "cache_write_rate p = (case cache_write_per_1k p of Some r \<Rightarrow> r | None \<Rightarrow> input_per_1k p * (5 / 4))"

definition COST_PER_1K :: price_table where
  "COST_PER_1K =
    [(''claude-3-5-sonnet-20241022'', pricing (3 / 1000) (3 / 200)),
     (''claude-3-5-haiku-20241022'', pricing (1 / 1250) (1 / 250)),
     (''claude-3-opus-20240229'', pricing (3 / 200) (3 / 40)),
     (''claude-3-haiku-20240307'', pricing (1 / 4000) (1 / 800)),
     (''claude-sonnet-4-20250514'', pricing (3 / 1000) (3 / 200)),
     (''claude-opus-4-20250514'', pricing (3 / 200) (3 / 40)),
     (''claude-opus-4-1'', pricing (3 / 200) (3 / 40)),
     (''claude-opus-4-7'', pricing (3 / 200) (3 / 40)),
     (''claude-haiku-4-5'', pricing (1 / 1000) (1 / 200)),
     (''claude-sonnet-5'', pricing (3 / 1000) (3 / 200)),
     (''claude-opus-4-8'', pricing (1 / 200) (1 / 40)),
     (''gpt-4o'', pricing (1 / 200) (3 / 200)),
     (''gpt-4o-mini'', pricing (3 / 20000) (3 / 5000)),
     (''gpt-4o-2024-08-06'', pricing (1 / 200) (3 / 200)),
     (''gpt-4-turbo'', pricing (1 / 100) (3 / 100)),
     (''gpt-4-turbo-preview'', pricing (1 / 100) (3 / 100)),
     (''gpt-4'', pricing (3 / 100) (3 / 50)),
     (''gpt-4.1'', pricing (1 / 500) (1 / 125)),
     (''gpt-4.1-mini'', pricing (1 / 2500) (1 / 625)),
     (''gpt-4.1-nano'', pricing (1 / 10000) (1 / 2500)),
     (''o1'', pricing (3 / 200) (3 / 50)),
     (''o1-mini'', pricing (3 / 1000) (3 / 250)),
     (''o1-preview'', pricing (3 / 200) (3 / 50)),
     (''o3'', pricing (1 / 100) (1 / 25)),
     (''o3-mini'', pricing (11 / 10000) (11 / 2500)),
     (''gpt-5.5'', pricing (1 / 200) (3 / 100)),
     (''gemini-1.5-pro'', pricing (1 / 800) (1 / 200)),
     (''gemini-1.5-flash'', pricing (3 / 40000) (3 / 10000)),
     (''gemini-2.0-flash'', pricing (1 / 10000) (1 / 2500)),
     (''gemini-2.5-pro'', pricing (1 / 800) (1 / 100)),
     (''gemini-2.5-flash'', pricing (3 / 20000) (3 / 5000)),
     (''gemini-3.5-flash'', pricing (3 / 2000) (9 / 1000)),
     (''mistral-large-latest'', pricing (1 / 500) (3 / 500)),
     (''mistral-small-latest'', pricing (1 / 5000) (3 / 5000)),
     (''pixtral-large-latest'', pricing (1 / 500) (3 / 500)),
     (''llama-3.3-70b-instruct'', pricing (59 / 100000) (79 / 100000)),
     (''llama-3.1-405b-instruct'', pricing (3 / 1000) (3 / 1000)),
     (''llama-3.1-70b-instruct'', pricing (59 / 100000) (79 / 100000)),
     (''llama-3.1-8b-instruct'', pricing (1 / 20000) (1 / 12500))]"

definition MODEL_ID_PREFIX_ALIASES :: "(string \<times> string) list" where
  "MODEL_ID_PREFIX_ALIASES =
    [(''claude-sonnet-4'', ''claude-sonnet-4-20250514''),
     (''claude-opus-4-1'', ''claude-opus-4-1''),
     (''claude-opus-4-8'', ''claude-opus-4-8''),
     (''claude-opus-4'', ''claude-opus-4-20250514''),
     (''claude-haiku-4-5'', ''claude-haiku-4-5''),
     (''claude-sonnet-5'', ''claude-sonnet-5''),
     (''claude-3-5-sonnet'', ''claude-3-5-sonnet-20241022''),
     (''claude-3-5-haiku'', ''claude-3-5-haiku-20241022''),
     (''claude-3-opus'', ''claude-3-opus-20240229''),
     (''claude-3-haiku'', ''claude-3-haiku-20240307''),
     (''gpt-4.1-nano'', ''gpt-4.1-nano''),
     (''gpt-4.1-mini'', ''gpt-4.1-mini''),
     (''gpt-4.1'', ''gpt-4.1''),
     (''gpt-4o-mini'', ''gpt-4o-mini''),
     (''gpt-4o'', ''gpt-4o''),
     (''gpt-4-turbo'', ''gpt-4-turbo''),
     (''o3-mini'', ''o3-mini''),
     (''o3'', ''o3''),
     (''o1-mini'', ''o1-mini''),
     (''o1'', ''o1''),
     (''gemini-2.5-pro'', ''gemini-2.5-pro''),
     (''gemini-2.5-flash'', ''gemini-2.5-flash''),
     (''gemini-2.0-flash'', ''gemini-2.0-flash''),
     (''gemini-1.5-pro'', ''gemini-1.5-pro''),
     (''gemini-1.5-flash'', ''gemini-1.5-flash''),
     (''anthropic.claude-3-5-sonnet'', ''claude-3-5-sonnet-20241022''),
     (''anthropic.claude-3-5-haiku'', ''claude-3-5-haiku-20241022''),
     (''anthropic.claude-3-opus'', ''claude-3-opus-20240229''),
     (''anthropic.claude-sonnet-4'', ''claude-sonnet-4-20250514''),
     (''anthropic.claude-opus-4-8'', ''claude-opus-4-8''),
     (''anthropic.claude-opus-4'', ''claude-opus-4-20250514''),
     (''anthropic.claude-haiku-4-5'', ''claude-haiku-4-5''),
     (''anthropic.claude-sonnet-5'', ''claude-sonnet-5''),
     (''meta.llama3-3-70b-instruct'', ''llama-3.3-70b-instruct''),
     (''meta.llama3-1-405b-instruct'', ''llama-3.1-405b-instruct''),
     (''meta.llama3-1-70b-instruct'', ''llama-3.1-70b-instruct''),
     (''meta.llama3-1-8b-instruct'', ''llama-3.1-8b-instruct''),
     (''mistral-large'', ''mistral-large-latest''),
     (''mistral-small'', ''mistral-small-latest'')]"

definition MODEL_PROVIDER_PREFIXES :: "(string \<times> string) list" where
  "MODEL_PROVIDER_PREFIXES =
    [(''anthropic.'', ''anthropic''),
     (''claude'', ''anthropic''),
     (''gpt-'', ''openai''),
     (''o1'', ''openai''),
     (''o3'', ''openai''),
     (''gemini'', ''google''),
     (''mistral'', ''mistral''),
     (''pixtral'', ''mistral''),
     (''meta.llama'', ''meta''),
     (''llama'', ''meta'')]"

section \<open>Resolution of model ids\<close>

definition digit :: "char \<Rightarrow> bool" where
  "digit c \<longleftrightarrow> (let n = (of_char c :: nat) in 48 \<le> n \<and> n \<le> 57)"

definition normalize_model_id :: "string \<Rightarrow> string" where
  "normalize_model_id s = strip (lower s)"

definition has_date_suffix :: "string \<Rightarrow> bool" where
  \<comment> \<open>\<open>-\d{8}$\<close>\<close>
  "has_date_suffix s \<longleftrightarrow> 9 \<le> length s \<and> s ! (length s - 9) = CHR ''-'' \<and> list_all digit (drop (length s - 8) s)"

definition strip_date :: "string \<Rightarrow> string" where
  "strip_date s = (if has_date_suffix s then take (length s - 9) s else s)"

definition strip_version :: "string \<Rightarrow> string" where
  \<comment> \<open>without \<open>-v\d+:\d+$\<close>\<close>
  "strip_version s =
     (let r = rev s; r1 = dropWhile digit r
      in if r1 = r then s
         else (case r1 of
           c # r2 \<Rightarrow> if c \<noteq> CHR '':'' then s
             else (let r3 = dropWhile digit r2
                   in if r3 = r2 then s
                      else (case r3 of
                        v # d # r4 \<Rightarrow> if v = CHR ''v'' \<and> d = CHR ''-'' then rev r4 else s
                      | _ \<Rightarrow> s))
         | [] \<Rightarrow> s))"

definition bedrock_model_fragment :: "string \<Rightarrow> string option" where
  "bedrock_model_fragment s =
     (if CHR ''.'' \<notin> set s then None
      else Some (strip_version (tl (dropWhile (\<lambda>c. c \<noteq> CHR ''.'') s))))"

definition model_candidates :: "string \<Rightarrow> string list" where
  "model_candidates normalised =
     [normalised]
     @ (if has_date_suffix normalised then [strip_date normalised] else [])
     @ (case bedrock_model_fragment normalised of
          None \<Rightarrow> []
        | Some b \<Rightarrow> if b = [] then []
                    else [b] @ (if has_date_suffix b then [strip_date b] else []))"

fun resolve_alias :: "price_table \<Rightarrow> string list \<Rightarrow> (string \<times> string) list \<Rightarrow> model_pricing option" where
  "resolve_alias table cands [] = None"
| "resolve_alias table cands ((pre, canonical) # rest) =
     (if (\<exists>c\<in>set cands. startswith pre c) \<and> map_of table canonical \<noteq> None
      then map_of table canonical else resolve_alias table cands rest)"

definition resolve_model_pricing :: "price_table \<Rightarrow> string \<Rightarrow> model_pricing option" where
  "resolve_model_pricing table model_id =
     (let normalised = normalize_model_id model_id
      in if normalised = [] then None
         else (let cands = model_candidates normalised
               in case find (\<lambda>c. map_of table c \<noteq> None) cands of
                    Some c \<Rightarrow> map_of table c
                  | None \<Rightarrow> resolve_alias table cands MODEL_ID_PREFIX_ALIASES))"

definition provider_from_model_id :: "string \<Rightarrow> string" where
  "provider_from_model_id model_id =
     (let normalised = normalize_model_id model_id;
          cands = normalised # (case bedrock_model_fragment normalised of
                                  None \<Rightarrow> [] | Some b \<Rightarrow> if b = [] then [] else [b])
      in if normalised = [] then ''unknown''
         else (case find (\<lambda>e. \<exists>c\<in>set cands. startswith (fst e) c) MODEL_PROVIDER_PREFIXES of
                 None \<Rightarrow> ''unknown'' | Some e \<Rightarrow> snd e))"

section \<open>The override file\<close>

fun py_float :: "(string \<Rightarrow> rat option) \<Rightarrow> pyval \<Rightarrow> rat result" where
  "py_float parse (VInt i) = Inr (of_int i)"
| "py_float parse (VFloat r) = Inr r"
| "py_float parse (VBool b) = Inr (if b then 1 else 0)"
| "py_float parse (VStr s) = (case parse s of None \<Rightarrow> Inl ValueError | Some r \<Rightarrow> Inr r)"
| "py_float parse _ = Inl TypeError"

definition opt_float :: "(string \<Rightarrow> rat option) \<Rightarrow> pyval list \<Rightarrow> nat \<Rightarrow> rat option result" where
  "opt_float parse raw i = (if i < length raw then map_sum id Some (py_float parse (raw ! i)) else Inr None)"

definition parse_pricing_entry :: "(string \<Rightarrow> rat option) \<Rightarrow> pyval \<Rightarrow> model_pricing result" where
  "parse_pricing_entry parse v =
     (case v of
        VList raw \<Rightarrow>
          if length raw < 2 then Inl ValueError
          else rbind (py_float parse (raw ! 0)) (\<lambda>i.
               rbind (py_float parse (raw ! 1)) (\<lambda>out.
               rbind (opt_float parse raw 2) (\<lambda>cr.
               rbind (opt_float parse raw 3) (\<lambda>cw.
               rbind (opt_float parse raw 4) (\<lambda>bm.
                 Inr \<lparr>input_per_1k = i, output_per_1k = out, cache_read_per_1k = cr,
                      cache_write_per_1k = cw,
                      batch_multiplier = (case bm of None \<Rightarrow> 1 / 2 | Some b \<Rightarrow> b)\<rparr>)))))
      | _ \<Rightarrow> Inl ValueError)"

fun parse_overrides :: "(string \<Rightarrow> rat option) \<Rightarrow> pydict \<Rightarrow> price_table result" where
  "parse_overrides parse [] = Inr []"
| "parse_overrides parse ((k, v) # es) =
     rbind (parse_pricing_entry parse v) (\<lambda>p. rbind (parse_overrides parse es) (\<lambda>ps. Inr ((k, p) # ps)))"

definition load_cost_table :: "(string \<Rightarrow> rat option) \<Rightarrow> pyval option option \<Rightarrow> price_table" where
  \<comment> \<open>\<open>None\<close>: no such file; \<open>Some None\<close>: unreadable or not JSON\<close>
  "load_cost_table parse file =
     (case file of
        None \<Rightarrow> COST_PER_1K
      | Some None \<Rightarrow> COST_PER_1K
      | Some (Some (VDict raw)) \<Rightarrow>
          (case parse_overrides parse raw of
             Inl e \<Rightarrow> COST_PER_1K
           | Inr overrides \<Rightarrow> fold (\<lambda>e t. AList.update (fst e) (snd e) t) overrides COST_PER_1K)
      | Some (Some _) \<Rightarrow> COST_PER_1K)"

section \<open>The price of a call\<close>

record token_usage =
  u_model_id :: string
  u_input :: int
  u_output :: int
  u_cache_read :: int
  u_cache_write :: int
  u_batch :: bool

definition compute_call_cost :: "price_table \<Rightarrow> bool \<Rightarrow> token_usage \<Rightarrow> rat result" where
  \<comment> \<open>\<open>strict\<close>: unknown models are an error (production)\<close>
  "compute_call_cost table strict u =
     (case resolve_model_pricing table (u_model_id u) of
        None \<Rightarrow> if strict \<and> u_model_id u \<noteq> [] then Inl UnknownModelPricingError else Inr 0
      | Some p \<Rightarrow>
          (let billed_input = max 0 (u_input u - u_cache_read u - u_cache_write u);
               cost = of_int billed_input / 1000 * input_per_1k p
                    + of_int (u_cache_read u) / 1000 * cache_read_rate p
                    + of_int (u_cache_write u) / 1000 * cache_write_rate p
                    + of_int (u_output u) / 1000 * output_per_1k p
           in Inr (if u_batch u then cost * batch_multiplier p else cost)))"

definition estimate_worst_case_call_cost ::
  "price_table \<Rightarrow> bool \<Rightarrow> string \<Rightarrow> int \<Rightarrow> int \<Rightarrow> rat result" where
  "estimate_worst_case_call_cost table strict model_id input_tokens max_output_tokens =
     (case resolve_model_pricing table model_id of
        None \<Rightarrow> if strict \<and> model_id \<noteq> [] then Inl UnknownModelPricingError else Inr 0
      | Some p \<Rightarrow> Inr (of_int input_tokens / 1000 * input_per_1k p
                      + of_int max_output_tokens / 1000 * output_per_1k p))"

section \<open>Token usage of a response\<close>

record llm_message =
  response_metadata :: pydict
  usage_metadata :: pyval

record llm_result =
  llm_output :: pydict
  generations :: "llm_message option list"   \<comment> \<open>all rows, a generation without message is \<open>None\<close>\<close>

fun to_int :: "pyval \<Rightarrow> int result" where
  \<comment> \<open>\<open>int(v)\<close>\<close>
  "to_int (VInt i) = Inr i"
| "to_int (VBool b) = Inr (if b then 1 else 0)"
| "to_int (VFloat r) = Inr (if r < 0 then - \<lfloor>- r\<rfloor> else \<lfloor>r\<rfloor>)"
| "to_int (VStr s) = (case py_int s of None \<Rightarrow> Inl ValueError | Some i \<Rightarrow> Inr i)"
| "to_int _ = Inl TypeError"

definition text_of :: "pyval \<Rightarrow> string" where
  \<comment> \<open>model names are text; anything falsy is the empty text\<close>
  "text_of v = (case v of VStr s \<Rightarrow> s | _ \<Rightarrow> [])"

fun scan_generations :: "llm_message option list \<Rightarrow> string \<Rightarrow> pyval \<Rightarrow> string \<times> pyval" where
  "scan_generations [] model usage = (model, usage)"
| "scan_generations (None # gs) model usage = scan_generations gs model usage"
| "scan_generations (Some m # gs) model usage =
     scan_generations gs
       (if model \<noteq> [] then model
        else text_of (py_or (dget_or (response_metadata m) ''model_id'' (VStr []))
                            (dget_or (response_metadata m) ''model'' (VStr []))))
       (py_or (usage_metadata m) usage)"

definition first_of :: "pydict \<Rightarrow> string \<Rightarrow> string \<Rightarrow> pyval" where
  \<comment> \<open>\<open>d.get(k1, 0) or d.get(k2, 0)\<close>\<close>
  "first_of d k1 k2 = py_or (dget_or d k1 (VInt 0)) (dget_or d k2 (VInt 0))"

definition usage_from_metadata :: "string \<Rightarrow> bool \<Rightarrow> pydict \<Rightarrow> token_usage result" where
  "usage_from_metadata model batch d =
     rbind (to_int (dget_or d ''input_tokens'' (VInt 0))) (\<lambda>i.
     rbind (to_int (dget_or d ''output_tokens'' (VInt 0))) (\<lambda>out.
     rbind (to_int (first_of d ''cache_read_input_tokens'' ''cached_input_tokens'')) (\<lambda>cr.
     rbind (to_int (first_of d ''cache_creation_input_tokens'' ''cache_write_input_tokens'')) (\<lambda>cw.
     rbind (case py_or (dget d ''input_token_details'') (VDict []) of
              VDict det \<Rightarrow>
                rbind (to_int (py_or (dget_or det ''cache_read'' (VInt 0)) (VInt 0))) (\<lambda>a.
                rbind (to_int (py_or (dget_or det ''cached_tokens'' (VInt 0)) (VInt 0))) (\<lambda>b.
                  Inr (max cr (max a b))))
            | _ \<Rightarrow> Inr cr) (\<lambda>cr'.
       Inr \<lparr>u_model_id = model, u_input = i, u_output = out, u_cache_read = cr', u_cache_write = cw,
            u_batch = (batch \<or> truthy (dget d ''batch''))\<rparr>)))))"

definition usage_from_output :: "string \<Rightarrow> bool \<Rightarrow> pyval \<Rightarrow> token_usage result" where
  "usage_from_output model batch tu =
     (if \<not> truthy tu
      then Inr \<lparr>u_model_id = model, u_input = 0, u_output = 0, u_cache_read = 0, u_cache_write = 0, u_batch = batch\<rparr>
      else (let d = as_dict tu in
        rbind (to_int (dget_or d ''prompt_tokens'' (dget_or d ''input_tokens'' (VInt 0)))) (\<lambda>i.
        rbind (to_int (dget_or d ''completion_tokens'' (dget_or d ''output_tokens'' (VInt 0)))) (\<lambda>out.
        rbind (case py_or (dget d ''prompt_tokens_details'') (VDict []) of
                 VDict det \<Rightarrow> to_int (py_or (dget_or det ''cached_tokens'' (VInt 0)) (VInt 0))
               | _ \<Rightarrow> Inr 0) (\<lambda>cr.
          Inr \<lparr>u_model_id = model, u_input = i, u_output = out, u_cache_read = cr, u_cache_write = 0,
               u_batch = batch\<rparr>)))))"

definition extract_tokens_from_result :: "llm_result \<Rightarrow> token_usage result" where
  "extract_tokens_from_result r =
     (let lo = llm_output r;
          model0 = text_of (py_or (dget_or lo ''model_name'' (VStr [])) (dget_or lo ''model'' (VStr [])));
          batch = (truthy (dget lo ''batch'') \<or> truthy (dget lo ''batch_mode'') \<or> truthy (dget lo ''is_batch''))
      in case scan_generations (generations r) model0 VNone of (model, usage) \<Rightarrow>
           if truthy usage then usage_from_metadata model batch (as_dict usage)
           else usage_from_output model batch (dget_or lo ''token_usage'' (dget_or lo ''usage'' (VDict []))))"

section \<open>\<open>CostTracker\<close>\<close>

record cost_tracker =
  budget_usd :: "rat option"
  total_cost_usd :: rat
  input_tokens :: int
  output_tokens :: int

definition cost_tracker_init :: "rat option \<Rightarrow> cost_tracker" where
  "cost_tracker_init b = \<lparr>budget_usd = b, total_cost_usd = 0, input_tokens = 0, output_tokens = 0\<rparr>"

definition DEFAULT_MAX_OUTPUT_TOKENS :: int where "DEFAULT_MAX_OUTPUT_TOKENS = 4096"

definition CHARS_PER_TOKEN_ESTIMATE :: nat where "CHARS_PER_TOKEN_ESTIMATE = 4"

definition model_id_from_start :: "pydict \<Rightarrow> pydict \<Rightarrow> string" where
  "model_id_from_start serialized kwargs =
     (let inv = as_dict (dget kwargs ''invocation_params'');
          sk = as_dict (dget serialized ''kwargs'');
          sources = [dget inv ''model'', dget inv ''model_name'', dget inv ''model_id'',
                     dget sk ''model'', dget sk ''model_name'']
      in case find (\<lambda>v. case v of VStr t \<Rightarrow> strip t \<noteq> [] | _ \<Rightarrow> False) sources of
           Some (VStr t) \<Rightarrow> strip t | _ \<Rightarrow> [])"

definition max_output_tokens_from_start :: "pydict \<Rightarrow> int" where
  "max_output_tokens_from_start kwargs =
     (let inv = as_dict (dget kwargs ''invocation_params'')
      in case find (\<lambda>v. case v of VInt i \<Rightarrow> 0 < i | VBool b \<Rightarrow> b | _ \<Rightarrow> False)
                (map (dget inv) [''max_tokens'', ''max_completion_tokens'', ''max_output_tokens'']) of
           Some (VInt i) \<Rightarrow> i | Some (VBool b) \<Rightarrow> 1 | _ \<Rightarrow> DEFAULT_MAX_OUTPUT_TOKENS)"

fun block_chars :: "(pyval \<Rightarrow> string) \<Rightarrow> pyval \<Rightarrow> nat" where
  "block_chars rend (VDict d) = length (py_str rend (dget_or d ''text'' (VStr [])))"
| "block_chars rend v = length (py_str rend v)"

fun content_chars :: "(pyval \<Rightarrow> string) \<Rightarrow> pyval \<Rightarrow> nat" where
  "content_chars rend (VStr s) = length s"
| "content_chars rend (VList bs) = sum_list (map (block_chars rend) bs)"
| "content_chars rend v = 0"

fun pair_chars :: "(pyval \<Rightarrow> string) \<Rightarrow> pyval \<Rightarrow> nat" where
  "pair_chars rend (VList xs) = (if 2 \<le> length xs then length (py_str rend (xs ! 1)) else 0)"
| "pair_chars rend v = 0"

definition estimate_input_tokens ::
  "(pyval \<Rightarrow> string) \<Rightarrow> pydict \<Rightarrow> string list \<Rightarrow> pyval list \<Rightarrow> int" where
  \<comment> \<open>\<open>messages\<close> are the contents of the messages\<close>
  "estimate_input_tokens rend serialized prompts messages =
     (let n = sum_list (map length prompts) + sum_list (map (content_chars rend) messages);
          total = (if n = 0
                   then sum_list (map (pair_chars rend) (as_list (dget (as_dict (dget serialized ''kwargs'')) ''messages'')))
                   else n)
      in max 1 (int (total div CHARS_PER_TOKEN_ESTIMATE)))"

definition enforce_pre_call_budget ::
  "price_table \<Rightarrow> bool \<Rightarrow> cost_tracker \<Rightarrow> string \<Rightarrow> int \<Rightarrow> int \<Rightarrow> unit result" where
  "enforce_pre_call_budget table strict tr model inp out =
     (case budget_usd tr of
        None \<Rightarrow> Inr ()
      | Some b \<Rightarrow> rbind (estimate_worst_case_call_cost table strict model inp out) (\<lambda>estimate.
          if b < total_cost_usd tr + estimate then Inl BudgetExceededError else Inr ()))"

definition on_llm_start ::
  "(pyval \<Rightarrow> string) \<Rightarrow> price_table \<Rightarrow> bool \<Rightarrow> cost_tracker \<Rightarrow> pydict \<Rightarrow> string list \<Rightarrow> pyval list \<Rightarrow> pydict \<Rightarrow> unit result" where
  \<comment> \<open>both \<open>on_chat_model_start\<close> (messages) and \<open>on_llm_start\<close> (prompts)\<close>
  "on_llm_start rend table strict tr serialized prompts messages kwargs =
     (if budget_usd tr = None then Inr ()
      else (let model = model_id_from_start serialized kwargs
            in if model = [] then Inr ()
               else enforce_pre_call_budget table strict tr model
                      (estimate_input_tokens rend serialized prompts messages)
                      (max_output_tokens_from_start kwargs)))"

definition on_llm_end :: "price_table \<Rightarrow> bool \<Rightarrow> cost_tracker \<Rightarrow> llm_result \<Rightarrow> exn option \<times> cost_tracker" where
  "on_llm_end table strict tr r =
     (case rbind (extract_tokens_from_result r) (\<lambda>u.
             rbind (compute_call_cost table strict u) (\<lambda>c. Inr (u, c))) of
        Inl e \<Rightarrow> (Some e, tr)
      | Inr (u, c) \<Rightarrow>
          (let tr' = tr\<lparr>input_tokens := input_tokens tr + u_input u,
                        output_tokens := output_tokens tr + u_output u,
                        total_cost_usd := total_cost_usd tr + c\<rparr>
           in ((case budget_usd tr of
                  None \<Rightarrow> None
                | Some b \<Rightarrow> if b < total_cost_usd tr' then Some BudgetExceededError else None), tr')))"

text \<open>The call-backs of a run, up to the first exception (\<open>raise_error\<close> is set).\<close>

datatype llm_event =
    CallStart pydict "string list" "pyval list" pydict
  | CallEnd llm_result

fun tracker_step where
  "tracker_step rend table strict tr (CallStart ser prompts messages kwargs) =
     ((case on_llm_start rend table strict tr ser prompts messages kwargs of Inl e \<Rightarrow> Some e | Inr u \<Rightarrow> None), tr)"
| "tracker_step rend table strict tr (CallEnd r) = on_llm_end table strict tr r"

fun tracker_run ::
  "(pyval \<Rightarrow> string) \<Rightarrow> price_table \<Rightarrow> bool \<Rightarrow> cost_tracker \<Rightarrow> llm_event list \<Rightarrow> exn option \<times> cost_tracker" where
  "tracker_run rend table strict tr [] = (None, tr)"
| "tracker_run rend table strict tr (e # es) =
     (case tracker_step rend table strict tr e of
        (Some x, tr') \<Rightarrow> (Some x, tr')
      | (None, tr') \<Rightarrow> tracker_run rend table strict tr' es)"

section \<open>Properties\<close>

definition prices_ok :: "model_pricing \<Rightarrow> bool" where
  "prices_ok p \<longleftrightarrow> 0 \<le> input_per_1k p \<and> 0 \<le> output_per_1k p \<and> 0 \<le> batch_multiplier p \<and> batch_multiplier p \<le> 1
     \<and> 0 \<le> cache_read_rate p \<and> cache_read_rate p \<le> input_per_1k p \<and> 0 \<le> cache_write_rate p"

lemma tracker_step_budget: "tracker_step rend table strict tr e = (x, tr') \<Longrightarrow> budget_usd tr' = budget_usd tr"
  by (cases e) (auto simp: on_llm_end_def Let_def split: sum.splits prod.splits)

definition event_cost :: "price_table \<Rightarrow> bool \<Rightarrow> llm_event \<Rightarrow> rat" where
  "event_cost table strict e =
     (case e of
        CallStart a b c d \<Rightarrow> 0
      | CallEnd r \<Rightarrow> (case rbind (extract_tokens_from_result r) (compute_call_cost table strict) of
                       Inl x \<Rightarrow> 0 | Inr c \<Rightarrow> c))"

lemma tracker_step_total:
  "tracker_step rend table strict tr e = (x, tr') \<Longrightarrow> total_cost_usd tr' = total_cost_usd tr + event_cost table strict e"
  by (cases e) (auto simp: on_llm_end_def Let_def event_cost_def rbind_def split: sum.splits prod.splits)

lemma tracker_step_within:
  "tracker_step rend table strict tr e = (None, tr') \<Longrightarrow> budget_usd tr = Some b \<Longrightarrow> total_cost_usd tr \<le> b \<Longrightarrow>
   total_cost_usd tr' \<le> b"
  by (cases e) (auto simp: on_llm_end_def Let_def split: sum.splits prod.splits if_splits)

text \<open>C8. A run never continues over its budget: while no call-back has raised, the recorded
  spend is the sum of the prices of the calls and is at most the budget; and when a run is
  stopped, the spend before its last event was still within the budget, so a run can exceed
  its budget by the price of one call at most.\<close>

theorem run_stays_within_budget:
  assumes "budget_usd tr = Some b" and "total_cost_usd tr \<le> b"
    and "tracker_run rend table strict tr es = (x, tr')"
  shows "case x of
      None \<Rightarrow> total_cost_usd tr' \<le> b
        \<and> total_cost_usd tr' = total_cost_usd tr + sum_list (map (event_cost table strict) es)
    | Some e \<Rightarrow> \<exists>pre lst rest. es = pre @ lst # rest
        \<and> total_cost_usd tr + sum_list (map (event_cost table strict) pre) \<le> b
        \<and> total_cost_usd tr' = total_cost_usd tr + sum_list (map (event_cost table strict) pre)
            + event_cost table strict lst"
  using assms
proof (induction es arbitrary: tr)
  case (Cons e es)
  obtain y tr1 where st: "tracker_step rend table strict tr e = (y, tr1)" by fastforce
  note tot = tracker_step_total [OF st]
  show ?case
  proof (cases y)
    case None
    have b1: "budget_usd tr1 = Some b" using tracker_step_budget [OF st] Cons.prems(1) by simp
    have t1: "total_cost_usd tr1 \<le> b"
      using tracker_step_within [OF st [unfolded None] Cons.prems(1,2)] .
    have run: "tracker_run rend table strict tr1 es = (x, tr')"
      using Cons.prems(3) st None by simp
    from Cons.IH [OF b1 t1 run] show ?thesis
    proof (cases x)
      case (Some z)
      with Cons.IH [OF b1 t1 run] obtain pre lst rest where "es = pre @ lst # rest"
        "total_cost_usd tr1 + sum_list (map (event_cost table strict) pre) \<le> b"
        "total_cost_usd tr' = total_cost_usd tr1 + sum_list (map (event_cost table strict) pre)
            + event_cost table strict lst" by auto
      then show ?thesis unfolding Some option.case tot
        by (intro exI [of _ "e # pre"] exI [of _ lst] exI [of _ rest]) (simp add: algebra_simps)
    qed (simp add: tot algebra_simps)
  next
    case (Some z)
    with Cons.prems st have x: "x = Some z" "tr' = tr1" by auto
    show ?thesis unfolding x option.case
      by (rule exI [of _ "[]"], rule exI [of _ e], rule exI [of _ es]) (use Cons.prems(2) tot in simp)
  qed
qed simp

text \<open>The pre-call guard is sufficient when its estimate covers the call: if the guard let
  the call through, and the call used no more input and output tokens than estimated and
  wrote nothing to the prompt cache, then accounting for it does not exceed the budget.\<close>

theorem guard_covers_call:
  assumes "budget_usd tr = Some b" and "enforce_pre_call_budget table strict tr model est_in max_out = Inr ()"
    and "extract_tokens_from_result r = Inr u" and "u_model_id u = model"
    and "0 \<le> u_cache_read u" and "u_cache_read u \<le> u_input u" and "u_cache_write u = 0"
    and "u_input u \<le> est_in" and "0 \<le> u_output u" and "u_output u \<le> max_out"
    and "\<forall>p. resolve_model_pricing table model = Some p \<longrightarrow> prices_ok p"
  shows "fst (on_llm_end table strict tr r) = None"
proof (cases "resolve_model_pricing table model")
  case None
  with assms show ?thesis
    by (auto simp: on_llm_end_def compute_call_cost_def enforce_pre_call_budget_def
        estimate_worst_case_call_cost_def split: if_splits)
next
  case (Some p)
  with assms(11) have p: "prices_ok p" by simp
  define cost where "cost = of_int (u_input u - u_cache_read u) / 1000 * input_per_1k p
      + of_int (u_cache_read u) / 1000 * cache_read_rate p + of_int (u_output u) / 1000 * output_per_1k p"
  have nn: "0 \<le> cost" using p assms(5,6,9) unfolding cost_def prices_ok_def
    by (intro add_nonneg_nonneg mult_nonneg_nonneg) auto
  have cr: "of_int (u_cache_read u) / 1000 * cache_read_rate p \<le> of_int (u_cache_read u) / 1000 * input_per_1k p"
    using p assms(5) by (intro mult_left_mono) (auto simp: prices_ok_def)
  have "of_int (u_input u) / 1000 * input_per_1k p \<le> of_int est_in / 1000 * input_per_1k p"
    using p assms(8) by (intro mult_right_mono) (auto simp: prices_ok_def divide_right_mono)
  moreover have "of_int (u_output u) / 1000 * output_per_1k p \<le> of_int max_out / 1000 * output_per_1k p"
    using p assms(10) by (intro mult_right_mono) (auto simp: prices_ok_def divide_right_mono)
  ultimately have le: "cost \<le> of_int est_in / 1000 * input_per_1k p + of_int max_out / 1000 * output_per_1k p"
    using cr unfolding cost_def by (simp add: algebra_simps diff_divide_distrib)
  have "cost * batch_multiplier p \<le> cost" using p nn mult_left_le [of "batch_multiplier p" cost]
    by (auto simp: prices_ok_def)
  then have fit: "total_cost_usd tr + (if u_batch u then cost * batch_multiplier p else cost) \<le> b"
    using assms(2) le Some assms(1)
    by (auto simp: enforce_pre_call_budget_def estimate_worst_case_call_cost_def split: if_splits)
  have "compute_call_cost table strict u = Inr (if u_batch u then cost * batch_multiplier p else cost)"
    using Some assms(4,6,7) by (simp add: compute_call_cost_def cost_def Let_def)
  with fit assms(1,3) show ?thesis by (simp add: on_llm_end_def Let_def)
qed

text \<open>The estimate called conservative is not: it prices cache-creation tokens at the input
  rate although they cost a quarter more, so the guard lets a call through that exceeds the
  budget when its prompt is written to the cache.\<close>

theorem cache_writes_exceed_estimate:
  assumes "resolve_model_pricing table model = Some p" and "cache_write_per_1k p = None"
    and "0 < input_per_1k p" and "0 < n"
    and "extract_tokens_from_result r =
      Inr \<lparr>u_model_id = model, u_input = n, u_output = 0, u_cache_read = 0, u_cache_write = n, u_batch = False\<rparr>"
    and "budget_usd tr = Some (total_cost_usd tr + of_int n / 1000 * input_per_1k p)"
  shows "enforce_pre_call_budget table strict tr model n 0 = Inr ()
    \<and> fst (on_llm_end table strict tr r) = Some BudgetExceededError"
  using assms
  by (simp add: enforce_pre_call_budget_def estimate_worst_case_call_cost_def on_llm_end_def
      compute_call_cost_def cache_write_rate_def Let_def)

lemma digit_not_space: "digit c \<Longrightarrow> \<not> py_isspace c"
  by (auto simp: digit_def py_isspace_def Let_def)

lemma digit_lower: "digit c \<Longrightarrow> lower_char c = c"
  by (auto simp: digit_def lower_char_def Let_def)

lemma dated_normal:
  assumes k: "lower k = k" "strip k = k" "k \<noteq> []" and d: "length d = 8" "list_all digit d"
  shows "normalize_model_id (k @ CHR ''-'' # d) = k @ CHR ''-'' # d"
proof -
  have ne: "d \<noteq> []" using d(1) by auto
  have "map lower_char d = d" using d(2) by (auto simp: list_all_iff digit_lower intro: map_idI)
  moreover have "lower_char CHR ''-'' = CHR ''-''" by code_simp
  ultimately have low: "lower (k @ CHR ''-'' # d) = k @ CHR ''-'' # d"
    using k(1) by (simp add: lower_def)
  have "\<not> py_isspace (hd k)" using strip_ends(1) [of k] k(2,3) by simp
  moreover have "\<not> py_isspace (last d)"
    using d(2) ne by (auto simp: list_all_iff digit_not_space)
  ultimately have "strip (k @ CHR ''-'' # d) = k @ CHR ''-'' # d"
    using k(3) ne by (intro strip_fix) simp
  with low show ?thesis by (simp add: normalize_model_id_def)
qed

lemma dated_suffix:
  assumes "length d = 8" "list_all digit d"
  shows "has_date_suffix (k @ CHR ''-'' # d)" "strip_date (k @ CHR ''-'' # d) = k"
  using assms by (simp_all add: has_date_suffix_def strip_date_def nth_append)

text \<open>Prices follow a model through its releases: every table entry under a normalised name
  is found for the name itself and, unless the dated name has an entry of its own, for the
  name with any eight-digit date appended, in any letter case and with blanks around.\<close>

theorem dated_models_share_price:
  assumes "map_of table k = Some p" and "lower k = k" and "strip k = k" and "k \<noteq> []"
    and "length d = 8" and "list_all digit d" and "map_of table (k @ CHR ''-'' # d) = None"
    and "normalize_model_id m \<in> {k, k @ CHR ''-'' # d}"
  shows "resolve_model_pricing table m = Some p"
proof (cases "normalize_model_id m = k")
  case True
  then show ?thesis using assms(1,4)
    by (simp add: resolve_model_pricing_def model_candidates_def Let_def)
next
  case False
  with assms(8) have m: "normalize_model_id m = k @ CHR ''-'' # d" by simp
  obtain rest where c: "model_candidates (k @ CHR ''-'' # d) = (k @ CHR ''-'' # d) # k # rest"
    using dated_suffix [OF assms(5,6), of k] by (simp add: model_candidates_def)
  show ?thesis using assms(1,7) unfolding resolve_model_pricing_def Let_def m c by simp
qed

text \<open>The built-in tables are coherent: ids are unique and normalised, every id resolves to
  its own entry, every alias points to an entry, and an alias never hides a longer one behind
  it in the list.\<close>

theorem builtin_prices_coherent:
  "distinct (map fst COST_PER_1K)
   \<and> list_all (\<lambda>(k, p). prices_ok p \<and> lower k = k \<and> strip k = k \<and> k \<noteq> []) COST_PER_1K
   \<and> list_all (\<lambda>(pre, c). map_of COST_PER_1K c \<noteq> None) MODEL_ID_PREFIX_ALIASES
   \<and> sorted_wrt (\<lambda>a b. \<not> strict_prefix (fst a) (fst b)) MODEL_ID_PREFIX_ALIASES"
proof -
  have "distinct (map fst COST_PER_1K)" by code_simp
  moreover have "list_all (\<lambda>(k, p). prices_ok p \<and> lower k = k \<and> strip k = k \<and> k \<noteq> []) COST_PER_1K"
    by code_simp
  moreover have "list_all (\<lambda>(pre, c). map_of COST_PER_1K c \<noteq> None) MODEL_ID_PREFIX_ALIASES" by code_simp
  moreover have "sorted_wrt (\<lambda>a b. \<not> strict_prefix (fst a) (fst b)) MODEL_ID_PREFIX_ALIASES" by code_simp
  ultimately show ?thesis by blast
qed

abbreviation demo_price :: model_pricing where "demo_price \<equiv> pricing (3 / 1000) (15 / 1000)"

definition demo_table :: price_table where "demo_table = [(''claude-x'', demo_price)]"

definition demo_usage :: "int \<Rightarrow> int \<Rightarrow> llm_result" where
  \<comment> \<open>a response with the given input and cache-creation tokens\<close>
  "demo_usage n w = \<lparr>llm_output = [(''model_name'', VStr ''claude-x'')],
     generations = [Some \<lparr>response_metadata = [], usage_metadata = VDict [(''input_tokens'', VInt n),
       (''output_tokens'', VInt 0), (''cache_creation_input_tokens'', VInt w)]\<rparr>]\<rparr>"

lemma demo_extract: "extract_tokens_from_result (demo_usage n w) =
    Inr \<lparr>u_model_id = ''claude-x'', u_input = n, u_output = 0, u_cache_read = 0, u_cache_write = w, u_batch = False\<rparr>"
  by (simp add: demo_usage_def extract_tokens_from_result_def py_or_def dget_or_def dget_def text_of_def
      usage_from_metadata_def first_of_def Let_def)

lemma demo_resolve: "resolve_model_pricing demo_table ''claude-x'' = Some demo_price"
  by code_simp

definition demo_tracker :: "rat \<Rightarrow> cost_tracker" where
  "demo_tracker b = \<lparr>budget_usd = Some b, total_cost_usd = 0, input_tokens = 0, output_tokens = 0\<rparr>"

theorem run_stays_within_budget_witness:
  "event_cost demo_table True (CallEnd (demo_usage 1000 0)) = 3 / 1000"
proof -
  have run: "tracker_run (\<lambda>_. []) demo_table True (demo_tracker 1) [CallEnd (demo_usage 1000 0)]
      = (None, \<lparr>budget_usd = Some 1, total_cost_usd = 3 / 1000, input_tokens = 1000, output_tokens = 0\<rparr>)"
    by (simp add: on_llm_end_def demo_extract compute_call_cost_def demo_resolve Let_def demo_tracker_def pricing_def)
  show ?thesis using run_stays_within_budget [OF _ _ run, of 1] by (simp add: demo_tracker_def)
qed

theorem guard_covers_call_witness:
  "fst (on_llm_end demo_table True (demo_tracker 1) (demo_usage 1000 0)) = None"
proof (rule guard_covers_call [where model = "''claude-x''" and est_in = 1000 and max_out = 10])
  show "extract_tokens_from_result (demo_usage 1000 0) =
    Inr \<lparr>u_model_id = ''claude-x'', u_input = 1000, u_output = 0, u_cache_read = 0, u_cache_write = 0, u_batch = False\<rparr>"
    by (rule demo_extract)
qed (simp_all add: demo_tracker_def enforce_pre_call_budget_def estimate_worst_case_call_cost_def demo_resolve
    pricing_def prices_ok_def cache_read_rate_def cache_write_rate_def)

theorem cache_writes_exceed_estimate_witness:
  "fst (on_llm_end demo_table True (demo_tracker (3 / 1000)) (demo_usage 1000 1000)) = Some BudgetExceededError"
  using cache_writes_exceed_estimate [OF demo_resolve _ _ _ demo_extract, of 1000 "demo_tracker (3 / 1000)" True]
  by (simp add: demo_tracker_def pricing_def)

theorem dated_models_share_price_witness:
  "resolve_model_pricing COST_PER_1K '' Claude-Opus-4-8-20270131'' = Some (pricing (5 / 1000) (25 / 1000))"
proof (rule dated_models_share_price [where k = "''claude-opus-4-8''" and d = "''20270131''"])
  show "map_of COST_PER_1K ''claude-opus-4-8'' = Some (pricing (5 / 1000) (25 / 1000))"
    by (simp add: COST_PER_1K_def)
  show "map_of COST_PER_1K (''claude-opus-4-8'' @ CHR ''-'' # ''20270131'') = None" by code_simp
qed code_simp+

end
