(* ===== verification/LlmRetry.thy ===== *)
theory LlmRetry
  imports Prelude
begin

text \<open>
  LLM calls: classification of provider exceptions (\<open>agents/llm_retry.py\<close>), the retrying call
  of \<open>BaseAgent\<close> and its step budget (\<open>agents/base_agent.py\<close>). An exception is its list of
  class names (its MRO), the HTTP status it carries and its \<open>__cause__\<close> and \<open>__context__\<close>.
  The tenacity package is the argument \<open>retryer\<close>; what the code relies on is
  \<open>tenacity_spec\<close>. Which provider packages are installed is an argument, too.
\<close>

section \<open>Exceptions\<close>

datatype llm_exc = Exc (mro: "string list") (status_code: "int option") (response_status: "int option")
    (exc_cause: "llm_exc option") (exc_context: "llm_exc option")

definition isinstance :: "llm_exc \<Rightarrow> string list \<Rightarrow> bool" where
  "isinstance e types \<longleftrightarrow> (\<exists>t\<in>set types. t \<in> set (mro e))"

definition wrap :: "string list \<Rightarrow> llm_exc \<Rightarrow> llm_exc" where
  \<comment> \<open>\<open>raise C(...) from e\<close>\<close>
  "wrap classes e = Exc classes None None (Some e) (Some e)"

definition EXECUTION_ERROR :: "string list" where
  "EXECUTION_ERROR = [''AgentExecutionError'', ''AgentError'', ''Exception'']"

definition AUTHENTICATION_ERROR :: "string list" where
  "AUTHENTICATION_ERROR = [''AgentAuthenticationError'', ''AgentExecutionError'', ''AgentError'', ''Exception'']"

definition BUDGET_ERROR :: "string list" where
  "BUDGET_ERROR = [''AgentBudgetExceededError'', ''AgentError'', ''Exception'']"

definition TRANSIENT_HTTP_STATUS_CODES :: "int list" where
  "TRANSIENT_HTTP_STATUS_CODES = [408, 429, 500, 502, 503, 504, 529]"

definition AUTH_HTTP_STATUS_CODES :: "int list" where
  "AUTH_HTTP_STATUS_CODES = [401, 403]"

definition retryable_llm_exception_types :: "(string \<Rightarrow> bool) \<Rightarrow> string list" where
  "retryable_llm_exception_types installed =
     [''TimeoutError'', ''ConnectionError'']
     @ (if installed ''httpx'' then [''httpx.TimeoutException'', ''httpx.ConnectError'', ''httpx.NetworkError'',
          ''httpx.ReadTimeout'', ''httpx.WriteTimeout''] else [])
     @ (if installed ''anthropic'' then [''anthropic.RateLimitError'', ''anthropic.APITimeoutError'',
          ''anthropic.APIConnectionError'', ''anthropic.InternalServerError''] else [])
     @ (if installed ''openai'' then [''openai.RateLimitError'', ''openai.APITimeoutError'',
          ''openai.APIConnectionError'', ''openai.InternalServerError''] else [])
     @ (if installed ''google.api_core'' then [''google.ServiceUnavailable'', ''google.DeadlineExceeded'',
          ''google.TooManyRequests'', ''google.InternalServerError''] else [])"

definition auth_llm_exception_types :: "(string \<Rightarrow> bool) \<Rightarrow> string list" where
  "auth_llm_exception_types installed =
     (if installed ''anthropic'' then [''anthropic.AuthenticationError'', ''anthropic.PermissionDeniedError''] else [])
     @ (if installed ''openai'' then [''openai.AuthenticationError'', ''openai.PermissionDeniedError''] else [])
     @ (if installed ''google.api_core'' then [''google.Unauthenticated'', ''google.PermissionDenied''] else [])"

definition http_status_code :: "llm_exc \<Rightarrow> int option" where
  "http_status_code e = (case status_code e of Some s \<Rightarrow> Some s | None \<Rightarrow> response_status e)"

definition is_auth_llm_error :: "(string \<Rightarrow> bool) \<Rightarrow> llm_exc \<Rightarrow> bool" where
  "is_auth_llm_error installed e \<longleftrightarrow> isinstance e (auth_llm_exception_types installed)
     \<or> (case http_status_code e of None \<Rightarrow> False | Some s \<Rightarrow> s \<in> set AUTH_HTTP_STATUS_CODES)"

definition is_retryable_llm_error :: "(string \<Rightarrow> bool) \<Rightarrow> llm_exc \<Rightarrow> bool" where
  "is_retryable_llm_error installed e \<longleftrightarrow> isinstance e (retryable_llm_exception_types installed)
     \<or> (case http_status_code e of None \<Rightarrow> False | Some s \<Rightarrow> s \<in> set TRANSIENT_HTTP_STATUS_CODES)"

definition retry_if_transient_llm_error :: "(string \<Rightarrow> bool) \<Rightarrow> llm_exc \<Rightarrow> bool" where
  "retry_if_transient_llm_error installed e \<longleftrightarrow>
     \<not> isinstance e [''BudgetExceededError''] \<and> is_retryable_llm_error installed e"

fun find_auth_cause :: "(string \<Rightarrow> bool) \<Rightarrow> nat \<Rightarrow> llm_exc option \<Rightarrow> llm_exc option" where
  \<comment> \<open>the bound is the code's own, \<open>max_depth\<close>\<close>
  "find_auth_cause installed 0 current = None"
| "find_auth_cause installed (Suc n) None = None"
| "find_auth_cause installed (Suc n) (Some e) =
     (if is_auth_llm_error installed e then Some e
      else find_auth_cause installed n (case exc_cause e of Some c \<Rightarrow> Some c | None \<Rightarrow> exc_context e))"

definition MAX_DEPTH :: nat where "MAX_DEPTH = 10"

section \<open>The retrying call\<close>

definition make_auth_error :: "llm_exc \<Rightarrow> llm_exc" where
  "make_auth_error e = wrap AUTHENTICATION_ERROR e"

definition invoke_once :: "(string \<Rightarrow> bool) \<Rightarrow> llm_exc + 'a \<Rightarrow> llm_exc + 'a" where
  \<comment> \<open>one attempt, given what \<open>self.llm.invoke\<close> did\<close>
  "invoke_once installed outcome =
     (case outcome of
        Inr r \<Rightarrow> Inr r
      | Inl e \<Rightarrow>
          if isinstance e [''BudgetExceededError''] then Inl (wrap BUDGET_ERROR e)
          else if isinstance e [''UnknownModelPricingError''] then Inl (wrap BUDGET_ERROR e)
          else if \<not> isinstance e [''Exception''] then Inl e
          else if retry_if_transient_llm_error installed e then Inl e
          else if is_auth_llm_error installed e then Inl (make_auth_error e)
          else Inl (wrap EXECUTION_ERROR e))"

type_synonym 'a retryer = "(llm_exc \<Rightarrow> bool) \<Rightarrow> nat \<Rightarrow> (nat \<Rightarrow> llm_exc + 'a) \<Rightarrow> llm_exc + 'a"

definition invoke_llm_with_retry ::
  "'a retryer \<Rightarrow> (string \<Rightarrow> bool) \<Rightarrow> nat \<Rightarrow> (nat \<Rightarrow> llm_exc + 'a) \<Rightarrow> llm_exc + 'a" where
  \<comment> \<open>\<open>attempts k\<close> is what the provider does on the \<open>k\<close>-th call\<close>
  "invoke_llm_with_retry retryer installed max_retries attempts =
     (case retryer (retry_if_transient_llm_error installed) (max_retries + 1)
             (\<lambda>k. invoke_once installed (attempts k)) of
        Inr r \<Rightarrow> Inr r
      | Inl e \<Rightarrow>
          if isinstance e [''AgentBudgetExceededError''] then Inl e
          else if isinstance e [''AgentExecutionError''] then Inl e
          else if \<not> isinstance e [''Exception''] then Inl e
          else Inl (wrap EXECUTION_ERROR e))"

text \<open>The documented behaviour of \<open>Retrying(retry_if_exception(p), stop_after_attempt(n),
  reraise=True)\<close>: attempts until one returns, raises an exception that is not to be retried,
  or is the last allowed one; that attempt's result is the result.\<close>

definition tenacity_spec :: "'a retryer \<Rightarrow> bool" where
  "tenacity_spec retryer \<longleftrightarrow> (\<forall>p n f. 0 < n \<longrightarrow>
     (\<exists>k<n. retryer p n f = f k \<and> (\<forall>j<k. \<exists>e. f j = Inl e \<and> p e)
        \<and> (case f k of Inr r \<Rightarrow> True | Inl e \<Rightarrow> \<not> p e \<or> Suc k = n)))"

lemma tenacity_attempt:
  assumes "tenacity_spec retryer" and "0 < n"
  obtains k where "k < n" "retryer p n f = f k" "\<forall>j<k. \<exists>e. f j = Inl e \<and> p e"
    "case f k of Inr r \<Rightarrow> True | Inl e \<Rightarrow> \<not> p e \<or> Suc k = n"
proof -
  have "\<exists>k<n. retryer p n f = f k \<and> (\<forall>j<k. \<exists>e. f j = Inl e \<and> p e)
      \<and> (case f k of Inr r \<Rightarrow> True | Inl e \<Rightarrow> \<not> p e \<or> Suc k = n)"
    using assms unfolding tenacity_spec_def by simp
  then show ?thesis by (elim exE conjE) (rule that)
qed

lemma wrap_not_transient:
  "c \<in> {EXECUTION_ERROR, AUTHENTICATION_ERROR, BUDGET_ERROR} \<Longrightarrow> \<not> retry_if_transient_llm_error installed (wrap c e)"
  by (auto simp: retry_if_transient_llm_error_def is_retryable_llm_error_def isinstance_def wrap_def
      http_status_code_def retryable_llm_exception_types_def EXECUTION_ERROR_def AUTHENTICATION_ERROR_def
      BUDGET_ERROR_def)

lemma wrap_not_auth:
  "c \<in> {EXECUTION_ERROR, AUTHENTICATION_ERROR, BUDGET_ERROR} \<Longrightarrow> \<not> is_auth_llm_error installed (wrap c e)"
  by (auto simp: is_auth_llm_error_def isinstance_def wrap_def http_status_code_def
      auth_llm_exception_types_def EXECUTION_ERROR_def AUTHENTICATION_ERROR_def BUDGET_ERROR_def)

lemma invoke_once_transient:
  "invoke_once installed x = Inl e \<Longrightarrow> retry_if_transient_llm_error installed e \<Longrightarrow> x = Inl e"
  by (auto simp: invoke_once_def make_auth_error_def wrap_not_transient split: sum.splits if_splits)

definition provider_exception :: "llm_exc \<Rightarrow> bool" where
  \<comment> \<open>an \<open>Exception\<close> that is not one of this package's agent errors\<close>
  "provider_exception e \<longleftrightarrow> isinstance e [''Exception''] \<and> \<not> isinstance e [''AgentError'', ''AgentBudgetExceededError'', ''AgentExecutionError'']"

definition call_error :: "(string \<Rightarrow> bool) \<Rightarrow> llm_exc \<Rightarrow> string list" where
  \<comment> \<open>the class a caller sees for a provider exception\<close>
  "call_error installed e =
     (if isinstance e [''BudgetExceededError''] \<or> isinstance e [''UnknownModelPricingError''] then BUDGET_ERROR
      else if \<not> retry_if_transient_llm_error installed e \<and> is_auth_llm_error installed e
      then AUTHENTICATION_ERROR else EXECUTION_ERROR)"

lemma agent_error_instances:
  "isinstance (wrap BUDGET_ERROR e) [''AgentBudgetExceededError'']"
  "isinstance (wrap EXECUTION_ERROR e) [''AgentExecutionError'']"
  "isinstance (wrap AUTHENTICATION_ERROR e) [''AgentExecutionError'']"
  by (simp_all add: isinstance_def wrap_def BUDGET_ERROR_def EXECUTION_ERROR_def AUTHENTICATION_ERROR_def)

lemma invoke_once_final:
  assumes "provider_exception e"
  shows "\<exists>e'. invoke_once installed (Inl e) = Inl e'
    \<and> (if retry_if_transient_llm_error installed e \<and> \<not> isinstance e [''UnknownModelPricingError'']
        then e' = e \<and> call_error installed e = EXECUTION_ERROR
        else e' = wrap (call_error installed e) e
          \<and> (isinstance e' [''AgentBudgetExceededError''] \<or> isinstance e' [''AgentExecutionError'']))"
  using assms agent_error_instances [of e]
  by (auto simp: invoke_once_def make_auth_error_def call_error_def provider_exception_def
      retry_if_transient_llm_error_def)

definition retried :: "(string \<Rightarrow> bool) \<Rightarrow> llm_exc \<Rightarrow> bool" where
  "retried installed e \<longleftrightarrow> retry_if_transient_llm_error installed e \<and> \<not> isinstance e [''UnknownModelPricingError'']"

lemma invoke_once_retried:
  assumes "invoke_once installed x = Inl e" and "retry_if_transient_llm_error installed e"
  shows "x = Inl e \<and> retried installed e"
  using assms
  by (auto simp: invoke_once_def make_auth_error_def wrap_not_transient retried_def split: sum.splits if_splits)

lemma invoke_once_Inr: "invoke_once installed x = Inr r \<longleftrightarrow> x = Inr r"
  by (auto simp: invoke_once_def split: sum.splits if_splits)

lemma retried_call_error: "retried installed e \<Longrightarrow> call_error installed e = EXECUTION_ERROR"
  by (auto simp: retried_def call_error_def retry_if_transient_llm_error_def)

text \<open>C13. With exceptions of the provider's own classes, a call makes at most
  \<open>max_retries + 1\<close> attempts, goes on only after transient failures, and returns exactly the
  first success; otherwise it raises the agent error for the deciding failure: the budget
  error for budget and pricing failures, the authentication error for rejected credentials,
  else the execution error. No provider exception escapes and none is retried that is not
  transient.\<close>

theorem llm_call_outcome:
  assumes "tenacity_spec retryer"
    and "\<And>k e. attempts k = Inl e \<Longrightarrow> provider_exception e"
  shows "\<exists>k\<le>max_retries. (\<forall>j<k. \<exists>e. attempts j = Inl e \<and> retried installed e)
    \<and> (case attempts k of
         Inr r \<Rightarrow> invoke_llm_with_retry retryer installed max_retries attempts = Inr r
       | Inl e \<Rightarrow> (retried installed e \<longrightarrow> k = max_retries)
           \<and> invoke_llm_with_retry retryer installed max_retries attempts = Inl (wrap (call_error installed e) e))"
proof -
  let ?p = "retry_if_transient_llm_error installed"
  let ?f = "\<lambda>k. invoke_once installed (attempts k)"
  obtain k where k: "k < max_retries + 1" "retryer ?p (max_retries + 1) ?f = ?f k"
      "\<forall>j<k. \<exists>e. ?f j = Inl e \<and> ?p e"
      "case ?f k of Inr r \<Rightarrow> True | Inl e \<Rightarrow> \<not> ?p e \<or> Suc k = max_retries + 1"
    by (rule tenacity_attempt [OF assms(1), of "max_retries + 1" ?p ?f]) simp
  have before: "\<forall>j<k. \<exists>e. attempts j = Inl e \<and> retried installed e"
    using k(3) invoke_once_retried by blast
  have last: "case attempts k of
         Inr r \<Rightarrow> invoke_llm_with_retry retryer installed max_retries attempts = Inr r
       | Inl e \<Rightarrow> (retried installed e \<longrightarrow> k = max_retries)
           \<and> invoke_llm_with_retry retryer installed max_retries attempts = Inl (wrap (call_error installed e) e)"
  proof (cases "attempts k")
    case (Inr r)
    then show ?thesis using k(2) by (simp add: invoke_llm_with_retry_def invoke_once_Inr [THEN iffD2])
  next
    case (Inl e)
    then have p: "provider_exception e" by (rule assms(2))
    show ?thesis
    proof (cases "retried installed e")
      case True
      with invoke_once_final [OF p, of installed] have f: "?f k = Inl e"
        using Inl by (auto simp: retried_def)
      with True k(4) have "k = max_retries" by (simp add: retried_def)
      moreover have "invoke_llm_with_retry retryer installed max_retries attempts = Inl (wrap EXECUTION_ERROR e)"
        using p f k(2) by (simp add: invoke_llm_with_retry_def provider_exception_def isinstance_def)
      ultimately show ?thesis using Inl True by (simp add: retried_call_error)
    next
      case False
      with invoke_once_final [OF p, of installed] obtain e' where "?f k = Inl e'"
          "e' = wrap (call_error installed e) e"
          "isinstance e' [''AgentBudgetExceededError''] \<or> isinstance e' [''AgentExecutionError'']"
        using Inl unfolding retried_def by (metis (no_types))
      then show ?thesis using Inl False k(2) by (auto simp: invoke_llm_with_retry_def)
    qed
  qed
  from k(1) have "k \<le> max_retries" by simp
  with before last show ?thesis by blast
qed

text \<open>A retryer as documented: it tries until the predicate or the attempt limit says stop.\<close>

fun try_from :: "(llm_exc \<Rightarrow> bool) \<Rightarrow> nat \<Rightarrow> nat \<Rightarrow> (nat \<Rightarrow> llm_exc + 'a) \<Rightarrow> llm_exc + 'a" where
  "try_from p 0 k f = f k"
| "try_from p (Suc n) k f = (case f k of Inr r \<Rightarrow> Inr r | Inl e \<Rightarrow> if p e then try_from p n (Suc k) f else Inl e)"

definition simple_retryer :: "'a retryer" where
  "simple_retryer p n f = try_from p (n - 1) 0 f"

lemma try_from_spec:
  "\<exists>j\<le>n. try_from p n k f = f (k + j) \<and> (\<forall>i<j. \<exists>e. f (k + i) = Inl e \<and> p e)
    \<and> (case f (k + j) of Inr r \<Rightarrow> True | Inl e \<Rightarrow> \<not> p e \<or> j = n)"
proof (induction n arbitrary: k)
  case 0
  then show ?case by (auto split: sum.split)
next
  case (Suc n)
  show ?case
  proof (cases "\<exists>e. f k = Inl e \<and> p e")
    case True
    then obtain e where e: "f k = Inl e" "p e" by blast
    obtain j where j: "j \<le> n" "try_from p n (Suc k) f = f (Suc k + j)"
        "\<forall>i<j. \<exists>e. f (Suc k + i) = Inl e \<and> p e"
        "case f (Suc k + j) of Inr r \<Rightarrow> True | Inl e \<Rightarrow> \<not> p e \<or> j = n"
      using Suc.IH [of "Suc k"] by blast
    have "\<forall>i<Suc j. \<exists>e. f (k + i) = Inl e \<and> p e"
      using e j(3) by (auto simp: less_Suc_eq_0_disj)
    then show ?thesis using e j(1,2,4) by (intro exI [of _ "Suc j"]) (auto split: sum.splits)
  next
    case False
    then show ?thesis by (intro exI [of _ 0]) (auto split: sum.splits)
  qed
qed

lemma simple_retryer_spec: "tenacity_spec simple_retryer"
  unfolding tenacity_spec_def
proof (intro allI impI)
  fix p :: "llm_exc \<Rightarrow> bool" and n :: nat and f :: "nat \<Rightarrow> llm_exc + 'a"
  assume "0 < n"
  then show "\<exists>k<n. simple_retryer p n f = f k \<and> (\<forall>j<k. \<exists>e. f j = Inl e \<and> p e)
        \<and> (case f k of Inr r \<Rightarrow> True | Inl e \<Rightarrow> \<not> p e \<or> Suc k = n)"
    using try_from_spec [of "n - 1" p 0 f] unfolding simple_retryer_def
    by (auto split: sum.splits) (metis Suc_pred less_Suc_eq_le)+
qed

definition rate_limited :: llm_exc where
  "rate_limited = Exc [''openai.RateLimitError'', ''Exception''] (Some 429) None None None"

definition two_rate_limits :: "nat \<Rightarrow> llm_exc + int" where
  "two_rate_limits k = (if k < 2 then Inl rate_limited else Inr 7)"

theorem llm_call_outcome_witness:
  "invoke_llm_with_retry simple_retryer (\<lambda>_. True) 3 two_rate_limits = Inr 7
   \<and> (\<exists>k\<le>3. (\<forall>j<k. \<exists>e. two_rate_limits j = Inl e \<and> retried (\<lambda>_. True) e)
      \<and> (case two_rate_limits k of
         Inr r \<Rightarrow> invoke_llm_with_retry simple_retryer (\<lambda>_. True) 3 two_rate_limits = Inr r
       | Inl e \<Rightarrow> (retried (\<lambda>_. True) e \<longrightarrow> k = 3)
           \<and> invoke_llm_with_retry simple_retryer (\<lambda>_. True) 3 two_rate_limits
             = Inl (wrap (call_error (\<lambda>_. True) e) e)))"
proof (rule conjI)
  show "invoke_llm_with_retry simple_retryer (\<lambda>_. True) 3 two_rate_limits = Inr 7"
    by code_simp
  have "provider_exception rate_limited" by code_simp
  then have "provider_exception e" if "two_rate_limits k = Inl e" for k e
    using that by (auto simp: two_rate_limits_def split: if_splits)
  from llm_call_outcome [OF simple_retryer_spec this, where max_retries = 3]
  show "\<exists>k\<le>3. (\<forall>j<k. \<exists>e. two_rate_limits j = Inl e \<and> retried (\<lambda>_. True) e)
      \<and> (case two_rate_limits k of
         Inr r \<Rightarrow> invoke_llm_with_retry simple_retryer (\<lambda>_. True) 3 two_rate_limits = Inr r
       | Inl e \<Rightarrow> (retried (\<lambda>_. True) e \<longrightarrow> k = 3)
           \<and> invoke_llm_with_retry simple_retryer (\<lambda>_. True) 3 two_rate_limits
             = Inl (wrap (call_error (\<lambda>_. True) e) e))" .
qed

section \<open>Authentication failures behind wrappers\<close>

text \<open>\<open>raise C(...) from e\<close>, repeated: the classes are those of the wrappers, innermost first.\<close>

definition wrap_all :: "string list list \<Rightarrow> llm_exc \<Rightarrow> llm_exc" where
  "wrap_all classes e = fold wrap classes e"

lemma find_auth_wrap:
  assumes "\<not> is_auth_llm_error installed (wrap c e)"
  shows "find_auth_cause installed (Suc n) (Some (wrap c e)) = find_auth_cause installed n (Some e)"
  using assms by (simp add: wrap_def)

lemma is_auth_wrap: "is_auth_llm_error installed (wrap c e) \<longleftrightarrow> isinstance (wrap c e) (auth_llm_exception_types installed)"
  by (simp add: is_auth_llm_error_def wrap_def http_status_code_def)

lemma find_auth_wrap_all:
  assumes "is_auth_llm_error installed e"
    and "\<And>c. c \<in> set classes \<Longrightarrow> \<not> isinstance (wrap c e) (auth_llm_exception_types installed)"
  shows "find_auth_cause installed n (Some (wrap_all classes e)) = (if length classes < n then Some e else None)"
  using assms(2)
proof (induction classes arbitrary: n rule: rev_induct)
  case Nil
  then show ?case using assms(1) by (cases n) (simp_all add: wrap_all_def)
next
  case (snoc c classes)
  have n: "\<not> is_auth_llm_error installed (wrap c (wrap_all classes e))"
    using snoc.prems [of c] unfolding is_auth_wrap by (simp add: isinstance_def wrap_def)
  have w: "wrap_all (classes @ [c]) e = wrap c (wrap_all classes e)" by (simp add: wrap_all_def)
  show ?case
  proof (cases n)
    case 0
    then show ?thesis by simp
  next
    case (Suc m)
    then show ?thesis using find_auth_wrap [OF n, of m] snoc.IH [of m] snoc.prems w by simp
  qed
qed

text \<open>An authentication failure wrapped by any exceptions that are not themselves
  authentication errors is found by \<open>find_auth_cause\<close> exactly when there are fewer than
  \<open>max_depth\<close> wrappers, so that a rejected key becomes a 502 however the packs wrap it, up
  to that depth.\<close>

theorem auth_cause_found_iff:
  assumes "is_auth_llm_error installed e"
    and "\<And>c. c \<in> set classes \<Longrightarrow> \<not> isinstance (wrap c e) (auth_llm_exception_types installed)"
  shows "find_auth_cause installed n (Some (wrap_all classes e)) = (if length classes < n then Some e else None)"
  using assms by (rule find_auth_wrap_all)

theorem auth_cause_found_iff_witness:
  "find_auth_cause (\<lambda>_. False) MAX_DEPTH (Some (wrap_all (replicate 9 EXECUTION_ERROR) (Exc [''Exception''] (Some 401) None None None)))
     = Some (Exc [''Exception''] (Some 401) None None None)
   \<and> find_auth_cause (\<lambda>_. False) MAX_DEPTH (Some (wrap_all (replicate 10 EXECUTION_ERROR) (Exc [''Exception''] (Some 401) None None None)))
     = None"
proof -
  have a: "is_auth_llm_error (\<lambda>_. False) (Exc [''Exception''] (Some 401) None None None)" by code_simp
  have b: "\<not> isinstance (wrap c e) (auth_llm_exception_types (\<lambda>_. False))" for c e
    by (simp add: isinstance_def auth_llm_exception_types_def)
  show ?thesis
    by (simp add: auth_cause_found_iff [OF a b] MAX_DEPTH_def)
qed

section \<open>The step budget\<close>

definition increment_step :: "int \<Rightarrow> int \<Rightarrow> exn + int" where
  \<comment> \<open>\<open>_increment_step\<close> on \<open>state["step_count"]\<close>\<close>
  "increment_step max_steps step_count =
     (let new_count = step_count + 1 in
      if max_steps < new_count then Inl AgentTimeoutError else Inr new_count)"

fun steps :: "int \<Rightarrow> nat \<Rightarrow> int \<Rightarrow> exn + int" where
  "steps max_steps 0 c = Inr c"
| "steps max_steps (Suc n) c = rbind (increment_step max_steps c) (steps max_steps n)"

lemma steps_iff:
  "0 \<le> c \<Longrightarrow> steps m n c = (if n = 0 \<or> c + int n \<le> m then Inr (c + int n) else Inl AgentTimeoutError)"
  by (induction n arbitrary: c) (auto simp: increment_step_def Let_def)

end
