(* ===== verification/Gateway.thy ===== *)
theory Gateway
  imports NetGuard RateLimit
begin

text \<open>
  The HTTP gateway: the middlewares of \<open>api/middleware.py\<close>, in the order \<open>api/app.py\<close> stacks
  them, with the request helpers and the Bearer check of \<open>api/dependencies.py\<close> and the merged
  key list of \<open>core/config.py\<close>. A middleware maps the application below it to an
  application; the routes and the CORS middleware of Starlette are arguments. Address parsing
  and SHA-256 are fields of the configuration. Logging and metrics have no effect here, but
  what is evaluated for a log record and may raise is.
\<close>

section \<open>Requests, responses, applications\<close>

record request =
  rq_method :: string
  rq_path :: string
  rq_headers :: headers            \<comment> \<open>keyed by lower-case names\<close>
  rq_peer :: "string option"
  rq_chunks :: "bytes list"
  rq_route :: "string option"      \<comment> \<open>the route's path template, once resolved\<close>
  rq_time :: rat
  rq_fresh_id :: string            \<comment> \<open>\<open>uuid4\<close>\<close>

record response =
  resp_status :: nat
  resp_headers :: "(string \<times> string) list"
  resp_body :: string

record 'ip gateway_cfg =
  parse_ip :: "string \<Rightarrow> 'ip option"
  parse_net :: "string \<Rightarrow> ('ip \<Rightarrow> bool) option"
  sha256_hex :: "string \<Rightarrow> string"
  cfg_api_key :: "string option"
  cfg_api_keys :: "string option"
  trust_proxy_headers :: bool
  forwarded_allow_ips :: string
  environment :: string
  max_request_body_bytes :: int

record 'w gateway =
  limiter :: "rate_limiter option"
  shutting_down :: bool
  app_state :: 'w

type_synonym 'w app = "request \<Rightarrow> 'w gateway \<Rightarrow> response result \<times> 'w gateway"

definition get_header :: "request \<Rightarrow> string \<Rightarrow> string option" where
  "get_header r k = rq_headers r (lower k)"

definition set_header :: "string \<Rightarrow> string \<Rightarrow> response \<Rightarrow> response" where
  "set_header k v resp = resp\<lparr>resp_headers := AList.update (lower k) v (resp_headers resp)\<rparr>"

definition json_response :: "nat \<Rightarrow> string \<Rightarrow> (string \<times> string) list \<Rightarrow> response" where
  "json_response st detail hs = \<lparr>resp_status = st, resp_headers = hs, resp_body = detail\<rparr>"

section \<open>Keys of callers\<close>

definition resolved_api_keys :: "'ip gateway_cfg \<Rightarrow> string list" where
  "resolved_api_keys cfg =
     (let candidates = (case cfg_api_key cfg of None \<Rightarrow> [] | Some k \<Rightarrow> if k = [] then [] else [strip k])
            @ (case cfg_api_keys cfg of None \<Rightarrow> []
               | Some ks \<Rightarrow> if ks = [] then [] else map strip (split_on CHR '','' ks))
      in dedupe (filter (\<lambda>k. k \<noteq> []) candidates))"

definition request_client_ip :: "'ip gateway_cfg \<Rightarrow> request \<Rightarrow> string result" where
  "request_client_ip cfg r =
     resolve_client_ip (parse_ip cfg) (parse_net cfg) (rq_peer r) (get_header r)
       (trust_proxy_headers cfg) (forwarded_allow_ips cfg)"

definition rate_limit_key :: "'ip gateway_cfg \<Rightarrow> request \<Rightarrow> string result" where
  "rate_limit_key cfg r =
     (let api_keys = resolved_api_keys cfg in
      rate_limit_client_key (sha256_hex cfg) (parse_ip cfg) (parse_net cfg) (rq_peer r) (get_header r)
        (trust_proxy_headers cfg) (forwarded_allow_ips cfg)
        (case api_keys of [] \<Rightarrow> None | k # ks \<Rightarrow> Some k) (1 < length api_keys))"

definition rate_limit_route_path :: "request \<Rightarrow> string" where
  "rate_limit_route_path r = (case rq_route r of Some (c # cs) \<Rightarrow> c # cs | _ \<Rightarrow> rq_path r)"

definition rate_limit_endpoint_key :: "'ip gateway_cfg \<Rightarrow> request \<Rightarrow> string result" where
  "rate_limit_endpoint_key cfg r =
     rbind (rate_limit_key cfg r) (\<lambda>k. Inr (k @ '':'' @ rate_limit_route_path r))"

definition presented_token :: "request \<Rightarrow> string" where
  "presented_token r =
     (let auth_header = (case get_header r ''Authorization'' of None \<Rightarrow> [] | Some v \<Rightarrow> v)
      in if startswith ''Bearer '' auth_header then strip (drop 7 auth_header) else [])"

definition verify_api_key :: "'ip gateway_cfg \<Rightarrow> request \<Rightarrow> unit result" where
  "verify_api_key cfg r =
     (let api_keys = resolved_api_keys cfg in
      if api_keys = [] then Inr ()
      else rbind (verify_bearer_token (presented_token r) api_keys)
             (\<lambda>ok. if ok then Inr () else Inl (HTTPException 401)))"

section \<open>The middlewares\<close>

definition DRAIN_EXEMPT_PATHS :: "string list" where
  "DRAIN_EXEMPT_PATHS = [''/health'', ''/ready'', ''/metrics'']"

definition AUTH_EXEMPT_PATHS :: "string list" where
  "AUTH_EXEMPT_PATHS = [''/'', ''/health'', ''/ready'', ''/metrics'', ''/docs'', ''/redoc'',
     ''/openapi.json'', ''/favicon.ico'']"

definition RATE_LIMIT_EXEMPT_PATHS :: "string list" where
  "RATE_LIMIT_EXEMPT_PATHS = [''/health'', ''/ready'', ''/metrics'']"

definition quoted :: "string \<Rightarrow> string" where "quoted s = [CHR 0x27] @ s @ [CHR 0x27]"

definition DOCS_CSP :: string where
  "DOCS_CSP = ''default-src '' @ quoted ''self'' @ ''; script-src '' @ quoted ''self'' @ '' '' @ quoted ''unsafe-inline''
     @ '' cdn.jsdelivr.net; style-src '' @ quoted ''self'' @ '' '' @ quoted ''unsafe-inline''
     @ '' cdn.jsdelivr.net; img-src '' @ quoted ''self'' @ '' data: fastapi.tiangolo.com;''"

definition security_headers :: "'ip gateway_cfg \<Rightarrow> request \<Rightarrow> response \<Rightarrow> response" where
  "security_headers cfg r resp0 =
     (let resp1 = set_header ''Cache-Control'' ''no-store''
            (set_header ''Referrer-Policy'' ''strict-origin-when-cross-origin''
            (set_header ''X-Frame-Options'' ''DENY''
            (set_header ''X-Content-Type-Options'' ''nosniff'' resp0)));
          resp2 = set_header ''Content-Security-Policy''
            (if rq_path r \<in> {''/docs'', ''/redoc'', ''/openapi.json''} then DOCS_CSP
             else ''default-src '' @ quoted ''self'') resp1;
          resp3 = (if environment cfg = ''production''
            then set_header ''Strict-Transport-Security'' ''max-age=31536000; includeSubDomains; preload'' resp2
            else resp2)
      in resp3\<lparr>resp_headers := AList.delete ''server'' (resp_headers resp3)\<rparr>)"

definition add_security_headers :: "'ip gateway_cfg \<Rightarrow> 'w app \<Rightarrow> 'w app" where
  "add_security_headers cfg call_next r w =
     (case call_next r w of (res, w') \<Rightarrow> (map_sum id (security_headers cfg r) res, w'))"

definition auth_middleware :: "'ip gateway_cfg \<Rightarrow> 'w app \<Rightarrow> 'w app" where
  "auth_middleware cfg call_next r w =
     (if rq_path r \<in> set AUTH_EXEMPT_PATHS then call_next r w
      else (let api_keys = resolved_api_keys cfg in
        if api_keys = [] then call_next r w
        else (case verify_bearer_token (presented_token r) api_keys of
            Inl e \<Rightarrow> (Inl e, w)
          | Inr ok \<Rightarrow>
              if ok then call_next r w
              else (rbind (request_client_ip cfg r) (\<lambda>_.
                Inr (json_response 401 ''Invalid or missing Bearer token.''
                  [(''www-authenticate'', ''Bearer'')])), w))))"

definition rate_limit_middleware :: "'ip gateway_cfg \<Rightarrow> 'w app \<Rightarrow> 'w app" where
  "rate_limit_middleware cfg call_next r w =
     (if rq_path r \<in> set RATE_LIMIT_EXEMPT_PATHS then call_next r w
      else (case rate_limit_endpoint_key cfg r of
        Inl e \<Rightarrow> (Inl e, w)
      | Inr limit_key \<Rightarrow>
          (case limiter w of
             None \<Rightarrow> call_next r w
           | Some rl \<Rightarrow>
               (case is_allowed rl (rq_time r) () limit_key of (allowed, rl') \<Rightarrow>
                  if allowed then call_next r (w\<lparr>limiter := Some rl'\<rparr>)
                  else (rbind (request_client_ip cfg r) (\<lambda>_.
                          Inr (json_response 429 ''Rate limit exceeded. Please slow down.''
                            [(''retry-after'', show_int \<lfloor>window_seconds rl\<rfloor>)])),
                        w\<lparr>limiter := Some rl'\<rparr>)))))"

definition log_requests :: "'ip gateway_cfg \<Rightarrow> 'w app \<Rightarrow> 'w app" where
  "log_requests cfg call_next r w =
     (let request_id = (case get_header r ''X-Request-ID'' of None \<Rightarrow> rq_fresh_id r | Some i \<Rightarrow> i) in
      case request_client_ip cfg r of
        Inl e \<Rightarrow> (Inl e, w)
      | Inr _ \<Rightarrow> (case call_next r w of (res, w') \<Rightarrow> (map_sum id (set_header ''X-Request-ID'' request_id) res, w')))"

definition drain_middleware :: "'w app \<Rightarrow> 'w app" where
  "drain_middleware call_next r w =
     (if shutting_down w \<and> rq_path r \<notin> set DRAIN_EXEMPT_PATHS
      then (Inr (json_response 503 ''Server is shutting down.'' []), w)
      else call_next r w)"

definition body_size_limit_middleware :: "'ip gateway_cfg \<Rightarrow> 'w app \<Rightarrow> 'w app" where
  "body_size_limit_middleware cfg call_next r w =
     (case ensure_request_body_within_limit (rq_method r) (get_header r ''content-length'') (rq_chunks r)
             (max_request_body_bytes cfg) of
        Untouched \<Rightarrow> call_next r w
      | Rebuilt body \<Rightarrow> call_next (r\<lparr>rq_chunks := [body]\<rparr>) w
      | Rejected \<Rightarrow> (rbind (request_client_ip cfg r) (\<lambda>_. Inr (json_response 413 ''Request body too large.'' [])), w))"

text \<open>\<open>app.middleware\<close> puts each middleware around those registered before; CORS came first.\<close>

definition app_stack :: "'ip gateway_cfg \<Rightarrow> ('w app \<Rightarrow> 'w app) \<Rightarrow> 'w app \<Rightarrow> 'w app" where
  "app_stack cfg cors routes =
     fold (\<lambda>mw app. mw app)
       [cors, add_security_headers cfg, auth_middleware cfg, rate_limit_middleware cfg, log_requests cfg,
        drain_middleware, body_size_limit_middleware cfg] routes"

definition no_cors :: "'w app \<Rightarrow> 'w app" where
  \<comment> \<open>in production without configured origins no CORS middleware is added\<close>
  "no_cors app = app"

section \<open>What the stack decides\<close>

definition bounded_request :: "'ip gateway_cfg \<Rightarrow> request \<Rightarrow> request option" where
  "bounded_request cfg r =
     (case ensure_request_body_within_limit (rq_method r) (get_header r ''content-length'') (rq_chunks r)
             (max_request_body_bytes cfg) of
        Untouched \<Rightarrow> Some r | Rebuilt body \<Rightarrow> Some (r\<lparr>rq_chunks := [body]\<rparr>) | Rejected \<Rightarrow> None)"

definition limiter_step :: "'ip gateway_cfg \<Rightarrow> request \<Rightarrow> 'w gateway \<Rightarrow> bool \<times> 'w gateway" where
  \<comment> \<open>what the rate limiter answers, and the world after it\<close>
  "limiter_step cfg r w =
     (if rq_path r \<in> set RATE_LIMIT_EXEMPT_PATHS then (True, w)
      else (case (limiter w, rate_limit_endpoint_key cfg r) of
          (Some rl, Inr key) \<Rightarrow> (case is_allowed rl (rq_time r) () key of (b, rl') \<Rightarrow> (b, w\<lparr>limiter := Some rl'\<rparr>))
        | _ \<Rightarrow> (True, w)))"

definition incomparable :: "'ip gateway_cfg \<Rightarrow> request \<Rightarrow> bool" where
  \<comment> \<open>a key is needed and a token presented, and one of the texts to compare is not ASCII\<close>
  "incomparable cfg r \<longleftrightarrow> rq_path r \<notin> set AUTH_EXEMPT_PATHS \<and> resolved_api_keys cfg \<noteq> []
     \<and> presented_token r \<noteq> [] \<and> \<not> list_all ascii (presented_token r # resolved_api_keys cfg)"

definition authorised :: "'ip gateway_cfg \<Rightarrow> request \<Rightarrow> bool" where
  "authorised cfg r \<longleftrightarrow> rq_path r \<in> set AUTH_EXEMPT_PATHS \<or> resolved_api_keys cfg = []
     \<or> presented_token r \<in> set (resolved_api_keys cfg) \<and> \<not> incomparable cfg r"

definition gate :: "'ip gateway_cfg \<Rightarrow> request \<Rightarrow> 'w gateway \<Rightarrow> nat option" where
  \<comment> \<open>the status of a refusal, in order of precedence; 500 stands for the TypeError of the
    comparison, which no middleware catches\<close>
  "gate cfg r w =
     (if bounded_request cfg r = None then Some 413
      else if shutting_down w \<and> rq_path r \<notin> set DRAIN_EXEMPT_PATHS then Some 503
      else if \<not> fst (limiter_step cfg r w) then Some 429
      else if incomparable cfg r then Some 500
      else if \<not> authorised cfg r then Some 401
      else None)"

definition request_id_of :: "request \<Rightarrow> string" where
  "request_id_of r = (case get_header r ''X-Request-ID'' of None \<Rightarrow> rq_fresh_id r | Some i \<Rightarrow> i)"

lemma resolved_keys_nonempty: "[] \<notin> set (resolved_api_keys cfg)"
  by (simp add: resolved_api_keys_def Let_def)

lemma endpoint_key_Inr:
  assumes "request_client_ip cfg r = Inr ip"
  shows "\<exists>key. rate_limit_endpoint_key cfg r = Inr key"
  using assms
  by (auto simp: rate_limit_endpoint_key_def rate_limit_key_def rate_limit_client_key_def Let_def
      request_client_ip_def)

lemma chunks_irrelevant [simp]:
  "get_header (r\<lparr>rq_chunks := b\<rparr>) = get_header r"
  "request_client_ip cfg (r\<lparr>rq_chunks := b\<rparr>) = request_client_ip cfg r"
  "rate_limit_endpoint_key cfg (r\<lparr>rq_chunks := b\<rparr>) = rate_limit_endpoint_key cfg r"
  "presented_token (r\<lparr>rq_chunks := b\<rparr>) = presented_token r"
  "request_id_of (r\<lparr>rq_chunks := b\<rparr>) = request_id_of r"
  "incomparable cfg (r\<lparr>rq_chunks := b\<rparr>) = incomparable cfg r"
  "authorised cfg (r\<lparr>rq_chunks := b\<rparr>) = authorised cfg r"
  "limiter_step cfg (r\<lparr>rq_chunks := b\<rparr>) w = limiter_step cfg r w"
proof -
  show h: "get_header (r\<lparr>rq_chunks := b\<rparr>) = get_header r"
    by (rule ext) (simp add: get_header_def)
  show ip: "request_client_ip cfg (r\<lparr>rq_chunks := b\<rparr>) = request_client_ip cfg r"
    by (simp add: request_client_ip_def h)
  show k: "rate_limit_endpoint_key cfg (r\<lparr>rq_chunks := b\<rparr>) = rate_limit_endpoint_key cfg r"
  proof -
    have "rate_limit_route_path (r\<lparr>rq_chunks := b\<rparr>) = rate_limit_route_path r"
      by (simp add: rate_limit_route_path_def split: option.split list.split)
    then show ?thesis by (simp add: rate_limit_endpoint_key_def rate_limit_key_def h)
  qed
  show t: "presented_token (r\<lparr>rq_chunks := b\<rparr>) = presented_token r"
    by (simp add: presented_token_def h)
  show "request_id_of (r\<lparr>rq_chunks := b\<rparr>) = request_id_of r" by (simp add: request_id_of_def h split: option.split)
  show i: "incomparable cfg (r\<lparr>rq_chunks := b\<rparr>) = incomparable cfg r" by (simp add: incomparable_def t)
  show "authorised cfg (r\<lparr>rq_chunks := b\<rparr>) = authorised cfg r" by (simp add: authorised_def t i)
  show "limiter_step cfg (r\<lparr>rq_chunks := b\<rparr>) w = limiter_step cfg r w" 
    by (simp add: limiter_step_def k split: option.split sum.split)
qed

lemma bounded_request_Some: "bounded_request cfg r = Some r' \<Longrightarrow> \<exists>b. r' = r\<lparr>rq_chunks := b\<rparr>"
proof -
  assume "bounded_request cfg r = Some r'"
  moreover have "r = r\<lparr>rq_chunks := rq_chunks r\<rparr>" by simp
  ultimately show ?thesis unfolding bounded_request_def by (auto split: bounded.splits intro: exI [of _ "rq_chunks r"])
qed

text \<open>The two inner gates, around any application.\<close>

lemma auth_cases:
  assumes "request_client_ip cfg r = Inr ip"
  shows "auth_middleware cfg call_next r w =
    (if incomparable cfg r then (Inl TypeError, w)
     else if authorised cfg r then call_next r w
     else (Inr (json_response 401 ''Invalid or missing Bearer token.'' [(''www-authenticate'', ''Bearer'')]), w))"
  using assms resolved_keys_nonempty [of cfg]
  by (auto simp: auth_middleware_def authorised_def incomparable_def verify_bearer_token_eq Let_def)

lemma rate_limit_cases:
  assumes "request_client_ip cfg r = Inr ip"
  shows "rate_limit_middleware cfg call_next r w =
    (if fst (limiter_step cfg r w) then call_next r (snd (limiter_step cfg r w))
     else (Inr (json_response 429 ''Rate limit exceeded. Please slow down.''
             [(''retry-after'', show_int \<lfloor>window_seconds (the (limiter w))\<rfloor>)]), snd (limiter_step cfg r w)))"
proof -
  obtain key where "rate_limit_endpoint_key cfg r = Inr key" using endpoint_key_Inr [OF assms] by blast
  then show ?thesis
    using assms by (auto simp: rate_limit_middleware_def limiter_step_def split: option.split prod.split)
qed

lemma app_stack_eq:
  assumes "request_client_ip cfg r = Inr ip"
  shows "app_stack cfg cors routes r w =
    (if bounded_request cfg r = None then (Inr (json_response 413 ''Request body too large.'' []), w)
     else if shutting_down w \<and> rq_path r \<notin> set DRAIN_EXEMPT_PATHS then (Inr (json_response 503 ''Server is shutting down.'' []), w)
     else if \<not> fst (limiter_step cfg r w) then
       (Inr (set_header ''X-Request-ID'' (request_id_of r) (json_response 429 ''Rate limit exceeded. Please slow down.''
             [(''retry-after'', show_int \<lfloor>window_seconds (the (limiter w))\<rfloor>)])), snd (limiter_step cfg r w))
     else if incomparable cfg r then (Inl TypeError, snd (limiter_step cfg r w))
     else if \<not> authorised cfg r then
       (Inr (set_header ''X-Request-ID'' (request_id_of r) (json_response 401 ''Invalid or missing Bearer token.'' [(''www-authenticate'', ''Bearer'')])),
        snd (limiter_step cfg r w))
     else (case cors routes (the (bounded_request cfg r)) (snd (limiter_step cfg r w)) of (res, w') \<Rightarrow>
        (map_sum id (\<lambda>resp. set_header ''X-Request-ID'' (request_id_of r)
           (security_headers cfg (the (bounded_request cfg r)) resp)) res, w')))"
proof (cases "bounded_request cfg r")
  case None
  then have "ensure_request_body_within_limit (rq_method r) (get_header r ''content-length'') (rq_chunks r)
      (max_request_body_bytes cfg) = Rejected"
    by (auto simp: bounded_request_def split: bounded.splits)
  then show ?thesis using None assms by (simp add: app_stack_def body_size_limit_middleware_def)
next
  case (Some r')
  obtain b where b: "r' = r\<lparr>rq_chunks := b\<rparr>" using bounded_request_Some [OF Some] by blast
  then have ip: "request_client_ip cfg r' = Inr ip" using assms by simp
  have path: "rq_path r' = rq_path r" "rq_fresh_id r' = rq_fresh_id r" by (simp_all add: b)
  have "app_stack cfg cors routes r w = drain_middleware (log_requests cfg (rate_limit_middleware cfg
      (auth_middleware cfg (add_security_headers cfg (cors routes))))) r' w"
    using Some by (auto simp: app_stack_def body_size_limit_middleware_def bounded_request_def split: bounded.splits)
  then show ?thesis
    unfolding drain_middleware_def log_requests_def rate_limit_cases [OF ip] auth_cases [OF ip] path
    using ip Some by (simp add: b add_security_headers_def request_id_of_def Let_def split: prod.split)
      (auto simp: map_sum_def split: sum.split)
qed

lemma limiter_step_frame:
  "app_state (snd (limiter_step cfg r w)) = app_state w" "shutting_down (snd (limiter_step cfg r w)) = shutting_down w"
  by (auto simp: limiter_step_def split: option.splits sum.splits prod.splits)

text \<open>C3. What happens to a request whose client address can be determined (the hypothesis; it
  fails only when \<open>FORWARDED_ALLOW_IPS\<close> does not parse): the first of the size limit (413), the
  drain (503), the rate limit (429) and the key check that refuses it decides, the routes never
  see it, the routes' state is untouched and, except for a request id, the answer has none of
  the headers the routes or \<open>add_security_headers\<close> would set. The key check answers 401, except
  that a non-ASCII character in the presented token or in a configured key makes the comparison
  raise TypeError, which leaves the stack as an unhandled exception (500). Only a request that
  passes all four reaches CORS and the routes, with its body bounded and the limiter charged.\<close>

theorem gateway_decision:
  assumes "request_client_ip cfg r = Inr ip"
  shows "case gate cfg r w of
      Some st \<Rightarrow> (\<exists>res w'. app_stack cfg cors routes r w = (res, w')
          \<and> app_stack cfg cors' routes' r w = (res, w')
          \<and> (if st = 500 then res = Inl TypeError
             else \<exists>resp. res = Inr resp \<and> resp_status resp = st
               \<and> set (map fst (resp_headers resp)) \<subseteq> {''x-request-id'', ''retry-after'', ''www-authenticate''})
          \<and> app_state w' = app_state w \<and> shutting_down w' = shutting_down w)
    | None \<Rightarrow> (\<exists>r'. bounded_request cfg r = Some r'
          \<and> app_stack cfg cors routes r w =
              (case cors routes r' (snd (limiter_step cfg r w)) of (res, w') \<Rightarrow>
                 (map_sum id (\<lambda>resp. set_header ''X-Request-ID'' (request_id_of r) (security_headers cfg r' resp)) res, w')))"
proof -
  have lower_id: "lower ''X-Request-ID'' = ''x-request-id''" by code_simp
  show ?thesis unfolding app_stack_eq [OF assms]
    by (auto simp: gate_def limiter_step_frame json_response_def set_header_def lower_id)
qed

text \<open>A concrete configuration: one key, addresses as texts, no trusted proxy.\<close>

definition demo_cfg :: "string gateway_cfg" where
  "demo_cfg = \<lparr>parse_ip = Some, parse_net = (\<lambda>_. None), sha256_hex = id, cfg_api_key = Some ''k1'',
     cfg_api_keys = None, trust_proxy_headers = False, forwarded_allow_ips = [],
     environment = ''production'', max_request_body_bytes = 100\<rparr>"

definition demo_request :: "string \<Rightarrow> headers \<Rightarrow> request" where
  "demo_request m hs = \<lparr>rq_method = m, rq_path = ''/run'', rq_headers = hs, rq_peer = Some ''198.51.100.7'',
     rq_chunks = [], rq_route = None, rq_time = 0, rq_fresh_id = ''id1''\<rparr>"

definition ok_routes :: "'w app" where
  "ok_routes r w = (Inr \<lparr>resp_status = 200, resp_headers = [], resp_body = []\<rparr>, w)"

abbreviation demo_world :: "unit gateway" where
  "demo_world \<equiv> \<lparr>limiter = None, shutting_down = False, app_state = ()\<rparr>"

theorem gateway_decision_witness:
  "gate demo_cfg (demo_request ''POST'' Map.empty) demo_world = Some 401
   \<and> (\<exists>resp w'. app_stack demo_cfg no_cors ok_routes (demo_request ''POST'' Map.empty) demo_world = (Inr resp, w')
          \<and> resp_status resp = 401)"
proof
  have ip: "request_client_ip demo_cfg (demo_request ''POST'' Map.empty) = Inr ''198.51.100.7''" by code_simp
  show g: "gate demo_cfg (demo_request ''POST'' Map.empty) demo_world = Some 401" by code_simp
  show "\<exists>resp w'. app_stack demo_cfg no_cors ok_routes (demo_request ''POST'' Map.empty) demo_world = (Inr resp, w')
          \<and> resp_status resp = 401"
    using gateway_decision [OF ip, where w = demo_world and cors = no_cors and routes = ok_routes and cors' = no_cors and routes' = ok_routes]
    unfolding g by auto
qed

section \<open>The rate limit at the level of the service\<close>

text \<open>Routes that record the requests that reach them and are subject to the limit.\<close>

definition record_routes :: "'ip gateway_cfg \<Rightarrow> (rat \<times> string) list app" where
  "record_routes cfg r w =
     (Inr \<lparr>resp_status = 200, resp_headers = [], resp_body = []\<rparr>,
      (case rate_limit_endpoint_key cfg r of
         Inr key \<Rightarrow> if rq_path r \<in> set RATE_LIMIT_EXEMPT_PATHS then w
                    else w\<lparr>app_state := app_state w @ [(rq_time r, key)]\<rparr>
       | Inl e \<Rightarrow> w))"

fun run_requests :: "'w app \<Rightarrow> request list \<Rightarrow> 'w gateway \<Rightarrow> 'w gateway" where
  "run_requests app [] w = w"
| "run_requests app (r # rs) w = run_requests app rs (snd (app r w))"

fun limiter_calls :: "'ip gateway_cfg \<Rightarrow> bool \<Rightarrow> request list \<Rightarrow> (rat \<times> unit \<times> string) list" where
  \<comment> \<open>the calls of \<open>is_allowed\<close> the requests cause\<close>
  "limiter_calls cfg draining [] = []"
| "limiter_calls cfg draining (r # rs) =
     (if bounded_request cfg r = None \<or> (draining \<and> rq_path r \<notin> set DRAIN_EXEMPT_PATHS)
         \<or> rq_path r \<in> set RATE_LIMIT_EXEMPT_PATHS then []
      else (case rate_limit_endpoint_key cfg r of Inr key \<Rightarrow> [(rq_time r, (), key)] | Inl e \<Rightarrow> []))
     @ limiter_calls cfg draining rs"

lemma limiter_calls_times:
  "sorted_wrt (\<le>) (t0 # map rq_time rs) \<Longrightarrow> non_decreasing t0 (limiter_calls cfg d rs)"
proof (induction rs arbitrary: t0)
  case (Cons r rs)
  then have "non_decreasing (rq_time r) (limiter_calls cfg d rs)" "non_decreasing t0 (limiter_calls cfg d rs)"
    "t0 \<le> rq_time r"
    by (auto intro!: Cons.IH)
  then show ?case by (auto split: sum.split)
qed simp

text \<open>One request against the recording routes: the limiter afterwards and what is recorded.\<close>

definition next_limiter :: "'ip gateway_cfg \<Rightarrow> bool \<Rightarrow> request \<Rightarrow> rate_limiter \<Rightarrow> rate_limiter" where
  "next_limiter cfg d r rl =
     (case limiter_calls cfg d [r] of [] \<Rightarrow> rl | (t, u, key) # cs \<Rightarrow> snd (is_allowed rl t u key))"

lemma record_step:
  assumes "request_client_ip cfg r = Inr ip" and "limiter w = Some rl"
  obtains rec where
    "snd (app_stack cfg no_cors (record_routes cfg) r w) =
       w\<lparr>limiter := Some (next_limiter cfg (shutting_down w) r rl), app_state := app_state w @ rec\<rparr>"
    "subseq rec (allowed_log (limiter_calls cfg (shutting_down w) [r]) (serve is_allowed rl (limiter_calls cfg (shutting_down w) [r])))"
proof -
  obtain key where key: "rate_limit_endpoint_key cfg r = Inr key" using endpoint_key_Inr [OF assms(1)] by blast
  have same: "w = w\<lparr>limiter := Some rl, app_state := app_state w @ []\<rparr>" using assms(2) by simp
  show ?thesis
  proof (cases "bounded_request cfg r")
    case None
    then have "snd (app_stack cfg no_cors (record_routes cfg) r w) = w" by (simp add: app_stack_eq [OF assms(1)])
    with None same show ?thesis by (intro that [of "[]"]) (simp_all add: next_limiter_def)
  next
    case (Some r')
    then obtain b where b: "r' = r\<lparr>rq_chunks := b\<rparr>" using bounded_request_Some by blast
    let ?d = "shutting_down w \<and> rq_path r \<notin> set DRAIN_EXEMPT_PATHS"
    show ?thesis
    proof (cases "?d \<or> rq_path r \<in> set RATE_LIMIT_EXEMPT_PATHS")
      case True
      then have "snd (app_stack cfg no_cors (record_routes cfg) r w) = w"
        using Some key
        by (auto simp: app_stack_eq [OF assms(1)] limiter_step_def record_routes_def b no_cors_def)
      with True Some same show ?thesis by (intro that [of "[]"]) (auto simp: next_limiter_def)
    next
      case False
      let ?a = "is_allowed rl (rq_time r) () key"
      have step: "limiter_step cfg r w = (fst ?a, w\<lparr>limiter := Some (snd ?a)\<rparr>)"
        using False key assms(2) by (simp add: limiter_step_def split: prod.split)
      have calls: "limiter_calls cfg (shutting_down w) [r] = [(rq_time r, (), key)]"
        using False Some key by auto
      show ?thesis
        using False Some key step calls
        by (intro that [of "if fst ?a \<and> authorised cfg r then [(rq_time r, key)] else []"])
          (auto simp: app_stack_eq [OF assms(1)] record_routes_def b next_limiter_def no_cors_def authorised_def incomparable_def)
    qed
  qed
qed

lemma limiter_calls_Cons:
  "limiter_calls cfg d (r # rs) = limiter_calls cfg d [r] @ limiter_calls cfg d rs"
  by simp

lemma calls_at_most_one: "limiter_calls cfg d [r] = [] \<or> (\<exists>t key. limiter_calls cfg d [r] = [(t, (), key)])"
  by (auto split: sum.split)

lemma recorded_subseq:
  assumes "\<forall>r\<in>set rs. \<exists>ip. request_client_ip cfg r = Inr ip" and "limiter w = Some rl"
  shows "\<exists>recs. app_state (run_requests (app_stack cfg no_cors (record_routes cfg)) rs w) = app_state w @ recs
    \<and> subseq recs (allowed_log (limiter_calls cfg (shutting_down w) rs)
        (serve is_allowed rl (limiter_calls cfg (shutting_down w) rs)))"
  using assms
proof (induction rs arbitrary: w rl)
  case (Cons r rs)
  from Cons.prems(1) obtain ip where "request_client_ip cfg r = Inr ip" by auto
  from record_step [OF this Cons.prems(2)] obtain rec where rec:
    "snd (app_stack cfg no_cors (record_routes cfg) r w) =
       w\<lparr>limiter := Some (next_limiter cfg (shutting_down w) r rl), app_state := app_state w @ rec\<rparr>" (is "_ = ?w")
    "subseq rec (allowed_log (limiter_calls cfg (shutting_down w) [r]) (serve is_allowed rl (limiter_calls cfg (shutting_down w) [r])))"
    by blast
  let ?rl = "next_limiter cfg (shutting_down w) r rl" and ?cs = "limiter_calls cfg (shutting_down w) rs"
  obtain recs where recs: "app_state (run_requests (app_stack cfg no_cors (record_routes cfg)) rs ?w) = app_state ?w @ recs"
    "subseq recs (allowed_log ?cs (serve is_allowed ?rl ?cs))"
  proof -
    have l: "limiter ?w = Some ?rl" "shutting_down ?w = shutting_down w" by simp_all
    have "\<forall>r\<in>set rs. \<exists>ip. request_client_ip cfg r = Inr ip" using Cons.prems(1) by simp
    from Cons.IH [OF this l(1)] show thesis unfolding l(2) using that by blast
  qed
  have "allowed_log (limiter_calls cfg (shutting_down w) (r # rs)) (serve is_allowed rl (limiter_calls cfg (shutting_down w) (r # rs)))
      = allowed_log (limiter_calls cfg (shutting_down w) [r]) (serve is_allowed rl (limiter_calls cfg (shutting_down w) [r]))
        @ allowed_log ?cs (serve is_allowed ?rl ?cs)"
    unfolding limiter_calls_Cons [of cfg _ r rs] next_limiter_def
    using calls_at_most_one [of cfg "shutting_down w" r] by (elim disjE exE; simp only:; simp)
  then show ?case
    using rec recs by (intro exI [of _ "rec @ recs"]) (auto intro: list_emb_append_mono simp del: limiter_calls.simps(2))
qed simp

lemma length_filter_subseq: "subseq xs ys \<Longrightarrow> length (filter P xs) \<le> length (filter P ys)"
  by (intro list_emb_length [OF subseq_filter])

lemma subseq_times_of: "subseq xs ys \<Longrightarrow> subseq (times_of key xs) (times_of key ys)"
  unfolding times_of_def by (intro subseq_map subseq_filter)

text \<open>C4. However the requests of any clients follow one another, with or without keys, to any
  paths, drained or refused on the way: in any interval of the window's length no bucket gets
  more than \<open>max_requests\<close> requests to the routes of the service.\<close>

theorem service_rate_bounded:
  assumes "rate_limiter_init m win = Inr rl" and "limiter w = Some rl" and "app_state w = []"
    and "\<forall>r\<in>set rs. \<exists>ip. request_client_ip cfg r = Inr ip" and "sorted_wrt (\<le>) (map rq_time rs)"
  shows "int (length (filter (\<lambda>t. a \<le> t \<and> t \<le> a + win)
    (times_of key (app_state (run_requests (app_stack cfg no_cors (record_routes cfg)) rs w))))) \<le> m"
proof -
  let ?cs = "limiter_calls cfg (shutting_down w) rs"
  define t0 where "t0 = (case rs of [] \<Rightarrow> 0 | r # rs' \<Rightarrow> rq_time r)"
  have "sorted_wrt (\<le>) (t0 # map rq_time rs)" using assms(5) by (cases rs) (auto simp: t0_def)
  then have nd: "non_decreasing t0 ?cs" by (rule limiter_calls_times)
  have "0 < win \<and> mem_rel m win rl [] t0" "0 \<le> m" using rate_limiter_init_Inr [OF assms(1), of t0] by auto
  then have ok: "int (length (filter (\<lambda>t. a \<le> t \<and> t \<le> a + win) (times_of key (allowed_log ?cs (serve is_allowed rl ?cs))))) \<le> m"
    using mem.served_window_ok [of m win rl t0 ?cs] nd by (simp add: mem.window_ok_def)
  obtain recs where "app_state (run_requests (app_stack cfg no_cors (record_routes cfg)) rs w) = recs"
      "subseq recs (allowed_log ?cs (serve is_allowed rl ?cs))"
    using recorded_subseq [OF assms(4,2)] unfolding assms(3) by auto
  then show ?thesis using ok length_filter_subseq [OF subseq_times_of] by (metis (no_types, lifting) of_nat_le_iff order_trans)
qed

definition demo_service :: "(rat \<times> string) list gateway" where
  "demo_service = \<lparr>limiter = Some demo_limiter, shutting_down = False, app_state = []\<rparr>"

definition demo_get :: "rat \<Rightarrow> request" where
  "demo_get t = (demo_request ''GET'' [''authorization'' \<mapsto> ''Bearer k1''])\<lparr>rq_time := t\<rparr>"

theorem service_rate_bounded_witness:
  "int (length (filter (\<lambda>t. 0 \<le> t \<and> t \<le> 0 + 60) (times_of ''ip:198.51.100.7:/run''
     (app_state (run_requests (app_stack demo_cfg no_cors (record_routes demo_cfg)) (map demo_get [0, 1, 2, 3]) demo_service))))) \<le> 2
   \<and> map fst (app_state (run_requests (app_stack demo_cfg no_cors (record_routes demo_cfg)) (map demo_get [0, 1, 2, 3]) demo_service)) = [0, 1]"
proof
  have ip: "request_client_ip demo_cfg (demo_get t) = Inr ''198.51.100.7''" for t
    by (simp add: request_client_ip_def resolve_client_ip_def demo_cfg_def demo_get_def demo_request_def)
  show "int (length (filter (\<lambda>t. 0 \<le> t \<and> t \<le> 0 + 60) (times_of ''ip:198.51.100.7:/run''
     (app_state (run_requests (app_stack demo_cfg no_cors (record_routes demo_cfg)) (map demo_get [0, 1, 2, 3]) demo_service))))) \<le> 2"
    by (rule service_rate_bounded [OF demo_limiter_init(1)])
      (simp add: demo_service_def, simp add: demo_service_def, simp add: ip, simp add: demo_get_def)
  show "map fst (app_state (run_requests (app_stack demo_cfg no_cors (record_routes demo_cfg)) (map demo_get [0, 1, 2, 3]) demo_service)) = [0, 1]"
    by code_simp
qed

text \<open>A browser's CORS preflight carries no credentials, and the CORS middleware is the one
  next to the routes: with a key configured, a preflight to any path that needs one is refused
  with 401 whatever CORS middleware is installed.\<close>

theorem cors_preflight_refused:
  assumes "request_client_ip cfg r = Inr ip" and "rq_method r = ''OPTIONS''" and "get_header r ''Authorization'' = None"
    and "resolved_api_keys cfg \<noteq> []" and "rq_path r \<notin> set AUTH_EXEMPT_PATHS"
    and "\<not> shutting_down w" and "limiter w = None"
  shows "map_sum id resp_status (fst (app_stack cfg cors routes r w)) = Inr 401"
proof -
  have "presented_token r = []" using assms(3) by (simp add: presented_token_def startswith_def)
  then have "\<not> authorised cfg r" "\<not> incomparable cfg r"
    using assms(4,5) resolved_keys_nonempty [of cfg] by (simp_all add: authorised_def incomparable_def)
  moreover have "bounded_request cfg r = Some r"
    using assms(2) by (simp add: bounded_request_def ensure_request_body_within_limit_def BODY_METHODS_def)
  ultimately show ?thesis using assms(6,7)
    by (simp add: app_stack_eq [OF assms(1)] limiter_step_def json_response_def set_header_def)
qed

theorem cors_preflight_refused_witness:
  "map_sum id resp_status (fst (app_stack demo_cfg no_cors ok_routes (demo_request ''OPTIONS'' Map.empty) demo_world)) = Inr 401"
  by (rule cors_preflight_refused [where ip = "''198.51.100.7''"]; code_simp)

end
