(* ===== verification/PackStream.thy ===== *)
theory PackStream
  imports LlmRetry
begin

text \<open>
  Pack stream events (\<open>pack_kernel/base_pack.py\<close>): the canonical shape, the normalisation of
  the legacy shape, and what \<open>stream_events\<close> makes of the events of a pack. A payload field is
  a plain value or an object with \<open>model_dump\<close> or \<open>to_dict\<close>, of which the code sees the
  dumped value.
\<close>

section \<open>Events\<close>

datatype field_val = Plain pyval | ModelDump pyval | ToDict pyval

type_synonym event = "(string \<times> field_val) list"

definition serialize_stream_field :: "field_val \<Rightarrow> field_val" where
  "serialize_stream_field v = (case v of ModelDump d \<Rightarrow> Plain d | ToDict d \<Rightarrow> Plain d | Plain p \<Rightarrow> Plain p)"

definition pack_stream_event :: "string \<Rightarrow> event \<Rightarrow> event" where
  \<comment> \<open>\<open>{"type": event_type, **fields}\<close>: a field named \<open>type\<close> takes the place of the kind\<close>
  "pack_stream_event event_type payload =
     fold (\<lambda>(k, v). AList.update k (serialize_stream_field v)) payload [(''type'', Plain (VStr event_type))]"

definition normalize_pack_stream_event :: "event \<Rightarrow> event result" where
  "normalize_pack_stream_event ev =
     (if map_of ev ''type'' \<noteq> None then Inr ev
      else (case map_of ev ''event'' of
          Some (Plain (VStr kind)) \<Rightarrow>
            if kind = [] then Inl ValueError
            else (case map_of ev ''data'' of
                None \<Rightarrow> Inr (pack_stream_event kind [])
              | Some (Plain (VDict data)) \<Rightarrow>
                  if ''event_type'' \<in> fst ` set data then Inl TypeError   \<comment> \<open>a second value for the parameter\<close>
                  else Inr (pack_stream_event kind (map (\<lambda>e. (fst e, Plain (snd e))) data))
              | Some v \<Rightarrow> Inr (pack_stream_event kind [(''data'', v)]))
        | _ \<Rightarrow> Inl ValueError))"

text \<open>What a pack's generator did: the raw events it yielded, then an exception or the end.\<close>

record source =
  yielded :: "event list"
  failure :: "llm_exc option"

definition exc_of :: "exn \<Rightarrow> llm_exc" where
  "exc_of e = Exc (case e of ValueError \<Rightarrow> [''ValueError'', ''Exception''] | TypeError \<Rightarrow> [''TypeError'', ''Exception'']
     | _ \<Rightarrow> [''Exception'']) None None None None"

fun normalize_all :: "event list \<Rightarrow> llm_exc option \<Rightarrow> event list \<times> llm_exc option" where
  \<comment> \<open>\<open>stream_events\<close>: the first event that cannot be normalised ends the stream\<close>
  "normalize_all [] err = ([], err)"
| "normalize_all (ev # evs) err =
     (case normalize_pack_stream_event ev of
        Inl e \<Rightarrow> ([], Some (exc_of e))
      | Inr ev' \<Rightarrow> (case normalize_all evs err of (out, err') \<Rightarrow> (ev' # out, err')))"

definition stream_events :: "source \<Rightarrow> source" where
  "stream_events s = (case normalize_all (yielded s) (failure s) of (out, err) \<Rightarrow> \<lparr>yielded = out, failure = err\<rparr>)"

section \<open>Properties\<close>

lemma map_of_fold_update:
  "map_of al k \<noteq> None \<Longrightarrow> map_of (fold (\<lambda>(k, v). AList.update k (f v)) fs al) k \<noteq> None"
  by (induction fs arbitrary: al) auto

lemma pack_stream_event_type: "map_of (pack_stream_event kind payload) ''type'' \<noteq> None"
  unfolding pack_stream_event_def by (rule map_of_fold_update) simp

lemma normalize_has_type: "normalize_pack_stream_event ev = Inr ev' \<Longrightarrow> map_of ev' ''type'' \<noteq> None"
  using pack_stream_event_type
  by (auto simp: normalize_pack_stream_event_def split: if_splits option.splits field_val.splits pyval.splits)

lemma normalize_fix: "map_of ev ''type'' \<noteq> None \<Longrightarrow> normalize_pack_stream_event ev = Inr ev"
  by (simp add: normalize_pack_stream_event_def)

lemma normalize_all_typed: "\<forall>ev\<in>set (fst (normalize_all evs err)). map_of ev ''type'' \<noteq> None"
  by (induction evs err rule: normalize_all.induct)
    (auto split: sum.splits prod.splits dest: normalize_has_type)

lemma normalize_all_fix:
  "\<forall>ev\<in>set evs. map_of ev ''type'' \<noteq> None \<Longrightarrow> normalize_all evs err = (evs, err)"
  by (induction evs) (auto simp: normalize_fix)

lemma normalize_all_length: "length (fst (normalize_all evs err)) \<le> length evs"
  by (induction evs err rule: normalize_all.induct) (auto split: sum.splits prod.splits)

text \<open>Every event a consumer sees has a \<open>type\<close>, and normalising a normalised stream again,
  as the API does for structured packs, changes nothing: neither the events nor the way the
  stream ends.\<close>

theorem streams_are_canonical:
  "(\<forall>ev\<in>set (yielded (stream_events s)). map_of ev ''type'' \<noteq> None)
   \<and> stream_events (stream_events s) = stream_events s"
  using normalize_all_typed [of "yielded s" "failure s"] normalize_all_fix
  by (auto simp: stream_events_def split: prod.splits)

definition demo_source :: source where
  "demo_source = \<lparr>yielded = [[(''event'', Plain (VStr ''token'')), (''data'', Plain (VDict [(''text'', VStr ''hi'')]))]], failure = None\<rparr>"

theorem streams_are_canonical_witness:
  "yielded (stream_events demo_source) = [[(''type'', Plain (VStr ''token'')), (''text'', Plain (VStr ''hi''))]]
   \<and> stream_events (stream_events demo_source) = stream_events demo_source"
proof
  show "stream_events (stream_events demo_source) = stream_events demo_source"
    using streams_are_canonical by blast
qed code_simp

text \<open>A payload field named \<open>type\<close> replaces the kind of a legacy event.\<close>

lemma payload_type_wins:
  "normalize_pack_stream_event
     [(''event'', Plain (VStr ''token'')), (''data'', Plain (VDict [(''type'', VStr ''error'')]))]
   = Inr [(''type'', Plain (VStr ''error''))]"
  by code_simp

end
