(* ===== verification/PackApi.thy ===== *)
theory PackApi
  imports PackRegistry Policies Sessions Reviews RunHistory PackStream "HOL-Library.Multiset"
begin

text \<open>
  The pack endpoints: \<open>POST /packs/<id>/run\<close> and \<open>/run/stream\<close> (\<open>api/router_factory.py\<close>) with
  the helpers of \<open>api/dependencies.py\<close>. A handler is split where it awaits the executor, so
  that runs can interleave: \<open>begin_*\<close> is what happens up to and including the acquisition of
  the session, \<open>finish_*\<close> everything after. The session registry is a pair of functions; the
  history is the SQLite store, the review queue the in-memory store of \<open>core/review_store.py\<close>.
  What the pack does, the caller's key (\<open>Gateway.rate_limit_key\<close>), clock readings, ids and
  whether the stores answer in time come with the call.
\<close>

section \<open>Packs as the endpoints see them\<close>

record pack_result =
  to_dict :: "pyval option"
  model_dump :: "pyval option"
  the_object :: pyval

record pack_impl =
  own_attributes :: "string list"          \<comment> \<open>\<open>pack_cls.__dict__\<close>\<close>
  construct :: "rat option \<Rightarrow> llm_exc option"
  run_from_input :: "pydict \<Rightarrow> llm_exc + pack_result"
  run_text :: "string \<Rightarrow> llm_exc + pack_result"
  run_cost :: "rat option"
  close_pack :: "llm_exc option"
  events_from_input :: "pydict \<Rightarrow> source"   \<comment> \<open>\<open>stream_events_from_input\<close>\<close>
  raw_events :: "string \<Rightarrow> source"          \<comment> \<open>\<open>_iter_stream_events\<close>\<close>

text \<open>The three adapters \<open>_serialize_pack_result\<close> looks for on the output model, in order.\<close>

type_synonym adapter = "pack_result \<Rightarrow> rat option \<Rightarrow> llm_exc + pyval"

record pack_route =
  route_pack_id :: string
  impl_of :: "pack_class \<Rightarrow> pack_impl"
  from_analysis_report :: "adapter option"
  from_research_result :: "adapter option"
  from_summary_result :: "adapter option"
  field_max_length :: "string \<Rightarrow> int option"
  response_fits :: "pyval \<Rightarrow> bool"   \<comment> \<open>FastAPI's validation of what the handler returned against \<open>response_model\<close>\<close>

record 's service =
  draining :: bool
  packs :: registry
  policies :: policy_registry
  sessions :: 's
  memory :: "sql_runs option"
  review_store :: "mem_store option"

record api_settings =
  regulated_packs_enabled :: bool
  settings_limits :: limits
  validator :: input_validator
  installed_sdk :: "string \<Rightarrow> bool"
  digest32 :: "string \<Rightarrow> nat"
  render :: "pyval \<Rightarrow> string"
  json_dumps :: "pyval \<Rightarrow> string option"
  exc_text :: "llm_exc \<Rightarrow> string"
  auth_text :: "string \<Rightarrow> llm_exc \<Rightarrow> string"    \<comment> \<open>\<open>str(make_auth_error(...))\<close>\<close>

text \<open>What befalls a write to a store: nothing; a time-out or the cancellation of the request,
  after which the executor's thread may still finish the write; an exception of the store.\<close>

datatype fault = NoFault | Late bool | Cancelled bool | Broken llm_exc

definition CANCELLED :: llm_exc where
  "CANCELLED = Exc [''CancelledError'', ''BaseException''] None None None None"

record 'e call =
  version_header :: "string option"
  caller_key :: "string result"
  random_draw :: rat
  run_id :: string
  now_at :: rat
  now_text :: string
  save_fault :: fault
  review_fault :: fault
  acquire_env :: 'e
  release_env :: 'e

text \<open>A status the handler chose; an exception that escapes it (a 500); a result that fits no
  response (\<open>ResponseValidationError\<close>, a 500 as well).\<close>

datatype api_error = Status nat | Raised llm_exc | Unhandled exn | BadResponse

section \<open>Helpers\<close>

fun first_field :: "(pyval \<Rightarrow> string) \<Rightarrow> pydict \<Rightarrow> string list \<Rightarrow> string option" where
  "first_field rend body [] = None"
| "first_field rend body (f # fs) =
     (if truthy (dget body f) then Some (py_str rend (dget body f)) else first_field rend body fs)"

definition PRIMARY_FIELDS :: "string list" where
  "PRIMARY_FIELDS = [''query'', ''text'', ''company'', ''topic'', ''ticket_subject'', ''question'', ''role_title'']"

definition pack_primary_text :: "(pyval \<Rightarrow> string) \<Rightarrow> pydict \<Rightarrow> string" where
  "pack_primary_text rend body =
     (case first_field rend body PRIMARY_FIELDS of Some t \<Rightarrow> t | None \<Rightarrow> take 500 (rend (VDict body)))"

definition pack_has_structured_input :: "pack_impl \<Rightarrow> bool" where
  "pack_has_structured_input p \<longleftrightarrow> ''run_from_input'' \<in> set (own_attributes p)"

definition pack_has_structured_stream :: "pack_impl \<Rightarrow> bool" where
  "pack_has_structured_stream p \<longleftrightarrow> ''stream_events_from_input'' \<in> set (own_attributes p)"

definition invoke_pack_run :: "(pyval \<Rightarrow> string) \<Rightarrow> pack_impl \<Rightarrow> pydict \<Rightarrow> llm_exc + pack_result" where
  "invoke_pack_run rend p body =
     (if pack_has_structured_input p then run_from_input p body
      else run_text p (pack_primary_text rend body))"

definition iter_pack_stream_events :: "(pyval \<Rightarrow> string) \<Rightarrow> pack_impl \<Rightarrow> pydict \<Rightarrow> source" where
  "iter_pack_stream_events rend p body =
     (if pack_has_structured_stream p then stream_events (events_from_input p body)
      else stream_events (raw_events p (pack_primary_text rend body)))"

definition serialize_pack_result :: "pack_route \<Rightarrow> pack_result \<Rightarrow> rat option \<Rightarrow> llm_exc + pyval" where
  "serialize_pack_result rt res cost =
     (case from_analysis_report rt of Some f \<Rightarrow> f res cost
      | None \<Rightarrow> (case from_research_result rt of Some f \<Rightarrow> f res cost
      | None \<Rightarrow> (case from_summary_result rt of Some f \<Rightarrow> f res cost
      | None \<Rightarrow> (case model_dump res of Some d \<Rightarrow> Inr d | None \<Rightarrow> Inr (the_object res)))))"

definition result_payload :: "pack_result \<Rightarrow> pyval" where
  "result_payload res =
     (case to_dict res of Some d \<Rightarrow> d
      | None \<Rightarrow> (case model_dump res of Some d \<Rightarrow> d | None \<Rightarrow> VDict []))"

definition pack_runtime_budget :: "policy_registry \<Rightarrow> api_settings \<Rightarrow> pack_class \<Rightarrow> rat option" where
  \<comment> \<open>the \<open>budget_usd\<close> argument of \<open>pack_runtime_kwargs\<close>\<close>
  "pack_runtime_budget pols st c =
     (case pc_id c of None \<Rightarrow> None
      | Some pid \<Rightarrow> if pid = [] then None else effective_budget_usd pols pid (settings_limits st))"

definition session_of :: "pydict \<Rightarrow> string option" where
  \<comment> \<open>\<open>getattr(body, "session_id", None) or None\<close>; the schemas declare it \<open>str | None\<close>\<close>
  "session_of body = (case dget body ''session_id'' of VStr (c # s) \<Rightarrow> Some (c # s) | _ \<Rightarrow> None)"

definition text_of :: "string option \<Rightarrow> string option" where
  "text_of v = (case v of Some (c # s) \<Rightarrow> Some (c # s) | _ \<Rightarrow> None)"

section \<open>Up to the session lock\<close>

definition requested_version :: "pack_route \<Rightarrow> 'e call \<Rightarrow> pydict \<Rightarrow> 's service \<Rightarrow> string option" where
  "requested_version rt c body w =
     (case text_of (version_header c) of
        Some v \<Rightarrow> Some v
      | None \<Rightarrow> (case (memory w, session_of body) of
            (Some m, Some sid) \<Rightarrow>
              (case sqlite_version m sid (route_pack_id rt) of VStr v \<Rightarrow> Some v | _ \<Rightarrow> None)
          | _ \<Rightarrow> None))"

definition used_version :: "string \<Rightarrow> pack_class \<Rightarrow> registry \<Rightarrow> string" where
  "used_version pid c reg =
     (case get_versions pid reg of
        Inl e \<Rightarrow> ''unknown''
      | Inr pvs \<Rightarrow> (case find (\<lambda>pv. pc_ref (pv_cls pv) = pc_ref c) pvs of
                       None \<Rightarrow> ''unknown'' | Some pv \<Rightarrow> pv_version pv))"

definition unprocessable :: "'a result \<Rightarrow> api_error + 'a" where
  "unprocessable r = (case r of Inr x \<Rightarrow> Inr x | Inl ValueError \<Rightarrow> Inl (Status 422) | Inl e \<Rightarrow> Inl (Unhandled e))"

definition select_pack :: "api_settings \<Rightarrow> pack_route \<Rightarrow> 'e call \<Rightarrow> pydict \<Rightarrow> 's service \<Rightarrow> api_error + pack_class" where
  "select_pack st rt c body w =
     (case rbind (caller_key c) (\<lambda>key.
             get_pack (digest32 st) (random_draw c) (route_pack_id rt) (requested_version rt c body w) (Some key) (packs w)) of
        Inr cls \<Rightarrow> Inr cls
      | Inl KeyError \<Rightarrow> Inl (Status 404)
      | Inl e \<Rightarrow> Inl (Unhandled e))"

record ticket =   \<comment> \<open>a run between its admission and its end\<close>
  tk_run :: string
  tk_session :: "string option"
  tk_class :: pack_class
  tk_version :: string
  tk_query :: string
  tk_body :: pydict

definition admit :: "api_settings \<Rightarrow> pack_route \<Rightarrow> 'e call \<Rightarrow> pydict \<Rightarrow> 's service \<Rightarrow> api_error + ticket" where
  "admit st rt c body w =
     (if draining w then Inl (Status 503)
      else rbind (select_pack st rt c body w) (\<lambda>cls.
        rbind (unprocessable (validate_pack_body (policies w) body (field_max_length rt) (route_pack_id rt) (validator st))) (\<lambda>_.
        rbind (unprocessable (validate_query_for_pack (policies w) (pack_primary_text (render st) body)
                 (route_pack_id rt) (validator st))) (\<lambda>query.
        Inr \<lparr>tk_run = run_id c, tk_session = session_of body, tk_class = cls,
             tk_version = used_version (route_pack_id rt) cls (packs w), tk_query = query, tk_body = body\<rparr>))))"

definition lock_session ::
  "('s \<Rightarrow> 'e \<Rightarrow> string \<Rightarrow> bool \<times> 's) \<Rightarrow> 'e call \<Rightarrow> ticket \<Rightarrow> 's service \<Rightarrow> (api_error + ticket) \<times> 's service" where
  "lock_session acquire c tk w =
     (case tk_session tk of
        None \<Rightarrow> (Inr tk, w)
      | Some sid \<Rightarrow> (case acquire (sessions w) (acquire_env c) sid of
          (free, s) \<Rightarrow> (if free then Inr tk else Inl (Status 409), w\<lparr>sessions := s\<rparr>)))"

definition begin_run where
  "begin_run acquire st rt c body w =
     (case rbind (admit st rt c body w) (\<lambda>tk.
            case assert_regulated_pack_runtime_enabled (route_pack_id rt) (regulated_packs_enabled st) of
              Inl e \<Rightarrow> Inl (Status 403) | Inr _ \<Rightarrow> Inr tk) of
        Inl err \<Rightarrow> (Inl err, w)
      | Inr tk \<Rightarrow> lock_session acquire c tk w)"

definition begin_stream where
  \<comment> \<open>no \<open>assert_regulated_pack_runtime_enabled\<close> here\<close>
  "begin_stream acquire st rt c body w =
     (case admit st rt c body w of
        Inl err \<Rightarrow> (Inl err, w)
      | Inr tk \<Rightarrow> lock_session acquire c tk w)"

section \<open>The run and its bookkeeping\<close>

definition execute_pack :: "api_settings \<Rightarrow> pack_route \<Rightarrow> 's service \<Rightarrow> ticket \<Rightarrow> llm_exc + (pyval \<times> pyval)" where
  \<comment> \<open>\<open>_execute\<close>; leaving the \<open>with\<close> block closes the pack, whose exception would win\<close>
  "execute_pack st rt w tk =
     (let p = impl_of rt (tk_class tk) in
      case construct p (pack_runtime_budget (policies w) st (tk_class tk)) of
        Some e \<Rightarrow> Inl e
      | None \<Rightarrow>
          (let out = rbind (invoke_pack_run (render st) p (tk_body tk)) (\<lambda>res.
                 rbind (serialize_pack_result rt res (run_cost p)) (\<lambda>s. Inr (s, result_payload res)))
           in case close_pack p of Some e \<Rightarrow> Inl e | None \<Rightarrow> out))"

definition failure_answer :: "(string \<Rightarrow> bool) \<Rightarrow> llm_exc \<Rightarrow> api_error" where
  "failure_answer installed e =
     (if isinstance e [''AgentBudgetExceededError''] then Status 402
      else if isinstance e [''AgentTimeoutError''] then Status 504
      else if isinstance e [''AgentAuthenticationError''] then Status 502
      else if isinstance e [''AgentExecutionError'', ''AgentValidationError'']
      then (if find_auth_cause installed MAX_DEPTH (Some e) \<noteq> None then Status 502 else Status 500)
      else Raised e)"

definition best_effort :: "fault \<Rightarrow> ('m \<Rightarrow> 'm result) \<Rightarrow> 'm \<Rightarrow> llm_exc option \<times> 'm" where
  \<comment> \<open>\<open>wait_for\<close> in a \<open>try\<close> that logs every \<open>Exception\<close>; a cancellation is none\<close>
  "best_effort f write m =
     (let m' = (case write m of Inr x \<Rightarrow> x | Inl e \<Rightarrow> m) in
      case f of
        NoFault \<Rightarrow> (None, m')
      | Late finishes \<Rightarrow> (None, if finishes then m' else m)
      | Cancelled finishes \<Rightarrow> (Some CANCELLED, if finishes then m' else m)
      | Broken e \<Rightarrow> (if isinstance e [''Exception''] then None else Some e, m))"

definition run_metadata :: "pack_route \<Rightarrow> ticket \<Rightarrow> pydict" where
  "run_metadata rt tk =
     [(''pack_id'', VStr (route_pack_id rt)), (''pack_version'', VStr (tk_version tk))]
     @ (case tk_session tk of None \<Rightarrow> [] | Some sid \<Rightarrow> [(''session_id'', VStr sid)])"

definition save_run_best_effort ::
  "pack_route \<Rightarrow> 'e call \<Rightarrow> ticket \<Rightarrow> pyval \<Rightarrow> 's service \<Rightarrow> llm_exc option \<times> 's service" where
  "save_run_best_effort rt c tk payload w =
     (case memory w of
        None \<Rightarrow> (None, w)
      | Some m \<Rightarrow>
          (case best_effort (save_fault c)
                  (\<lambda>m. sqlite_save m (tk_run tk) (tk_query tk) payload (Some (run_metadata rt tk)) (now_at c)) m of
             (err, m') \<Rightarrow> (err, w\<lparr>memory := Some m'\<rparr>)))"

definition pack_requires_human_review :: "policy_registry \<Rightarrow> string \<Rightarrow> bool" where
  "pack_requires_human_review pols pid =
     (case get_policy pols pid of None \<Rightarrow> False | Some p \<Rightarrow> human_review_required p)"

definition create_review_best_effort ::
  "api_settings \<Rightarrow> pack_route \<Rightarrow> 'e call \<Rightarrow> ticket \<Rightarrow> pyval \<Rightarrow> 's service \<Rightarrow> llm_exc option \<times> 's service" where
  "create_review_best_effort st rt c tk payload w =
     (case review_store w of
        None \<Rightarrow> (None, w)
      | Some q \<Rightarrow>
          if \<not> pack_requires_human_review (policies w) (route_pack_id rt) then (None, w)
          else (case best_effort (review_fault c)
                  (\<lambda>q. map_sum id snd (mem_create q (tk_run tk) (route_pack_id rt) (tk_session tk)
                     (summarize_output (json_dumps st) (render st) payload) (now_text c))) q of
             (err, q') \<Rightarrow> (err, w\<lparr>review_store := Some q'\<rparr>)))"

definition unlock_session :: "('s \<Rightarrow> 'e \<Rightarrow> string \<Rightarrow> 's) \<Rightarrow> 'e call \<Rightarrow> ticket \<Rightarrow> 's service \<Rightarrow> 's service" where
  "unlock_session release c tk w =
     (case tk_session tk of None \<Rightarrow> w | Some sid \<Rightarrow> w\<lparr>sessions := release (sessions w) (release_env c) sid\<rparr>)"

definition guarded_run ::
  "api_settings \<Rightarrow> pack_route \<Rightarrow> 'e call \<Rightarrow> ticket \<Rightarrow> 's service \<Rightarrow> (api_error + pyval) \<times> 's service" where
  \<comment> \<open>the body of the outer \<open>try\<close>\<close>
  "guarded_run st rt c tk w =
     (case execute_pack st rt w tk of
        Inl e \<Rightarrow> (Inl (failure_answer (installed_sdk st) e), w)
      | Inr (serialized, payload) \<Rightarrow>
          (case save_run_best_effort rt c tk payload w of
             (Some e, w1) \<Rightarrow> (Inl (Raised e), w1)
           | (None, w1) \<Rightarrow>
               (case create_review_best_effort st rt c tk payload w1 of
                  (Some e, w2) \<Rightarrow> (Inl (Raised e), w2)
                | (None, w2) \<Rightarrow> (Inr serialized, w2))))"

definition respond :: "pack_route \<Rightarrow> api_error + pyval \<Rightarrow> api_error + pyval" where
  \<comment> \<open>the route's \<open>response_model\<close>, applied once the handler has returned\<close>
  "respond rt answer =
     rbind answer (\<lambda>serialized. if response_fits rt serialized then Inr serialized else Inl BadResponse)"

definition finish_run where
  "finish_run release st rt c tk w =
     (case guarded_run st rt c tk w of (answer, w') \<Rightarrow> (respond rt answer, unlock_session release c tk w'))"

definition run_pack where
  "run_pack acquire release st rt c body w =
     (case begin_run acquire st rt c body w of
        (Inl err, w') \<Rightarrow> (Inl err, w')
      | (Inr tk, w') \<Rightarrow> finish_run release st rt c tk w')"

section \<open>Streaming\<close>

text \<open>How far the response body is consumed: not at all, until the client leaves, until the
  stream timeout strikes (after so many events), or to its end.\<close>

datatype consumption = Never | Leaves nat | TimesOut nat | ToTheEnd

record stream_result =
  chunks :: "event list"
  aborted :: "llm_exc option"

definition error_event :: "string \<Rightarrow> event" where
  "error_event msg = [(''type'', Plain (VStr ''error'')), (''message'', Plain (VStr msg))]"

definition timeout_event :: "api_settings \<Rightarrow> policy_registry \<Rightarrow> string \<Rightarrow> event" where
  "timeout_event st pols pid =
     error_event (''Stream timed out after '' @ render st (VFloat (effective_stream_timeout_seconds pols pid (settings_limits st))) @ ''s'')"

definition stream_error_message :: "api_settings \<Rightarrow> string \<Rightarrow> llm_exc \<Rightarrow> string option" where
  \<comment> \<open>the message of the error event; \<open>None\<close> when the exception passes through\<close>
  "stream_error_message st pid e =
     (if isinstance e [''AgentTimeoutError''] then Some ''The pipeline timed out.''
      else if isinstance e [''AgentAuthenticationError''] then Some (exc_text st e)
      else if isinstance e [''AgentExecutionError'', ''AgentValidationError''] then
        Some (case find_auth_cause (installed_sdk st) MAX_DEPTH (Some e) of
                Some cause \<Rightarrow> auth_text st pid cause | None \<Rightarrow> ''The pipeline encountered an error.'')
      else if isinstance e [''Exception''] then Some ''Internal error''
      else None)"

definition last_payload :: "event list \<Rightarrow> pyval" where
  \<comment> \<open>\<open>last_event or {}\<close>, with the dumped value of a field that is an object\<close>
  "last_payload evs =
     (if evs = [] then VDict []
      else VDict (map (\<lambda>e. (fst e, case snd e of Plain v \<Rightarrow> v | ModelDump v \<Rightarrow> v | ToDict v \<Rightarrow> v)) (last evs)))"

definition event_generator ::
  "api_settings \<Rightarrow> pack_route \<Rightarrow> 'e call \<Rightarrow> ticket \<Rightarrow> 's service \<Rightarrow> source \<Rightarrow> stream_result \<times> 's service" where
  \<comment> \<open>\<open>_event_generator\<close> run to its end, once the pack is constructed\<close>
  "event_generator st rt c tk w src =
     (case failure src of
        None \<Rightarrow>
          (case create_review_best_effort st rt c tk (last_payload (yielded src)) w of
             (err, w') \<Rightarrow> (\<lparr>chunks = yielded src, aborted = err\<rparr>, w'))
      | Some e \<Rightarrow>
          (case stream_error_message st (route_pack_id rt) e of
             Some msg \<Rightarrow> (\<lparr>chunks = yielded src @ [error_event msg], aborted = None\<rparr>, w)
           | None \<Rightarrow> (\<lparr>chunks = yielded src, aborted = Some e\<rparr>, w)))"

definition finish_stream ::
  "('s \<Rightarrow> 'e \<Rightarrow> string \<Rightarrow> 's) \<Rightarrow> api_settings \<Rightarrow> pack_route \<Rightarrow> 'e call \<Rightarrow> ticket \<Rightarrow> consumption \<Rightarrow> 's service
     \<Rightarrow> stream_result \<times> 's service" where
  \<comment> \<open>\<open>_timed_event_generator\<close>: its \<open>finally\<close> runs only if the generator was started\<close>
  "finish_stream release st rt c tk mode w =
     (let p = impl_of rt (tk_class tk);
          src = iter_pack_stream_events (render st) p (tk_body tk);
          late = timeout_event st (policies w) (route_pack_id rt)
      in case mode of
        Never \<Rightarrow> (\<lparr>chunks = [], aborted = None\<rparr>, w)
      | _ \<Rightarrow>
        (case construct p (pack_runtime_budget (policies w) st (tk_class tk)) of
           Some e \<Rightarrow>
             (if isinstance e [''TimeoutError''] then \<lparr>chunks = [late], aborted = None\<rparr>
              else \<lparr>chunks = [], aborted = Some e\<rparr>, unlock_session release c tk w)
         | None \<Rightarrow>
             (case mode of
                Leaves n \<Rightarrow> (\<lparr>chunks = take n (yielded src), aborted = None\<rparr>, unlock_session release c tk w)
              | TimesOut n \<Rightarrow> (\<lparr>chunks = take n (yielded src) @ [late], aborted = None\<rparr>, unlock_session release c tk w)
              | _ \<Rightarrow> (case event_generator st rt c tk w src of (res, w') \<Rightarrow> (res, unlock_session release c tk w')))))"

section \<open>Frames\<close>

lemma save_frame:
  "save_run_best_effort rt c tk payload w = (e, w') \<Longrightarrow>
     sessions w' = sessions w \<and> review_store w' = review_store w \<and> policies w' = policies w
     \<and> packs w' = packs w \<and> draining w' = draining w"
  by (auto simp: save_run_best_effort_def split: option.splits prod.splits)

lemma review_frame:
  "create_review_best_effort st rt c tk payload w = (e, w') \<Longrightarrow>
     sessions w' = sessions w \<and> memory w' = memory w \<and> policies w' = policies w
     \<and> packs w' = packs w \<and> draining w' = draining w"
  by (auto simp: create_review_best_effort_def split: option.splits prod.splits if_splits)

lemma guarded_frame:
  "sessions (snd (guarded_run st rt c tk w)) = sessions w \<and> packs (snd (guarded_run st rt c tk w)) = packs w
   \<and> policies (snd (guarded_run st rt c tk w)) = policies w \<and> draining (snd (guarded_run st rt c tk w)) = draining w"
  by (auto simp: guarded_run_def split: sum.splits prod.splits option.splits dest!: save_frame review_frame)

lemma event_generator_frame:
  "sessions (snd (event_generator st rt c tk w src)) = sessions w \<and> memory (snd (event_generator st rt c tk w src)) = memory w"
  by (auto simp: event_generator_def split: option.splits prod.splits dest!: review_frame)

lemma sessions_finish:
  "sessions (snd (finish_run release st rt c tk w)) =
     (case tk_session tk of None \<Rightarrow> sessions w | Some sid \<Rightarrow> release (sessions w) (release_env c) sid)"
  using guarded_frame [of st rt c tk w]
  by (auto simp: finish_run_def unlock_session_def split: prod.splits option.splits)

lemma sessions_finish_stream:
  "sessions (snd (finish_stream release st rt c tk mode w)) =
     (case tk_session tk of None \<Rightarrow> sessions w
      | Some sid \<Rightarrow> if mode = Never then sessions w else release (sessions w) (release_env c) sid)"
  using event_generator_frame [of st rt c tk w "iter_pack_stream_events (render st) (impl_of rt (tk_class tk)) (tk_body tk)"]
  by (auto simp: finish_stream_def unlock_session_def Let_def
      split: prod.splits option.splits consumption.splits)

section \<open>Beginnings\<close>

definition locked :: "('s \<Rightarrow> 'e \<Rightarrow> string \<Rightarrow> bool \<times> 's) \<Rightarrow> 'e call \<Rightarrow> ticket \<Rightarrow> 's service \<Rightarrow> 's service \<Rightarrow> bool" where
  "locked acquire c tk w w' \<longleftrightarrow>
     (case tk_session tk of None \<Rightarrow> w' = w
      | Some sid \<Rightarrow> fst (acquire (sessions w) (acquire_env c) sid)
          \<and> w' = w\<lparr>sessions := snd (acquire (sessions w) (acquire_env c) sid)\<rparr>)"

lemma lock_session_Inr: "lock_session acquire c tk w = (Inr tk', w') \<longleftrightarrow> tk' = tk \<and> locked acquire c tk w w'"
  by (auto simp: lock_session_def locked_def split: option.splits prod.splits if_splits)

definition turned_away :: "('s \<Rightarrow> 'e \<Rightarrow> string \<Rightarrow> bool \<times> 's) \<Rightarrow> 'e call \<Rightarrow> 's service \<Rightarrow> 's service \<Rightarrow> bool" where
  "turned_away acquire c w w' \<longleftrightarrow>
     (\<exists>sid. \<not> fst (acquire (sessions w) (acquire_env c) sid)
        \<and> w' = w\<lparr>sessions := snd (acquire (sessions w) (acquire_env c) sid)\<rparr>)"

lemma lock_session_Inl:
  assumes "lock_session acquire c tk w = (Inl err, w')"
  shows "turned_away acquire c w w' \<and> err = Status 409"
proof (cases "tk_session tk")
  case None
  with assms show ?thesis by (simp add: lock_session_def)
next
  case (Some sid)
  with assms show ?thesis
    by (cases "acquire (sessions w) (acquire_env c) sid") (auto simp: lock_session_def turned_away_def split: if_splits intro!: exI [of _ sid])
qed

lemma begin_run_Inr:
  "begin_run acquire st rt c body w = (Inr tk, w') \<longleftrightarrow>
     admit st rt c body w = Inr tk
     \<and> (route_pack_id rt \<in> set REGULATED_PACK_IDS \<longrightarrow> regulated_packs_enabled st) \<and> locked acquire c tk w w'"
  by (cases "admit st rt c body w")
    (auto simp: begin_run_def lock_session_Inr assert_regulated_pack_runtime_enabled_def split: sum.splits if_splits)

lemma begin_stream_Inr:
  "begin_stream acquire st rt c body w = (Inr tk, w') \<longleftrightarrow> admit st rt c body w = Inr tk \<and> locked acquire c tk w w'"
  by (auto simp: begin_stream_def lock_session_Inr split: sum.splits)

lemma begin_Inl:
  "begin_run acquire st rt c body w = (Inl err, w') \<Longrightarrow> w' = w \<or> turned_away acquire c w w'"
  "begin_stream acquire st rt c body w = (Inl err, w') \<Longrightarrow> w' = w \<or> turned_away acquire c w w'"
  unfolding begin_run_def begin_stream_def
  by (auto split: sum.splits dest!: lock_session_Inl)

lemma admit_Inr:
  assumes "admit st rt c body w = Inr tk"
  shows "\<not> draining w" "select_pack st rt c body w = Inr (tk_class tk)"
    "validate_pack_body (policies w) body (field_max_length rt) (route_pack_id rt) (validator st) = Inr ()"
    "validate_query_for_pack (policies w) (pack_primary_text (render st) body) (route_pack_id rt) (validator st) = Inr (tk_query tk)"
    "tk_session tk = session_of body" "tk_run tk = run_id c" "tk_body tk = body"
  using assms
  by (auto simp: admit_def rbind_Inr_iff unprocessable_def split: if_splits sum.splits exn.splits)

lemma admit_Inl_Status: "admit st rt c body w = Inl (Status n) \<Longrightarrow> n \<in> {503, 404, 422}"
  by (auto simp: admit_def unprocessable_def select_pack_def rbind_def split: if_splits sum.splits exn.splits)

text \<open>The in-memory registry refuses without a change and a release undoes an acquisition.\<close>

lemma mem_refuse: "\<not> fst (mem_try_acquire s u sid) \<Longrightarrow> snd (mem_try_acquire s u sid) = s"
  by (auto simp: mem_try_acquire_def split: if_splits)

lemma mem_undo: "fst (mem_try_acquire s u sid) \<Longrightarrow> mem_release (snd (mem_try_acquire s u sid)) u' sid = s"
  by (auto simp: mem_try_acquire_def mem_release_def split: if_splits)

lemma mem_turned_away: "turned_away mem_try_acquire c w w' \<Longrightarrow> w' = w"
  by (auto simp: turned_away_def mem_refuse)

lemma run_pack_cases:
  obtains (refused) err where "run_pack mem_try_acquire mem_release st rt c body w = (Inl err, w)"
      "fst (begin_run mem_try_acquire st rt c body w) = Inl err"
    | (ran) tk w1 where "begin_run mem_try_acquire st rt c body w = (Inr tk, w1)"
      "run_pack mem_try_acquire mem_release st rt c body w = finish_run mem_release st rt c tk w1"
proof (cases "begin_run mem_try_acquire st rt c body w")
  case (Pair res w1)
  show ?thesis
  proof (cases res)
    case (Inl err)
    with Pair begin_Inl(1) [of mem_try_acquire st rt c body w err w1] have "w1 = w"
      by (auto dest: mem_turned_away)
    with Pair Inl show ?thesis by (intro refused [of err]) (simp_all add: run_pack_def)
  next
    case (Inr tk)
    with Pair show ?thesis by (intro ran [of tk w1]) (simp_all add: run_pack_def)
  qed
qed

text \<open>C5. With the in-process registry, a run leaves the set of sessions in flight exactly as it
  found it, whatever the pack, the stores and the caller do: success, refusal, any exception,
  cancellation. A stream does so exactly when the server starts to send its body.\<close>

theorem session_lock_released:
  "sessions (snd (run_pack mem_try_acquire mem_release st rt c body w)) = sessions w
   \<and> (case begin_stream mem_try_acquire st rt c body w of
        (Inl err, w') \<Rightarrow> w' = w
      | (Inr tk, w') \<Rightarrow>
          sessions (snd (finish_stream mem_release st rt c tk mode w')) =
            (if mode = Never then sessions w' else sessions w)
          \<and> (case tk_session tk of None \<Rightarrow> sessions w' = sessions w | Some sid \<Rightarrow> sid \<in> set (sessions w')))"
proof
  show "sessions (snd (run_pack mem_try_acquire mem_release st rt c body w)) = sessions w"
    by (cases rule: run_pack_cases [of st rt c body w])
      (auto simp: sessions_finish begin_run_Inr locked_def mem_undo split: option.splits)
next
  show "case begin_stream mem_try_acquire st rt c body w of
        (Inl err, w') \<Rightarrow> w' = w
      | (Inr tk, w') \<Rightarrow>
          sessions (snd (finish_stream mem_release st rt c tk mode w')) =
            (if mode = Never then sessions w' else sessions w)
          \<and> (case tk_session tk of None \<Rightarrow> sessions w' = sessions w | Some sid \<Rightarrow> sid \<in> set (sessions w'))"
    by (auto simp: sessions_finish_stream begin_stream_Inr locked_def mem_undo
        split: option.splits prod.splits sum.splits dest!: begin_Inl(2) dest: mem_turned_away)
      (auto simp: mem_try_acquire_def split: if_splits)
qed

lemma respond_Inr [simp]: "respond rt x = Inr y \<longleftrightarrow> x = Inr y \<and> response_fits rt y"
  by (auto simp: respond_def rbind_Inr_iff)

lemma respond_Inl:
  "respond rt x = Inl err \<longleftrightarrow> x = Inl err \<or> err = BadResponse \<and> (\<exists>y. x = Inr y \<and> \<not> response_fits rt y)"
  by (cases x) (auto simp: respond_def)

text \<open>Whether a write under a fault reaches the store, and what the writers of a finished run
  leave.\<close>

definition lands :: "fault \<Rightarrow> bool" where
  "lands f \<longleftrightarrow> f \<in> {NoFault, Late True, Cancelled True}"

definition escapes :: "fault \<Rightarrow> llm_exc option" where
  "escapes f =
     (case f of Cancelled b \<Rightarrow> Some CANCELLED
      | Broken e \<Rightarrow> if isinstance e [''Exception''] then None else Some e
      | _ \<Rightarrow> None)"

lemma best_effort_eq:
  "best_effort f wr m = (escapes f, if lands f then (case wr m of Inr x \<Rightarrow> x | Inl e \<Rightarrow> m) else m)"
  by (cases f) (simp_all add: best_effort_def escapes_def lands_def Let_def)

definition save_escapes :: "'e call \<Rightarrow> 's service \<Rightarrow> llm_exc option" where
  "save_escapes c w = (if memory w = None then None else escapes (save_fault c))"

definition saved_memory :: "pack_route \<Rightarrow> 'e call \<Rightarrow> ticket \<Rightarrow> pyval \<Rightarrow> sql_runs \<Rightarrow> sql_runs" where
  "saved_memory rt c tk payload m =
     (if lands (save_fault c)
      then (case sqlite_save m (tk_run tk) (tk_query tk) payload (Some (run_metadata rt tk)) (now_at c) of
              Inr m' \<Rightarrow> m' | Inl e \<Rightarrow> m)
      else m)"

lemma save_run_eq:
  "save_run_best_effort rt c tk payload w =
     (save_escapes c w, w\<lparr>memory := map_option (saved_memory rt c tk payload) (memory w)\<rparr>)"
  by (simp add: save_run_best_effort_def best_effort_eq saved_memory_def save_escapes_def split: option.split)

lemma create_review_shape:
  assumes "create_review_best_effort st rt c tk payload w = (e, w')"
  shows "w' = w\<lparr>review_store := review_store w'\<rparr>" "e = None \<or> e = escapes (review_fault c)"
  using assms by (auto simp: create_review_best_effort_def best_effort_eq split: option.splits prod.splits if_splits)

lemma unlock_commutes:
  "unlock_session release c tk (w\<lparr>memory := x\<rparr>) = (unlock_session release c tk w)\<lparr>memory := x\<rparr>"
  "unlock_session release c tk (w\<lparr>review_store := y\<rparr>) = (unlock_session release c tk w)\<lparr>review_store := y\<rparr>"
  by (simp_all add: unlock_session_def split: option.split)

lemma unlock_review [simp]: "review_store (unlock_session release c tk w) = review_store w"
  by (simp add: unlock_session_def split: option.split)

lemma finish_run_traces:
  assumes l: "locked mem_try_acquire c tk w w1"
  shows "case finish_run mem_release st rt c tk w1 of
     (Inl err, w') \<Rightarrow> w' = w
       \<or> (\<exists>serialized payload. execute_pack st rt w tk = Inr (serialized, payload)
            \<and> w' = w\<lparr>memory := map_option (saved_memory rt c tk payload) (memory w), review_store := review_store w'\<rparr>
            \<and> (err = BadResponse \<and> \<not> response_fits rt serialized
               \<or> map_option Raised (save_escapes c w) = Some err \<and> review_store w' = review_store w
               \<or> save_escapes c w = None \<and> map_option Raised (escapes (review_fault c)) = Some err))
   | (Inr out, w') \<Rightarrow>
       \<exists>payload. execute_pack st rt w tk = Inr (out, payload)
         \<and> w' = w\<lparr>memory := map_option (saved_memory rt c tk payload) (memory w), review_store := review_store w'\<rparr>
         \<and> response_fits rt out \<and> save_escapes c w = None"
proof -
  have undone: "unlock_session mem_release c tk w1 = w"
    using l by (auto simp: locked_def unlock_session_def mem_undo split: option.splits)
  have ex: "execute_pack st rt w1 tk = execute_pack st rt w tk" "memory w1 = memory w" "review_store w1 = review_store w"
    using l by (auto simp: locked_def execute_pack_def split: option.splits)
  show ?thesis
  proof (cases "execute_pack st rt w tk")
    case (Inl e)
    then show ?thesis using ex undone by (simp add: finish_run_def guarded_run_def respond_def rbind_def)
  next
    case (Inr res)
    obtain s p where res: "res = (s, p)" by (cases res)
    define w2 where "w2 = w1\<lparr>memory := map_option (saved_memory rt c tk p) (memory w)\<rparr>"
    have u2: "unlock_session mem_release c tk w2 = w\<lparr>memory := map_option (saved_memory rt c tk p) (memory w)\<rparr>"
      by (simp add: w2_def unlock_commutes undone)
    have save: "save_run_best_effort rt c tk p w1 = (save_escapes c w, w2)"
      by (simp add: save_run_eq ex w2_def save_escapes_def)
    obtain e w3 where rev: "create_review_best_effort st rt c tk p w2 = (e, w3)"
      by (cases "create_review_best_effort st rt c tk p w2")
    note shape = create_review_shape [OF rev]
    have u3: "unlock_session mem_release c tk w3
        = w\<lparr>memory := map_option (saved_memory rt c tk p) (memory w), review_store := review_store w3\<rparr>"
      by (subst shape(1)) (simp add: unlock_commutes u2)
    have exec: "execute_pack st rt w1 tk = Inr (s, p)" "execute_pack st rt w tk = Inr (s, p)"
      using Inr res ex by simp_all
    show ?thesis
    proof (cases "save_escapes c w")
      case None
      then have g: "guarded_run st rt c tk w1 = (case e of Some x \<Rightarrow> Inl (Raised x) | None \<Rightarrow> Inr s, w3)"
        using exec save rev by (auto simp: guarded_run_def split: option.split)
      show ?thesis
        using shape(2) None exec by (cases "escapes (review_fault c)") (auto simp: finish_run_def g respond_def rbind_def u3 split: option.split)
    next
      case (Some x)
      then have "guarded_run st rt c tk w1 = (Inl (Raised x), w2)"
        using exec save by (auto simp: guarded_run_def)
      then show ?thesis using Some exec by (simp add: finish_run_def respond_def rbind_def u2)
    qed
  qed
qed

text \<open>C12. A run that is refused or fails leaves no trace: no history entry, no pending review,
  no session in flight. A failed run that leaves one was completed by the pack, and then the
  failure is that the result does not fit the route's response model, or that the request was
  cancelled, or something that is no \<open>Exception\<close> was raised, during the bookkeeping. An
  answered run is saved unless there is no history store or the write failed or timed out.\<close>

theorem run_leaves_its_traces:
  "case run_pack mem_try_acquire mem_release st rt c body w of
     (Inl err, w') \<Rightarrow> w' = w
       \<or> (\<exists>tk serialized payload. admit st rt c body w = Inr tk \<and> execute_pack st rt w tk = Inr (serialized, payload)
            \<and> w' = w\<lparr>memory := map_option (saved_memory rt c tk payload) (memory w), review_store := review_store w'\<rparr>
            \<and> (err = BadResponse \<and> \<not> response_fits rt serialized
               \<or> map_option Raised (save_escapes c w) = Some err \<and> review_store w' = review_store w
               \<or> save_escapes c w = None \<and> map_option Raised (escapes (review_fault c)) = Some err))
   | (Inr out, w') \<Rightarrow>
       \<exists>tk payload. admit st rt c body w = Inr tk \<and> execute_pack st rt w tk = Inr (out, payload)
         \<and> w' = w\<lparr>memory := map_option (saved_memory rt c tk payload) (memory w), review_store := review_store w'\<rparr>
         \<and> response_fits rt out \<and> save_escapes c w = None"
proof (cases rule: run_pack_cases [of st rt c body w])
  case (refused err)
  then show ?thesis by simp
next
  case (ran tk w1)
  then have a: "admit st rt c body w = Inr tk" and l: "locked mem_try_acquire c tk w w1"
    by (auto simp: begin_run_Inr)
  from finish_run_traces [OF l, of st rt] show ?thesis
    unfolding ran(2) using a by (auto split: prod.splits sum.splits)
qed

text \<open>C2. A run is answered with a result only if the server was not draining, the registry
  had the pack, every string of the body passed the content scan, the query passed the pack's
  policy and the validator, a regulated pack was enabled, and no run of the session was in
  flight.\<close>

theorem answered_run_passed_guards:
  assumes "fst (run_pack mem_try_acquire mem_release st rt c body w) = Inr out"
  shows "\<not> draining w
    \<and> route_pack_id rt \<in> fst ` set (packs w)
    \<and> validate_pack_body (policies w) body (field_max_length rt) (route_pack_id rt) (validator st) = Inr ()
    \<and> (\<exists>q. validate_query_for_pack (policies w) (pack_primary_text (render st) body) (route_pack_id rt) (validator st) = Inr q)
    \<and> (regulated_packs_enabled st \<or> route_pack_id rt \<notin> set REGULATED_PACK_IDS)
    \<and> (case session_of body of None \<Rightarrow> True | Some sid \<Rightarrow> sid \<notin> set (sessions w))"
proof (cases rule: run_pack_cases [of st rt c body w])
  case (refused err)
  then show ?thesis using assms by simp
next
  case (ran tk w1)
  then have a: "admit st rt c body w = Inr tk" and l: "locked mem_try_acquire c tk w w1"
    and r: "route_pack_id rt \<in> set REGULATED_PACK_IDS \<longrightarrow> regulated_packs_enabled st"
    by (auto simp: begin_run_Inr)
  note adm = admit_Inr [OF a]
  have "map_of (packs w) (route_pack_id rt) \<noteq> None"
    using adm(2) by (auto simp: select_pack_def get_pack_def get_versions_def rbind_def
        split: sum.splits option.splits exn.splits)
  then have "route_pack_id rt \<in> fst ` set (packs w)" by (auto simp: map_of_eq_None_iff)
  moreover have "case session_of body of None \<Rightarrow> True | Some sid \<Rightarrow> sid \<notin> set (sessions w)"
    using l adm(5) by (auto simp: locked_def mem_try_acquire_def split: option.splits if_splits)
  ultimately show ?thesis using adm r by auto
qed

lemma mem_create_pending:
  assumes "mem_create q run pack sess summary now = Inr (r, q')"
  shows "mem_get q' run = Some (new_review run pack sess summary now)"
  using assms by (auto simp: mem_create_def mem_get_def Let_def split: if_splits)


section \<open>Interleaved runs and streams\<close>

text \<open>The reachable states of one process: runs and streams of any packs begin, are refused,
  finish or are abandoned before their body is sent, in any order; anything else may happen to
  the service as long as it leaves the session registry alone. A running ticket carries
  whether it is a stream; the last argument holds the abandoned ones.\<close>

inductive api_reach :: "session_set service \<Rightarrow> (bool \<times> ticket) list \<Rightarrow> ticket list \<Rightarrow> bool" where
  start: "sessions w = [] \<Longrightarrow> api_reach w [] []"
| begins: "api_reach w ts ls \<Longrightarrow>
    (if streaming then begin_stream mem_try_acquire st rt c body w else begin_run mem_try_acquire st rt c body w)
      = (Inr tk, w') \<Longrightarrow> api_reach w' ((streaming, tk) # ts) ls"
| refused: "api_reach w ts ls \<Longrightarrow>
    (if streaming then begin_stream mem_try_acquire st rt c body w else begin_run mem_try_acquire st rt c body w)
      = (Inl err, w') \<Longrightarrow> api_reach w' ts ls"
| finishes: "api_reach w ts ls \<Longrightarrow> (False, tk) \<in> set ts \<Longrightarrow>
    api_reach (snd (finish_run mem_release st rt c tk w)) (remove1 (False, tk) ts) ls"
| streamed: "api_reach w ts ls \<Longrightarrow> (True, tk) \<in> set ts \<Longrightarrow> mode \<noteq> Never \<Longrightarrow>
    api_reach (snd (finish_stream mem_release st rt c tk mode w)) (remove1 (True, tk) ts) ls"
| abandoned: "api_reach w ts ls \<Longrightarrow> (True, tk) \<in> set ts \<Longrightarrow>
    api_reach (snd (finish_stream mem_release st rt c tk Never w)) (remove1 (True, tk) ts) (tk # ls)"
| other: "api_reach w ts ls \<Longrightarrow> sessions w' = sessions w \<Longrightarrow> api_reach w' ts ls"

definition open_sessions :: "ticket list \<Rightarrow> string list" where
  "open_sessions tks = concat (map (\<lambda>tk. case tk_session tk of None \<Rightarrow> [] | Some sid \<Rightarrow> [sid]) tks)"

lemma open_sessions_simps [simp]:
  "open_sessions [] = []"
  "open_sessions (tk # tks) = (case tk_session tk of None \<Rightarrow> [] | Some sid \<Rightarrow> [sid]) @ open_sessions tks"
  "open_sessions (as @ bs) = open_sessions as @ open_sessions bs"
  by (simp_all add: open_sessions_def)

definition locks_exact :: "session_set service \<Rightarrow> ticket list \<Rightarrow> bool" where
  "locks_exact w tks \<longleftrightarrow> distinct (open_sessions tks) \<and> set (sessions w) = set (open_sessions tks)"

lemma locks_exact_begin:
  assumes "locks_exact w tks" and "locked mem_try_acquire c tk w w'"
  shows "locks_exact w' (tk # tks)"
  using assms
  by (auto simp: locks_exact_def locked_def mem_try_acquire_def split: option.splits if_splits)

lemma open_sessions_remove1:
  "(b, tk) \<in> set ts \<Longrightarrow> mset (open_sessions (map snd ts)) =
     mset (case tk_session tk of None \<Rightarrow> [] | Some sid \<Rightarrow> [sid]) + mset (open_sessions (map snd (remove1 (b, tk) ts)))"
  by (induction ts) auto

lemma locks_exact_end:
  assumes "locks_exact w (map snd ts @ ls)" and "(b, tk) \<in> set ts"
    and "sessions w' = (case tk_session tk of None \<Rightarrow> sessions w | Some sid \<Rightarrow> mem_release (sessions w) u sid)"
  shows "locks_exact w' (map snd (remove1 (b, tk) ts) @ ls)"
proof -
  let ?o = "case tk_session tk of None \<Rightarrow> [] | Some sid \<Rightarrow> [sid]"
  have m: "mset (open_sessions (map snd ts @ ls)) = mset (?o @ open_sessions (map snd (remove1 (b, tk) ts) @ ls))"
    using open_sessions_remove1 [OF assms(2)] by simp
  have "distinct (?o @ open_sessions (map snd (remove1 (b, tk) ts) @ ls))"
    using assms(1) mset_eq_imp_distinct_iff [OF m] by (simp add: locks_exact_def)
  moreover have "set (sessions w) = set (?o @ open_sessions (map snd (remove1 (b, tk) ts) @ ls))"
    using assms(1) mset_eq_setD [OF m] by (simp add: locks_exact_def)
  ultimately show ?thesis using assms(3)
    by (auto simp: locks_exact_def mem_release_def split: option.splits)
qed

lemma locks_exact_abandon:
  assumes "locks_exact w (map snd ts @ ls)" and "(b, tk) \<in> set ts" and "sessions w' = sessions w"
  shows "locks_exact w' (map snd (remove1 (b, tk) ts) @ tk # ls)"
proof -
  have m: "mset (open_sessions (map snd ts @ ls)) = mset (open_sessions (map snd (remove1 (b, tk) ts) @ tk # ls))"
    using open_sessions_remove1 [OF assms(2)] by simp
  show ?thesis using assms(1,3) mset_eq_imp_distinct_iff [OF m] mset_eq_setD [OF m]
    by (simp add: locks_exact_def)
qed

lemma api_reach_locks: "api_reach w ts ls \<Longrightarrow> locks_exact w (map snd ts @ ls)"
proof (induction rule: api_reach.induct)
  case (begins w ts ls streaming st rt c body tk w')
  then have "locked mem_try_acquire c tk w w'"
    by (auto simp: begin_run_Inr begin_stream_Inr split: if_splits)
  with begins.IH show ?case by (auto dest: locks_exact_begin)
next
  case (refused w ts ls streaming st rt c body err w')
  then have "w' = w" by (auto dest: begin_Inl mem_turned_away split: if_splits)
  with refused.IH show ?case by simp
next
  case (finishes w ts ls tk st rt c)
  show ?case by (rule locks_exact_end [OF finishes.IH finishes.hyps(2)]) (simp add: sessions_finish)
next
  case (streamed w ts ls tk mode st rt c)
  show ?case by (rule locks_exact_end [OF streamed.IH streamed.hyps(2), where u = "()"])
      (simp add: sessions_finish_stream streamed.hyps(3) split: option.split)
next
  case (abandoned w ts ls tk st rt c)
  show ?case by (rule locks_exact_abandon [OF abandoned.IH abandoned.hyps(2)]) (simp add: sessions_finish_stream split: option.split)
qed (auto simp: locks_exact_def)

text \<open>C1. In every reachable state of a process, no two runs or streams of one session are in
  progress, and a session is marked in flight exactly if one of them, or a stream that was
  abandoned before its body was sent, has it.\<close>

theorem one_run_per_session:
  assumes "api_reach w ts ls"
  shows "distinct (open_sessions (map snd ts))
    \<and> set (sessions w) = set (open_sessions (map snd ts)) \<union> set (open_sessions ls)"
  using api_reach_locks [OF assms] by (auto simp: locks_exact_def)

text \<open>A stream that is abandoned before its body is sent keeps its session for ever: in
  every state reached later, each request of that session is refused.\<close>

theorem abandoned_stream_blocks_session:
  assumes "api_reach w ts ls" and "tk \<in> set ls" and "tk_session tk = Some sid" and "session_of body = Some sid"
  shows "\<exists>err. begin_run mem_try_acquire st rt c body w = (Inl err, w)
    \<and> begin_stream mem_try_acquire st rt c body w = (Inl (case admit st rt c body w of Inl e \<Rightarrow> e | Inr _ \<Rightarrow> Status 409), w)"
proof -
  have "sid \<in> set (sessions w)"
    using api_reach_locks [OF assms(1)] assms(2,3) by (force simp: locks_exact_def open_sessions_def)
  then have no: "\<not> locked mem_try_acquire c tk' w w'" if "tk_session tk' = Some sid" for tk' w'
    using that by (auto simp: locked_def mem_try_acquire_def)
  have same_world: "w' = w" if "begin_run mem_try_acquire st rt c body w = (Inl err, w')
      \<or> begin_stream mem_try_acquire st rt c body w = (Inl err, w')" for err w'
    using that by (auto dest: begin_Inl mem_turned_away)
  obtain x w1 where x: "begin_run mem_try_acquire st rt c body w = (x, w1)" by (cases "begin_run mem_try_acquire st rt c body w")
  obtain y w2 where y: "begin_stream mem_try_acquire st rt c body w = (y, w2)" by (cases "begin_stream mem_try_acquire st rt c body w")
  have locked_out: "\<not> locked mem_try_acquire c tk' w w'" if "admit st rt c body w = Inr tk'" for tk' w'
    by (rule no) (use admit_Inr(5) [OF that] assms(4) in simp)
  have "\<exists>err. x = Inl err"
    using x by (cases x) (auto simp: begin_run_Inr dest: locked_out)
  moreover have "y = Inl (case admit st rt c body w of Inl e \<Rightarrow> e | Inr _ \<Rightarrow> Status 409)"
  proof (cases "admit st rt c body w")
    case (Inl e)
    from y have "y = Inl e" unfolding begin_stream_def Inl by simp
    then show ?thesis unfolding Inl by simp
  next
    case (Inr tk')
    then have "lock_session mem_try_acquire c tk' w = (y, w2)" using y by (simp add: begin_stream_def)
    then show ?thesis using Inr locked_out [OF Inr]
      by (cases y) (auto simp: lock_session_Inr dest: lock_session_Inl)
  qed
  ultimately show ?thesis using x y same_world by auto
qed

section \<open>Sessions over Redis\<close>

context session_registry
begin

lemma run_pack_frees:
  assumes l: "live (acquire_env c) (acquire_env c)" "live (acquire_env c) (release_env c)"
    and ran: "begin_run acquire st rt c body w = (Inr tk, w1)" and sid: "tk_session tk = Some sid"
  shows "\<not> held (sessions (snd (run_pack acquire release st rt c body w))) (release_env c) sid
    \<and> (sid' \<noteq> sid \<longrightarrow> held (sessions (snd (run_pack acquire release st rt c body w))) e sid' = held (sessions w) e sid')"
proof -
  from ran sid have a: "fst (acquire (sessions w) (acquire_env c) sid)"
      "sessions w1 = snd (acquire (sessions w) (acquire_env c) sid)"
    by (auto simp: begin_run_Inr locked_def)
  then have "\<not> held (sessions w) (acquire_env c) sid" using refused [OF l(1)] by force
  then have "\<not> held (release (sessions w1) (release_env c) sid) (release_env c) sid"
    using freed [OF l] a by simp
  moreover have "sid' \<noteq> sid \<longrightarrow> held (release (sessions w1) (release_env c) sid) e sid' = held (sessions w) e sid'"
    using frame [of sid' sid "sessions w" "acquire_env c" e] frame [of sid' sid "sessions w1" "release_env c" e] a by simp
  moreover have "sessions (snd (run_pack acquire release st rt c body w)) = release (sessions w1) (release_env c) sid"
    using ran sid by (simp add: run_pack_def sessions_finish)
  ultimately show ?thesis by simp
qed

end

text \<open>With the Redis registry, while Redis answers and the run takes less than the lock's
  time to live, the session of a finished run is free again on its replica and no other
  session's lock is affected.\<close>

theorem redis_session_freed:
  fixes e :: sess_env
  assumes "redis_up (acquire_env c)" "redis_up (release_env c)" "replica (acquire_env c) = replica (release_env c)"
    and "clock (acquire_env c) \<le> clock (release_env c)" "clock (release_env c) < clock (acquire_env c) + ttl"
    and "begin_run (redis_try_acquire ttl) st rt c body w = (Inr tk, w1)" and "session_of body = Some sid"
  shows "lock_of (sessions (snd (run_pack (redis_try_acquire ttl) redis_release st rt c body w))) (clock (release_env c)) sid = None
    \<and> (sid' = sid \<or> (lock_of (sessions (snd (run_pack (redis_try_acquire ttl) redis_release st rt c body w))) (clock e) sid' \<noteq> None
        \<longleftrightarrow> lock_of (sessions w) (clock e) sid' \<noteq> None))"
proof -
  have "admit st rt c body w = Inr tk" using assms(6) by (simp add: begin_run_Inr)
  then have "tk_session tk = Some sid" using assms(7) admit_Inr(5) by fastforce
  from redis_sess.run_pack_frees [OF _ _ assms(6) this, of sid' e] assms(1-5) show ?thesis by auto
qed

section \<open>What the caller learns of a failure\<close>

lemma failure_answer_wrapped:
  assumes "isinstance e [''AgentExecutionError'', ''AgentValidationError'']"
    and "\<not> isinstance e [''AgentBudgetExceededError'', ''AgentTimeoutError'', ''AgentAuthenticationError'']"
  shows "failure_answer installed e = (if find_auth_cause installed MAX_DEPTH (Some e) \<noteq> None then Status 502 else Status 500)"
  using assms by (auto simp: failure_answer_def isinstance_def)

text \<open>A credential failure of the LLM provider inside a pack is answered with 502 however the
  pack wraps it: any chain of fewer than ten \<open>raise ... from\<close> whose outermost exception is an
  execution error.\<close>

theorem rejected_credentials_are_502:
  assumes "is_auth_llm_error installed e" and "length classes < 9"
    and "\<And>c. c \<in> set classes \<Longrightarrow> \<not> isinstance (wrap c e) (auth_llm_exception_types installed)"
  shows "failure_answer installed (wrap EXECUTION_ERROR (wrap_all classes e)) = Status 502"
proof -
  have "find_auth_cause installed MAX_DEPTH (Some (wrap_all (classes @ [EXECUTION_ERROR]) e)) = Some e"
    using assms wrap_not_auth [of EXECUTION_ERROR installed e]
    by (subst find_auth_wrap_all [OF assms(1)]) (auto simp: MAX_DEPTH_def is_auth_wrap)
  then show ?thesis
    by (subst failure_answer_wrapped)
      (simp_all add: isinstance_def wrap_def EXECUTION_ERROR_def wrap_all_def)
qed

text \<open>The run endpoint refuses a regulated pack while regulated packs are disabled; the
  stream endpoint, for the same request, starts the run.\<close>

theorem stream_skips_regulated_gate:
  assumes "route_pack_id rt \<in> set REGULATED_PACK_IDS" and "\<not> regulated_packs_enabled st"
    and "admit st rt c body w = Inr tk" and "session_of body = None"
  shows "begin_run acquire st rt c body w = (Inl (Status 403), w)
    \<and> begin_stream acquire st rt c body w = (Inr tk, w)"
  using assms admit_Inr(5) [OF assms(3)]
  by (simp add: begin_run_def begin_stream_def assert_regulated_pack_runtime_enabled_def lock_session_def)

section \<open>A small service\<close>

definition demo_impl :: pack_impl where
  "demo_impl = \<lparr>own_attributes = [''run_from_input''], construct = (\<lambda>_. None),
     run_from_input = (\<lambda>body. Inr \<lparr>to_dict = None, model_dump = Some (VDict body), the_object = VNone\<rparr>),
     run_text = (\<lambda>q. Inl (Exc [''Exception''] None None None None)), run_cost = None, close_pack = None,
     events_from_input = (\<lambda>_. \<lparr>yielded = [], failure = None\<rparr>), raw_events = (\<lambda>_. \<lparr>yielded = [], failure = None\<rparr>)\<rparr>"

definition demo_route :: pack_route where
  "demo_route = \<lparr>route_pack_id = ''contract_reviewer'', impl_of = (\<lambda>_. demo_impl),
     from_analysis_report = None, from_research_result = None, from_summary_result = None,
     field_max_length = (\<lambda>_. None), response_fits = (\<lambda>_. True)\<rparr>"

definition demo_settings :: "bool \<Rightarrow> api_settings" where
  "demo_settings regulated = \<lparr>regulated_packs_enabled = regulated,
     settings_limits = \<lparr>pack_default_budget_usd = None, stream_timeout_seconds = 120\<rparr>,
     validator = \<lparr>max_length = 2000\<rparr>, installed_sdk = (\<lambda>_. True), digest32 = length,
     render = (\<lambda>_. ''{}''), json_dumps = (\<lambda>_. Some ''{}''), exc_text = (\<lambda>_. ''error''),
     auth_text = (\<lambda>_ _. ''credentials'')\<rparr>"

definition demo_call :: "'e \<Rightarrow> 'e \<Rightarrow> 'e call" where
  "demo_call e1 e2 = \<lparr>version_header = None, caller_key = Inr ''ip:1'', random_draw = 0, run_id = ''run-1'',
     now_at = 1, now_text = ''2025'', save_fault = NoFault, review_fault = NoFault,
     acquire_env = e1, release_env = e2\<rparr>"

definition demo_body :: "string option \<Rightarrow> pydict" where
  "demo_body sess = [(''query'', VStr ''lease'')] @ (case sess of None \<Rightarrow> [] | Some s \<Rightarrow> [(''session_id'', VStr s)])"

definition demo_service_of :: "'s \<Rightarrow> 's service" where
  "demo_service_of s = \<lparr>draining = False,
     packs = [(''contract_reviewer'', [\<lparr>pv_version = ''1.0'', pv_cls = builtin_class ''C'' ''contract_reviewer'' ''n'' ''d'', pv_weight = 1\<rparr>])],
     policies = builtin_registry, sessions = s, memory = Some [], review_store = Some []\<rparr>"

lemma demo_answer:
  "fst (run_pack mem_try_acquire mem_release (demo_settings True) demo_route (demo_call () ()) (demo_body (Some ''s1'')) (demo_service_of []))
     = Inr (VDict (demo_body (Some ''s1'')))"
  by code_simp

lemma demo_refusal:
  "fst (run_pack mem_try_acquire mem_release (demo_settings False) demo_route (demo_call () ()) (demo_body (Some ''s1'')) (demo_service_of []))
     = Inl (Status 403)"
  by code_simp

abbreviation demo_run :: "bool \<Rightarrow> (api_error + pyval) \<times> session_set service" where
  "demo_run regulated \<equiv> run_pack mem_try_acquire mem_release (demo_settings regulated) demo_route
     (demo_call () ()) (demo_body (Some ''s1'')) (demo_service_of [])"

lemma demo_regulated: "route_pack_id demo_route \<in> set REGULATED_PACK_IDS"
  by code_simp

text \<open>A run whose result does not fit the response model is answered with a 500 and is in the
  history and in the review queue all the same.\<close>

definition picky_route :: pack_route where
  "picky_route = demo_route\<lparr>response_fits := (\<lambda>_. False)\<rparr>"

abbreviation picky_run :: "(api_error + pyval) \<times> session_set service" where
  "picky_run \<equiv> run_pack mem_try_acquire mem_release (demo_settings True) picky_route
     (demo_call () ()) (demo_body (Some ''s1'')) (demo_service_of [])"

lemma unsendable_run_is_kept:
  "fst picky_run = Inl BadResponse"
  "map (mem_get (the (review_store (snd picky_run)))) [''run-1''] \<noteq> [None]"
  "memory (snd picky_run) \<noteq> Some [] \<and> sessions (snd picky_run) = []"
  by code_simp+

theorem answered_run_passed_guards_witness:
  "fst (demo_run True) = Inr (VDict (demo_body (Some ''s1''))) \<and> \<not> draining (demo_service_of [] :: session_set service)"
  using answered_run_passed_guards [OF demo_answer] demo_answer by simp


abbreviation demo_begin_stream :: "(api_error + ticket) \<times> session_set service" where
  "demo_begin_stream \<equiv> begin_stream mem_try_acquire (demo_settings True) demo_route
     (demo_call () ()) (demo_body (Some ''s1'')) (demo_service_of [])"

definition demo_ticket :: ticket where
  "demo_ticket = \<lparr>tk_run = ''run-1'', tk_session = Some ''s1'',
     tk_class = builtin_class ''C'' ''contract_reviewer'' ''n'' ''d'', tk_version = ''1.0'',
     tk_query = ''lease'', tk_body = demo_body (Some ''s1'')\<rparr>"

lemma demo_begins: "demo_begin_stream = (Inr demo_ticket, demo_service_of [''s1''])"
proof -
  have "fst demo_begin_stream = Inr demo_ticket" by code_simp
  moreover from this have "begin_stream mem_try_acquire (demo_settings True) demo_route (demo_call () ())
      (demo_body (Some ''s1'')) (demo_service_of []) = (Inr demo_ticket, snd demo_begin_stream)"
    by (metis prod.collapse)
  then have "locked mem_try_acquire (demo_call () ()) demo_ticket (demo_service_of []) (snd demo_begin_stream)"
    by (simp add: begin_stream_Inr)
  then have "snd demo_begin_stream = demo_service_of [''s1'']"
    by (simp add: locked_def demo_ticket_def mem_try_acquire_def demo_service_of_def)
  ultimately show ?thesis by (metis prod.collapse)
qed

lemma demo_reach: "api_reach (demo_service_of [''s1'']) [(True, demo_ticket)] []"
proof -
  have "api_reach (demo_service_of []) [] []" by (rule api_reach.start) (simp add: demo_service_of_def)
  then show ?thesis
    by (rule api_reach.begins [where st = "demo_settings True" and rt = demo_route and c = "demo_call () ()"
          and body = "demo_body (Some ''s1'')"]) (simp add: demo_begins)
qed

theorem one_run_per_session_witness:
  "api_reach (demo_service_of [''s1'']) [(True, demo_ticket)] []
   \<and> set (sessions (demo_service_of [''s1''])) = set (open_sessions (map snd [(True, demo_ticket)])) \<union> set (open_sessions [])"
  using one_run_per_session [OF demo_reach] demo_reach by blast

theorem abandoned_stream_blocks_session_witness:
  "\<exists>w err. api_reach w [] [demo_ticket]
     \<and> begin_run mem_try_acquire (demo_settings True) demo_route (demo_call () ()) (demo_body (Some ''s1'')) w = (Inl err, w)"
proof -
  have r: "api_reach (snd (finish_stream mem_release (demo_settings True) demo_route (demo_call () ()) demo_ticket Never
      (demo_service_of [''s1'']))) [] [demo_ticket]" (is "api_reach ?w _ _")
    using api_reach.abandoned [OF demo_reach, of demo_ticket "demo_settings True" demo_route "demo_call () ()"] by simp
  have "session_of (demo_body (Some ''s1'')) = Some ''s1''" by code_simp
  with abandoned_stream_blocks_session [OF r, of demo_ticket "''s1''"] r show ?thesis
    by (auto simp: demo_ticket_def)
qed

definition demo_env :: "rat \<Rightarrow> sess_env" where
  "demo_env t = \<lparr>clock = t, replica = 0, fresh_token = ''t'', redis_up = True\<rparr>"

theorem redis_session_freed_witness:
  "lock_of (sessions (snd (run_pack (redis_try_acquire 60) redis_release (demo_settings True) demo_route
     (demo_call (demo_env 0) (demo_env 5)) (demo_body (Some ''s1''))
     (demo_service_of \<lparr>locks = (\<lambda>_. None), tokens = (\<lambda>_ _. None)\<rparr>)))) 5 ''s1'' = None"
proof -
  let ?c = "demo_call (demo_env 0) (demo_env 5)" and ?w = "demo_service_of \<lparr>locks = (\<lambda>_. None), tokens = (\<lambda>_ _. None)\<rparr>"
  have a: "admit (demo_settings True) demo_route ?c (demo_body (Some ''s1'')) ?w = Inr demo_ticket"
    by code_simp
  obtain w1 where b: "begin_run (redis_try_acquire 60) (demo_settings True) demo_route ?c (demo_body (Some ''s1'')) ?w = (Inr demo_ticket, w1)"
    using a by (simp add: begin_run_Inr locked_def demo_ticket_def demo_call_def demo_env_def redis_try_acquire_def
        demo_service_of_def lock_of_def demo_settings_def)
  have s: "session_of (demo_body (Some ''s1'')) = Some ''s1''" by code_simp
  have env: "redis_up (acquire_env ?c)" "redis_up (release_env ?c)" "replica (acquire_env ?c) = replica (release_env ?c)"
    "clock (acquire_env ?c) \<le> clock (release_env ?c)" "clock (release_env ?c) < clock (acquire_env ?c) + 60"
    and t: "clock (release_env ?c) = 5"
    by (simp_all add: demo_call_def demo_env_def)
  from redis_session_freed [OF env b s] show ?thesis unfolding t by blast
qed

theorem rejected_credentials_are_502_witness:
  "failure_answer (\<lambda>_. False) (wrap EXECUTION_ERROR (wrap_all [EXECUTION_ERROR] (Exc [''Exception''] (Some 401) None None None)))
     = Status 502"
  by (rule rejected_credentials_are_502)
    (simp_all add: is_auth_llm_error_def http_status_code_def AUTH_HTTP_STATUS_CODES_def auth_llm_exception_types_def isinstance_def)

theorem stream_skips_regulated_gate_witness:
  "begin_run mem_try_acquire (demo_settings False) demo_route (demo_call () ()) (demo_body None) (demo_service_of [])
     = (Inl (Status 403), demo_service_of [])
   \<and> begin_stream mem_try_acquire (demo_settings False) demo_route (demo_call () ()) (demo_body None) (demo_service_of [])
     = (Inr (demo_ticket\<lparr>tk_session := None, tk_body := demo_body None\<rparr>), demo_service_of [])"
proof -
  have "admit (demo_settings False) demo_route (demo_call () ()) (demo_body None) (demo_service_of [])
      = Inr (demo_ticket\<lparr>tk_session := None, tk_body := demo_body None\<rparr>)" by code_simp
  moreover have "session_of (demo_body None) = None" by code_simp
  ultimately show ?thesis using demo_regulated
    by (intro stream_skips_regulated_gate) (simp_all add: demo_settings_def)
qed

end
