(* ===== verification/Connectors.thy ===== *)
theory Connectors
  imports NetGuard
begin

text \<open>
  Retrieval connectors (\<open>connectors/\<close>): the citation record of \<open>base.py\<close>, the HTTP, Google
  Drive, SharePoint, vector-store and example connectors, the OAuth token source and the choice
  of a connector from the settings. What \<open>httpx\<close> answers to a request (its redirects, each hop
  checked by the hook, included), \<open>json\<close>, \<open>urllib\<close> and the vector store are arguments. Bytes
  are characters.
\<close>

section \<open>Citations\<close>

record source_ref =
  ref_id :: string
  ref_title :: "string option"
  ref_url :: "string option"
  ref_snippet :: string
  ref_metadata :: pydict

definition SNIPPET_MAX_CHARS :: nat where "SNIPPET_MAX_CHARS = 500"

definition ID_KEYS :: "string list" where "ID_KEYS = [''id'', ''doc_id'']"
definition TITLE_KEYS :: "string list" where "TITLE_KEYS = [''title'', ''name'']"
definition URL_KEYS :: "string list" where "URL_KEYS = [''url'', ''link'', ''source'']"
definition SNIPPET_KEYS :: "string list" where "SNIPPET_KEYS = [''snippet'', ''text'', ''content'']"

definition citation :: "source_ref \<Rightarrow> string" where
  "citation r =
     (let label = join ('' '' @ em_dash @ '' '')
        (filter (\<lambda>part. part \<noteq> []) (map (case_option [] id) [ref_title r, ref_url r]))
      in if label \<noteq> [] then ''['' @ ref_id r @ ''] '' @ label else ''['' @ ref_id r @ '']'')"

fun first_str :: "(pyval \<Rightarrow> string) \<Rightarrow> pydict \<Rightarrow> string list \<Rightarrow> (string \<times> string) option" where
  "first_str rend rec [] = None"
| "first_str rend rec (k # ks) =
     (case dget rec k of
        VNone \<Rightarrow> first_str rend rec ks
      | v \<Rightarrow> if strip (py_str rend v) \<noteq> [] then Some (k, strip (py_str rend v)) else first_str rend rec ks)"

definition record_to_source_ref :: "(pyval \<Rightarrow> string) \<Rightarrow> pydict \<Rightarrow> nat \<Rightarrow> source_ref" where
  "record_to_source_ref rend rec index =
     (let found_id = first_str rend rec ID_KEYS;
          found_title = first_str rend rec TITLE_KEYS;
          found_url = first_str rend rec URL_KEYS;
          found_snippet = first_str rend rec SNIPPET_KEYS;
          consumed = concat (map (case_option [] (\<lambda>f. [fst f])) [found_id, found_title, found_url, found_snippet])
      in \<lparr>ref_id = (case found_id of Some f \<Rightarrow> snd f | None \<Rightarrow> ''doc-'' @ show_nat index),
          ref_title = map_option snd found_title,
          ref_url = map_option snd found_url,
          ref_snippet = take SNIPPET_MAX_CHARS (case_option [] snd found_snippet),
          ref_metadata = filter (\<lambda>(k, v). k \<notin> set consumed) rec\<rparr>)"

record connector_request =
  req_query :: string
  req_limit :: int
  req_filters :: pydict

record connector_result =
  res_records :: "pydict list"
  res_metadata :: pydict

definition connector_request_default :: "string \<Rightarrow> connector_request" where
  "connector_request_default q = \<lparr>req_query = q, req_limit = 10, req_filters = []\<rparr>"

definition slice_to :: "int \<Rightarrow> 'a list \<Rightarrow> 'a list" where
  \<comment> \<open>\<open>xs[:n]\<close>\<close>
  "slice_to n xs = (if 0 \<le> n then take (nat n) xs else take (length xs - nat (- n)) xs)"

section \<open>Access to JSON values\<close>

definition py_get :: "pyval \<Rightarrow> string \<Rightarrow> pyval \<Rightarrow> pyval result" where
  \<comment> \<open>\<open>v.get(k, default)\<close>; only a \<open>dict\<close> has the method\<close>
  "py_get v k dflt = (case v of VDict d \<Rightarrow> Inr (dget_or d k dflt) | _ \<Rightarrow> Inl OtherError)"

definition py_iter :: "pyval \<Rightarrow> pyval list result" where
  "py_iter v =
     (case v of
        VList xs \<Rightarrow> Inr xs
      | VDict d \<Rightarrow> Inr (map (VStr \<circ> fst) d)
      | VStr s \<Rightarrow> Inr (map (\<lambda>c. VStr [c]) s)
      | _ \<Rightarrow> Inl TypeError)"

fun concat_results :: "('a \<Rightarrow> 'b list result) \<Rightarrow> 'a list \<Rightarrow> 'b list result" where
  \<comment> \<open>nested loops that append to one list\<close>
  "concat_results f [] = Inr []"
| "concat_results f (x # xs) = rbind (f x) (\<lambda>ys. rbind (concat_results f xs) (\<lambda>zs. Inr (ys @ zs)))"

definition set_default :: "string \<Rightarrow> pyval \<Rightarrow> pydict \<Rightarrow> pydict" where
  "set_default k v d = (if k \<in> fst ` set d then d else d @ [(k, v)])"

section \<open>HTTP\<close>

record response =
  resp_status :: int
  resp_content_length :: "string option"
  resp_content_type :: string
  resp_chunks :: "string list"

type_synonym http_client = "string \<Rightarrow> response result"

record net =
  outbound_ok :: "string \<Rightarrow> string result"          \<comment> \<open>\<open>validate_outbound_url\<close>\<close>
  url_query :: "string \<Rightarrow> string"
  with_query :: "string \<Rightarrow> string \<Rightarrow> string"
  urlencode :: "(string \<times> string) list \<Rightarrow> string"
  decode :: "string \<Rightarrow> string"
  json_of :: "string \<Rightarrow> pyval option"
  str_of :: "pyval \<Rightarrow> string"

fun read_chunks :: "int \<Rightarrow> int \<Rightarrow> string list \<Rightarrow> string result" where
  "read_chunks max_bytes got [] = Inr []"
| "read_chunks max_bytes got (c # cs) =
     (if got + int (length c) > max_bytes then Inl ValueError
      else rbind (read_chunks max_bytes (got + int (length c)) cs) (\<lambda>rest. Inr (c @ rest)))"

definition read_response_body_bounded :: "response \<Rightarrow> int \<Rightarrow> string result" where
  "read_response_body_bounded r max_bytes =
     rbind (case resp_content_length r of
              None \<Rightarrow> Inr ()
            | Some h \<Rightarrow> (case py_int h of
                 None \<Rightarrow> Inl ValueError
               | Some declared \<Rightarrow> if declared > max_bytes then Inl ValueError else Inr ()))
       (\<lambda>_. read_chunks max_bytes 0 (resp_chunks r))"

definition raise_for_status :: "response \<Rightarrow> unit result" where
  "raise_for_status r = (if 200 \<le> resp_status r \<and> resp_status r < 300 then Inr () else Inl OtherError)"

definition rstrip_slashes :: "string \<Rightarrow> string" where
  "rstrip_slashes s = rev (dropWhile (\<lambda>c. c = CHR ''/'') (rev s))"

record http_connector =
  http_base_url :: string
  max_response_bytes :: int
  max_redirects :: int
  user_agent :: string

definition http_connector_init :: "net \<Rightarrow> string \<Rightarrow> int \<Rightarrow> int \<Rightarrow> string \<Rightarrow> http_connector result" where
  "http_connector_init n url max_bytes redirects agent =
     (if blank url then Inl ValueError
      else if max_bytes < 1024 then Inl ValueError
      else if redirects < 0 then Inl ValueError
      else if strip agent = [] then Inl ValueError
      else rbind (outbound_ok n (rstrip_slashes (strip url)))
        (\<lambda>_. Inr \<lparr>http_base_url = rstrip_slashes (strip url), max_response_bytes = max_bytes,
                 max_redirects = redirects, user_agent = strip agent\<rparr>))"

definition normalize_record :: "(pyval \<Rightarrow> string) \<Rightarrow> pydict \<Rightarrow> pydict" where
  "normalize_record rend item =
     (let found = py_or (py_or (dget item ''snippet'') (dget item ''text'')) (dget item ''content'');
          snippet = (if found = VNone \<and> length item = 1 then snd (hd item) else found);
          rec = (if snippet \<noteq> VNone then set_default ''snippet'' (VStr (py_str rend snippet)) item else item)
      in set_default ''source'' (VStr (py_str rend (dget_or rec ''source'' (VStr ''http'')))) rec)"

definition normalized_dicts :: "(pyval \<Rightarrow> string) \<Rightarrow> pyval list \<Rightarrow> pydict list" where
  "normalized_dicts rend items =
     concat (map (\<lambda>item. case item of VDict d \<Rightarrow> [normalize_record rend d] | _ \<Rightarrow> []) items)"

fun first_list :: "pydict \<Rightarrow> string list \<Rightarrow> pyval list option" where
  "first_list payload [] = None"
| "first_list payload (k # ks) = (case dget payload k of VList items \<Rightarrow> Some items | _ \<Rightarrow> first_list payload ks)"

definition parse_json_payload :: "(pyval \<Rightarrow> string) \<Rightarrow> pyval \<Rightarrow> pydict list" where
  "parse_json_payload rend payload =
     (case payload of
        VList items \<Rightarrow> normalized_dicts rend items
      | VDict d \<Rightarrow>
          (case first_list d [''results'', ''records'', ''items'', ''data''] of
             Some items \<Rightarrow> normalized_dicts rend items
           | None \<Rightarrow> if ''snippet'' \<in> fst ` set d \<or> ''text'' \<in> fst ` set d then [normalize_record rend d] else [])
      | _ \<Rightarrow> [])"

definition is_line_break :: "char \<Rightarrow> bool" where
  "is_line_break c \<longleftrightarrow> (of_char c :: nat) \<in> {10, 11, 12, 13, 28, 29, 30, 133}"

fun splitlines_from :: "string \<Rightarrow> string \<Rightarrow> string list" where
  \<comment> \<open>the line being read, reversed\<close>
  "splitlines_from cur [] = (if cur = [] then [] else [rev cur])"
| "splitlines_from cur (c # s) =
     (if is_line_break c
      then rev cur # splitlines_from [] (if c = CHR 0x0D \<and> s \<noteq> [] \<and> hd s = NL then tl s else s)
      else splitlines_from (c # cur) s)"

definition splitlines :: "string \<Rightarrow> string list" where "splitlines s = splitlines_from [] s"

definition nonblank_lines :: "string \<Rightarrow> string list" where
  "nonblank_lines s = map strip (filter (\<lambda>l. strip l \<noteq> []) (splitlines s))"

definition parse_text_payload :: "string \<Rightarrow> pydict list" where
  "parse_text_payload s = map (\<lambda>l. [(''source'', VStr ''http''), (''snippet'', VStr l)]) (nonblank_lines s)"

definition build_url :: "net \<Rightarrow> string \<Rightarrow> (string \<times> string) list \<Rightarrow> string" where
  "build_url n base params =
     (let q = urlencode n params
      in with_query n base (if url_query n base \<noteq> [] then url_query n base @ ''&'' @ q else q))"

definition http_params :: "(pyval \<Rightarrow> string) \<Rightarrow> connector_request \<Rightarrow> (string \<times> string) list" where
  "http_params rend req =
     fold (\<lambda>(k, v). AList.update k (py_str rend v)) (req_filters req)
       [(''q'', req_query req), (''limit'', show_int (req_limit req))]"

definition http_fetch :: "net \<Rightarrow> http_client \<Rightarrow> http_connector \<Rightarrow> connector_request \<Rightarrow> connector_result result" where
  "http_fetch n client conn req =
     (let url = build_url n (http_base_url conn) (http_params (str_of n) req) in
      rbind (outbound_ok n url) (\<lambda>_.
      rbind (client url) (\<lambda>resp.
      rbind (raise_for_status resp) (\<lambda>_.
      rbind (read_response_body_bounded resp (max_response_bytes conn)) (\<lambda>body.
      rbind (if has_sub ''application/json'' (resp_content_type resp)
             then (case json_of n body of None \<Rightarrow> Inl ValueError | Some p \<Rightarrow> Inr (parse_json_payload (str_of n) p))
             else Inr (parse_text_payload (decode n body)))
        (\<lambda>recs. Inr \<lparr>res_records = slice_to (req_limit req) recs,
                     res_metadata = [(''url'', VStr url), (''status_code'', VInt (resp_status resp))]\<rparr>))))))"

section \<open>Google Drive\<close>

definition replace_char :: "char \<Rightarrow> string \<Rightarrow> string \<Rightarrow> string" where
  "replace_char c w s = concat (map (\<lambda>x. if x = c then w else [x]) s)"

definition BACKSLASH :: char where "BACKSLASH = CHR 0x5C"
definition QUOTE :: char where "QUOTE = CHR 0x27"

definition escape_drive_query :: "string \<Rightarrow> string" where
  "escape_drive_query s =
     replace_char QUOTE [BACKSLASH, QUOTE] (replace_char BACKSLASH [BACKSLASH, BACKSLASH] s)"

record gdrive_connector =
  gdrive_token :: "string result"     \<comment> \<open>the static token, or what the provider gives\<close>
  drive_id :: "string option"
  drive_base_url :: string
  drive_max_bytes :: int

definition DRIVE_BASE_URL :: string where "DRIVE_BASE_URL = ''https://www.googleapis.com/drive/v3''"

definition gdrive_connector_init ::
  "net \<Rightarrow> string + string result \<Rightarrow> string option \<Rightarrow> string \<Rightarrow> int \<Rightarrow> gdrive_connector result" where
  \<comment> \<open>the token is a text or a provider\<close>
  "gdrive_connector_init n token drive url max_bytes =
     (case token of
        Inl t \<Rightarrow> if strip t = [] then Inl ValueError
                 else rbind (outbound_ok n (rstrip_slashes url)) (\<lambda>_. Inr \<lparr>gdrive_token = Inr t, drive_id = drive,
                        drive_base_url = rstrip_slashes url, drive_max_bytes = max_bytes\<rparr>)
      | Inr provider \<Rightarrow> rbind (outbound_ok n (rstrip_slashes url)) (\<lambda>_. Inr \<lparr>gdrive_token = provider, drive_id = drive,
                        drive_base_url = rstrip_slashes url, drive_max_bytes = max_bytes\<rparr>))"

definition drive_params :: "gdrive_connector \<Rightarrow> connector_request \<Rightarrow> (string \<times> string) list" where
  "drive_params conn req =
     [(''q'', ''fullText contains '' @ [QUOTE] @ escape_drive_query (req_query req) @ [QUOTE] @ '' and trashed = false''),
      (''pageSize'', show_int (req_limit req)),
      (''fields'', ''files(id,name,webViewLink,description,modifiedTime,mimeType)'')]
     @ (case drive_id conn of
          Some (c # d) \<Rightarrow> [(''corpora'', ''drive''), (''driveId'', c # d), (''includeItemsFromAllDrives'', ''true''),
                       (''supportsAllDrives'', ''true'')]
        | _ \<Rightarrow> [])"

definition drive_record :: "(pyval \<Rightarrow> string) \<Rightarrow> pydict \<Rightarrow> pydict" where
  "drive_record rend item =
     [(''id'', VStr (py_str rend (py_or (dget item ''id'') (VStr [])))),
      (''title'', dget item ''name''),
      (''url'', dget item ''webViewLink''),
      (''snippet'', py_or (py_or (dget item ''description'') (dget item ''name'')) (VStr [])),
      (''last_modified'', dget item ''modifiedTime''),
      (''mime_type'', dget item ''mimeType''),
      (''source'', VStr ''gdrive'')]"

definition parse_drive_files_response :: "(pyval \<Rightarrow> string) \<Rightarrow> pyval \<Rightarrow> pydict list result" where
  "parse_drive_files_response rend payload =
     rbind (py_get payload ''files'' (VList [])) (\<lambda>files.
     rbind (py_iter files) (\<lambda>items.
       Inr (concat (map (\<lambda>item. case item of VDict d \<Rightarrow> [drive_record rend d] | _ \<Rightarrow> []) items))))"

definition gdrive_fetch ::
  "net \<Rightarrow> (string \<Rightarrow> string \<Rightarrow> (string \<times> string) list \<Rightarrow> response result) \<Rightarrow> gdrive_connector \<Rightarrow> connector_request
     \<Rightarrow> connector_result result" where
  \<comment> \<open>the client gets the token, the URL and the parameters\<close>
  "gdrive_fetch n client conn req =
     rbind (gdrive_token conn) (\<lambda>token.
     (let url = drive_base_url conn @ ''/files'' in
      rbind (outbound_ok n url) (\<lambda>_.
      rbind (client token url (drive_params conn req)) (\<lambda>resp.
      rbind (raise_for_status resp) (\<lambda>_.
      rbind (read_response_body_bounded resp (drive_max_bytes conn)) (\<lambda>body.
      rbind (case json_of n body of None \<Rightarrow> Inl ValueError | Some p \<Rightarrow> parse_drive_files_response (str_of n) p)
        (\<lambda>recs. Inr \<lparr>res_records = slice_to (req_limit req) recs,
                     res_metadata = [(''connector'', VStr ''gdrive''), (''status_code'', VInt (resp_status resp))]\<rparr>)))))))"

section \<open>OAuth tokens\<close>

record oauth =
  cached_token :: "string option"
  expires_at :: rat

definition TOKEN_REFRESH_MARGIN_SECONDS :: rat where "TOKEN_REFRESH_MARGIN_SECONDS = 60"

definition oauth_init :: "net \<Rightarrow> string \<Rightarrow> string \<Rightarrow> string \<Rightarrow> oauth result" where
  "oauth_init n token_url client_id client_secret =
     (if strip token_url = [] then Inl ValueError
      else if strip client_id = [] \<or> strip client_secret = [] then Inl ValueError
      else rbind (outbound_ok n token_url) (\<lambda>_. Inr \<lparr>cached_token = None, expires_at = 0\<rparr>))"

definition py_float :: "(string \<Rightarrow> rat option) \<Rightarrow> pyval \<Rightarrow> rat result" where
  "py_float parse v =
     (case v of
        VInt i \<Rightarrow> Inr (of_int i)
      | VFloat r \<Rightarrow> Inr r
      | VBool b \<Rightarrow> Inr (if b then 1 else 0)
      | VStr s \<Rightarrow> (case parse s of None \<Rightarrow> Inl ValueError | Some r \<Rightarrow> Inr r)
      | _ \<Rightarrow> Inl TypeError)"

definition fetch_token ::
  "net \<Rightarrow> (string \<Rightarrow> rat option) \<Rightarrow> string \<Rightarrow> response result \<Rightarrow> (string \<times> rat) result" where
  "fetch_token n parse token_url answer =
     rbind (outbound_ok n token_url) (\<lambda>_.
     rbind answer (\<lambda>resp.
     rbind (raise_for_status resp) (\<lambda>_.
     rbind (case json_of n (concat (resp_chunks resp)) of None \<Rightarrow> Inl ValueError | Some p \<Rightarrow> Inr p) (\<lambda>payload.
     rbind (py_get payload ''access_token'' VNone) (\<lambda>tok.
       (case tok of
          VStr (c # t) \<Rightarrow>
            rbind (py_get payload ''expires_in'' (VInt 3600)) (\<lambda>e. rbind (py_float parse e) (\<lambda>r. Inr (c # t, r)))
        | _ \<Rightarrow> Inl ValueError))))))"

record token_call =   \<comment> \<open>the clock before and after the request, and what the request gave\<close>
  asked_at :: rat
  stored_at :: rat
  fetched :: "(string \<times> rat) result"

definition get_token :: "token_call \<Rightarrow> oauth \<Rightarrow> string result \<times> oauth" where
  "get_token c st =
     (case (cached_token st, asked_at c < expires_at st - TOKEN_REFRESH_MARGIN_SECONDS) of
        (Some t, True) \<Rightarrow> (Inr t, st)
      | _ \<Rightarrow> (case fetched c of
           Inl e \<Rightarrow> (Inl e, st)
         | Inr (t, expires_in) \<Rightarrow> (Inr t, \<lparr>cached_token = Some t, expires_at = stored_at c + expires_in\<rparr>)))"

section \<open>SharePoint, the vector store, the example\<close>

record sharepoint_connector =
  graph_base_url :: string
  graph_max_bytes :: int
  token_url :: string
  token_source :: oauth

definition GRAPH_BASE_URL :: string where "GRAPH_BASE_URL = ''https://graph.microsoft.com/v1.0''"
definition LOGIN_BASE_URL :: string where "LOGIN_BASE_URL = ''https://login.microsoftonline.com''"

definition sharepoint_connector_init ::
  "net \<Rightarrow> string \<Rightarrow> string \<Rightarrow> string \<Rightarrow> string \<Rightarrow> int \<Rightarrow> sharepoint_connector result" where
  "sharepoint_connector_init n tenant_id client_id client_secret url max_bytes =
     (if strip tenant_id = [] then Inl ValueError
      else rbind (outbound_ok n (rstrip_slashes url)) (\<lambda>_.
        (let tok_url = LOGIN_BASE_URL @ ''/'' @ tenant_id @ ''/oauth2/v2.0/token'' in
         rbind (oauth_init n tok_url client_id client_secret) (\<lambda>src.
           Inr \<lparr>graph_base_url = rstrip_slashes url, graph_max_bytes = max_bytes, token_url = tok_url, token_source = src\<rparr>))))"

definition graph_record :: "(pyval \<Rightarrow> string) \<Rightarrow> pyval \<Rightarrow> pydict list result" where
  \<comment> \<open>one hit\<close>
  "graph_record rend hit =
     rbind (py_get hit ''resource'' (VDict [])) (\<lambda>found.
     (let resource = py_or found (VDict []) in
      rbind (py_get resource ''id'' VNone) (\<lambda>rid.
      rbind (py_get hit ''hitId'' VNone) (\<lambda>hid.
      rbind (py_get resource ''name'' VNone) (\<lambda>title.
      rbind (py_get resource ''webUrl'' VNone) (\<lambda>url.
      rbind (py_get hit ''summary'' VNone) (\<lambda>summary.
      rbind (py_get resource ''description'' VNone) (\<lambda>descr.
      rbind (py_get resource ''lastModifiedDateTime'' VNone) (\<lambda>changed.
        Inr [[(''id'', VStr (py_str rend (py_or (py_or rid hid) (VStr [])))),
              (''title'', title),
              (''url'', url),
              (''snippet'', py_or (py_or summary descr) (VStr [])),
              (''last_modified'', changed),
              (''source'', VStr ''sharepoint'')]])))))))))"

definition parse_graph_search_response :: "(pyval \<Rightarrow> string) \<Rightarrow> pyval \<Rightarrow> pydict list result" where
  "parse_graph_search_response rend payload =
     rbind (rbind (py_get payload ''value'' (VList [])) py_iter) (concat_results (\<lambda>v.
       rbind (rbind (py_get v ''hitsContainers'' (VList [])) py_iter) (concat_results (\<lambda>container.
         rbind (rbind (py_get container ''hits'' (VList [])) py_iter) (concat_results (graph_record rend))))))"

definition search_request :: "connector_request \<Rightarrow> pyval" where
  "search_request req = VDict [(''requests'', VList [VDict
     [(''entityTypes'', VList [VStr ''driveItem'']), (''query'', VDict [(''queryString'', VStr (req_query req))]),
      (''from'', VInt 0), (''size'', VInt (req_limit req))]])]"

definition sharepoint_fetch ::
  "net \<Rightarrow> (string \<Rightarrow> string \<Rightarrow> pyval \<Rightarrow> response result) \<Rightarrow> token_call \<Rightarrow> sharepoint_connector \<Rightarrow> connector_request
     \<Rightarrow> connector_result result \<times> sharepoint_connector" where
  "sharepoint_fetch n client call conn req =
     (case get_token call (token_source conn) of
        (tok, src) \<Rightarrow>
          (rbind tok (\<lambda>bearer.
            (let url = graph_base_url conn @ ''/search/query'' in
             rbind (outbound_ok n url) (\<lambda>_.
             rbind (client bearer url (search_request req)) (\<lambda>resp.
             rbind (raise_for_status resp) (\<lambda>_.
             rbind (read_response_body_bounded resp (graph_max_bytes conn)) (\<lambda>body.
             rbind (case json_of n body of None \<Rightarrow> Inl ValueError | Some p \<Rightarrow> parse_graph_search_response (str_of n) p)
               (\<lambda>recs. Inr \<lparr>res_records = slice_to (req_limit req) recs,
                  res_metadata = [(''connector'', VStr ''sharepoint''), (''status_code'', VInt (resp_status resp))]\<rparr>))))))),
           conn\<lparr>token_source := src\<rparr>))"

fun rag_records :: "(pyval \<Rightarrow> string) \<Rightarrow> nat \<Rightarrow> (pydict \<times> string) list \<Rightarrow> pydict list" where
  "rag_records rend n [] = []"
| "rag_records rend n ((meta, page) # docs) =
     [(''source'', VStr (py_str rend (dget_or meta ''source'' (VStr (''rag:'' @ show_nat n))))),
      (''snippet'', VStr page), (''score'', dget meta ''score'')] # rag_records rend (Suc n) docs"

definition rag_fetch ::
  "(pyval \<Rightarrow> string) \<Rightarrow> (string \<Rightarrow> int \<Rightarrow> (pydict \<times> string) list result) \<Rightarrow> connector_request \<Rightarrow> connector_result result" where
  "rag_fetch rend similarity_search req =
     rbind (similarity_search (req_query req) (req_limit req)) (\<lambda>docs.
       Inr \<lparr>res_records = rag_records rend 0 docs,
            res_metadata = [(''backend'', VStr ''rag''), (''count'', VInt (int (length docs)))]\<rparr>)"

definition example_fetch :: "connector_request \<Rightarrow> connector_result" where
  "example_fetch req =
     (if \<not> has_sub ''demo'' (lower (req_query req))
      then \<lparr>res_records = [], res_metadata = [(''matched'', VBool False)]\<rparr>
      else \<lparr>res_records = [[(''source'', VStr ''example''), (''snippet'', VStr ''This is a canned result for demonstration.''),
              (''score'', VFloat 1)]],
            res_metadata = [(''matched'', VBool True), (''limit'', VInt (req_limit req))]\<rparr>)"

section \<open>The choice of a connector\<close>

datatype connector =
    ExampleMemoryConnector | GoogleDriveConnector gdrive_connector | HttpConnector http_connector
  | RagConnector | SharePointConnector sharepoint_connector

record connector_settings =
  connector_enabled :: bool
  connector_id :: string
  connector_http_url :: "string option"
  connector_http_max_response_bytes :: int
  connector_http_max_redirects :: int
  connector_sharepoint_tenant_id :: "string option"
  connector_sharepoint_client_id :: "string option"
  connector_sharepoint_client_secret :: "string option"
  connector_gdrive_access_token :: "string option"
  connector_gdrive_drive_id :: "string option"

definition BUILTIN_CONNECTORS :: "string list" where
  "BUILTIN_CONNECTORS = [''example_memory'', ''gdrive'', ''http'', ''rag'', ''sharepoint'']"

definition or_empty :: "string option \<Rightarrow> string" where
  "or_empty v = (case v of None \<Rightarrow> [] | Some s \<Rightarrow> s)"

definition create_connector :: "net \<Rightarrow> string \<Rightarrow> connector_settings \<Rightarrow> connector result" where
  "create_connector n cid st =
     (if cid \<notin> set BUILTIN_CONNECTORS then Inl ValueError
      else if cid = ''http'' then
        (if or_empty (connector_http_url st) = [] then Inl ValueError
         else rbind (http_connector_init n (or_empty (connector_http_url st)) (connector_http_max_response_bytes st)
                (connector_http_max_redirects st) ''langgraph-agent-stack/HttpConnector'') (\<lambda>c. Inr (HttpConnector c)))
      else if cid = ''rag'' then Inr RagConnector
      else if cid = ''sharepoint'' then
        (if [] \<in> set (map or_empty [connector_sharepoint_tenant_id st, connector_sharepoint_client_id st,
              connector_sharepoint_client_secret st]) then Inl ValueError
         else rbind (sharepoint_connector_init n (or_empty (connector_sharepoint_tenant_id st))
                (or_empty (connector_sharepoint_client_id st)) (or_empty (connector_sharepoint_client_secret st))
                GRAPH_BASE_URL 2097152) (\<lambda>c. Inr (SharePointConnector c)))
      else if cid = ''gdrive'' then
        (if or_empty (connector_gdrive_access_token st) = [] then Inl ValueError
         else rbind (gdrive_connector_init n (Inl (or_empty (connector_gdrive_access_token st)))
                (connector_gdrive_drive_id st) DRIVE_BASE_URL 2097152) (\<lambda>c. Inr (GoogleDriveConnector c)))
      else Inr ExampleMemoryConnector)"

definition resolve_connector :: "net \<Rightarrow> connector_settings \<Rightarrow> connector option result" where
  "resolve_connector n st =
     (if \<not> connector_enabled st then Inr None
      else rbind (create_connector n (connector_id st) st) (\<lambda>c. Inr (Some c)))"

section \<open>Properties\<close>

text \<open>A Drive search expression writes text between single quotes, with a backslash before a
  quote or a backslash that belongs to the text. \<open>read_literal\<close> reads from after the opening
  quote: the text, and what follows the closing quote.\<close>

fun read_literal :: "string \<Rightarrow> (string \<times> string) option" where
  "read_literal [] = None"
| "read_literal (c # s) =
     (if c = QUOTE then Some ([], s)
      else if c = BACKSLASH then
        (case s of [] \<Rightarrow> None | d # t \<Rightarrow> map_option (\<lambda>(w, r). (d # w, r)) (read_literal t))
      else map_option (\<lambda>(w, r). (c # w, r)) (read_literal s))"

lemma escape_drive_query_Cons:
  "escape_drive_query (c # s) =
     (if c = QUOTE then [BACKSLASH, QUOTE] else if c = BACKSLASH then [BACKSLASH, BACKSLASH] else [c]) @ escape_drive_query s"
  by (simp add: escape_drive_query_def replace_char_def QUOTE_def BACKSLASH_def)

lemma read_escaped: "read_literal (escape_drive_query s @ QUOTE # rest) = Some (s, rest)"
proof (induction s)
  case Nil
  then show ?case by (simp add: escape_drive_query_def replace_char_def)
next
  case (Cons c s)
  have "BACKSLASH \<noteq> QUOTE" by (simp add: BACKSLASH_def QUOTE_def)
  with Cons show ?case by (simp add: escape_drive_query_Cons)
qed

text \<open>C22. A search text cannot leave its literal in the Drive query: whatever the user asks, the
  text Drive searches for is the query, character for character, and the rest of the expression
  is the filter on trashed files.\<close>

theorem drive_query_not_injectable:
  "\<exists>expr. map_of (drive_params conn req) ''q'' = Some (''fullText contains '' @ [QUOTE] @ expr)
     \<and> read_literal expr = Some (req_query req, '' and trashed = false'')"
  by (simp add: drive_params_def read_escaped)

text \<open>A series of uses of one token source.\<close>

fun token_calls :: "oauth \<Rightarrow> token_call list \<Rightarrow> string result list" where
  "token_calls st [] = []"
| "token_calls st (c # cs) = (case get_token c st of (r, st') \<Rightarrow> r # token_calls st' cs)"

definition granted :: "token_call \<Rightarrow> oauth \<Rightarrow> bool" where
  \<comment> \<open>the state is what this request left\<close>
  "granted c st \<longleftrightarrow> (\<exists>t l. fetched c = Inr (t, l) \<and> st = \<lparr>cached_token = Some t, expires_at = stored_at c + l\<rparr>)"

lemma get_token_cases:
  assumes "get_token c st = (Inr t, st')"
  shows "(cached_token st = Some t \<and> asked_at c + 60 < expires_at st \<and> st' = st)
    \<or> (\<exists>l. fetched c = Inr (t, l) \<and> granted c st')"
  using assms
  by (auto simp: get_token_def granted_def TOKEN_REFRESH_MARGIN_SECONDS_def split: option.splits bool.splits sum.splits)

lemma get_token_state: "get_token c st = (r, st') \<Longrightarrow> st' = st \<or> granted c st'"
  by (auto simp: get_token_def granted_def split: option.splits bool.splits sum.splits)

definition fresh :: "token_call list \<Rightarrow> token_call \<Rightarrow> string \<Rightarrow> bool" where
  "fresh before c t \<longleftrightarrow> (\<exists>l. fetched c = Inr (t, l))
     \<or> (\<exists>c0\<in>set before. \<exists>l. fetched c0 = Inr (t, l) \<and> asked_at c + 60 < stored_at c0 + l)"

lemma token_calls_fresh:
  assumes "st = \<lparr>cached_token = None, expires_at = e\<rparr> \<or> (\<exists>c0\<in>set before. granted c0 st)"
    and "i < length cs" and "token_calls st cs ! i = Inr t"
  shows "fresh (before @ take i cs) (cs ! i) t"
  using assms
proof (induction cs arbitrary: st i before)
  case (Cons c cs)
  obtain r st' where g: "get_token c st = (r, st')" by fastforce
  show ?case
  proof (cases i)
    case 0
    then have "get_token c st = (Inr t, st')" using Cons.prems g by simp
    from get_token_cases [OF this] show ?thesis
      using Cons.prems(1) 0 by (fastforce simp: fresh_def granted_def)
  next
    case (Suc j)
    have "st' = \<lparr>cached_token = None, expires_at = e\<rparr> \<or> (\<exists>c0\<in>set (before @ [c]). granted c0 st')"
      using get_token_state [OF g] Cons.prems(1) by auto
    moreover have "j < length cs" "token_calls st' cs ! j = Inr t" using Cons.prems(2,3) g Suc by auto
    ultimately have "fresh ((before @ [c]) @ take j cs) (cs ! j) t" by (rule Cons.IH)
    then show ?thesis using Suc by simp
  qed
qed simp

text \<open>However often and whenever a token is asked for, a token that is handed out was granted
  by the request just made, or by an earlier one whose lifetime ends more than a minute after
  the token is asked for.\<close>

theorem token_served_fresh:
  assumes "oauth_init n url cid secret = Inr st" and "i < length calls" and "token_calls st calls ! i = Inr t"
  shows "(\<exists>l. fetched (calls ! i) = Inr (t, l))
    \<or> (\<exists>j<i. \<exists>l. fetched (calls ! j) = Inr (t, l) \<and> asked_at (calls ! i) + 60 < stored_at (calls ! j) + l)"
proof -
  have "st = \<lparr>cached_token = None, expires_at = 0\<rparr> \<or> (\<exists>c0\<in>set []. granted c0 st)"
    using assms(1) by (auto simp: oauth_init_def rbind_Inr_iff split: if_splits)
  from token_calls_fresh [OF this assms(2,3)] show ?thesis
    using assms(2) by (auto simp: fresh_def in_set_conv_nth)
qed

definition demo_calls :: "token_call list" where
  "demo_calls =
     [\<lparr>asked_at = 0, stored_at = 1, fetched = Inr (''t1'', 3600)\<rparr>,
      \<lparr>asked_at = 3500, stored_at = 3501, fetched = Inl OtherError\<rparr>,
      \<lparr>asked_at = 3541, stored_at = 3542, fetched = Inl OtherError\<rparr>,
      \<lparr>asked_at = 3560, stored_at = 3561, fetched = Inr (''t2'', 3600)\<rparr>]"

definition open_net :: net where
  "open_net = \<lparr>outbound_ok = Inr, url_query = (\<lambda>u. []), with_query = (\<lambda>u q. u @ ''?'' @ q),
     urlencode = (\<lambda>ps. []), decode = (\<lambda>b. b), json_of = (\<lambda>b. None), str_of = (\<lambda>v. [])\<rparr>"

theorem token_served_fresh_witness:
  "token_calls \<lparr>cached_token = None, expires_at = 0\<rparr> demo_calls = [Inr ''t1'', Inr ''t1'', Inl OtherError, Inr ''t2'']
   \<and> ((\<exists>l. fetched (demo_calls ! 1) = Inr (''t1'', l))
      \<or> (\<exists>j\<in>{0::nat}. \<exists>l. fetched (demo_calls ! j) = Inr (''t1'', l) \<and> asked_at (demo_calls ! 1) + 60 < stored_at (demo_calls ! j) + l))"
proof
  show run: "token_calls \<lparr>cached_token = None, expires_at = 0\<rparr> demo_calls = [Inr ''t1'', Inr ''t1'', Inl OtherError, Inr ''t2'']"
    by (simp add: demo_calls_def get_token_def TOKEN_REFRESH_MARGIN_SECONDS_def)
  have "oauth_init open_net ''https://login'' ''id'' ''secret'' = Inr \<lparr>cached_token = None, expires_at = 0\<rparr>"
    by (simp add: oauth_init_def open_net_def) code_simp
  from token_served_fresh [OF this, of 1 demo_calls "''t1''"] show
    "(\<exists>l. fetched (demo_calls ! 1) = Inr (''t1'', l))
      \<or> (\<exists>j\<in>{0::nat}. \<exists>l. fetched (demo_calls ! j) = Inr (''t1'', l) \<and> asked_at (demo_calls ! 1) + 60 < stored_at (demo_calls ! j) + l)"
    using run by (auto simp: demo_calls_def)
qed

text \<open>A record without a link is cited by the name of its connector: \<open>source\<close> is among the keys
  of the URL, so the citation of a line of text ends in the word \<open>http\<close>, and the one of a Drive
  file without a link in \<open>gdrive\<close>.\<close>

lemma text_record_citation:
  "rec \<in> set (parse_text_payload s) \<Longrightarrow> citation (record_to_source_ref rend rec k) = ''[doc-'' @ show_nat k @ ''] http''"
  by (auto simp: parse_text_payload_def citation_def record_to_source_ref_def Let_def ID_KEYS_def TITLE_KEYS_def
      URL_KEYS_def dget_def strip_def lstrip_def rstrip_def py_isspace_def em_dash_def)

text \<open>A connector that is created is the one the settings name, with all it needs, and its
  address has passed the outbound check.\<close>

lemma connector_as_configured:
  assumes "resolve_connector n st = Inr (Some c)"
  shows "connector_enabled st \<and> (case c of
      ExampleMemoryConnector \<Rightarrow> connector_id st = ''example_memory''
    | RagConnector \<Rightarrow> connector_id st = ''rag''
    | GoogleDriveConnector g \<Rightarrow> connector_id st = ''gdrive'' \<and> strip (or_empty (connector_gdrive_access_token st)) \<noteq> []
        \<and> (\<exists>u. outbound_ok n (drive_base_url g) = Inr u)
    | HttpConnector h \<Rightarrow> connector_id st = ''http'' \<and> \<not> blank (or_empty (connector_http_url st))
        \<and> (\<exists>u. outbound_ok n (http_base_url h) = Inr u) \<and> 1024 \<le> max_response_bytes h \<and> 0 \<le> max_redirects h
    | SharePointConnector s \<Rightarrow> connector_id st = ''sharepoint''
        \<and> list_all (\<lambda>f. strip (or_empty (f st)) \<noteq> [])
            [connector_sharepoint_tenant_id, connector_sharepoint_client_id, connector_sharepoint_client_secret]
        \<and> (\<exists>u. outbound_ok n (graph_base_url s) = Inr u) \<and> (\<exists>u. outbound_ok n (token_url s) = Inr u))"
  using assms
  by (auto simp: resolve_connector_def create_connector_def BUILTIN_CONNECTORS_def rbind_Inr_iff Let_def
      http_connector_init_def sharepoint_connector_init_def gdrive_connector_init_def oauth_init_def split: if_splits)

end
