(* ===== verification/StructuredPacks.thy ===== *)
theory StructuredPacks
  imports OutputGuard InputSafety Connectors PackApi
begin

text \<open>
  The vertical packs: \<open>StructuredLLMPack\<close> (\<open>domain_packs/common/structured_llm.py\<close>) and its nine
  subclasses under \<open>domain_packs/\<close>, each a pair of schemas, a primary field and a prompt. A
  validated model is the dictionary of its fields. pydantic is the argument \<open>validates\<close> of the
  record \<open>pack_env\<close>, LangChain's JSON parser \<open>parse_json\<close>; the provider is \<open>llm\<close>. LangGraph runs
  the only node once.
\<close>

section \<open>Schemas\<close>

datatype field_type =
    TStr int int                     \<comment> \<open>\<open>min_length\<close>, \<open>max_length\<close>\<close>
  | TText                            \<comment> \<open>\<open>str\<close>\<close>
  | TStrList | TBool | TOptFloat
  | TUnit                            \<comment> \<open>\<open>float\<close> in \<open>[0, 1]\<close>\<close>
  | TIntRange int int
  | TStrDict

record schema_field =
  sf_name :: string
  sf_type :: field_type
  sf_default :: "pyval option"       \<comment> \<open>\<open>None\<close>: required\<close>

record schema =
  fields_of :: "schema_field list"
  strips :: bool                     \<comment> \<open>\<open>str_strip_whitespace\<close>; all schemas forbid extra fields\<close>

definition req :: "string \<Rightarrow> field_type \<Rightarrow> schema_field" where
  "req n t = \<lparr>sf_name = n, sf_type = t, sf_default = None\<rparr>"

definition opt :: "string \<Rightarrow> field_type \<Rightarrow> pyval \<Rightarrow> schema_field" where
  "opt n t v = \<lparr>sf_name = n, sf_type = t, sf_default = Some v\<rparr>"

definition field_names :: "schema \<Rightarrow> string list" where
  "field_names s = map sf_name (fields_of s)"

definition review_fields :: "schema_field list" where
  "review_fields = [opt ''human_review_required'' TBool (VBool True), opt ''disclaimer'' TText (VStr []),
     opt ''cost_usd'' TOptFloat VNone]"

record prompt_parts =
  task_instructions :: string
  labelled :: "(string \<times> string) list"
  ref_text :: string
  closing_instructions :: string

record pack_env =
  validates :: "schema \<Rightarrow> bool \<Rightarrow> pydict \<Rightarrow> pydict option"   \<comment> \<open>\<open>model_validate(data, strict=...)\<close>\<close>
  parse_json :: "string \<Rightarrow> pyval option"
  tools :: pack_tools
  schema_json :: "schema \<Rightarrow> string"
  installed_llm :: "string \<Rightarrow> bool"
  env_policies :: policy_registry

record vertical_pack =
  vp_id :: string
  input_schema :: schema
  output_schema :: schema
  primary_field :: string
  cuts_primary_text :: bool            \<comment> \<open>\<open>TalentScreeningPack.primary_text\<close>\<close>
  class_dict :: "string list"
  prompt_of :: "(pyval \<Rightarrow> string) \<Rightarrow> pydict \<Rightarrow> string \<Rightarrow> prompt_parts"

text \<open>What a class body defines.\<close>

definition PLAIN_BODY :: "string list" where
  "PLAIN_BODY = [''pack_id'', ''name'', ''description'', ''input_schema'', ''output_schema'', ''primary_field'', ''build_prompt'']"

definition text_of_field :: "(pyval \<Rightarrow> string) \<Rightarrow> pydict \<Rightarrow> string \<Rightarrow> string \<Rightarrow> string" where
  \<comment> \<open>\<open>str(data.get(k) or default)\<close>\<close>
  "text_of_field rend d k dflt = py_str rend (py_or (dget d k) (VStr dflt))"

definition listed :: "pydict \<Rightarrow> string \<Rightarrow> string" where
  \<comment> \<open>\<open>", ".join(data.get(k) or []) or "not specified"\<close>; the items are texts\<close>
  "listed d k =
     (let t = join '', '' (map (\<lambda>v. case v of VStr s \<Rightarrow> s | _ \<Rightarrow> []) (as_list (dget d k)))
      in if t = [] then ''not specified'' else t)"

section \<open>The nine packs\<close>

definition financial_memo_input :: schema where
  "financial_memo_input = \<lparr>fields_of = [req ''topic'' (TStr 1 500), opt ''hypothesis'' (TStr 0 2000) (VStr []),
        opt ''metrics'' (TStr 0 2000) (VStr []), opt ''time_horizon'' (TStr 0 100) (VStr ''12 months'')], strips = False\<rparr>"

definition financial_memo_output :: schema where
  "financial_memo_output = \<lparr>fields_of = [req ''topic'' TText, req ''situation'' TText, req ''complications'' TStrList,
        req ''options'' TStrList, req ''recommendation'' TText, req ''risks'' TStrList, req ''next_steps'' TStrList,
        req ''confidence'' TUnit] @ review_fields, strips = True\<rparr>"

definition financial_memo :: vertical_pack where
  "financial_memo = \<lparr>vp_id = ''financial_memo'',
     input_schema = financial_memo_input,
     output_schema = financial_memo_output,
     primary_field = ''topic'', cuts_primary_text = False, class_dict = PLAIN_BODY,
     prompt_of = (\<lambda>rend d ref. \<lparr>task_instructions = ''You are a strategy consultant writing a financial memo (SCQA format).'',
        labelled = [(''Topic'', py_str rend (dget d ''topic'')),
          (''Hypothesis'', text_of_field rend d ''hypothesis'' ''none stated''),
          (''Key metrics/context'', text_of_field rend d ''metrics'' ''none provided''),
          (''Time horizon'', py_str rend (dget_or d ''time_horizon'' (VStr ''12 months'')))],
        ref_text = ref,
        closing_instructions = ''Set topic from input. Be concise and decision-oriented.''\<rparr>)\<rparr>"

definition hr_policy_qa_input :: schema where
  "hr_policy_qa_input = \<lparr>fields_of = [req ''question'' (TStr 1 2000), opt ''employee_context'' (TStr 0 2000) (VStr []),
        opt ''document_text'' (TStr 0 30000) (VStr [])], strips = False\<rparr>"

definition hr_policy_qa_output :: schema where
  "hr_policy_qa_output = \<lparr>fields_of = [req ''question'' TText, req ''answer'' TText, req ''citations'' TStrList,
        req ''confidence'' TUnit, req ''escalate_to_hr'' TBool] @ review_fields, strips = True\<rparr>"

definition hr_policy_qa :: vertical_pack where
  "hr_policy_qa = \<lparr>vp_id = ''hr_policy_qa'',
     input_schema = hr_policy_qa_input,
     output_schema = hr_policy_qa_output,
     primary_field = ''question'', cuts_primary_text = False, class_dict = PLAIN_BODY,
     prompt_of = (\<lambda>rend d ref.
       (let policy = text_of_field rend d ''document_text'' ref in
        \<lparr>task_instructions = ''You are an HR policy assistant. Answer ONLY from the policy material.'',
         labelled = [(''Employee context'', text_of_field rend d ''employee_context'' ''not provided''),
           (''Question'', py_str rend (dget d ''question'')),
           (''Policy material'', if policy = [] then ''(no policy document '' @ em_dash @ '' answer with low confidence)'' else policy)],
         ref_text = [],
         closing_instructions = ''Set question from input. escalate_to_hr=true for legal/sensitive topics. ''
           @ ''disclaimer and human_review_required are set server-side '' @ em_dash @ '' do not omit.''\<rparr>))\<rparr>"

definition job_description_writer_input :: schema where
  "job_description_writer_input = \<lparr>fields_of = [req ''role_title'' (TStr 1 200), opt ''team_context'' (TStr 0 2000) (VStr []),
        opt ''seniority'' (TStr 0 50) (VStr ''mid''), opt ''must_haves'' TStrList (VList []),
        opt ''culture_notes'' (TStr 0 2000) (VStr [])], strips = False\<rparr>"

definition job_description_writer_output :: schema where
  "job_description_writer_output = \<lparr>fields_of = [req ''role_title'' TText, req ''jd_markdown'' TText, req ''competency_matrix'' TStrList,
        req ''screening_rubric'' TStrList, req ''bias_check_notes'' TStrList, req ''confidence'' TUnit] @ review_fields,
        strips = True\<rparr>"

definition job_description_writer :: vertical_pack where
  "job_description_writer = \<lparr>vp_id = ''job_description_writer'',
     input_schema = job_description_writer_input,
     output_schema = job_description_writer_output,
     primary_field = ''role_title'', cuts_primary_text = False, class_dict = PLAIN_BODY,
     prompt_of = (\<lambda>rend d ref. \<lparr>task_instructions = ''You are an HR business partner writing an inclusive job description.'',
        labelled = [(''Role'', py_str rend (dget d ''role_title'')),
          (''Seniority'', py_str rend (dget_or d ''seniority'' (VStr ''mid''))),
          (''Team context'', text_of_field rend d ''team_context'' ''not provided''),
          (''Must-haves'', listed d ''must_haves''),
          (''Culture notes'', text_of_field rend d ''culture_notes'' ''none'')],
        ref_text = ref,
        closing_instructions = ''jd_markdown should use inclusive language. Avoid gendered or age-biased terms.''\<rparr>)\<rparr>"

definition talent_screening_input :: schema where
  "talent_screening_input = \<lparr>fields_of = [req ''job_description'' (TStr 1 10000), req ''resume_text'' (TStr 1 15000),
        opt ''must_have_skills'' TStrList (VList []), opt ''nice_to_have_skills'' TStrList (VList [])], strips = False\<rparr>"

definition talent_screening_output :: schema where
  "talent_screening_output = \<lparr>fields_of = [req ''fit_score'' TUnit, req ''matched_skills'' TStrList, req ''gaps'' TStrList,
        req ''interview_questions'' TStrList, req ''red_flags'' TStrList, req ''summary_for_hiring_manager'' TText,
        req ''confidence'' TUnit] @ review_fields, strips = True\<rparr>"

definition talent_screening :: vertical_pack where
  "talent_screening = \<lparr>vp_id = ''talent_screening'',
     input_schema = talent_screening_input,
     output_schema = talent_screening_output,
     primary_field = ''job_description'', cuts_primary_text = True, class_dict = ''primary_text'' # PLAIN_BODY,
     prompt_of = (\<lambda>rend d ref. \<lparr>task_instructions = ''You are an expert technical recruiter. Screen this candidate.'',
        labelled = [(''Must-have skills'', listed d ''must_have_skills''),
          (''Nice-to-have skills'', listed d ''nice_to_have_skills''),
          (''Job description'', py_str rend (dget d ''job_description'')),
          (''Resume'', py_str rend (dget d ''resume_text''))],
        ref_text = ref,
        closing_instructions = ''fit_score: 0=poor fit, 1=excellent fit. Be objective and cite evidence.''\<rparr>)\<rparr>"

definition contract_reviewer_input :: schema where
  "contract_reviewer_input = \<lparr>fields_of = [req ''query'' (TStr 1 500), opt ''contract_text'' (TStr 0 50000) (VStr []),
        opt ''contract_type'' (TStr 0 100) (VStr ''msa''), opt ''jurisdiction'' (TStr 0 100) (VStr [])], strips = False\<rparr>"

definition contract_reviewer_output :: schema where
  "contract_reviewer_output = \<lparr>fields_of = [req ''query'' TText, req ''risk_score'' TUnit, req ''flagged_clauses'' TStrList,
        req ''deviations_from_playbook'' TStrList, req ''recommended_actions'' TStrList, req ''summary'' TText,
        req ''confidence'' TUnit] @ review_fields, strips = True\<rparr>"

definition contract_reviewer :: vertical_pack where
  "contract_reviewer = \<lparr>vp_id = ''contract_reviewer'',
     input_schema = contract_reviewer_input,
     output_schema = contract_reviewer_output,
     primary_field = ''query'', cuts_primary_text = False, class_dict = PLAIN_BODY,
     prompt_of = (\<lambda>rend d ref.
       (let contract = text_of_field rend d ''contract_text'' ref in
        \<lparr>task_instructions = ''You are a commercial legal reviewer. Analyse the contract.'',
         labelled = [(''Label'', py_str rend (dget d ''query'')),
           (''Contract type'', py_str rend (dget_or d ''contract_type'' (VStr ''msa''))),
           (''Jurisdiction'', text_of_field rend d ''jurisdiction'' ''unspecified''),
           (''Contract text'', if contract = [] then ''(no text provided)'' else contract)],
         ref_text = [],
         closing_instructions = ''Set query to the label. risk_score: 0=low risk, 1=critical risk.''\<rparr>))\<rparr>"

definition executive_brief_input :: schema where
  "executive_brief_input = \<lparr>fields_of = [req ''text'' (TStr 1 20000), opt ''audience'' (TStr 0 100) (VStr ''CEO''),
        opt ''bullet_count'' (TIntRange 1 10) (VInt 5)], strips = False\<rparr>"

definition executive_brief_output :: schema where
  "executive_brief_output = \<lparr>fields_of = [req ''audience'' TText, req ''bullets'' TStrList, req ''so_what'' TText,
        req ''recommended_decisions'' TStrList, req ''risks'' TStrList, req ''confidence'' TUnit,
        opt ''cost_usd'' TOptFloat VNone], strips = False\<rparr>"

definition executive_brief :: vertical_pack where
  "executive_brief = \<lparr>vp_id = ''executive_brief'',
     input_schema = executive_brief_input,
     output_schema = executive_brief_output,
     primary_field = ''text'', cuts_primary_text = False, class_dict = PLAIN_BODY,
     prompt_of = (\<lambda>rend d ref.
       (let bullet_count = py_str rend (py_or (dget d ''bullet_count'') (VInt 5)) in
        \<lparr>task_instructions = ''You are a chief of staff preparing an executive brief.'',
         labelled = [(''Target audience'', py_str rend (dget_or d ''audience'' (VStr ''CEO''))),
           (''Number of bullets'', bullet_count),
           (''Source material'', text_of_field rend d ''text'' ref)],
         ref_text = [],
         closing_instructions = ''Provide exactly '' @ bullet_count @ '' bullets. so_what must be one sharp paragraph.''\<rparr>))\<rparr>"

definition meeting_prep_input :: schema where
  "meeting_prep_input = \<lparr>fields_of = [req ''company'' (TStr 1 500), opt ''person'' (TStr 0 200) (VStr []),
        opt ''meeting_goal'' (TStr 0 500) (VStr ''discovery call''), opt ''context'' (TStr 0 2000) (VStr [])], strips = False\<rparr>"

definition meeting_prep_output :: schema where
  "meeting_prep_output = \<lparr>fields_of = [req ''company'' TText, req ''person'' TText, req ''company_overview'' TText,
        req ''recent_news'' TStrList, req ''talking_points'' TStrList, req ''questions_to_ask'' TStrList,
        req ''landmines'' TStrList, req ''confidence'' TUnit, opt ''cost_usd'' TOptFloat VNone], strips = False\<rparr>"

definition meeting_prep :: vertical_pack where
  "meeting_prep = \<lparr>vp_id = ''meeting_prep'',
     input_schema = meeting_prep_input,
     output_schema = meeting_prep_output,
     primary_field = ''company'', cuts_primary_text = False, class_dict = PLAIN_BODY,
     prompt_of = (\<lambda>rend d ref. \<lparr>task_instructions = ''You are a B2B sales intelligence assistant. Prepare a meeting brief.'',
        labelled = [(''Company'', py_str rend (dget d ''company'')),
          (''Contact'', text_of_field rend d ''person'' ''unknown''),
          (''Meeting goal'', py_str rend (dget_or d ''meeting_goal'' (VStr []))),
          (''Additional context'', text_of_field rend d ''context'' ''none'')],
        ref_text = ref,
        closing_instructions = ''Set company and person fields from the input. Be specific and actionable.''\<rparr>)\<rparr>"

definition rfp_assistant_input :: schema where
  "rfp_assistant_input = \<lparr>fields_of = [req ''query'' (TStr 1 500), opt ''rfp_text'' (TStr 0 20000) (VStr []),
        opt ''our_capabilities'' (TStr 0 4000) (VStr [])], strips = False\<rparr>"

definition rfp_assistant_output :: schema where
  "rfp_assistant_output = \<lparr>fields_of = [req ''query'' TText, req ''requirements'' TStrList, req ''gaps'' TStrList,
        req ''risks'' TStrList, req ''response_plan'' TStrList, req ''draft_sections'' TStrDict, req ''confidence'' TUnit,
        opt ''cost_usd'' TOptFloat VNone], strips = False\<rparr>"

definition rfp_assistant :: vertical_pack where
  "rfp_assistant = \<lparr>vp_id = ''rfp_assistant'',
     input_schema = rfp_assistant_input,
     output_schema = rfp_assistant_output,
     primary_field = ''query'', cuts_primary_text = False, class_dict = PLAIN_BODY,
     prompt_of = (\<lambda>rend d ref.
       (let rfp_body = text_of_field rend d ''rfp_text'' ref in
        \<lparr>task_instructions = ''You are an expert proposal manager. Analyse the RFP.'',
         labelled = [(''Project label'', py_str rend (dget d ''query'')),
           (''Our capabilities'', text_of_field rend d ''our_capabilities'' ''not provided''),
           (''RFP document'', if rfp_body = [] then ''(no document provided)'' else rfp_body)],
         ref_text = [],
         closing_instructions = ''Set query to the project label. draft_sections keys: ''
           @ ''executive_summary, approach, team, pricing_notes.''\<rparr>))\<rparr>"

definition support_triage_input :: schema where
  "support_triage_input = \<lparr>fields_of = [req ''ticket_subject'' (TStr 1 500), req ''body'' (TStr 1 8000),
        opt ''customer_tier'' (TStr 0 50) (VStr ''standard'')], strips = False\<rparr>"

definition support_triage_output :: schema where
  "support_triage_output = \<lparr>fields_of = [req ''category'' TText, req ''priority'' TText, req ''sentiment'' TText,
        req ''draft_reply'' TText, req ''escalate'' TBool, req ''escalation_reason'' TText, req ''suggested_tags'' TStrList,
        req ''confidence'' TUnit, opt ''cost_usd'' TOptFloat VNone], strips = False\<rparr>"

definition support_triage :: vertical_pack where
  "support_triage = \<lparr>vp_id = ''support_triage'',
     input_schema = support_triage_input,
     output_schema = support_triage_output,
     primary_field = ''ticket_subject'', cuts_primary_text = False, class_dict = PLAIN_BODY,
     prompt_of = (\<lambda>rend d ref. \<lparr>task_instructions = ''You are a senior customer support lead. Triage this ticket.'',
        labelled = [(''Customer tier'', py_str rend (dget_or d ''customer_tier'' (VStr ''standard''))),
          (''Subject'', py_str rend (dget d ''ticket_subject'')),
          (''Ticket body'', py_str rend (dget d ''body''))],
        ref_text = ref,
        closing_instructions = ''priority must be one of: low, medium, high, critical. ''
          @ ''sentiment: positive, neutral, negative, frustrated.''\<rparr>)\<rparr>"

definition VERTICAL_PACKS :: "vertical_pack list" where
  "VERTICAL_PACKS = [financial_memo, hr_policy_qa, job_description_writer, talent_screening, contract_reviewer,
     executive_brief, meeting_prep, rfp_assistant, support_triage]"

section \<open>From the input to the prompt\<close>

definition build_prompt :: "pack_env \<Rightarrow> vertical_pack \<Rightarrow> pydict \<Rightarrow> string \<Rightarrow> string" where
  "build_prompt env p d reference_text =
     (let parts = prompt_of p (rendered (tools env)) d reference_text
      in format_vertical_prompt (task_instructions parts) (labelled parts) (schema_json env (output_schema p))
           (ref_text parts) (closing_instructions parts))"

definition primary_text :: "pack_env \<Rightarrow> vertical_pack \<Rightarrow> pydict \<Rightarrow> string" where
  "primary_text env p d =
     (if cuts_primary_text p then take 500 (py_str (rendered (tools env)) (dget d ''job_description''))
      else if truthy (dget d (primary_field p)) then py_str (rendered (tools env)) (dget d (primary_field p))
      else take 500 (rendered (tools env) (VDict d)))"

definition REFERENCE_FIELDS :: "string list" where
  "REFERENCE_FIELDS = [''reference_text'', ''rfp_text'', ''contract_text'', ''document_text'', ''job_description'', ''resume_text'']"

definition CONNECTOR_SNIPPET_VALIDATOR :: input_validator where
  "CONNECTOR_SNIPPET_VALIDATOR = \<lparr>max_length = 100000\<rparr>"

definition snippet_of :: "(pyval \<Rightarrow> string) \<Rightarrow> pydict \<Rightarrow> string" where
  "snippet_of rend rec =
     py_str rend (py_or (py_or (py_or (dget rec ''snippet'') (dget rec ''text'')) (dget rec ''content''))
       (VStr (rend (VDict rec))))"

fun cite_records :: "(pyval \<Rightarrow> string) \<Rightarrow> source_ref list \<Rightarrow> pydict list \<Rightarrow> string list \<times> source_ref list" where
  \<comment> \<open>the references so far; the parts that are added, and all references\<close>
  "cite_records rend refs [] = ([], refs)"
| "cite_records rend refs (rec # recs) =
     (case check_content_safety CONNECTOR_SNIPPET_VALIDATOR (snippet_of rend rec) (Some 100000) of
        Inl e \<Rightarrow> cite_records rend refs recs
      | Inr _ \<Rightarrow>
          (let ref = record_to_source_ref rend rec (length refs + 1) in
           case cite_records rend (refs @ [ref]) recs of
             (parts, refs') \<Rightarrow> ((''['' @ ref_id ref @ ''] '' @ snippet_of rend rec) # parts, refs')))"

type_synonym retrieval = "(string \<Rightarrow> llm_exc + connector_result) option"

definition resolve_reference_text ::
  "pack_env \<Rightarrow> vertical_pack \<Rightarrow> retrieval \<Rightarrow> pydict \<Rightarrow> llm_exc + string \<times> source_ref list" where
  "resolve_reference_text env p connector d =
     (let rend = rendered (tools env);
          own = map (\<lambda>f. py_str rend (dget d f)) (filter (\<lambda>f. truthy (dget d f)) REFERENCE_FIELDS);
          sep = [NL, NL] @ ''---'' @ [NL, NL]
      in case connector of
           None \<Rightarrow> Inr (join sep own, [])
         | Some retrieve \<Rightarrow>
             (case retrieve (primary_text env p d) of
                Inr res \<Rightarrow> (case cite_records rend [] (res_records res) of (parts, refs) \<Rightarrow> Inr (join sep (own @ parts), refs))
              | Inl e \<Rightarrow> if isinstance e [''Exception''] then Inr (join sep own, []) else Inl e))"

section \<open>From the answer to the output\<close>

definition MAX_JSON_RESPONSE_BYTES :: nat where "MAX_JSON_RESPONSE_BYTES = 512 * 1024"

definition utf8_length :: "string \<Rightarrow> nat" where
  \<comment> \<open>0x97 stands for the em dash, which has three bytes\<close>
  "utf8_length s = sum_list (map (\<lambda>c. if (of_char c :: nat) < 128 then 1 else if c = CHR 0x97 then 3 else 2) s)"

definition is_dict :: "pyval \<Rightarrow> bool" where
  "is_dict v = (case v of VDict d \<Rightarrow> True | _ \<Rightarrow> False)"

definition extract_json_object :: "pack_env \<Rightarrow> string \<Rightarrow> pydict result" where
  "extract_json_object env raw =
     (if utf8_length raw > MAX_JSON_RESPONSE_BYTES then Inl ValueError
      else (case parse_json env (strip raw) of
         None \<Rightarrow> Inl ValueError
       | Some (VDict d) \<Rightarrow> Inr d
       | Some (VList xs) \<Rightarrow> (case find is_dict xs of Some v \<Rightarrow> Inr (as_dict v) | None \<Rightarrow> Inl ValueError)
       | Some v \<Rightarrow> Inl ValueError))"

definition model_validate :: "pack_env \<Rightarrow> schema \<Rightarrow> bool \<Rightarrow> pydict \<Rightarrow> llm_exc + pydict" where
  "model_validate env s strict d = (case validates env s strict d of None \<Rightarrow> Inl VALIDATION_ERROR | Some m \<Rightarrow> Inr m)"

definition parse_llm_output ::
  "pack_env \<Rightarrow> vertical_pack \<Rightarrow> string \<Rightarrow> pydict \<Rightarrow> llm option \<Rightarrow> llm_exc + pydict" where
  "parse_llm_output env p raw d llm =
     rbind (raised (extract_json_object env raw)) (\<lambda>found.
     rbind (raised (fst (guard_llm_output (env_policies env) (vp_id p) raw found))) (\<lambda>data.
     rbind (model_validate env (output_schema p) (vp_id p \<in> set REGULATED_PACK_IDS)
              (apply_compliance_output (env_policies env) (vp_id p) data)) (\<lambda>output.
     rbind (cross_check_output_if_enabled (tools env) (env_policies env) (vp_id p) (primary_text env p d) output llm)
       (\<lambda>_. Inr output))))"

definition inject_source_citations :: "pack_env \<Rightarrow> vertical_pack \<Rightarrow> source_ref list \<Rightarrow> pydict \<Rightarrow> pydict" where
  "inject_source_citations env p refs output =
     (if refs = [] \<or> ''sources'' \<notin> set (field_names (output_schema p)) then output
      else (let existing = map (py_str (rendered (tools env))) (as_list (dget output ''sources''))
            in AList.update ''sources'' (VList (map VStr (dedupe (existing @ map citation refs)))) output))"

section \<open>The node and the runs\<close>

definition RECORDED_ERRORS :: "string list" where
  "RECORDED_ERRORS = [''AgentBudgetExceededError'', ''AgentExecutionError'', ''AgentTimeoutError'', ''AgentValidationError'',
     ''JSONDecodeError'', ''ValueError'']"

definition invoke_model :: "pack_env \<Rightarrow> llm \<Rightarrow> string \<Rightarrow> llm_exc + pyval" where
  "invoke_model env invoke prompt =
     (case invoke prompt of
        Inr content \<Rightarrow> Inr content
      | Inl e \<Rightarrow> if isinstance e [''Exception''] \<and> is_auth_llm_error (installed_llm env) e
                 then Inl (make_auth_error e) else Inl e)"

definition node_body ::
  "pack_env \<Rightarrow> vertical_pack \<Rightarrow> llm option \<Rightarrow> pydict \<Rightarrow> string \<Rightarrow> source_ref list \<Rightarrow> llm_exc + pydict" where
  \<comment> \<open>what the node's \<open>try\<close> protects\<close>
  "node_body env p llm d reference_text refs =
     (case llm of
        None \<Rightarrow> Inl (plain_error EXECUTION_ERROR)
      | Some invoke \<Rightarrow>
          rbind (invoke_model env invoke (build_prompt env p d reference_text)) (\<lambda>content.
          rbind (raised (extract_text_content (rendered (tools env)) content)) (\<lambda>raw.
          rbind (parse_llm_output env p raw d llm) (\<lambda>output.
            Inr (inject_source_citations env p refs output)))))"

definition node_state :: "llm_exc + pydict \<Rightarrow> llm_exc + pydict option" where
  \<comment> \<open>the node's \<open>except\<close> clauses; \<open>None\<close>: the state says \<open>error\<close>\<close>
  "node_state outcome =
     (case outcome of
        Inr out \<Rightarrow> Inr (Some out)
      | Inl e \<Rightarrow>
          if isinstance e [''AgentAuthenticationError''] then Inl e
          else if isinstance e RECORDED_ERRORS then Inr None
          else Inl e)"

definition run_node ::
  "pack_env \<Rightarrow> vertical_pack \<Rightarrow> llm option \<Rightarrow> retrieval \<Rightarrow> pydict \<Rightarrow> string \<Rightarrow> source_ref list \<Rightarrow> llm_exc + pydict option" where
  "run_node env p llm connector body reference_text refs =
     rbind (model_validate env (input_schema p) False body) (\<lambda>d.
     rbind (if reference_text \<noteq> [] then Inr (reference_text, refs) else resolve_reference_text env p connector d)
       (\<lambda>r. node_state (node_body env p llm d (fst r) (snd r))))"

definition final_output :: "pack_env \<Rightarrow> vertical_pack \<Rightarrow> llm_exc + pydict option \<Rightarrow> llm_exc + pydict" where
  "final_output env p final =
     (case final of
        Inl e \<Rightarrow>
          if isinstance e [''AgentAuthenticationError''] then Inl e
          else if isinstance e [''Exception''] then Inl (wrap EXECUTION_ERROR e)
          else Inl e
      | Inr None \<Rightarrow> Inl (plain_error EXECUTION_ERROR)
      | Inr (Some out) \<Rightarrow>
          if out = [] then Inl (plain_error EXECUTION_ERROR)
          else model_validate env (output_schema p) False out)"

definition vertical_run_from_input ::
  "pack_env \<Rightarrow> vertical_pack \<Rightarrow> llm option \<Rightarrow> retrieval \<Rightarrow> pydict \<Rightarrow> llm_exc + pydict" where
  "vertical_run_from_input env p llm connector body =
     rbind (resolve_reference_text env p connector body) (\<lambda>r.
       final_output env p (run_node env p llm connector body (fst r) (snd r)))"

definition payload_of_query :: "vertical_pack \<Rightarrow> string \<Rightarrow> pydict" where
  "payload_of_query p q =
     (if primary_field p = ''ticket_subject'' \<and> ''body'' \<in> set (field_names (input_schema p))
      then [(primary_field p, VStr (strip q)), (''body'', VStr (strip q))]
      else [(primary_field p, VStr (strip q))])"

definition input_of_query :: "pack_env \<Rightarrow> vertical_pack \<Rightarrow> string \<Rightarrow> llm_exc + pydict" where
  "input_of_query env p q =
     (if blank q then Inl (plain_error VALIDATION_AGENT_ERROR)
      else if primary_field p \<notin> set (field_names (input_schema p)) then Inl (plain_error VALIDATION_AGENT_ERROR)
      else model_validate env (input_schema p) False (payload_of_query p q))"

definition vertical_run :: "pack_env \<Rightarrow> vertical_pack \<Rightarrow> llm option \<Rightarrow> retrieval \<Rightarrow> string \<Rightarrow> llm_exc + pydict" where
  "vertical_run env p llm connector q =
     rbind (input_of_query env p q) (vertical_run_from_input env p llm connector)"

section \<open>Streams and the pack as the endpoints see it\<close>

definition events_of_input :: "pack_env \<Rightarrow> vertical_pack \<Rightarrow> llm option \<Rightarrow> retrieval \<Rightarrow> pydict \<Rightarrow> source" where
  "events_of_input env p llm connector body =
     (let started = pack_stream_event ''phase_started'' [(''phase'', Plain (VStr (vp_id p)))] in
      case vertical_run_from_input env p llm connector body of
        Inl e \<Rightarrow> \<lparr>yielded = [started], failure = Some e\<rparr>
      | Inr out \<Rightarrow>
          \<lparr>yielded = [started, pack_stream_event ''phase_completed'' [(''phase'', Plain (VStr (vp_id p)))],
              pack_stream_event ''pipeline_completed'' [(''result'', ModelDump (VDict out))]],
           failure = None\<rparr>)"

definition events_of_query :: "pack_env \<Rightarrow> vertical_pack \<Rightarrow> llm option \<Rightarrow> retrieval \<Rightarrow> string \<Rightarrow> source" where
  "events_of_query env p llm connector q =
     (case input_of_query env p q of
        Inl e \<Rightarrow> \<lparr>yielded = [], failure = Some e\<rparr>
      | Inr body \<Rightarrow> events_of_input env p llm connector body)"

definition model_result :: "pydict \<Rightarrow> pack_result" where
  "model_result out = \<lparr>to_dict = None, model_dump = Some (VDict out), the_object = VDict out\<rparr>"

definition vertical_pack_impl :: "pack_env \<Rightarrow> vertical_pack \<Rightarrow> llm option \<Rightarrow> retrieval \<Rightarrow> pack_impl" where
  \<comment> \<open>the budget is checked and stored, and used by nothing\<close>
  "vertical_pack_impl env p llm connector =
     \<lparr>own_attributes = class_dict p,
      construct = (\<lambda>budget. case budget of None \<Rightarrow> None | Some b \<Rightarrow> if b < 0 then Some (exc_of ValueError) else None),
      run_from_input = (\<lambda>body. map_sum id model_result (vertical_run_from_input env p llm connector body)),
      run_text = (\<lambda>q. map_sum id model_result (vertical_run env p llm connector q)),
      run_cost = Some 0,
      close_pack = None,
      events_from_input = (\<lambda>body. stream_events (events_of_input env p llm connector body)),
      raw_events = events_of_query env p llm connector\<rparr>"

section \<open>What the packs rely on in pydantic\<close>

text \<open>Documented behaviour of \<open>model_validate\<close>: a missing required field is an error; the text of
  a \<open>str\<close> field and a \<open>bool\<close> are kept, up to \<open>str_strip_whitespace\<close>.\<close>

definition requires_fields :: "(schema \<Rightarrow> bool \<Rightarrow> pydict \<Rightarrow> pydict option) \<Rightarrow> bool" where
  "requires_fields mv \<longleftrightarrow> (\<forall>s strict d f. f \<in> set (fields_of s) \<and> sf_default f = None \<and> sf_name f \<notin> fst ` set d
     \<longrightarrow> mv s strict d = None)"

definition keeps_values :: "(schema \<Rightarrow> bool \<Rightarrow> pydict \<Rightarrow> pydict option) \<Rightarrow> bool" where
  "keeps_values mv \<longleftrightarrow> (\<forall>s strict d m f. mv s strict d = Some m \<and> f \<in> set (fields_of s) \<longrightarrow>
     (\<forall>b. sf_type f = TBool \<and> dget d (sf_name f) = VBool b \<longrightarrow> dget m (sf_name f) = VBool b)
     \<and> (\<forall>t. sf_type f = TText \<and> dget d (sf_name f) = VStr t \<longrightarrow>
          dget m (sf_name f) = VStr (if strips s then strip t else t)))"

section \<open>Regulated answers\<close>

lemma vertical_schemas:
  "list_all (\<lambda>p. ''sources'' \<notin> set (field_names (output_schema p))
      \<and> ''run_from_input'' \<notin> set (class_dict p) \<and> ''stream_events_from_input'' \<notin> set (class_dict p)
      \<and> primary_field p \<in> set (field_names (input_schema p))
      \<and> (vp_id p \<in> set REGULATED_PACK_IDS \<longrightarrow>
           opt ''human_review_required'' TBool (VBool True) \<in> set (fields_of (output_schema p))
           \<and> opt ''disclaimer'' TText (VStr []) \<in> set (fields_of (output_schema p)))) VERTICAL_PACKS"
  by code_simp

lemma vertical_schema:
  assumes "p \<in> set VERTICAL_PACKS"
  shows "''sources'' \<notin> set (field_names (output_schema p))" and "''run_from_input'' \<notin> set (class_dict p)"
    and "''stream_events_from_input'' \<notin> set (class_dict p)" and "primary_field p \<in> set (field_names (input_schema p))"
    and "vp_id p \<in> set REGULATED_PACK_IDS \<Longrightarrow> opt ''human_review_required'' TBool (VBool True) \<in> set (fields_of (output_schema p))
           \<and> opt ''disclaimer'' TText (VStr []) \<in> set (fields_of (output_schema p))"
  using vertical_schemas assms by (auto simp: list_all_iff)

lemma disclaimers_stripped: "list_all (\<lambda>(pid, t). strip t = t \<and> t \<noteq> []) DEFAULT_DISCLAIMERS"
  by code_simp

lemma model_validate_Inr [simp]: "model_validate env s strict d = Inr m \<longleftrightarrow> validates env s strict d = Some m"
  by (simp add: model_validate_def split: option.splits)

lemma validate_keeps:
  assumes "keeps_values (validates env)" and "validates env s strict d = Some m"
  shows "opt f TBool v \<in> set (fields_of s) \<Longrightarrow> dget d f = VBool b \<Longrightarrow> dget m f = VBool b"
    and "opt f TText v \<in> set (fields_of s) \<Longrightarrow> dget d f = VStr t \<Longrightarrow> strip t = t \<Longrightarrow> dget m f = VStr t"
  using assms unfolding keeps_values_def by (force simp: opt_def)+

text \<open>The way of an output from the provider's answer \<open>content\<close> to a prompt for the validated
  body: the text of the answer, its JSON object, the guard, the compliance fields, the output
  schema, and the second validation when the run hands it over.\<close>

definition answers_with ::
  "pack_env \<Rightarrow> vertical_pack \<Rightarrow> llm option \<Rightarrow> pydict \<Rightarrow> pydict \<Rightarrow> string \<Rightarrow> pydict \<Rightarrow> bool" where
  "answers_with env p llm body out raw d \<longleftrightarrow>
     (\<exists>invoke input reference_text content outp.
        llm = Some invoke \<and> validates env (input_schema p) False body = Some input
      \<and> invoke (build_prompt env p input reference_text) = Inr content
      \<and> extract_text_content (rendered (tools env)) content = Inr raw
      \<and> extract_json_object env raw = Inr d
      \<and> validates env (output_schema p) (vp_id p \<in> set REGULATED_PACK_IDS)
          (apply_compliance_output (env_policies env) (vp_id p) d) = Some outp
      \<and> validates env (output_schema p) False outp = Some out)"

lemma guard_passes: "fst (guard_llm_output reg pid raw d) = Inr data \<Longrightarrow> data = d"
  by (auto simp: guard_llm_output_def Let_def split: if_splits)

lemma invoke_model_Inr [simp]: "invoke_model env invoke prompt = Inr content \<longleftrightarrow> invoke prompt = Inr content"
  by (simp add: invoke_model_def split: sum.split)

lemma vertical_answer:
  assumes "vertical_run_from_input env p llm connector body = Inr out" and "p \<in> set VERTICAL_PACKS"
  obtains raw d where "answers_with env p llm body out raw d"
    and "fst (guard_llm_output (env_policies env) (vp_id p) raw d) = Inr d"
proof -
  obtain ref refs where "final_output env p (run_node env p llm connector body ref refs) = Inr out"
    using assms(1) unfolding vertical_run_from_input_def rbind_Inr_iff by blast
  then obtain outp where node: "run_node env p llm connector body ref refs = Inr (Some outp)"
    and out: "validates env (output_schema p) False outp = Some out"
    by (auto simp: final_output_def split: sum.splits option.splits if_splits)
  from node obtain input ref' refs' where inp: "validates env (input_schema p) False body = Some input"
    and "node_state (node_body env p llm input ref' refs') = Inr (Some outp)"
    unfolding run_node_def rbind_Inr_iff by auto
  then have "node_body env p llm input ref' refs' = Inr outp" by (simp add: node_state_def split: sum.splits if_splits)
  then obtain invoke content raw parsed where llm: "llm = Some invoke"
    "invoke (build_prompt env p input ref') = Inr content" "extract_text_content (rendered (tools env)) content = Inr raw"
    and "parse_llm_output env p raw input llm = Inr parsed"
    and "outp = inject_source_citations env p refs' parsed"
    by (auto simp: node_body_def rbind_Inr_iff split: option.splits)
  moreover have "inject_source_citations env p refs' parsed = parsed"
    using vertical_schema(1) [OF assms(2)] by (simp add: inject_source_citations_def)
  ultimately have "parse_llm_output env p raw input llm = Inr outp" by simp
  then obtain d where d: "extract_json_object env raw = Inr d"
    "fst (guard_llm_output (env_policies env) (vp_id p) raw d) = Inr d"
    "validates env (output_schema p) (vp_id p \<in> set REGULATED_PACK_IDS)
       (apply_compliance_output (env_policies env) (vp_id p) d) = Some outp"
    by (auto simp: parse_llm_output_def rbind_Inr_iff dest: guard_passes)
  then have "answers_with env p llm body out raw d" using llm inp out by (auto simp: answers_with_def)
  with d(2) that show ?thesis by blast
qed

text \<open>C18. Whatever the provider answers, an output of a regulated vertical pack that reaches the
  caller carries the pack's disclaimer and the mark for human review; and it is what the JSON
  object of an answer the provider gave to a prompt for this body becomes with the compliance
  fields and under the pack's output schema, where no text of that answer before the JSON and
  no string at any depth of the object showed injected instructions.\<close>

theorem regulated_vertical_answer:
  assumes "p \<in> set VERTICAL_PACKS" and "vp_id p \<in> set REGULATED_PACK_IDS" and "env_policies env = builtin_registry"
    and "keeps_values (validates env)" and "vertical_run_from_input env p llm connector body = Inr out"
  shows "dget out ''human_review_required'' = VBool True
    \<and> (\<exists>t. map_of DEFAULT_DISCLAIMERS (vp_id p) = Some t \<and> dget out ''disclaimer'' = VStr t)
    \<and> (\<exists>raw d. answers_with env p llm body out raw d
         \<and> \<not> list_ex suspicious (non_json_prefix raw # strings_of_dict d))"
proof -
  obtain raw d where ans: "answers_with env p llm body out raw d"
    and g: "fst (guard_llm_output (env_policies env) (vp_id p) raw d) = Inr d"
    by (rule vertical_answer [OF assms(5,1)])
  then obtain outp where v: "validates env (output_schema p) (vp_id p \<in> set REGULATED_PACK_IDS)
        (apply_compliance_output (env_policies env) (vp_id p) d) = Some outp"
    and v': "validates env (output_schema p) False outp = Some out"
    by (auto simp: answers_with_def)
  note g = g [unfolded assms(3)] and v = v [unfolded assms(3)]
  have clean: "\<not> list_ex suspicious (non_json_prefix raw # strings_of_dict d)"
    using g assms(2) guard_exact [of "vp_id p" raw d] by (simp split: if_splits)
  obtain t where t: "map_of DEFAULT_DISCLAIMERS (vp_id p) = Some t"
      "dget (apply_compliance_output builtin_registry (vp_id p) d) ''disclaimer'' = VStr t"
    and r: "dget (apply_compliance_output builtin_registry (vp_id p) d) ''human_review_required'' = VBool True"
    using compliance_applied [of "vp_id p" d] assms(2) by auto
  have "strip t = t" using t(1) disclaimers_stripped by (auto simp: list_all_iff dest!: map_of_SomeD)
  note fields = vertical_schema(5) [OF assms(1,2)]
  note once = validate_keeps [OF assms(4) v] and twice = validate_keeps [OF assms(4) v']
  have "dget out ''human_review_required'' = VBool True" using once(1) twice(1) fields r by blast
  moreover have "dget out ''disclaimer'' = VStr t" using once(2) twice(2) fields t(2) \<open>strip t = t\<close> by blast
  ultimately show ?thesis using t(1) ans clean by blast
qed

section \<open>Failures\<close>

definition foreign :: "llm_exc \<Rightarrow> bool" where
  \<comment> \<open>an \<open>Exception\<close> that is none of the agents' own\<close>
  "foreign e \<longleftrightarrow> isinstance e [''Exception'']
     \<and> \<not> isinstance e [''AgentError'', ''AgentBudgetExceededError'', ''AgentTimeoutError'', ''AgentAuthenticationError'',
          ''AgentExecutionError'', ''AgentValidationError'']"

definition ordinary :: "('a \<Rightarrow> llm_exc + 'b) option \<Rightarrow> bool" where
  "ordinary f \<longleftrightarrow> (\<forall>g x e. f = Some g \<and> g x = Inl e \<longrightarrow> foreign e)"

definition pack_error :: "llm_exc \<Rightarrow> bool" where
  "pack_error e \<longleftrightarrow> e = VALIDATION_ERROR \<or> e = plain_error EXECUTION_ERROR \<or> e = plain_error VALIDATION_AGENT_ERROR
     \<or> (\<exists>x. e = make_auth_error x \<or> e = wrap EXECUTION_ERROR x)"

lemma foreign_errors: "foreign VALIDATION_ERROR" "foreign (exc_of e)"
  "foreign (Exc [''AttributeError'', ''Exception''] None None None None)"
proof -
  show "foreign VALIDATION_ERROR" "foreign (Exc [''AttributeError'', ''Exception''] None None None None)"
    by (simp_all add: foreign_def isinstance_def VALIDATION_ERROR_def)
  show "foreign (exc_of e)" by (cases e) (simp_all add: foreign_def isinstance_def exc_of_def)
qed

lemma resolve_ordinary:
  assumes "ordinary connector"
  shows "\<exists>r. resolve_reference_text env p connector d = Inr r"
proof (cases connector)
  case None
  then show ?thesis by (simp add: resolve_reference_text_def Let_def)
next
  case (Some get)
  show ?thesis
  proof (cases "get (primary_text env p d)")
    case (Inl e)
    then have "isinstance e [''Exception'']" using assms Some by (auto simp: ordinary_def foreign_def)
    then show ?thesis using Some Inl by (simp add: resolve_reference_text_def Let_def)
  next
    case (Inr res)
    then show ?thesis using Some by (simp add: resolve_reference_text_def Let_def split: prod.splits)
  qed
qed

lemma raised_Inl: "raised r = Inl e \<Longrightarrow> foreign e"
  by (cases r) (auto simp: raised_def foreign_errors)

lemma model_validate_Inl: "model_validate env s strict d = Inl e \<longleftrightarrow> validates env s strict d = None \<and> e = VALIDATION_ERROR"
  by (auto simp: model_validate_def split: option.splits)

lemma check_verdict_Inl: "check_verdict t r = Inl e \<Longrightarrow> foreign e"
  by (cases r) (auto simp: check_verdict_def foreign_errors split: option.splits prod.splits if_splits)

lemma cross_check_Inl:
  assumes "ordinary llm" and "cross_check_output_if_enabled t reg pid task out llm = Inl e"
  shows "foreign e"
proof -
  obtain invoke q where "llm = Some invoke" and "rbind (invoke q) (check_verdict t) = Inl e"
    using assms(2) unfolding cross_check_output_if_enabled_def by (simp split: if_splits option.splits)
  then show ?thesis using assms(1) by (auto simp: rbind_Inl_iff ordinary_def dest: check_verdict_Inl)
qed

lemma node_body_Inl:
  assumes "ordinary llm" and "node_body env p llm d ref refs = Inl e"
  shows "foreign e \<or> e = plain_error EXECUTION_ERROR \<or> (\<exists>x. e = make_auth_error x)"
proof (cases llm)
  case None
  then show ?thesis using assms(2) by (simp add: node_body_def)
next
  case (Some invoke)
  have model: "foreign e \<or> (\<exists>x. e = make_auth_error x)" if "invoke_model env invoke q = Inl e" for q
    using that assms(1) Some by (auto simp: invoke_model_def ordinary_def split: sum.splits if_splits)
  have parse: "foreign e" if "parse_llm_output env p raw d llm = Inl e" for raw
    using that cross_check_Inl [OF assms(1)]
    by (auto simp: parse_llm_output_def rbind_Inl_iff model_validate_Inl foreign_errors dest: raised_Inl)
  show ?thesis
    using assms(2) Some model parse by (auto simp: node_body_def rbind_Inl_iff dest: raised_Inl)
qed

lemma node_state_Inl:
  assumes "ordinary llm" and "node_state (node_body env p llm d ref refs) = Inl e"
  shows "foreign e \<or> (\<exists>x. e = make_auth_error x)"
proof -
  have "isinstance (plain_error EXECUTION_ERROR) RECORDED_ERRORS"
    by (simp add: isinstance_def plain_error_def EXECUTION_ERROR_def RECORDED_ERRORS_def)
  moreover have "\<not> isinstance (plain_error EXECUTION_ERROR) [''AgentAuthenticationError'']"
    by (simp add: isinstance_def plain_error_def EXECUTION_ERROR_def)
  ultimately have "node_body env p llm d ref refs = Inl e" and "e \<noteq> plain_error EXECUTION_ERROR"
    using assms(2) by (auto simp: node_state_def split: sum.splits if_splits)
  then show ?thesis using node_body_Inl [OF assms(1)] by blast
qed

lemma run_node_Inl:
  assumes "ordinary llm" and "ordinary connector" and "run_node env p llm connector body ref refs = Inl e"
  shows "foreign e \<or> (\<exists>x. e = make_auth_error x)"
proof -
  have resolved: "resolve_reference_text env p connector d \<noteq> Inl e" for d
    using resolve_ordinary [OF assms(2), of env p d] by auto
  from assms(3) consider "e = VALIDATION_ERROR" | d r where "node_state (node_body env p llm d (fst r) (snd r)) = Inl e"
    unfolding run_node_def rbind_Inl_iff model_validate_Inl using resolved by (metis sum.distinct(1))
  then show ?thesis using node_state_Inl [OF assms(1)] foreign_errors(1) by cases blast+
qed

lemma run_from_input_Inl:
  assumes "ordinary llm" and "ordinary connector" and "vertical_run_from_input env p llm connector body = Inl e"
  shows "pack_error e"
proof -
  obtain r where f: "final_output env p (run_node env p llm connector body (fst r) (snd r)) = Inl e"
    using assms(3) resolve_ordinary [OF assms(2), of env p body] by (auto simp: vertical_run_from_input_def)
  show ?thesis
  proof (cases "run_node env p llm connector body (fst r) (snd r)")
    case (Inl x)
    from run_node_Inl [OF assms(1,2) Inl] show ?thesis
    proof
      assume "foreign x"
      then have "isinstance x [''Exception'']" and "\<not> isinstance x [''AgentAuthenticationError'']"
        by (auto simp: foreign_def isinstance_def)
      with f Inl show ?thesis by (auto simp: final_output_def pack_error_def)
    next
      assume "\<exists>y. x = make_auth_error y"
      then obtain y where y: "x = make_auth_error y" by blast
      then have "isinstance x [''AgentAuthenticationError'']"
        by (simp add: make_auth_error_def wrap_def AUTHENTICATION_ERROR_def isinstance_def)
      with f Inl y show ?thesis by (auto simp: final_output_def pack_error_def)
    qed
  next
    case (Inr state)
    with f show ?thesis
      by (auto simp: final_output_def pack_error_def model_validate_Inl split: option.splits if_splits)
  qed
qed

lemma wrapped_answer:
  "failure_answer installed (wrap EXECUTION_ERROR x) \<in> {Status 500, Status 502}"
  "failure_answer installed (plain_error EXECUTION_ERROR) \<in> {Status 500, Status 502}"
  "failure_answer installed (plain_error VALIDATION_AGENT_ERROR) \<in> {Status 500, Status 502}"
  by (subst failure_answer_wrapped; simp add: isinstance_def wrap_def plain_error_def EXECUTION_ERROR_def VALIDATION_AGENT_ERROR_def)+

lemma auth_answer: "failure_answer installed (make_auth_error x) = Status 502"
  by (simp add: failure_answer_def isinstance_def make_auth_error_def wrap_def AUTHENTICATION_ERROR_def)

lemma validation_answer: "failure_answer installed VALIDATION_ERROR = Raised VALIDATION_ERROR"
  by (simp add: failure_answer_def isinstance_def VALIDATION_ERROR_def)

lemma pack_error_answer:
  "pack_error e \<Longrightarrow> failure_answer installed e \<in> {Status 500, Status 502, Raised VALIDATION_ERROR}"
  unfolding pack_error_def using wrapped_answer auth_answer validation_answer by (elim disjE exE; simp) blast+

text \<open>A failing run of a vertical pack is answered with 502 or 500, or ends in the server
  error of an unhandled validation error: whatever the provider and the connector raise, the
  statuses 402 (budget) and 504 (time-out) that the endpoint has for failing runs do not
  occur for these packs.\<close>

theorem vertical_failure_statuses:
  assumes "ordinary llm" and "ordinary connector"
    and "invoke_pack_run rend (vertical_pack_impl env p llm connector) body = Inl e"
  shows "failure_answer installed e \<in> {Status 500, Status 502, Raised VALIDATION_ERROR}"
proof (rule pack_error_answer)
  have q: "pack_error e" if "input_of_query env p t = Inl e" for t
    using that by (auto simp: input_of_query_def pack_error_def model_validate_Inl split: if_splits)
  from assms(3) show "pack_error e"
    using run_from_input_Inl [OF assms(1,2)] q
    by (auto simp: invoke_pack_run_def vertical_pack_impl_def vertical_run_def rbind_Inl_iff split: if_splits sum.splits)
      (auto simp: map_sum_def rbind_Inl_iff split: sum.splits)
qed

section \<open>What reaches a vertical pack\<close>

text \<open>The endpoints look for \<open>run_from_input\<close> and \<open>stream_events_from_input\<close> in the class's own
  dictionary, and the nine vertical packs inherit both: runs and streams depend on nothing of the
  body but its primary text. A contract's text, a resume, a handbook never reach the pack.\<close>

theorem vertical_sees_primary_text_only:
  assumes "p \<in> set VERTICAL_PACKS" and "pack_primary_text rend body = pack_primary_text rend body'"
  shows "invoke_pack_run rend (vertical_pack_impl env p llm connector) body
      = invoke_pack_run rend (vertical_pack_impl env p llm connector) body'
    \<and> iter_pack_stream_events rend (vertical_pack_impl env p llm connector) body
      = iter_pack_stream_events rend (vertical_pack_impl env p llm connector) body'"
  using assms(2) vertical_schema(2,3) [OF assms(1)]
  by (simp add: invoke_pack_run_def iter_pack_stream_events_def pack_has_structured_input_def
      pack_has_structured_stream_def vertical_pack_impl_def)

lemma talent_screening_text:
  assumes "requires_fields (validates env)"
  shows "\<exists>e. vertical_run env talent_screening llm connector q = Inl e"
proof (cases "blank q")
  case True
  then show ?thesis by (simp add: vertical_run_def input_of_query_def)
next
  case False
  have "req ''resume_text'' (TStr 1 15000) \<in> set (fields_of (input_schema talent_screening))"
    by (simp add: talent_screening_def talent_screening_input_def)
  moreover have "''resume_text'' \<notin> fst ` set (payload_of_query talent_screening q)"
    by (simp add: payload_of_query_def talent_screening_def)
  ultimately have "validates env (input_schema talent_screening) False (payload_of_query talent_screening q) = None"
    using assms unfolding requires_fields_def req_def by (metis schema_field.select_convs(1,3))
  then show ?thesis by (auto simp: vertical_run_def input_of_query_def rbind_Inl_iff model_validate_Inl)
qed

text \<open>Talent screening cannot be used: its input needs a resume, and the endpoint passes
  nothing but a text. No request, whatever its body, is answered with a result.\<close>

theorem talent_screening_never_answers:
  assumes "requires_fields (validates env)"
    and "\<And>cls. impl_of rt cls = vertical_pack_impl env talent_screening llm connector"
  shows "\<exists>err. fst (run_pack acquire release st rt c body w) = Inl err"
proof (cases "begin_run acquire st rt c body w")
  case (Pair res w1)
  show ?thesis
  proof (cases res)
    case (Inl err)
    with Pair show ?thesis by (simp add: run_pack_def)
  next
    case (Inr tk)
    have "talent_screening \<in> set VERTICAL_PACKS" by (simp add: VERTICAL_PACKS_def)
    from vertical_schema(2) [OF this] obtain e where
      "invoke_pack_run (render st) (impl_of rt (tk_class tk)) (tk_body tk) = Inl e"
      using talent_screening_text [OF assms(1), of llm connector "pack_primary_text (render st) (tk_body tk)"] assms(2)
      by (auto simp: invoke_pack_run_def pack_has_structured_input_def vertical_pack_impl_def)
    then have "\<exists>e. execute_pack st rt w1 tk = Inl e"
      by (auto simp: execute_pack_def Let_def split: option.splits)
    then have "\<exists>e. fst (guarded_run st rt c tk w1) = Inl e" by (auto simp: guarded_run_def)
    then have "\<exists>e. fst (finish_run release st rt c tk w1) = Inl e" by (auto simp: finish_run_def respond_def split: prod.splits)
    then show ?thesis using Pair Inr by (simp add: run_pack_def)
  qed
qed

section \<open>A small environment\<close>

definition tidy :: "schema \<Rightarrow> pyval \<Rightarrow> pyval" where
  "tidy s v = (case v of VStr t \<Rightarrow> VStr (if strips s then strip t else t) | _ \<Rightarrow> v)"

definition demo_field :: "schema \<Rightarrow> pydict \<Rightarrow> schema_field \<Rightarrow> string \<times> pyval" where
  "demo_field s d f = (sf_name f, tidy s (dget_or d (sf_name f) (case sf_default f of None \<Rightarrow> VNone | Some v \<Rightarrow> v)))"

definition demo_validates :: "schema \<Rightarrow> bool \<Rightarrow> pydict \<Rightarrow> pydict option" where
  \<comment> \<open>presence and absence of fields and white space; no types\<close>
  "demo_validates s strict d =
     (if list_all (\<lambda>f. sf_default f \<noteq> None \<or> sf_name f \<in> set (map fst d)) (fields_of s)
         \<and> list_all (\<lambda>k. k \<in> set (field_names s)) (map fst d)
      then Some (map (demo_field s d) (fields_of s)) else None)"

lemma demo_requires: "requires_fields demo_validates"
  by (auto simp: requires_fields_def demo_validates_def list_all_iff)

lemma demo_field_lookup:
  assumes "dget d (sf_name f) = v" and "v \<noteq> VNone" and "f \<in> set fs"
  shows "dget (map (demo_field s d) fs) (sf_name f) = tidy s v"
proof -
  have "map_of d (sf_name f) = Some v" using assms(1,2) by (auto simp: dget_def split: option.splits)
  then have "map_of (map (demo_field s d) fs) (sf_name f) = Some (tidy s v)"
    using assms(3) by (induction fs) (auto simp: demo_field_def dget_or_def)
  then show ?thesis by (simp add: dget_def)
qed

lemma demo_keeps: "keeps_values demo_validates"
  by (auto simp: keeps_values_def demo_validates_def demo_field_lookup tidy_def split: if_splits)

definition demo_answer_json :: pydict where
  "demo_answer_json = [(''query'', VStr ''Lease''), (''risk_score'', VFloat (1/2)), (''flagged_clauses'', VList [VStr ''3'']),
     (''deviations_from_playbook'', VList []), (''recommended_actions'', VList []), (''summary'', VStr '' Fair. ''),
     (''confidence'', VInt 1)]"

definition demo_env :: pack_env where
  "demo_env = \<lparr>validates = demo_validates, parse_json = (\<lambda>s. Some (VDict demo_answer_json)),
     tools = \<lparr>loads = (\<lambda>s. None), dumps = (\<lambda>v. ''{}''), verdict_of = (\<lambda>v. None), rendered = (\<lambda>v. ''{}'')\<rparr>,
     schema_json = (\<lambda>s. ''{}''), installed_llm = (\<lambda>s. True), env_policies = builtin_registry\<rparr>"

definition demo_llm :: llm where "demo_llm q = Inr (VStr ''{}'')"

definition contract_body :: "string \<Rightarrow> pydict" where
  "contract_body t = [(''query'', VStr ''Lease''), (''contract_text'', VStr t), (''contract_type'', VStr ''msa''), (''jurisdiction'', VStr [])]"

definition lease_body :: pydict where "lease_body = contract_body ''The tenant pays.''"

lemma contract_schemas:
  "vp_id contract_reviewer = ''contract_reviewer''"
  "cuts_primary_text contract_reviewer = False"
  "primary_field contract_reviewer = ''query''"
  "input_schema contract_reviewer = \<lparr>fields_of = [req ''query'' (TStr 1 500), opt ''contract_text'' (TStr 0 50000) (VStr []),
        opt ''contract_type'' (TStr 0 100) (VStr ''msa''), opt ''jurisdiction'' (TStr 0 100) (VStr [])], strips = False\<rparr>"
  "field_names (output_schema contract_reviewer) = [''query'', ''risk_score'', ''flagged_clauses'', ''deviations_from_playbook'',
     ''recommended_actions'', ''summary'', ''confidence'', ''human_review_required'', ''disclaimer'', ''cost_usd'']"
  by (simp_all add: contract_reviewer_def contract_reviewer_input_def contract_reviewer_output_def field_names_def req_def opt_def
      review_fields_def)

lemma demo_env_facts: "env_policies demo_env = builtin_registry" "keeps_values (validates demo_env)"
  "requires_fields (validates demo_env)" "contract_reviewer \<in> set VERTICAL_PACKS" 
  using demo_keeps demo_requires by (simp_all add: demo_env_def VERTICAL_PACKS_def)

lemma contract_regulated: "vp_id contract_reviewer \<in> set REGULATED_PACK_IDS"
  by code_simp

definition demo_compliant :: pydict where
  "demo_compliant = apply_compliance_output builtin_registry ''contract_reviewer'' demo_answer_json"

lemma demo_clean: "\<not> list_ex suspicious (non_json_prefix ''{}'' # strings_of_dict demo_answer_json)"
  by code_simp

lemma demo_compliant_keys: "map fst demo_compliant = [''query'', ''risk_score'', ''flagged_clauses'',
    ''deviations_from_playbook'', ''recommended_actions'', ''summary'', ''confidence'', ''human_review_required'', ''disclaimer'']"
  by code_simp

lemma no_cross_check: "\<not> policy_cross_check_enabled builtin_registry ''contract_reviewer''"
  by code_simp

definition demo_checked :: pydict where
  "demo_checked = map (demo_field (output_schema contract_reviewer) demo_compliant) (fields_of (output_schema contract_reviewer))"

lemma demo_validates_keys:
  assumes "list_all (\<lambda>f. sf_default f \<noteq> None \<or> sf_name f \<in> set (map fst d)) (fields_of s)"
    and "list_all (\<lambda>k. k \<in> set (field_names s)) (map fst d)"
  shows "demo_validates s strict d = Some (map (demo_field s d) (fields_of s))"
  using assms by (simp add: demo_validates_def)

lemma demo_checked: "demo_validates (output_schema contract_reviewer) True demo_compliant = Some demo_checked"
  unfolding demo_checked_def
proof (rule demo_validates_keys)
  show "list_all (\<lambda>f. sf_default f \<noteq> None \<or> sf_name f \<in> set (map fst demo_compliant)) (fields_of (output_schema contract_reviewer))"
    by (simp add: contract_reviewer_def contract_reviewer_output_def demo_compliant_keys req_def opt_def review_fields_def)
  show "list_all (\<lambda>k. k \<in> set (field_names (output_schema contract_reviewer))) (map fst demo_compliant)"
    by (simp add: contract_schemas demo_compliant_keys)
qed

lemma demo_rechecked: "\<not> isl (model_validate demo_env (output_schema contract_reviewer) False demo_checked) \<and> demo_checked \<noteq> []"
proof -
  have keys: "map fst demo_checked = field_names (output_schema contract_reviewer)"
    by (simp add: demo_checked_def field_names_def demo_field_def)
  have "demo_validates (output_schema contract_reviewer) False demo_checked \<noteq> None"
    by (subst demo_validates_keys) (simp_all only: keys, simp_all add: list_all_iff field_names_def)
  moreover have "demo_checked \<noteq> []" using keys contract_schemas(5) by auto
  ultimately show ?thesis by (auto simp: model_validate_def demo_env_def)
qed

lemma demo_parse: "parse_llm_output demo_env contract_reviewer ''{}'' lease_body (Some demo_llm) = Inr demo_checked"
proof -
  have "extract_json_object demo_env ''{}'' = Inr demo_answer_json"
    by (simp add: extract_json_object_def demo_env_def utf8_length_def MAX_JSON_RESPONSE_BYTES_def)
  moreover have "fst (guard_llm_output builtin_registry ''contract_reviewer'' ''{}'' demo_answer_json) = Inr demo_answer_json"
    using demo_clean guard_exact by metis
  ultimately show ?thesis
    using demo_checked no_cross_check contract_regulated demo_env_facts(1)
    by (simp add: parse_llm_output_def contract_schemas raised_def model_validate_def demo_compliant_def [symmetric]
        cross_check_output_if_enabled_def) (simp add: demo_env_def)
qed

lemma lease_valid: "model_validate demo_env (input_schema contract_reviewer) False lease_body = Inr lease_body"
  "resolve_reference_text demo_env contract_reviewer None lease_body = Inr (''The tenant pays.'', [])"
  by code_simp+

lemma demo_node: "node_body demo_env contract_reviewer (Some demo_llm) lease_body ref [] = Inr demo_checked"
  by (simp add: node_body_def invoke_model_def demo_llm_def extract_text_content_def inject_source_citations_def
      demo_parse raised_def)

lemma demo_review:
  "\<not> isl (vertical_run_from_input demo_env contract_reviewer (Some demo_llm) None lease_body)"
  using demo_rechecked
  by (simp add: vertical_run_from_input_def lease_valid run_node_def demo_node node_state_def final_output_def)

theorem regulated_vertical_answer_witness:
  "\<exists>out. vertical_run_from_input demo_env contract_reviewer (Some demo_llm) None lease_body = Inr out
     \<and> dget out ''human_review_required'' = VBool True"
  using demo_review regulated_vertical_answer [OF demo_env_facts(4) contract_regulated demo_env_facts(1,2)]
  by (cases "vertical_run_from_input demo_env contract_reviewer (Some demo_llm) None lease_body") auto

definition bad_key :: llm_exc where
  "bad_key = Exc [''openai.AuthenticationError'', ''Exception''] (Some 401) None None None"

definition failing_run :: "llm_exc + pack_result" where
  "failing_run = invoke_pack_run (\<lambda>v. ''{}'') (vertical_pack_impl demo_env contract_reviewer (Some (\<lambda>q. Inl bad_key)) None)
      lease_body"

definition lease_query :: pydict where
  "lease_query = contract_body []"

lemma lease_query: "pack_primary_text (\<lambda>v. ''{}'') lease_body = ''Lease''"
  "input_of_query demo_env contract_reviewer ''Lease'' = Inr lease_query"
  "resolve_reference_text demo_env contract_reviewer None lease_query = Inr ([], [])"
  "model_validate demo_env (input_schema contract_reviewer) False lease_query = Inr lease_query"
proof -
  have "strip ''Lease'' = ''Lease''" by code_simp
  then show "input_of_query demo_env contract_reviewer ''Lease'' = Inr lease_query"
    by (simp add: input_of_query_def blank_iff contract_schemas payload_of_query_def model_validate_def demo_env_def
        demo_validates_def demo_field_def tidy_def lease_query_def contract_body_def field_names_def req_def opt_def dget_or_def)
  show "pack_primary_text (\<lambda>v. ''{}'') lease_body = ''Lease''"
    by (simp add: pack_primary_text_def PRIMARY_FIELDS_def lease_body_def contract_body_def dget_def)
  show "resolve_reference_text demo_env contract_reviewer None lease_query = Inr ([], [])"
    by (simp add: resolve_reference_text_def REFERENCE_FIELDS_def lease_query_def contract_body_def dget_def Let_def)
  show "model_validate demo_env (input_schema contract_reviewer) False lease_query = Inr lease_query"
    by (simp add: contract_schemas model_validate_def demo_env_def demo_validates_def demo_field_def tidy_def
        lease_query_def contract_body_def field_names_def req_def opt_def dget_or_def)
qed

lemma failing_run_fails: "isl failing_run"
proof -
  have "node_body demo_env contract_reviewer (Some (\<lambda>q. Inl bad_key)) d ref refs = Inl (make_auth_error bad_key)" for d ref refs
    by (simp add: node_body_def invoke_model_def is_auth_llm_error_def isinstance_def bad_key_def http_status_code_def AUTH_HTTP_STATUS_CODES_def)
  moreover have "isinstance (make_auth_error bad_key) [''AgentAuthenticationError'']"
    by (simp add: make_auth_error_def wrap_def AUTHENTICATION_ERROR_def isinstance_def)
  ultimately have "vertical_run_from_input demo_env contract_reviewer (Some (\<lambda>q. Inl bad_key)) None lease_query = Inl (make_auth_error bad_key)"
    by (simp add: vertical_run_from_input_def lease_query run_node_def node_state_def final_output_def)
  then show ?thesis using vertical_schema(2) [OF demo_env_facts(4)]
    by (simp add: failing_run_def invoke_pack_run_def pack_has_structured_input_def vertical_pack_impl_def vertical_run_def lease_query)
qed

theorem vertical_failure_statuses_witness:
  "isl failing_run \<and> failure_answer (\<lambda>s. True) (projl failing_run) \<in> {Status 500, Status 502, Raised VALIDATION_ERROR}"
proof -
  have "ordinary (Some ((\<lambda>q. Inl bad_key) :: llm))" "ordinary (None :: retrieval)"
    by (auto simp: ordinary_def foreign_def bad_key_def isinstance_def)
  moreover have "invoke_pack_run (\<lambda>v. ''{}'') (vertical_pack_impl demo_env contract_reviewer (Some (\<lambda>q. Inl bad_key)) None)
      lease_body = Inl (projl failing_run)"
    using failing_run_fails unfolding failing_run_def by (rule isl_def [THEN iffD1, THEN exE]) simp
  ultimately have "failure_answer (\<lambda>s. True) (projl failing_run) \<in> {Status 500, Status 502, Raised VALIDATION_ERROR}"
    by (rule vertical_failure_statuses)
  then show ?thesis using failing_run_fails by blast
qed

theorem vertical_sees_primary_text_only_witness:
  "invoke_pack_run (\<lambda>v. ''{}'') (vertical_pack_impl demo_env contract_reviewer (Some demo_llm) None) lease_body
     = invoke_pack_run (\<lambda>v. ''{}'') (vertical_pack_impl demo_env contract_reviewer (Some demo_llm) None) (contract_body ''The landlord pays.'')"
  by (rule vertical_sees_primary_text_only [THEN conjunct1, OF demo_env_facts(4)]) code_simp

definition talent_route :: pack_route where
  "talent_route = \<lparr>route_pack_id = ''talent_screening'', impl_of = (\<lambda>cls. vertical_pack_impl demo_env talent_screening (Some demo_llm) None),
     from_analysis_report = None, from_research_result = None, from_summary_result = None, field_max_length = (\<lambda>_. None),
     response_fits = (\<lambda>_. True)\<rparr>"

theorem talent_screening_never_answers_witness:
  "\<exists>err. fst (run_pack mem_try_acquire mem_release (demo_settings True) talent_route (demo_call () ())
      [(''job_description'', VStr ''Engineer''), (''resume_text'', VStr ''Ada'')] (demo_service_of [])) = Inl err"
  by (rule talent_screening_never_answers [OF demo_env_facts(3)]) (simp add: talent_route_def)

end
