(* ===== verification/Contracts.thy ===== *)
theory Contracts
  imports Research
begin

text \<open>
  The strict contract between the agents (\<open>agents/models.py\<close>): \<open>to_dict\<close> and \<open>from_dict\<close> of the
  contract models. Validation is pydantic's in strict mode, without extra fields: a text, a list of
  texts, a number (an \<open>int\<close> for a \<open>float\<close>, but no \<open>bool\<close>) or a dictionary.
\<close>

section \<open>Fields and their errors\<close>

datatype field_kind = KText | KTexts | KNumber | KDict

datatype contract_error = Missing string | Unknown string | Wrong string  \<comment> \<open>with the place\<close>

type_synonym contract_fields = "(string \<times> field_kind \<times> bool) list"   \<comment> \<open>the flag: required\<close>

definition is_text :: "pyval \<Rightarrow> bool" where
  "is_text v \<longleftrightarrow> (case v of VStr s \<Rightarrow> True | _ \<Rightarrow> False)"

definition field_errors :: "string \<Rightarrow> field_kind \<Rightarrow> pyval \<Rightarrow> contract_error list" where
  "field_errors name kind v =
     (case (kind, v) of
        (KText, VStr s) \<Rightarrow> []
      | (KTexts, VList xs) \<Rightarrow>
          map (\<lambda>(i, x). Wrong (name @ ''.'' @ show_nat i)) (filter (\<lambda>(i, x). \<not> is_text x) (enumerate 0 xs))
      | (KNumber, VFloat r) \<Rightarrow> []
      | (KNumber, VInt i) \<Rightarrow> []
      | (KDict, VDict d) \<Rightarrow> []
      | _ \<Rightarrow> [Wrong name])"

definition contract_errors :: "contract_fields \<Rightarrow> pydict \<Rightarrow> contract_error list" where
  "contract_errors fs d =
     concat (map (\<lambda>(name, kind, required).
         case map_of d name of
           None \<Rightarrow> if required then [Missing name] else []
         | Some v \<Rightarrow> field_errors name kind v) fs)
     @ map (\<lambda>(k, v). Unknown k) (filter (\<lambda>(k, v). k \<notin> fst ` set fs) d)"

definition ticked :: "string \<Rightarrow> string" where
  "ticked s = CHR 0x27 # s @ [CHR 0x27]"

definition contract_message :: "(string list \<Rightarrow> string list) \<Rightarrow> (string \<Rightarrow> string) \<Rightarrow> string \<Rightarrow> contract_error list \<Rightarrow> string" where
  \<comment> \<open>\<open>sorted\<close> and pydantic's own messages are arguments\<close>
  "contract_message sorted_texts msg cls errs =
     (let told = concat (map (\<lambda>e. case e of
            Missing loc \<Rightarrow> [''missing required field '' @ ticked loc]
          | Wrong loc \<Rightarrow> [''field '' @ ticked loc @ '': '' @ msg loc]
          | Unknown loc \<Rightarrow> []) errs);
          unknown = concat (map (\<lambda>e. case e of Unknown loc \<Rightarrow> [loc] | _ \<Rightarrow> []) errs)
      in ''Invalid '' @ cls @ '' payload: ''
         @ join ''; '' (told @ (if unknown = [] then [] else [''unknown fields: '' @ join '', '' (sorted_texts unknown)])) @ ''.'')"

definition from_dict :: "contract_fields \<Rightarrow> (pydict \<Rightarrow> 'a) \<Rightarrow> pyval \<Rightarrow> 'a result" where
  "from_dict fs build_model data =
     (case data of
        VDict d \<Rightarrow> if contract_errors fs d = [] then Inr (build_model d) else Inl ValueError
      | _ \<Rightarrow> Inl ValueError)"

section \<open>Reading fields\<close>

definition text_at :: "pydict \<Rightarrow> string \<Rightarrow> string" where
  "text_at d k = (case dget d k of VStr s \<Rightarrow> s | _ \<Rightarrow> [])"

definition texts_at :: "pydict \<Rightarrow> string \<Rightarrow> string list" where
  "texts_at d k = map (\<lambda>v. case v of VStr s \<Rightarrow> s | _ \<Rightarrow> []) (as_list (dget d k))"

definition number_at :: "pydict \<Rightarrow> string \<Rightarrow> rat" where
  "number_at d k = (case dget d k of VFloat r \<Rightarrow> r | VInt i \<Rightarrow> of_int i | _ \<Rightarrow> 0)"

definition dict_at :: "pydict \<Rightarrow> string \<Rightarrow> pydict" where
  "dict_at d k = as_dict (dget d k)"

section \<open>\<open>ResearchResult\<close>\<close>

definition RESEARCH_FIELDS :: contract_fields where
  "RESEARCH_FIELDS = [(''query'', KText, True), (''findings'', KTexts, False), (''summary'', KText, False),
     (''sources'', KTexts, False), (''confidence'', KNumber, False), (''metadata'', KDict, False)]"

definition research_of :: "pydict \<Rightarrow> research_result" where
  "research_of d =
     \<lparr>rr_query = text_at d ''query'', rr_findings = texts_at d ''findings'', rr_summary = text_at d ''summary'',
      rr_sources = texts_at d ''sources'', rr_confidence = number_at d ''confidence'', rr_metadata = dict_at d ''metadata''\<rparr>"

definition research_from_dict :: "pydict \<Rightarrow> research_result result" where
  "research_from_dict d = from_dict RESEARCH_FIELDS research_of (VDict d)"

definition research_to_dict :: "research_result \<Rightarrow> pydict" where
  "research_to_dict r =
     [(''query'', VStr (rr_query r)), (''findings'', VList (map VStr (rr_findings r))), (''summary'', VStr (rr_summary r)),
      (''sources'', VList (map VStr (rr_sources r))), (''confidence'', VFloat (rr_confidence r)), (''metadata'', VDict (rr_metadata r))]"

lemma texts_at_strs [simp]: "dget d k = VList (map VStr xs) \<Longrightarrow> texts_at d k = xs"
  by (simp add: texts_at_def comp_def)

lemma texts_no_errors: "field_errors name KTexts (VList (map VStr xs)) = []"
proof -
  have "is_text (snd p)" if "p \<in> set (enumerate 0 (map VStr xs))" for p
  proof -
    have "snd p \<in> set (map snd (enumerate 0 (map VStr xs)))" using that by (simp del: map_snd_enumerate)
    then show ?thesis by (auto simp: is_text_def)
  qed
  then show ?thesis by (auto simp: field_errors_def filter_empty_conv)
qed

lemma field_no_errors [simp]:
  "field_errors name KText (VStr s) = []" "field_errors name KNumber (VFloat r) = []" "field_errors name KDict (VDict d) = []"
  by (simp_all add: field_errors_def)

theorem research_roundtrip: "research_from_dict (research_to_dict r) = Inr r"
  by (simp add: research_from_dict_def from_dict_def contract_errors_def RESEARCH_FIELDS_def research_to_dict_def texts_no_errors
      research_of_def text_at_def texts_at_def number_at_def dict_at_def dget_def comp_def)

lemma from_dict_Inl: "from_dict fs build_model v = Inl e \<Longrightarrow> e = ValueError"
  by (auto simp: from_dict_def split: pyval.splits if_splits)

text \<open>What is accepted has the query and no unknown field, and every field of the right type.\<close>

lemma contract_errors_none:
  "contract_errors fs d = [] \<longleftrightarrow>
     (\<forall>(name, kind, required)\<in>set fs. case map_of d name of None \<Rightarrow> \<not> required | Some v \<Rightarrow> field_errors name kind v = [])
     \<and> fst ` set d \<subseteq> fst ` set fs"
proof -
  have "(\<forall>f\<in>set fs. (case f of (name, kind, required) \<Rightarrow> case map_of d name of None \<Rightarrow> if required then [Missing name] else []
          | Some v \<Rightarrow> field_errors name kind v) = []) \<longleftrightarrow>
      (\<forall>(name, kind, required)\<in>set fs. case map_of d name of None \<Rightarrow> \<not> required | Some v \<Rightarrow> field_errors name kind v = [])"
    by (intro ball_cong refl) (auto split: option.splits)
  moreover have "filter (\<lambda>(k, v). k \<notin> fst ` set fs) d = [] \<longleftrightarrow> fst ` set d \<subseteq> fst ` set fs"
    unfolding filter_empty_conv by (force simp: subset_iff)
  ultimately show ?thesis by (simp add: contract_errors_def concat_eq_Nil_conv)
qed

lemma contract_accepts:
  "research_from_dict d = Inr r \<longleftrightarrow>
     r = research_of d \<and> map_of d ''query'' \<noteq> None \<and> fst ` set d \<subseteq> fst ` set RESEARCH_FIELDS
     \<and> (\<forall>(name, kind, required)\<in>set RESEARCH_FIELDS. \<forall>v. map_of d name = Some v \<longrightarrow> field_errors name kind v = [])"
proof -
  have "(\<forall>(name, kind, required)\<in>set RESEARCH_FIELDS. case map_of d name of None \<Rightarrow> \<not> required | Some v \<Rightarrow> field_errors name kind v = [])
    \<longleftrightarrow> map_of d ''query'' \<noteq> None \<and> (\<forall>(name, kind, required)\<in>set RESEARCH_FIELDS. \<forall>v. map_of d name = Some v \<longrightarrow> field_errors name kind v = [])"
    unfolding RESEARCH_FIELDS_def by (simp split: option.splits)
  then show ?thesis
    by (simp add: research_from_dict_def from_dict_def contract_errors_none conj_ac) blast
qed

lemma contract_empty: "research_from_dict [] = Inl ValueError"
  by code_simp

lemma contract_message_example:
  "contract_message id (\<lambda>loc. ''Input should be a valid string'') ''ResearchResult''
     (contract_errors RESEARCH_FIELDS [(''summary'', VInt 3), (''extra'', VNone)])
   = ''Invalid ResearchResult payload: missing required field '' @ ticked ''query'' @ ''; field '' @ ticked ''summary''
     @ '': Input should be a valid string; unknown fields: extra.''"
  by code_simp

end
