(* ===== verification/Analysis.thy ===== *)
theory Analysis
  imports Contracts StructuredPacks
begin

text \<open>
  The analyst agent (\<open>agents/analyst.py\<close>), its report (\<open>agents/models.py\<close>) and the three packs that
  run the two agents (\<open>domain_packs/research/\<close>). What the model answers is not checked before it is
  used, so insights, patterns and implications are values. The constructor of an agent and the
  tokens a node streams are arguments; spending is in what \<open>ask\<close> raises.
\<close>

section \<open>The report\<close>

record analysis_report =
  ar_query :: string
  ar_executive_summary :: string
  ar_key_insights :: "string list"
  ar_patterns :: "string list"
  ar_implications :: "string list"
  ar_confidence :: rat
  ar_research_summary :: string
  ar_metadata :: pydict

definition to_markdown :: "(rat \<Rightarrow> string) \<Rightarrow> analysis_report \<Rightarrow> string" where
  "to_markdown pct r =
     join [NL]
       ([''# Analysis Report: '' @ ar_query r, [], ''## Executive Summary'', ar_executive_summary r, [], ''## Key Insights'']
        @ map (\<lambda>i. ''- '' @ i) (ar_key_insights r)
        @ [[], ''## Identified Patterns'']
        @ map (\<lambda>p. ''- '' @ p) (ar_patterns r)
        @ [[], ''## Implications & Recommendations'']
        @ map (\<lambda>i. ''- '' @ i) (ar_implications r)
        @ [[], ''*Confidence: '' @ pct (ar_confidence r) @ ''*''])"

definition report_to_dict :: "analysis_report \<Rightarrow> pydict" where
  "report_to_dict r =
     [(''query'', VStr (ar_query r)), (''executive_summary'', VStr (ar_executive_summary r)),
      (''key_insights'', VList (map VStr (ar_key_insights r))), (''patterns'', VList (map VStr (ar_patterns r))),
      (''implications'', VList (map VStr (ar_implications r))), (''confidence'', VFloat (ar_confidence r)),
      (''research_summary'', VStr (ar_research_summary r)), (''metadata'', VDict (ar_metadata r))]"

definition REPORT_FIELDS :: contract_fields where
  "REPORT_FIELDS = [(''query'', KText, True), (''executive_summary'', KText, False), (''key_insights'', KTexts, False),
     (''patterns'', KTexts, False), (''implications'', KTexts, False), (''confidence'', KNumber, False),
     (''research_summary'', KText, False), (''metadata'', KDict, False)]"

definition report_of :: "pydict \<Rightarrow> analysis_report" where
  "report_of d =
     \<lparr>ar_query = text_at d ''query'', ar_executive_summary = text_at d ''executive_summary'', ar_key_insights = texts_at d ''key_insights'',
      ar_patterns = texts_at d ''patterns'', ar_implications = texts_at d ''implications'', ar_confidence = number_at d ''confidence'',
      ar_research_summary = text_at d ''research_summary'', ar_metadata = dict_at d ''metadata''\<rparr>"

definition report_from_dict :: "pydict \<Rightarrow> analysis_report result" where
  "report_from_dict d = from_dict REPORT_FIELDS report_of (VDict d)"

theorem report_roundtrip: "report_from_dict (report_to_dict r) = Inr r"
  by (simp add: report_from_dict_def from_dict_def contract_errors_def REPORT_FIELDS_def report_to_dict_def texts_no_errors
      report_of_def text_at_def texts_at_def number_at_def dict_at_def dget_def comp_def)

section \<open>The nodes\<close>

record analysis_state =
  as_query :: string
  as_steps :: int
  as_research :: research_result
  as_insights :: pyval
  as_confidence :: rat
  as_patterns :: pyval
  as_implications :: pyval
  as_report :: "analysis_report option"
  as_messages :: "string list"         \<comment> \<open>of the agent\<close>
  as_metadata :: pydict
  as_status :: string

definition initial_analysis :: "agent_env \<Rightarrow> string \<Rightarrow> research_result \<Rightarrow> analysis_state" where
  "initial_analysis env q r =
     \<lparr>as_query = q, as_steps = 0, as_research = r, as_insights = VList [], as_confidence = 7/10, as_patterns = VList [],
      as_implications = VList [], as_report = None, as_messages = [],
      as_metadata = run_facts env @ [(''input'', VStr q)], as_status = ''running''\<rparr>"

definition sized :: "pyval \<Rightarrow> bool" where
  \<comment> \<open>what \<open>len\<close> accepts\<close>
  "sized v = (case v of VStr s \<Rightarrow> True | VList xs \<Rightarrow> True | VDict d \<Rightarrow> True | _ \<Rightarrow> False)"

definition json_dict :: "agent_env \<Rightarrow> pyval \<Rightarrow> pydict option" where
  \<comment> \<open>\<open>json.loads(extract_text_content(...))\<close> as something with a \<open>get\<close>\<close>
  "json_dict env msg =
     (case extract_text_content (show_value env) msg of
        Inl e \<Rightarrow> None
      | Inr text \<Rightarrow> (case json_value env text of Some (VDict d) \<Rightarrow> Some d | _ \<Rightarrow> None))"

definition analysis_prompt :: "research_result \<Rightarrow> string" where
  "analysis_prompt r =
     ''You are a senior data analyst. Perform a rigorous analysis.'' @ [NL, NL]
     @ ''Research query: '' @ rr_query r @ [NL, NL] @ ''Research summary:'' @ [NL] @ rr_summary r @ [NL, NL]
     @ ''Raw findings ('' @ show_nat (length (rr_findings r)) @ '' total, showing first 8):'' @ [NL]
     @ join [NL] (numbered 1 (map (take 300) (take 8 (rr_findings r))))
     @ [NL, NL] @ ''Extract the KEY INSIGHTS. Return JSON: {\"insights\": [\"...\", ...], \"confidence\": 0.0-1.0}''"

definition insights_of :: "agent_env \<Rightarrow> pyval \<Rightarrow> pyval \<times> rat" where
  "insights_of env msg =
     (let failed = (VList [VStr (''Analysis completed '' @ em_dash @ '' structured extraction failed.'')], 1/2) in
      case json_dict env msg of
        None \<Rightarrow> failed
      | Some d \<Rightarrow> (case py_float (float_of env) (dget_or d ''confidence'' (VFloat (7/10))) of
            Inl e \<Rightarrow> failed
          | Inr c \<Rightarrow> (dget_or d ''insights'' (VList []), c)))"

definition node_analyze :: "agent_env \<Rightarrow> analysis_state \<Rightarrow> llm_exc + analysis_state" where
  "node_analyze env st =
     rbind (next_step env (as_steps st)) (\<lambda>n.
     rbind (ask env n ''You are a rigorous analytical thinker.'' (analysis_prompt (as_research st))) (\<lambda>msg.
       if sized (fst (insights_of env msg))
       then Inr (st\<lparr>as_steps := n, as_insights := fst (insights_of env msg), as_confidence := snd (insights_of env msg)\<rparr>)
       else Inl TYPE_ERROR))"

definition iterated :: "pyval \<Rightarrow> pyval list" where
  \<comment> \<open>what a \<open>for\<close> over a value with a length sees\<close>
  "iterated v = (case py_iter v of Inl e \<Rightarrow> [] | Inr xs \<Rightarrow> xs)"

definition synthesis_prompt :: "agent_env \<Rightarrow> analysis_state \<Rightarrow> string" where
  "synthesis_prompt env st =
     ''You are a strategic synthesiser. Your task is to identify overarching ''
     @ ''patterns and structural themes across a set of insights.'' @ [NL, NL]
     @ ''Research topic: '' @ rr_query (as_research st) @ [NL, NL] @ ''Insights to synthesise:'' @ [NL]
     @ join [NL] (map (\<lambda>i. ''- '' @ py_str (show_value env) i) (iterated (as_insights st)))
     @ [NL, NL] @ ''Identify PATTERNS and IMPLICATIONS. Return JSON:'' @ [NL]
     @ ''{\"patterns\": [\"...\", ...], \"implications\": [\"...\", ...]}''"

definition patterns_of :: "agent_env \<Rightarrow> pyval \<Rightarrow> pyval \<times> pyval" where
  "patterns_of env msg =
     (case json_dict env msg of
        None \<Rightarrow> (VList [VStr ''Pattern synthesis unavailable.''], VList [VStr ''Implication extraction unavailable.''])
      | Some d \<Rightarrow> (dget_or d ''patterns'' (VList []), dget_or d ''implications'' (VList [])))"

definition node_synthesize :: "agent_env \<Rightarrow> analysis_state \<Rightarrow> llm_exc + analysis_state" where
  "node_synthesize env st =
     rbind (next_step env (as_steps st)) (\<lambda>n.
     rbind (ask env n ''You are a strategic pattern synthesiser.'' (synthesis_prompt env st)) (\<lambda>msg.
       if sized (fst (patterns_of env msg)) \<and> sized (snd (patterns_of env msg))
       then Inr (st\<lparr>as_steps := n, as_patterns := fst (patterns_of env msg), as_implications := snd (patterns_of env msg)\<rparr>)
       else Inl TYPE_ERROR))"

definition joined :: "nat \<Rightarrow> pyval \<Rightarrow> llm_exc + string" where
  \<comment> \<open>\<open>'; '.join(v[:n])\<close>\<close>
  "joined n v =
     (case v of
        VStr s \<Rightarrow> Inr (join ''; '' (map (\<lambda>c. [c]) (take n s)))
      | VList xs \<Rightarrow>
          if list_all (\<lambda>x. case x of VStr s \<Rightarrow> True | _ \<Rightarrow> False) (take n xs)
          then Inr (join ''; '' (map (\<lambda>x. case x of VStr s \<Rightarrow> s | _ \<Rightarrow> []) (take n xs)))
          else Inl TYPE_ERROR
      | _ \<Rightarrow> Inl TYPE_ERROR)"

definition as_texts :: "pyval \<Rightarrow> llm_exc + string list" where
  \<comment> \<open>a \<open>list[str]\<close> field of a pydantic model\<close>
  "as_texts v =
     (case v of
        VList xs \<Rightarrow>
          if list_all (\<lambda>x. case x of VStr s \<Rightarrow> True | _ \<Rightarrow> False) xs
          then Inr (map (\<lambda>x. case x of VStr s \<Rightarrow> s | _ \<Rightarrow> []) xs) else Inl VALIDATION_ERROR
      | _ \<Rightarrow> Inl VALIDATION_ERROR)"

definition exec_summary_prompt :: "research_result \<Rightarrow> string \<Rightarrow> string \<Rightarrow> string" where
  "exec_summary_prompt r insights patterns =
     ''You are a C-suite report writer. Write a concise executive summary ''
     @ ''(2-3 sentences) based on the following analysis.'' @ [NL, NL] @ ''Topic: '' @ rr_query r @ [NL]
     @ ''Research baseline: '' @ take 500 (rr_summary r) @ [NL] @ ''Key insights: '' @ insights @ [NL]
     @ ''Patterns: '' @ patterns @ [NL] @ ''Return ONLY the executive summary paragraph '' @ em_dash @ '' no JSON, no headers.''"

definition node_report :: "agent_env \<Rightarrow> analysis_state \<Rightarrow> llm_exc + analysis_state" where
  "node_report env st =
     rbind (next_step env (as_steps st)) (\<lambda>n.
     rbind (joined 5 (as_insights st)) (\<lambda>top.
     rbind (joined 3 (as_patterns st)) (\<lambda>trends.
     rbind (ask env n ''You are a precise executive report writer.'' (exec_summary_prompt (as_research st) top trends)) (\<lambda>msg.
     rbind (raised (extract_text_content (show_value env) msg)) (\<lambda>text.
     rbind (as_texts (as_insights st)) (\<lambda>insights.
     rbind (as_texts (as_patterns st)) (\<lambda>patterns.
     rbind (as_texts (as_implications st)) (\<lambda>implications.
     (let report = \<lparr>ar_query = rr_query (as_research st), ar_executive_summary = strip text, ar_key_insights = insights,
            ar_patterns = patterns, ar_implications = implications, ar_confidence = clamp (as_confidence st),
            ar_research_summary = rr_summary (as_research st), ar_metadata = as_metadata st\<rparr>
      in Inr (st\<lparr>as_steps := n, as_report := Some report, as_messages := as_messages st @ [to_markdown (percent env) report],
                as_status := ''done''\<rparr>))))))))))"

section \<open>The analyst\<close>

definition analysis_graph :: "agent_env \<Rightarrow> analysis_state \<Rightarrow> llm_exc + analysis_state" where
  "analysis_graph env st = rbind (node_analyze env st) (\<lambda>st1. rbind (node_synthesize env st1) (node_report env))"

definition analyst_execute :: "agent_env \<Rightarrow> string \<Rightarrow> pydict \<Rightarrow> llm_exc + analysis_state" where
  "analyst_execute env q research_dict =
     (if blank q then Inl (plain_error VALIDATION_AGENT_ERROR)
      else rbind (raised (validate (query_validator env) q)) (\<lambda>q'.
        (case research_from_dict research_dict of
           Inl _ \<Rightarrow> Inl (plain_error VALIDATION_AGENT_ERROR)
         | Inr r \<Rightarrow> invoke_graph (analysis_graph env (initial_analysis env q' r)))))"

definition analyst_run_structured :: "agent_env \<Rightarrow> research_result \<Rightarrow> llm_exc + analysis_report" where
  "analyst_run_structured env r =
     rbind (analyst_execute env (rr_query r) (research_to_dict r)) (\<lambda>st.
       case as_report st of None \<Rightarrow> Inl (plain_error VALIDATION_AGENT_ERROR) | Some rep \<Rightarrow> Inr rep)"

definition research_dict_of :: "agent_env \<Rightarrow> string \<Rightarrow> pydict" where
  "research_dict_of env q =
     (case json_value env q of
        None \<Rightarrow> [(''query'', VStr q), (''summary'', VStr q), (''findings'', VList []), (''sources'', VList []),
                 (''confidence'', VFloat (1/2)), (''metadata'', VDict [])]
      | Some (VDict d) \<Rightarrow> if ''query'' \<in> fst ` set d then d else []
      | Some v \<Rightarrow> [])"

definition analyst_run :: "agent_env \<Rightarrow> string \<Rightarrow> llm_exc + string" where
  "analyst_run env q =
     rbind (analyst_execute env q (research_dict_of env q)) (\<lambda>st.
       Inr (if as_messages st = [] then ''Analysis completed but no output was produced.'' else last (as_messages st)))"

section \<open>What the packs share\<close>

definition PACK_ERRORS :: "string list" where
  "PACK_ERRORS = [''AgentBudgetExceededError'', ''AgentExecutionError'', ''AgentTimeoutError'', ''AgentValidationError'']"

definition pack_node :: "llm_exc + 'a \<Rightarrow> llm_exc + 'a option" where
  \<comment> \<open>the \<open>except\<close> clauses of a node; \<open>None\<close>: status \<open>error\<close>\<close>
  "pack_node outcome =
     (case outcome of
        Inr x \<Rightarrow> Inr (Some x)
      | Inl e \<Rightarrow>
          if isinstance e [''AgentAuthenticationError''] then Inl e
          else if isinstance e PACK_ERRORS then Inr None
          else Inl e)"

definition pack_final :: "llm_exc + 'a option \<Rightarrow> llm_exc + 'a" where
  \<comment> \<open>what \<open>run\<close> makes of the graph's outcome\<close>
  "pack_final final =
     (case final of
        Inl e \<Rightarrow>
          if isinstance e [''AgentAuthenticationError''] then Inl e
          else if isinstance e [''Exception''] then Inl (wrap EXECUTION_ERROR e)
          else Inl e
      | Inr None \<Rightarrow> Inl (plain_error EXECUTION_ERROR)
      | Inr (Some x) \<Rightarrow> Inr x)"

definition phase_event :: "string \<Rightarrow> string \<Rightarrow> event" where
  "phase_event kind phase = pack_stream_event kind [(''phase'', Plain (VStr phase))]"

definition node_events :: "string \<Rightarrow> event list \<Rightarrow> llm_exc + 'a option \<Rightarrow> event list" where
  \<comment> \<open>start, tokens, and the end unless the node raised\<close>
  "node_events phase toks outcome =
     phase_event ''phase_started'' phase # toks
     @ (case outcome of Inl e \<Rightarrow> [] | Inr x \<Rightarrow> [phase_event ''phase_completed'' phase])"

section \<open>Research only\<close>

definition research_only_node :: "agent_env \<Rightarrow> llm_exc + unit \<Rightarrow> string \<Rightarrow> llm_exc + research_result option" where
  "research_only_node env agent_init q = pack_node (rbind agent_init (\<lambda>_. run_structured env q))"

definition research_only_run :: "agent_env \<Rightarrow> llm_exc + unit \<Rightarrow> string \<Rightarrow> llm_exc + research_result" where
  "research_only_run env agent_init q =
     (if blank q then Inl (plain_error VALIDATION_AGENT_ERROR)
      else pack_final (research_only_node env agent_init (strip q)))"

definition research_only_events :: "agent_env \<Rightarrow> llm_exc + unit \<Rightarrow> string \<Rightarrow> source" where
  "research_only_events env agent_init q =
     (if blank q then \<lparr>yielded = [], failure = Some (plain_error VALIDATION_AGENT_ERROR)\<rparr>
      else (let node = research_only_node env agent_init (strip q); evs = node_events ''research'' [] node in
        (case node of
           Inl e \<Rightarrow> \<lparr>yielded = evs, failure = Some e\<rparr>
         | Inr None \<Rightarrow> \<lparr>yielded = evs, failure = Some (plain_error EXECUTION_ERROR)\<rparr>
         | Inr (Some r) \<Rightarrow>
             \<lparr>yielded = evs @ [pack_stream_event ''pipeline_completed'' [(''result'', ModelDump (VDict (research_to_dict r)))]],
              failure = None\<rparr>)))"

section \<open>Research and analysis\<close>

definition merged_records :: "(pyval \<Rightarrow> string) \<Rightarrow> nat \<Rightarrow> pydict list \<Rightarrow> string list \<times> source_ref list" where
  \<comment> \<open>index of the first record; extra findings, references\<close>
  "merged_records rend i recs =
     (concat (map (\<lambda>rec. let s = py_or (dget rec ''snippet'') (dget rec ''text'') in if truthy s then [py_str rend s] else []) recs),
      map (\<lambda>(k, rec). record_to_source_ref rend rec k) (enumerate i recs))"

definition merge_connector_into_result ::
  "(pyval \<Rightarrow> string) \<Rightarrow> string \<Rightarrow> research_result \<Rightarrow> connector_result \<Rightarrow> research_result" where
  "merge_connector_into_result rend cid r c =
     (if res_records c = [] then r
      else (let (findings, refs) = merged_records rend 1 (res_records c);
                meta = AList.update ''connector''
                  (VDict [(''connector_id'', VStr cid), (''record_count'', VInt (int (length (res_records c)))),
                          (''fetch_metadata'', VDict (res_metadata c))]) (rr_metadata r);
                meta' = AList.update ''source_refs'' (VList (as_list (dget meta ''source_refs'') @ map dump_ref refs)) meta
            in r\<lparr>rr_findings := rr_findings r @ findings, rr_sources := rr_sources r @ map citation refs, rr_metadata := meta'\<rparr>))"

definition pipeline_research_node ::
  "agent_env \<Rightarrow> llm_exc + unit \<Rightarrow> (string \<times> (string \<Rightarrow> llm_exc + connector_result)) option \<Rightarrow> string
     \<Rightarrow> llm_exc + research_result option" where
  "pipeline_research_node env agent_init connector q =
     pack_node (rbind agent_init (\<lambda>_. rbind (run_structured env q) (\<lambda>r.
       (case connector of
          None \<Rightarrow> Inr r
        | Some (cid, get) \<Rightarrow> rbind (get q) (\<lambda>c. Inr (merge_connector_into_result (show_value env) cid r c))))))"

definition pipeline_analysis_node ::
  "agent_env \<Rightarrow> llm_exc + unit \<Rightarrow> research_result \<Rightarrow> llm_exc + analysis_report option" where
  "pipeline_analysis_node env agent_init r =
     pack_node (rbind agent_init (\<lambda>_. analyst_run_structured env r))"

definition research_analysis_graph ::
  "agent_env \<Rightarrow> llm_exc + unit \<Rightarrow> llm_exc + unit \<Rightarrow> (string \<times> (string \<Rightarrow> llm_exc + connector_result)) option
     \<Rightarrow> string \<Rightarrow> llm_exc + analysis_report option" where
  "research_analysis_graph env init1 init2 connector q =
     rbind (pipeline_research_node env init1 connector q) (\<lambda>found.
       (case found of
          None \<Rightarrow> Inr None
        | Some r \<Rightarrow> pipeline_analysis_node env init2 r))"

definition research_analysis_run ::
  "agent_env \<Rightarrow> llm_exc + unit \<Rightarrow> llm_exc + unit \<Rightarrow> (string \<times> (string \<Rightarrow> llm_exc + connector_result)) option
     \<Rightarrow> string \<Rightarrow> llm_exc + analysis_report" where
  "research_analysis_run env init1 init2 connector q =
     (if blank q then Inl (plain_error VALIDATION_AGENT_ERROR)
      else pack_final (research_analysis_graph env init1 init2 connector (strip q)))"

definition research_analysis_events ::
  "agent_env \<Rightarrow> llm_exc + unit \<Rightarrow> llm_exc + unit \<Rightarrow> (string \<times> (string \<Rightarrow> llm_exc + connector_result)) option
     \<Rightarrow> (string \<Rightarrow> event list) \<Rightarrow> string \<Rightarrow> source" where
  "research_analysis_events env init1 init2 connector toks q =
     (if blank q then \<lparr>yielded = [], failure = Some (plain_error VALIDATION_AGENT_ERROR)\<rparr>
      else (let node = pipeline_research_node env init1 connector (strip q);
                evs = node_events ''research'' (toks ''research_node'') node in
        (case node of
           Inl e \<Rightarrow> \<lparr>yielded = evs, failure = Some e\<rparr>
         | Inr None \<Rightarrow> \<lparr>yielded = evs, failure = Some (plain_error EXECUTION_ERROR)\<rparr>
         | Inr (Some r) \<Rightarrow>
             (let node2 = pipeline_analysis_node env init2 r;
                  evs2 = evs @ node_events ''analysis'' (toks ''analysis_node'') node2 in
              (case node2 of
                 Inl e \<Rightarrow> \<lparr>yielded = evs2, failure = Some e\<rparr>
               | Inr None \<Rightarrow> \<lparr>yielded = evs2, failure = Some (plain_error EXECUTION_ERROR)\<rparr>
               | Inr (Some rep) \<Rightarrow>
                   \<lparr>yielded = evs2 @ [pack_stream_event ''pipeline_completed'' [(''report'', ModelDump (VDict (report_to_dict rep)))]],
                    failure = None\<rparr>)))))"

section \<open>Analysis only\<close>

record analysis_input =
  ai_query :: string
  ai_summary :: string
  ai_findings :: "string list"
  ai_sources :: "string list"
  ai_confidence :: rat

definition input_to_research :: "analysis_input \<Rightarrow> research_result" where
  "input_to_research i =
     \<lparr>rr_query = ai_query i, rr_findings = ai_findings i, rr_summary = ai_summary i, rr_sources = ai_sources i,
      rr_confidence = ai_confidence i, rr_metadata = [(''pack'', VStr ''analysis_only'')]\<rparr>"

definition analysis_only_node ::
  "agent_env \<Rightarrow> llm_exc + unit \<Rightarrow> research_result \<Rightarrow> llm_exc + analysis_report option" where
  "analysis_only_node env agent_init r =
     pack_node (rbind agent_init (\<lambda>_. analyst_run_structured env r))"

lemma analysis_only_node_pipeline [simp]: "analysis_only_node = pipeline_analysis_node"
  by (simp add: fun_eq_iff analysis_only_node_def pipeline_analysis_node_def)

definition analysis_only_run_from_input ::
  "agent_env \<Rightarrow> llm_exc + unit \<Rightarrow> analysis_input \<Rightarrow> llm_exc + analysis_report" where
  "analysis_only_run_from_input env agent_init i =
     pack_final (analysis_only_node env agent_init (input_to_research i))"

definition analysis_only_run :: "agent_env \<Rightarrow> llm_exc + unit \<Rightarrow> string \<Rightarrow> llm_exc + analysis_report" where
  "analysis_only_run env agent_init q =
     (if blank q then Inl (plain_error VALIDATION_AGENT_ERROR)
      else if 2000 < length (strip q) then Inl VALIDATION_ERROR
      else analysis_only_run_from_input env agent_init
        \<lparr>ai_query = strip q, ai_summary = strip q, ai_findings = [], ai_sources = [], ai_confidence = 8/10\<rparr>)"

definition analysis_only_events :: "agent_env \<Rightarrow> llm_exc + unit \<Rightarrow> analysis_input \<Rightarrow> source" where
  "analysis_only_events env agent_init i =
     (let node = analysis_only_node env agent_init (input_to_research i);
          evs = node_events ''analysis'' [] node in
      (case node of
         Inl e \<Rightarrow> \<lparr>yielded = evs, failure = Some e\<rparr>
       | Inr None \<Rightarrow> \<lparr>yielded = evs, failure = Some (plain_error EXECUTION_ERROR)\<rparr>
       | Inr (Some rep) \<Rightarrow>
           \<lparr>yielded = evs @ [pack_stream_event ''pipeline_completed'' [(''report'', ModelDump (VDict (report_to_dict rep)))]],
            failure = None\<rparr>))"

section \<open>What the endpoints return\<close>

record analysis_output =
  ao_report :: analysis_report            \<comment> \<open>without its metadata\<close>
  ao_cost_usd :: "rat option"

record research_output =
  ro_result :: research_result            \<comment> \<open>without its metadata\<close>
  ro_cost_usd :: "rat option"

definition unit_interval :: "rat \<Rightarrow> bool" where
  "unit_interval c \<longleftrightarrow> 0 \<le> c \<and> c \<le> 1"

definition from_analysis_report :: "analysis_report \<Rightarrow> rat option \<Rightarrow> llm_exc + analysis_output" where
  "from_analysis_report rep cost =
     (if unit_interval (ar_confidence rep) then Inr \<lparr>ao_report = rep\<lparr>ar_metadata := []\<rparr>, ao_cost_usd = cost\<rparr>
      else Inl VALIDATION_ERROR)"

definition from_research_result :: "research_result \<Rightarrow> rat option \<Rightarrow> llm_exc + research_output" where
  "from_research_result r cost =
     (if unit_interval (rr_confidence r) then Inr \<lparr>ro_result = r\<lparr>rr_metadata := []\<rparr>, ro_cost_usd = cost\<rparr>
      else Inl VALIDATION_ERROR)"

section \<open>The analyst's report\<close>

lemma analysis_effect:
  assumes "analysis_graph env st = Inr st'"
  shows "\<exists>rep. as_report st' = Some rep \<and> ar_query rep = rr_query (as_research st)
    \<and> ar_research_summary rep = rr_summary (as_research st) \<and> 0 \<le> ar_confidence rep \<and> ar_confidence rep \<le> 1
    \<and> strip (ar_executive_summary rep) = ar_executive_summary rep \<and> as_steps st' = as_steps st + 3
    \<and> as_messages st' = as_messages st @ [to_markdown (percent env) rep]"
  using assms
  by (auto simp: analysis_graph_def node_analyze_def node_synthesize_def node_report_def rbind_Inr_iff next_step_Inr Let_def
      clamp_def split: if_splits)

lemma analyst_execute_Inr:
  assumes "analyst_execute env q d = Inr st"
  obtains q' r where "validate (query_validator env) q = Inr q'" and "research_from_dict d = Inr r"
    and "analysis_graph env (initial_analysis env q' r) = Inr st"
proof -
  from assms obtain q' where v: "validate (query_validator env) q = Inr q'"
    and c: "(case research_from_dict d of Inl _ \<Rightarrow> Inl (plain_error VALIDATION_AGENT_ERROR)
      | Inr r \<Rightarrow> invoke_graph (analysis_graph env (initial_analysis env q' r))) = Inr st"
    by (auto simp: analyst_execute_def rbind_Inr_iff split: if_splits)
  then obtain r where r: "research_from_dict d = Inr r" by (cases "research_from_dict d") auto
  with c have "analysis_graph env (initial_analysis env q' r) = Inr st" by (simp add: invoke_graph_Inr)
  with v r show thesis by (rule that)
qed

text \<open>C25. A report of the analyst is about the query and repeats the summary of the research it was
  given, its confidence is between 0 and 1 whatever the model claims, its executive summary has
  no white space around it, the step budget was at least three, and it always fits the output schema.\<close>

theorem analysis_report_wf:
  assumes "analyst_run_structured env r = Inr rep"
  shows "ar_query rep = rr_query r \<and> ar_research_summary rep = rr_summary r \<and> 0 \<le> ar_confidence rep \<and> ar_confidence rep \<le> 1
    \<and> strip (ar_executive_summary rep) = ar_executive_summary rep \<and> 3 \<le> max_step_count env
    \<and> from_analysis_report rep cost = Inr \<lparr>ao_report = rep\<lparr>ar_metadata := []\<rparr>, ao_cost_usd = cost\<rparr>"
proof -
  from assms obtain st where e: "analyst_execute env (rr_query r) (research_to_dict r) = Inr st"
    and rep: "as_report st = Some rep"
    by (auto simp: analyst_run_structured_def rbind_Inr_iff split: option.splits)
  from e obtain q' where g: "analysis_graph env (initial_analysis env q' r) = Inr st"
    using research_roundtrip [of r] by (elim analyst_execute_Inr) auto
  then have "3 \<le> max_step_count env"
    by (auto simp: analysis_graph_def node_analyze_def node_synthesize_def node_report_def rbind_Inr_iff next_step_Inr
        initial_analysis_def split: if_splits)
  with analysis_effect [OF g] rep show ?thesis
    by (auto simp: initial_analysis_def from_analysis_report_def unit_interval_def)
qed

text \<open>The model's list is used as it comes: one insight that is no text, in an answer that is
  otherwise well formed, and the whole run fails, although every node has a fall-back for
  answers it cannot parse.\<close>

lemma insight_not_text:
  assumes "\<And>system human. ask env 1 system human = Inr msg" and "json_dict env msg = Some d"
    and "dget_or d ''insights'' (VList []) = VList xs" and "v \<in> set xs" and "\<nexists>s. v = VStr s"
    and "py_float (float_of env) (dget_or d ''confidence'' (VFloat (7/10))) = Inr c"
  shows "\<exists>e. analyst_run_structured env r = Inl e"
proof (rule ccontr)
  assume "\<not> ?thesis"
  then obtain rep where "analyst_run_structured env r = Inr rep" by (metis sum.exhaust)
  then obtain st where "analyst_execute env (rr_query r) (research_to_dict r) = Inr st"
    by (auto simp: analyst_run_structured_def rbind_Inr_iff)
  then obtain q' r' where g: "analysis_graph env (initial_analysis env q' r') = Inr st" by (rule analyst_execute_Inr)
  have i: "fst (insights_of env msg) = VList xs" using assms(2,3,6) by (simp add: insights_of_def)
  from g obtain st1 st2 where n1: "node_analyze env (initial_analysis env q' r') = Inr st1"
    and n2: "node_synthesize env st1 = Inr st2" and n3: "node_report env st2 = Inr st"
    by (auto simp: analysis_graph_def rbind_Inr_iff)
  have "as_insights st1 = VList xs"
    using n1 assms(1) i by (auto simp: node_analyze_def rbind_Inr_iff next_step_Inr initial_analysis_def split: if_splits)
  then have "as_insights st2 = VList xs"
    using n2 by (auto simp: node_synthesize_def rbind_Inr_iff split: if_splits)
  then have "as_texts (VList xs) \<noteq> Inl VALIDATION_ERROR"
    using n3 by (auto simp: node_report_def rbind_Inr_iff)
  then have "\<forall>x\<in>set xs. case x of VStr s \<Rightarrow> True | _ \<Rightarrow> False"
    by (auto simp: as_texts_def list_all_iff split: if_splits)
  then show False using assms(4,5) by (cases v) auto
qed

text \<open>The analyst is documented to analyse a plain question directly. A question that happens to
  be JSON and no object with a query, such as a year or a quoted phrase, is refused instead: the
  empty payload it is replaced by fails the contract.\<close>

theorem analyst_refuses_json_question:
  assumes "json_value env q = Some v" and "\<And>d. v = VDict d \<Longrightarrow> ''query'' \<notin> fst ` set d"
    and "\<not> blank q" and "validate (query_validator env) q = Inr q'"
  shows "analyst_run env q = Inl (plain_error VALIDATION_AGENT_ERROR)"
  using assms contract_empty by (auto simp: analyst_run_def research_dict_of_def analyst_execute_def raised_def split: pyval.splits)

section \<open>Streams and runs\<close>

text \<open>C26. The stream of the research and analysis pack ends with the report exactly when the run
  returns it: on the same inputs the last event carries the report the run returns, and the
  stream fails when the run raises.\<close>

theorem pipeline_stream_matches_run:
  "case research_analysis_run env init1 init2 connector q of
     Inr rep \<Rightarrow> failure (research_analysis_events env init1 init2 connector toks q) = None
       \<and> last (yielded (research_analysis_events env init1 init2 connector toks q)) =
           pack_stream_event ''pipeline_completed'' [(''report'', ModelDump (VDict (report_to_dict rep)))]
   | Inl e \<Rightarrow> failure (research_analysis_events env init1 init2 connector toks q) \<noteq> None"
proof -
  let ?n1 = "pipeline_research_node env init1 connector (strip q)"
  show ?thesis
  proof (cases "blank q")
    case False
    note defs = research_analysis_run_def research_analysis_events_def research_analysis_graph_def pack_final_def Let_def
    show ?thesis
    proof (cases ?n1)
      case (Inl e)
      then show ?thesis using False by (simp add: defs)
    next
      case (Inr found)
      show ?thesis
      proof (cases found)
        case None
        then show ?thesis using False Inr by (simp add: defs)
      next
        case (Some r)
        then show ?thesis using False Inr
          by (cases "pipeline_analysis_node env init2 r")
            (auto simp: defs split: option.splits)
      qed
    qed
  qed (simp add: research_analysis_run_def research_analysis_events_def)
qed

section \<open>Failures\<close>

definition well_raised :: "llm_exc \<Rightarrow> bool" where
  "well_raised e \<longleftrightarrow> isinstance e [''Exception'']
     \<and> (isinstance e [''AgentAuthenticationError''] \<longrightarrow> (\<exists>x. e = make_auth_error x))"

definition agent_call_error :: "llm_exc \<Rightarrow> bool" where
  \<comment> \<open>what \<open>_invoke_llm_with_retry\<close> raises\<close>
  "agent_call_error e \<longleftrightarrow> (\<exists>x. e = make_auth_error x \<or> e = wrap BUDGET_ERROR x \<or> e = wrap EXECUTION_ERROR x)"

definition outside :: "llm_exc \<Rightarrow> bool" where
  \<comment> \<open>an \<open>Exception\<close> that does not pretend to be about credentials\<close>
  "outside e \<longleftrightarrow> isinstance e [''Exception''] \<and> \<not> isinstance e [''AgentAuthenticationError'']"

definition ordinary_agent :: "agent_env \<Rightarrow> bool" where
  "ordinary_agent env \<longleftrightarrow>
     (\<forall>n system human e. ask env n system human = Inl e \<longrightarrow> agent_call_error e)
     \<and> (\<forall>f n i s e. web_search env = Some f \<and> f n i s = Inl e \<longrightarrow> outside e)
     \<and> (\<forall>f n s e. retrieve env = Some f \<and> f n s = Inl e \<longrightarrow> outside e)"

lemma outside_raised: "outside e \<Longrightarrow> well_raised e"
  by (simp add: outside_def well_raised_def)

lemma call_raised: "agent_call_error e \<Longrightarrow> well_raised e"
  by (auto simp: agent_call_error_def well_raised_def isinstance_def make_auth_error_def wrap_def
      BUDGET_ERROR_def EXECUTION_ERROR_def AUTHENTICATION_ERROR_def)

lemma own_errors:
  "outside (plain_error TIMEOUT_ERROR)" "outside (plain_error VALIDATION_AGENT_ERROR)" "outside (plain_error EXECUTION_ERROR)"
  "outside TYPE_ERROR" "outside VALIDATION_ERROR" "outside (wrap EXECUTION_ERROR x)"
  by (simp_all add: outside_def isinstance_def plain_error_def TIMEOUT_ERROR_def VALIDATION_AGENT_ERROR_def EXECUTION_ERROR_def
      TYPE_ERROR_def VALIDATION_ERROR_def wrap_def)

lemma raised_outside: "raised r = Inl e \<Longrightarrow> outside e"
  by (cases r; cases "projl r") (auto simp: raised_def outside_def isinstance_def exc_of_def)

lemma next_step_Inl: "next_step env n = Inl e \<Longrightarrow> outside e"
  by (auto simp: next_step_def own_errors split: sum.splits)

lemma run_searches_Inl:
  "\<lbrakk>run_searches f i qs = Inl e; \<And>j s x. f j s = Inl x \<Longrightarrow> outside x\<rbrakk> \<Longrightarrow> outside e"
  by (induction qs arbitrary: i) (auto simp: rbind_Inl_iff split: prod.splits)

lemma ordinary_ask: "ordinary_agent env \<Longrightarrow> ask env n system human = Inl e \<Longrightarrow> well_raised e"
  by (auto simp: ordinary_agent_def call_raised)

lemma node_research_Inl:
  assumes "ordinary_agent env" and "node_research env st = Inl e"
  shows "well_raised e"
proof -
  have search: "outside x" if "web_search env = Some f" "run_searches (f n) i qs = Inl x" for f n i qs x
    using run_searches_Inl [OF that(2)] that(1) assms(1) by (auto simp: ordinary_agent_def)
  have records: "outside x" if "fetch_connector_records env n q = Inl x" for n q x
    using that assms(1) by (auto simp: fetch_connector_records_def ordinary_agent_def split: option.splits sum.splits if_splits)
  show ?thesis
    using assms(2)
    by (auto simp: node_research_def rbind_Inl_iff intro: outside_raised dest: next_step_Inl ordinary_ask [OF assms(1)]
        raised_outside search records split: option.splits)
qed

lemma node_validate_Inl:
  assumes "ordinary_agent env" and "node_validate env st = Inl e"
  shows "well_raised e"
  using assms(2)
  by (auto simp: node_validate_def rbind_Inl_iff own_errors intro: outside_raised dest: next_step_Inl ordinary_ask [OF assms(1)]
      split: if_splits)

lemma summary_of_Inl: "summary_of env msg = Inl e \<Longrightarrow> outside e"
  using raised_outside [of "Inl (projl (extract_text_content (show_value env) msg)) :: unit result" e]
  by (auto simp: summary_of_def raised_def split: sum.splits option.splits pyval.splits)

lemma node_summarize_Inl:
  assumes "ordinary_agent env" and "node_summarize env st = Inl e"
  shows "well_raised e"
proof -
  have "outside x" if "as_text v = Inl x" for v x
    using that by (cases v) (auto simp: as_text_def own_errors)
  then show ?thesis
    using assms(2)
    by (auto simp: node_summarize_def rbind_Inl_iff intro: outside_raised
        dest: next_step_Inl ordinary_ask [OF assms(1)] summary_of_Inl)
qed

lemma research_graph_Inl:
  assumes "ordinary_agent env" and "research_graph env st = Inl e"
  shows "well_raised e"
  using assms
proof (induction env st rule: research_graph.induct)
  case (1 env st)
  show ?case
  proof (cases "node_research env st")
    case (Inl x)
    then show ?thesis using "1.prems" by (subst (asm) research_graph.simps) (simp add: node_research_Inl)
  next
    case (Inr st1)
    show ?thesis
    proof (cases "node_validate env st1")
      case (Inl x)
      then show ?thesis using "1.prems" Inr by (subst (asm) research_graph.simps) (simp add: node_validate_Inl)
    next
      case Inr2: (Inr st2)
      show ?thesis
      proof (cases "route_after_validate env st2 = ''research''")
        case True
        then have "research_graph env st2 = Inl e"
          using "1.prems"(2) Inr Inr2 by (subst (asm) research_graph.simps) simp
        then show ?thesis by (rule "1.IH" [OF Inr Inr2 True "1.prems"(1)])
      next
        case False
        then have "node_summarize env st2 = Inl e"
          using "1.prems"(2) Inr Inr2 by (subst (asm) research_graph.simps) simp
        then show ?thesis by (rule node_summarize_Inl [OF "1.prems"(1)])
      qed
    qed
  qed
qed

lemma invoke_graph_Inl:
  assumes "invoke_graph x = Inl e" and "\<And>y. x = Inl y \<Longrightarrow> well_raised y"
  shows "well_raised e"
  using assms by (auto simp: invoke_graph_def own_errors intro: outside_raised split: sum.splits if_splits)

lemma run_structured_Inl:
  assumes "ordinary_agent env" and "run_structured env q = Inl e"
  shows "well_raised e"
  using assms(2)
  by (auto simp: run_structured_def research_execute_def rbind_Inl_iff own_errors intro: outside_raised
      dest: raised_outside invoke_graph_Inl [OF _ research_graph_Inl [OF assms(1)]] split: option.splits if_splits)

lemma joined_Inl: "joined n v = Inl e \<Longrightarrow> outside e"
  by (auto simp: joined_def own_errors split: pyval.splits if_splits)

lemma as_texts_Inl: "as_texts v = Inl e \<Longrightarrow> outside e"
  by (auto simp: as_texts_def own_errors split: pyval.splits if_splits)

lemma analysis_graph_Inl:
  assumes "ordinary_agent env" and "analysis_graph env st = Inl e"
  shows "well_raised e"
proof -
  note ask = ordinary_ask [OF assms(1)]
  have 1: "well_raised x" if "node_analyze env s = Inl x" for s x
    using that by (auto simp: node_analyze_def rbind_Inl_iff own_errors intro: outside_raised dest: next_step_Inl ask split: if_splits)
  have 2: "well_raised x" if "node_synthesize env s = Inl x" for s x
    using that by (auto simp: node_synthesize_def rbind_Inl_iff own_errors intro: outside_raised dest: next_step_Inl ask split: if_splits)
  have 3: "well_raised x" if "node_report env s = Inl x" for s x
    using that
    by (auto simp: node_report_def rbind_Inl_iff Let_def intro: outside_raised
        dest: next_step_Inl ask joined_Inl as_texts_Inl raised_outside)
  from assms(2) 1 2 3 show ?thesis by (auto simp: analysis_graph_def rbind_Inl_iff)
qed

lemma analyst_run_structured_Inl:
  assumes "ordinary_agent env" and "analyst_run_structured env r = Inl e"
  shows "well_raised e"
  using assms(2)
  by (auto simp: analyst_run_structured_def analyst_execute_def research_roundtrip rbind_Inl_iff own_errors intro: outside_raised
      dest: raised_outside invoke_graph_Inl [OF _ analysis_graph_Inl [OF assms(1)]] split: option.splits if_splits)

lemma pack_node_Inl:
  assumes "pack_node x = Inl e" and "\<And>y. x = Inl y \<Longrightarrow> well_raised y"
  shows "well_raised e"
  using assms by (auto simp: pack_node_def split: sum.splits if_splits)

lemma pack_final_Inl:
  assumes "pack_final x = Inl e" and "\<And>y. x = Inl y \<Longrightarrow> well_raised y"
  shows "pack_error e"
  using assms by (auto simp: pack_final_def pack_error_def well_raised_def split: sum.splits option.splits if_splits)

text \<open>A failing run of the packs around the two agents is answered with 500 or 502, or is an
  unhandled validation error: an exhausted budget and an exhausted step count are turned into
  plain execution errors on their way, so the statuses 402 and 504 that the endpoint keeps for
  them do not occur.\<close>

theorem agent_pack_statuses:
  assumes "ordinary_agent env" and "list_all (\<lambda>i. \<forall>e. i = Inl e \<longrightarrow> outside e) [init1, init2]"
    and "\<And>cid get t e. connector = Some (cid, get) \<Longrightarrow> get t = Inl e \<Longrightarrow> outside e"
    and "research_only_run env init1 q = Inl e \<or> research_analysis_run env init1 init2 connector q = Inl e
      \<or> analysis_only_run env init2 q = Inl e"
  shows "failure_answer installed e \<in> {Status 500, Status 502, Raised VALIDATION_ERROR}"
proof (rule pack_error_answer)
  have init: "well_raised x" if "init1 = Inl x \<or> init2 = Inl x" for x
    using that assms(2) by (auto intro: outside_raised)
  have only: "well_raised x" if "research_only_node env init1 t = Inl x" for t x
    using that init run_structured_Inl [OF assms(1)]
    by (auto simp: research_only_node_def rbind_Inl_iff elim!: pack_node_Inl)
  have conn: "well_raised x" if "connector = Some (cid, get)" "get t = Inl x" for cid get t x
    using assms(3) [OF that] by (rule outside_raised)
  have first: "well_raised x" if "pipeline_research_node env init1 connector t = Inl x" for t x
    using that init run_structured_Inl [OF assms(1)] unfolding pipeline_research_node_def
    by (elim pack_node_Inl) (auto simp: rbind_Inl_iff intro: conn split: option.splits prod.splits)
  have second: "well_raised x" if "pipeline_analysis_node env init2 r = Inl x" for r x
    using that init analyst_run_structured_Inl [OF assms(1)]
    by (auto simp: pipeline_analysis_node_def rbind_Inl_iff elim!: pack_node_Inl)
  have both: "well_raised x" if "research_analysis_graph env init1 init2 connector t = Inl x" for t x
    using that first second by (auto simp: research_analysis_graph_def rbind_Inl_iff split: option.splits)
  have blank: "pack_error (plain_error VALIDATION_AGENT_ERROR)" "pack_error VALIDATION_ERROR"
    by (simp_all add: pack_error_def)
  from assms(4) show "pack_error e"
    using blank pack_final_Inl [OF _ only] pack_final_Inl [OF _ both] pack_final_Inl [OF _ second]
    by (auto simp: research_only_run_def research_analysis_run_def analysis_only_run_def analysis_only_run_from_input_def
        split: if_splits)
qed

section \<open>A small analyst\<close>

definition demo_research :: research_result where
  "demo_research = \<lparr>rr_query = ''Why?'', rr_findings = [], rr_summary = [], rr_sources = [], rr_confidence = 0, rr_metadata = []\<rparr>"

lemma demo_report: "\<not> isl (analyst_run_structured (demo_agent 1) demo_research)"
  by code_simp

theorem analysis_report_wf_witness:
  "\<exists>rep. analyst_run_structured (demo_agent 1) demo_research = Inr rep \<and> ar_query rep = ''Why?''"
  using demo_report analysis_report_wf [where env = "demo_agent 1" and r = demo_research]
  by (cases "analyst_run_structured (demo_agent 1) demo_research") (auto simp: demo_research_def)

definition year_agent :: agent_env where
  "year_agent = (demo_agent 1)\<lparr>json_value := (\<lambda>s. Some (VInt 2024))\<rparr>"

theorem analyst_refuses_json_question_witness:
  "analyst_run year_agent ''2024'' = Inl (plain_error VALIDATION_AGENT_ERROR)"
proof (rule analyst_refuses_json_question [where v = "VInt 2024"])
  show "validate (query_validator year_agent) ''2024'' = Inr ''2024''" "\<not> blank ''2024''" by code_simp+
qed (simp_all add: year_agent_def)

definition broke_agent :: agent_env where
  "broke_agent = (demo_agent 1)\<lparr>ask := (\<lambda>k system human. Inl (wrap BUDGET_ERROR TYPE_ERROR))\<rparr>"

lemma broke_run: "research_only_run broke_agent (Inr ()) ''Why?'' = Inl (plain_error EXECUTION_ERROR)"
  by code_simp

theorem agent_pack_statuses_witness:
  "research_only_run broke_agent (Inr ()) ''Why?'' = Inl (plain_error EXECUTION_ERROR)
   \<and> failure_answer (\<lambda>s. True) (plain_error EXECUTION_ERROR) \<in> {Status 500, Status 502, Raised VALIDATION_ERROR}"
proof -
  have "ordinary_agent broke_agent"
    by (auto simp: ordinary_agent_def broke_agent_def demo_agent_def agent_call_error_def)
  then have "failure_answer (\<lambda>s. True) (plain_error EXECUTION_ERROR) \<in> {Status 500, Status 502, Raised VALIDATION_ERROR}"
    by (rule agent_pack_statuses [where connector = None and ?init1.0 = "Inr ()" and ?init2.0 = "Inr ()"
          and q = "''Why?''"]) (simp_all add: broke_run)
  then show ?thesis using broke_run by blast
qed

end
