(* ===== verification/LegacyApi.thy ===== *)
theory LegacyApi
  imports PackApi Analysis
begin

text \<open>
  The endpoints in front of the default pack (\<open>api/endpoints/pipeline.py\<close>): \<open>POST /run\<close>,
  \<open>POST /run/stream\<close> and \<open>POST /research\<close>, with \<open>get_legacy_pack_cls\<close>, and the session history
  (\<open>api/endpoints/sessions.py\<close>). They share service, session lock and history with the pack
  endpoints (\<open>PackApi\<close>) and are split in the same way. A report is what a dictionary of its
  fields stands for: \<open>parse\<close> is \<open>AnalysisReport(**d)\<close>.
\<close>

section \<open>Requests and answers\<close>

record run_request =
  rq_query :: string
  rq_session :: "string option"

record legacy_env =
  default_pack_id :: string
  active_pack_cls :: "pack_class option"
  fallback_cls :: pack_class               \<comment> \<open>\<open>ResearchAnalysisPack\<close>\<close>
  llm_ready :: bool                        \<comment> \<open>\<open>get_shared_llm()\<close> is not \<open>None\<close>\<close>
  parse :: "pydict \<Rightarrow> analysis_report option"

record run_response =
  rp_report :: analysis_report
  rp_session :: string
  rp_cost :: "rat option"

record research_response =
  rres_result :: research_result
  rres_session :: string
  rres_cost :: "rat option"

definition ATTRIBUTE_ERROR :: llm_exc where
  "ATTRIBUTE_ERROR = Exc [''AttributeError'', ''Exception''] None None None None"

definition report_in :: "(pydict \<Rightarrow> analysis_report option) \<Rightarrow> pack_result \<Rightarrow> analysis_report option" where
  "report_in prs res = (case to_dict res of Some (VDict d) \<Rightarrow> prs d | _ \<Rightarrow> None)"

definition run_response_of :: "analysis_report option \<Rightarrow> string \<Rightarrow> rat option \<Rightarrow> llm_exc + run_response" where
  \<comment> \<open>\<open>RunResponse.from_analysis_report\<close>\<close>
  "run_response_of r sess cost =
     (case r of
        None \<Rightarrow> Inl ATTRIBUTE_ERROR
      | Some rep \<Rightarrow>
          if unit_interval (ar_confidence rep) then Inr \<lparr>rp_report = rep, rp_session = sess, rp_cost = cost\<rparr>
          else Inl VALIDATION_ERROR)"

definition research_response_of :: "research_result \<Rightarrow> string \<Rightarrow> rat option \<Rightarrow> llm_exc + research_response" where
  "research_response_of r sess cost =
     (if unit_interval (rr_confidence r) then Inr \<lparr>rres_result = r, rres_session = sess, rres_cost = cost\<rparr>
      else Inl VALIDATION_ERROR)"

definition get_legacy_pack_cls :: "api_settings \<Rightarrow> legacy_env \<Rightarrow> 'e call \<Rightarrow> 's service \<Rightarrow> api_error + pack_class" where
  "get_legacy_pack_cls st env c w =
     (case rbind (caller_key c) (\<lambda>key.
             get_pack (digest32 st) (random_draw c) (default_pack_id env) None (Some key) (packs w)) of
        Inr cls \<Rightarrow> Inr cls
      | Inl KeyError \<Rightarrow> Inr (case active_pack_cls env of Some cls \<Rightarrow> cls | None \<Rightarrow> fallback_cls env)
      | Inl e \<Rightarrow> Inl (Unhandled e))"

definition legacy_failure :: "llm_exc \<Rightarrow> api_error" where
  "legacy_failure e =
     (if isinstance e [''AgentValidationError''] then Status 400
      else if isinstance e [''AgentTimeoutError''] then Status 504
      else if isinstance e [''AgentBudgetExceededError''] then Status 402
      else if isinstance e [''AgentAuthenticationError''] then Status 502
      else if isinstance e [''AgentExecutionError''] then Status 500
      else if isinstance e [''Exception''] then Status 500
      else Raised e)"

definition save_legacy_run ::
  "'e call \<Rightarrow> string \<Rightarrow> pyval \<Rightarrow> string \<Rightarrow> string \<Rightarrow> 's service \<Rightarrow> llm_exc option \<times> 's service" where
  \<comment> \<open>query, result, session id, agent\<close>
  "save_legacy_run c q payload sess agent w =
     (case memory w of
        None \<Rightarrow> (None, w)
      | Some m \<Rightarrow>
          (case best_effort (save_fault c)
                  (\<lambda>m. sqlite_save m (run_id c) q payload (Some [(''session_id'', VStr sess), (''agent'', VStr agent)]) (now_at c)) m of
             (err, m') \<Rightarrow> (err, w\<lparr>memory := Some m'\<rparr>)))"

definition admit_query :: "'a result \<Rightarrow> nat \<Rightarrow> api_error + 'a" where
  \<comment> \<open>a refused query and its status\<close>
  "admit_query r code = (case r of Inr q \<Rightarrow> Inr q | Inl ValueError \<Rightarrow> Inl (Status code) | Inl e \<Rightarrow> Inl (Unhandled e))"

section \<open>POST /run\<close>

definition legacy_admit :: "api_settings \<Rightarrow> legacy_env \<Rightarrow> 'e call \<Rightarrow> run_request \<Rightarrow> 's service \<Rightarrow> api_error + ticket" where
  \<comment> \<open>\<open>validate_pack_query\<close> raises an \<open>HTTPException\<close>, which the handler's \<open>except ValueError\<close> lets through\<close>
  "legacy_admit st env c rq w =
     rbind (get_legacy_pack_cls st env c w) (\<lambda>cls.
     if draining w then Inl (Status 503)
     else rbind (admit_query (validate_query_for_pack (policies w) (rq_query rq) (default_pack_id env) (validator st)) 422) (\<lambda>q.
       if q = [] then Inl (Status 400)
       else if \<not> llm_ready env then Inl (Status 503)
       else Inr \<lparr>tk_run = run_id c, tk_session = text_of (rq_session rq), tk_class = cls, tk_version = [],
                 tk_query = q, tk_body = []\<rparr>))"

definition session_used :: "string \<Rightarrow> ticket \<Rightarrow> string" where
  "session_used new_id tk = (case tk_session tk of Some s \<Rightarrow> s | None \<Rightarrow> new_id)"

definition legacy_begin where
  "legacy_begin acquire st env c rq w =
     (case legacy_admit st env c rq w of
        Inl err \<Rightarrow> (Inl err, w)
      | Inr tk \<Rightarrow> lock_session acquire c tk w)"

definition legacy_execute ::
  "api_settings \<Rightarrow> legacy_env \<Rightarrow> (pack_class \<Rightarrow> pack_impl) \<Rightarrow> string \<Rightarrow> 's service \<Rightarrow> ticket \<Rightarrow> llm_exc + run_response \<times> pyval" where
  "legacy_execute st env impl new_id w tk =
     (let p = impl (tk_class tk) in
      case construct p (pack_runtime_budget (policies w) st (tk_class tk)) of
        Some e \<Rightarrow> Inl e
      | None \<Rightarrow>
          (let out = rbind (run_text p (tk_query tk)) (\<lambda>res.
                 rbind (run_response_of (report_in (parse env) res) (session_used new_id tk) (run_cost p)) (\<lambda>resp.
                   Inr (resp, case to_dict res of Some d \<Rightarrow> d | None \<Rightarrow> VDict [])))
           in case close_pack p of Some e \<Rightarrow> Inl e | None \<Rightarrow> out))"

definition legacy_guarded ::
  "api_settings \<Rightarrow> legacy_env \<Rightarrow> (pack_class \<Rightarrow> pack_impl) \<Rightarrow> 'e call \<Rightarrow> string \<Rightarrow> ticket \<Rightarrow> 's service
     \<Rightarrow> (api_error + run_response) \<times> 's service" where
  "legacy_guarded st env impl c new_id tk w =
     (case legacy_execute st env impl new_id w tk of
        Inl e \<Rightarrow> (Inl (legacy_failure e), w)
      | Inr (resp, payload) \<Rightarrow>
          (case save_legacy_run c (tk_query tk) payload (session_used new_id tk) ''MultiAgentGraph'' w of
             (Some e, w') \<Rightarrow> (Inl (Raised e), w')
           | (None, w') \<Rightarrow> (Inr resp, w')))"

definition legacy_finish where
  "legacy_finish release st env impl c new_id tk w =
     (case legacy_guarded st env impl c new_id tk w of (answer, w') \<Rightarrow> (answer, unlock_session release c tk w'))"

definition run_pipeline where
  "run_pipeline acquire release st env impl c new_id rq w =
     (case legacy_begin acquire st env c rq w of
        (Inl err, w') \<Rightarrow> (Inl err, w')
      | (Inr tk, w') \<Rightarrow> legacy_finish release st env impl c new_id tk w')"

section \<open>POST /run/stream\<close>

datatype report_slot = NoReport | Report analysis_report | Odd pyval

definition read_report :: "(pydict \<Rightarrow> analysis_report option) \<Rightarrow> event \<Rightarrow> report_slot option" where
  \<comment> \<open>\<open>None\<close>: \<open>AnalysisReport(**report_raw)\<close> raised\<close>
  "read_report prs ev =
     (case map_of ev ''report'' of
        None \<Rightarrow> Some NoReport
      | Some f \<Rightarrow>
          (case (case f of Plain v \<Rightarrow> v | ModelDump v \<Rightarrow> v | ToDict v \<Rightarrow> v) of
             VNone \<Rightarrow> Some NoReport
           | VDict d \<Rightarrow> map_option Report (prs d)
           | v \<Rightarrow> Some (Odd v)))"

fun relay :: "(pydict \<Rightarrow> analysis_report option) \<Rightarrow> event list \<Rightarrow> report_slot \<Rightarrow> event list \<times> report_slot option" where
  \<comment> \<open>the frames passed on, and the report or a failure to read it\<close>
  "relay prs [] slot = ([], Some slot)"
| "relay prs (ev # evs) slot =
     (if map_of ev ''type'' \<in> {Some (Plain (VStr ''phase_started'')), Some (Plain (VStr ''phase_completed'')), Some (Plain (VStr ''token''))}
      then (case relay prs evs slot of (out, r) \<Rightarrow> (ev # out, r))
      else if map_of ev ''type'' = Some (Plain (VStr ''pipeline_completed''))
      then (case read_report prs ev of None \<Rightarrow> ([], None) | Some slot' \<Rightarrow> relay prs evs slot')
      else relay prs evs slot)"

definition status_event :: event where
  "status_event = [(''type'', Plain (VStr ''status'')), (''message'', Plain (VStr ''Starting pipeline...''))]"

definition done_event :: "string \<Rightarrow> string \<Rightarrow> analysis_report \<Rightarrow> event" where
  "done_event run sess r =
     [(''type'', Plain (VStr ''done'')), (''run_id'', Plain (VStr run)), (''session_id'', Plain (VStr sess)),
      (''executive_summary'', Plain (VStr (ar_executive_summary r))),
      (''key_insights'', Plain (VList (map VStr (ar_key_insights r)))),
      (''patterns'', Plain (VList (map VStr (ar_patterns r)))),
      (''implications'', Plain (VList (map VStr (ar_implications r)))),
      (''confidence'', Plain (VFloat (ar_confidence r))), (''research_summary'', Plain (VStr (ar_research_summary r)))]"

definition legacy_stream_failure :: "api_settings \<Rightarrow> event list \<Rightarrow> llm_exc \<Rightarrow> stream_result" where
  "legacy_stream_failure st sent e =
     (let msg = (\<lambda>m. \<lparr>chunks = sent @ [error_event m], aborted = None\<rparr>) in
      if isinstance e [''AgentTimeoutError''] then msg ''The pipeline timed out.''
      else if isinstance e [''AgentAuthenticationError''] then msg (exc_text st e)
      else if isinstance e [''AgentExecutionError'', ''AgentValidationError''] then msg ''The pipeline encountered an error.''
      else if isinstance e [''Exception''] then msg ''An unexpected error occurred.''
      else \<lparr>chunks = sent, aborted = Some e\<rparr>)"

definition stream_report ::
  "api_settings \<Rightarrow> 'e call \<Rightarrow> string \<Rightarrow> ticket \<Rightarrow> event list \<Rightarrow> report_slot \<Rightarrow> 's service \<Rightarrow> stream_result \<times> 's service" where
  \<comment> \<open>after the last event of the pack\<close>
  "stream_report st c new_id tk sent slot w =
     (case slot of
        NoReport \<Rightarrow> (\<lparr>chunks = sent @ [error_event ''Pipeline completed without a report.''], aborted = None\<rparr>, w)
      | Odd v \<Rightarrow> (legacy_stream_failure st sent ATTRIBUTE_ERROR, w)
      | Report r \<Rightarrow>
          (case save_legacy_run c (tk_query tk) (VDict (report_to_dict r)) (session_used new_id tk) ''stream_pipeline'' w of
             (Some e, w') \<Rightarrow> (legacy_stream_failure st sent e, w')
           | (None, w') \<Rightarrow> (\<lparr>chunks = sent @ [done_event (run_id c) (session_used new_id tk) r], aborted = None\<rparr>, w')))"

definition stream_pipeline ::
  "api_settings \<Rightarrow> legacy_env \<Rightarrow> (pack_class \<Rightarrow> pack_impl) \<Rightarrow> 'e call \<Rightarrow> string \<Rightarrow> ticket \<Rightarrow> 's service \<Rightarrow> stream_result \<times> 's service" where
  \<comment> \<open>run to its end\<close>
  "stream_pipeline st env impl c new_id tk w =
     (let p = impl (tk_class tk) in
      case construct p (pack_runtime_budget (policies w) st (tk_class tk)) of
        Some e \<Rightarrow> (legacy_stream_failure st [status_event] e, w)
      | None \<Rightarrow>
          (let src = stream_events (raw_events p (tk_query tk)) in
           case relay (parse env) (yielded src) NoReport of
             (sent, None) \<Rightarrow> (legacy_stream_failure st (status_event # sent) VALIDATION_ERROR, w)
           | (sent, Some slot) \<Rightarrow>
               (case failure src of
                  Some e \<Rightarrow> (legacy_stream_failure st (status_event # sent) e, w)
                | None \<Rightarrow> stream_report st c new_id tk (status_event # sent) slot w)))"

definition legacy_finish_stream ::
  "('s \<Rightarrow> 'e \<Rightarrow> string \<Rightarrow> 's) \<Rightarrow> api_settings \<Rightarrow> legacy_env \<Rightarrow> (pack_class \<Rightarrow> pack_impl) \<Rightarrow> 'e call \<Rightarrow> string \<Rightarrow> ticket \<Rightarrow> consumption
     \<Rightarrow> 's service \<Rightarrow> stream_result \<times> 's service" where
  \<comment> \<open>\<open>_guarded_stream\<close>; a client that leaves and the time-out strike before the report is handled\<close>
  "legacy_finish_stream release st env impl c new_id tk mode w =
     (let out = stream_pipeline st env impl c new_id tk w;
          frames = butlast (chunks (fst out))
      in case mode of
        Never \<Rightarrow> (\<lparr>chunks = [], aborted = None\<rparr>, w)
      | Leaves n \<Rightarrow> (\<lparr>chunks = take n frames, aborted = None\<rparr>, unlock_session release c tk w)
      | TimesOut n \<Rightarrow> (\<lparr>chunks = take n frames @ [timeout_event st (policies w) (default_pack_id env)], aborted = None\<rparr>,
                       unlock_session release c tk w)
      | ToTheEnd \<Rightarrow> (fst out, unlock_session release c tk (snd out)))"

definition run_stream where
  "run_stream acquire release st env impl c new_id mode rq w =
     (case legacy_begin acquire st env c rq w of
        (Inl err, w') \<Rightarrow> (Inl err, w')
      | (Inr tk, w') \<Rightarrow> (case legacy_finish_stream release st env impl c new_id tk mode w' of (res, w'') \<Rightarrow> (Inr res, w'')))"

section \<open>POST /research and the session history\<close>

definition research_admit :: "api_settings \<Rightarrow> legacy_env \<Rightarrow> run_request \<Rightarrow> 's service \<Rightarrow> api_error + string" where
  "research_admit st env rq w =
     (if draining w then Inl (Status 503)
      else rbind (admit_query (validate (validator st) (rq_query rq)) 400) (\<lambda>q.
        if q = [] then Inl (Status 400) else if \<not> llm_ready env then Inl (Status 503) else Inr q))"

definition run_research ::
  "api_settings \<Rightarrow> legacy_env \<Rightarrow> agent_env \<Rightarrow> llm_exc + unit \<Rightarrow> rat option \<Rightarrow> 'e call \<Rightarrow> string \<Rightarrow> run_request \<Rightarrow> 's service
     \<Rightarrow> (api_error + research_response) \<times> 's service" where
  \<comment> \<open>no session lock\<close>
  "run_research st env agent agent_init cost c new_id rq w =
     (case research_admit st env rq w of
        Inl err \<Rightarrow> (Inl err, w)
      | Inr q \<Rightarrow>
          (let sess = (case text_of (rq_session rq) of Some s \<Rightarrow> s | None \<Rightarrow> new_id) in
           case rbind agent_init (\<lambda>_. rbind (run_structured agent q) (\<lambda>r.
                  rbind (research_response_of r sess cost) (\<lambda>resp. Inr (resp, VDict (research_to_dict r))))) of
             Inl e \<Rightarrow> (Inl (legacy_failure e), w)
           | Inr (resp, payload) \<Rightarrow>
               (case save_legacy_run c q payload sess ''ResearchAgent'' w of
                  (Some e, w') \<Rightarrow> (Inl (Raised e), w')
                | (None, w') \<Rightarrow> (Inr resp, w'))))"

record history_entry =
  he_run_id :: string
  he_query :: string
  he_result_summary :: string
  he_created_at :: rat
  he_metadata :: pydict

definition entry_of :: "(pyval \<Rightarrow> string) \<Rightarrow> string \<times> run_row \<Rightarrow> history_entry" where
  "entry_of rend e =
     \<lparr>he_run_id = fst e, he_query = row_query (snd e),
      he_result_summary = take 200 (py_str rend (py_or (row_result (snd e)) (VStr []))),
      he_created_at = row_created (snd e), he_metadata = row_meta (snd e)\<rparr>"

definition get_session_history :: "(pyval \<Rightarrow> string) \<Rightarrow> string \<Rightarrow> 's service \<Rightarrow> history_entry list result" where
  "get_session_history rend sid w =
     (case memory w of
        None \<Rightarrow> Inr []
      | Some m \<Rightarrow> rbind (sqlite_by_session m sid 50) (\<lambda>runs. Inr (map (entry_of rend \<circ> entry) runs)))"

section \<open>Frames\<close>

lemma save_legacy_frame:
  "save_legacy_run c q payload sess agent w = (e, w') \<Longrightarrow>
     sessions w' = sessions w \<and> review_store w' = review_store w \<and> policies w' = policies w
     \<and> packs w' = packs w \<and> draining w' = draining w"
  by (auto simp: save_legacy_run_def split: option.splits prod.splits)

lemma legacy_admit_Inr:
  assumes "legacy_admit st env c rq w = Inr tk"
  shows "\<not> draining w" "llm_ready env" "tk_query tk \<noteq> []" "tk_session tk = text_of (rq_session rq)" "tk_run tk = run_id c"
    "validate_query_for_pack (policies w) (rq_query rq) (default_pack_id env) (validator st) = Inr (tk_query tk)"
    "get_legacy_pack_cls st env c w = Inr (tk_class tk)"
  using assms
  by (auto simp: legacy_admit_def admit_query_def rbind_Inr_iff split: if_splits sum.splits exn.splits)

lemma legacy_admit_Inl: "legacy_admit st env c rq w = Inl (Status n) \<Longrightarrow> n \<in> {503, 422, 400}"
  by (auto simp: legacy_admit_def admit_query_def get_legacy_pack_cls_def rbind_def split: if_splits sum.splits exn.splits)

lemma legacy_failure_Status: "legacy_failure e = Status n \<Longrightarrow> n \<in> {400, 402, 500, 502, 504}"
  by (auto simp: legacy_failure_def split: if_splits)

lemma legacy_begin_cases:
  obtains (refused) err where "legacy_begin mem_try_acquire st env c rq w = (Inl err, w)"
      "legacy_admit st env c rq w = Inl err \<or> err = Status 409"
    | (admitted) tk w1 where "legacy_admit st env c rq w = Inr tk" "legacy_begin mem_try_acquire st env c rq w = (Inr tk, w1)"
      "locked mem_try_acquire c tk w w1"
proof (cases "legacy_admit st env c rq w")
  case (Inl err)
  then show ?thesis by (intro refused [of err]) (simp_all add: legacy_begin_def)
next
  case (Inr tk)
  obtain x w1 where l: "lock_session mem_try_acquire c tk w = (x, w1)" by fastforce
  show ?thesis
  proof (cases x)
    case (Inl err)
    with l have "w1 = w \<and> err = Status 409" by (auto dest: lock_session_Inl mem_turned_away)
    with l Inl Inr show ?thesis by (intro refused [of err]) (simp_all add: legacy_begin_def)
  next
    case Inr2: (Inr tk')
    with l Inr show ?thesis by (intro admitted [of tk w1]) (simp_all add: legacy_begin_def lock_session_Inr)
  qed
qed

lemma locked_unlock:
  assumes "locked mem_try_acquire c tk w w1" and "sessions w2 = sessions w1"
  shows "sessions (unlock_session mem_release c tk w2) = sessions w"
  using assms by (auto simp: locked_def unlock_session_def mem_undo split: option.splits)

lemma locked_undo: "locked mem_try_acquire c tk w w1 \<Longrightarrow> unlock_session mem_release c tk w1 = w"
  by (auto simp: locked_def unlock_session_def mem_undo split: option.splits)

lemma unlock_frame [simp]:
  "memory (unlock_session release c tk w) = memory w" "review_store (unlock_session release c tk w) = review_store w"
  by (auto simp: unlock_session_def split: option.splits)

lemma locked_frame:
  "locked acquire c tk w w1 \<Longrightarrow> memory w1 = memory w \<and> review_store w1 = review_store w \<and> policies w1 = policies w"
  by (auto simp: locked_def split: option.splits)

lemma legacy_guarded_Inl:
  "legacy_guarded st env impl c new_id tk w = (Inl (Status n), w') \<Longrightarrow> w' = w \<and> n \<in> {400, 402, 500, 502, 504}"
  by (auto simp: legacy_guarded_def dest: legacy_failure_Status split: sum.splits prod.splits option.splits)

lemma legacy_guarded_Inr:
  assumes "legacy_guarded st env impl c new_id tk w = (Inr resp, w')"
  obtains payload where "legacy_execute st env impl new_id w tk = Inr (resp, payload)"
    and "save_legacy_run c (tk_query tk) payload (session_used new_id tk) ''MultiAgentGraph'' w = (None, w')"
  using assms by (auto simp: legacy_guarded_def split: sum.splits prod.splits option.splits)

lemma legacy_guarded_frame:
  "sessions (snd (legacy_guarded st env impl c new_id tk w)) = sessions w
   \<and> review_store (snd (legacy_guarded st env impl c new_id tk w)) = review_store w"
  by (auto simp: legacy_guarded_def split: sum.splits prod.splits option.splits dest!: save_legacy_frame)

section \<open>What a run leaves behind\<close>

lemma stream_pipeline_frame:
  "sessions (snd (stream_pipeline st env impl c new_id tk w)) = sessions w
   \<and> review_store (snd (stream_pipeline st env impl c new_id tk w)) = review_store w"
  by (auto simp: stream_pipeline_def stream_report_def Let_def
      split: option.splits prod.splits report_slot.splits dest!: save_legacy_frame)

lemma legacy_stream_sessions:
  "sessions (snd (legacy_finish_stream mem_release st env impl c new_id tk mode w)) =
     (if mode = Never then sessions w else sessions (unlock_session mem_release c tk w))"
  using stream_pipeline_frame [of st env impl c new_id tk w]
  by (auto simp: legacy_finish_stream_def unlock_session_def Let_def split: consumption.splits option.splits)

text \<open>The history after a save of a run of these endpoints.\<close>

definition saved_legacy :: "'e call \<Rightarrow> string \<Rightarrow> pyval \<Rightarrow> string \<Rightarrow> string \<Rightarrow> sql_runs \<Rightarrow> sql_runs" where
  "saved_legacy c q payload sess agent m =
     (if lands (save_fault c)
      then (case sqlite_save m (run_id c) q payload (Some [(''session_id'', VStr sess), (''agent'', VStr agent)]) (now_at c) of
              Inr m' \<Rightarrow> m' | Inl e \<Rightarrow> m)
      else m)"

definition after_save :: "'e call \<Rightarrow> string \<Rightarrow> pyval \<Rightarrow> string \<Rightarrow> string \<Rightarrow> 's service \<Rightarrow> 's service" where
  "after_save c q payload sess agent w = w\<lparr>memory := map_option (saved_legacy c q payload sess agent) (memory w)\<rparr>"

lemma save_legacy_eq:
  "save_legacy_run c q payload sess agent w = (save_escapes c w, after_save c q payload sess agent w)"
  by (simp add: save_legacy_run_def best_effort_eq saved_legacy_def after_save_def save_escapes_def split: option.split)

lemma unlock_after_save:
  assumes "locked mem_try_acquire c tk w w1"
  shows "unlock_session mem_release c tk (after_save c q payload sess agent w1) = after_save c q payload sess agent w"
  using locked_undo [OF assms] locked_frame [OF assms] by (simp add: after_save_def unlock_commutes)

lemma legacy_execute_locked:
  assumes "locked mem_try_acquire c tk w w1"
  shows "legacy_execute st env impl new_id w1 tk = legacy_execute st env impl new_id w tk"
  using locked_frame [OF assms] by (simp add: legacy_execute_def)

lemma save_escapes_locked: "locked mem_try_acquire c tk w w1 \<Longrightarrow> save_escapes c w1 = save_escapes c w"
  by (auto simp: save_escapes_def dest: locked_frame)

definition not_done :: "event \<Rightarrow> bool" where
  "not_done ev \<longleftrightarrow> map_of ev ''type'' \<noteq> Some (Plain (VStr ''done''))"

lemma failure_not_done:
  "list_all not_done sent \<Longrightarrow> list_all not_done (chunks (legacy_stream_failure st sent e))"
  by (auto simp: legacy_stream_failure_def Let_def not_done_def error_event_def)

lemma relay_not_done: "list_all not_done (fst (relay prs evs slot))"
proof (induction evs arbitrary: slot)
  case (Cons ev evs)
  from Cons.IH show ?case
    by (auto simp: not_done_def split: prod.split option.split) (metis fst_conv)+
qed simp

lemma run_pipeline_effects:
  "case run_pipeline mem_try_acquire mem_release st env impl c new_id rq w of
     (Inl (Status n), w') \<Rightarrow> w' = w \<and> n \<in> {400, 402, 409, 422, 500, 502, 503, 504}
   | (Inl err, w') \<Rightarrow> w' = w
       \<or> (\<exists>tk resp payload. legacy_admit st env c rq w = Inr tk \<and> legacy_execute st env impl new_id w tk = Inr (resp, payload)
            \<and> map_option Raised (save_escapes c w) = Some err
            \<and> w' = after_save c (tk_query tk) payload (session_used new_id tk) ''MultiAgentGraph'' w)
   | (Inr resp, w') \<Rightarrow> \<exists>tk payload. legacy_admit st env c rq w = Inr tk
       \<and> legacy_execute st env impl new_id w tk = Inr (resp, payload) \<and> save_escapes c w = None
       \<and> w' = after_save c (tk_query tk) payload (session_used new_id tk) ''MultiAgentGraph'' w"
proof (cases rule: legacy_begin_cases [of st env c rq w])
  case (refused err)
  then show ?thesis
    by (cases err) (auto simp: run_pipeline_def dest: legacy_admit_Inl)
next
  case (admitted tk w1)
  note l = admitted(3)
  note same = legacy_execute_locked [OF l, of st env impl new_id]
  show ?thesis
  proof (cases "legacy_execute st env impl new_id w tk")
    case (Inl e)
    then have r: "run_pipeline mem_try_acquire mem_release st env impl c new_id rq w = (Inl (legacy_failure e), w)"
      using admitted same by (simp add: run_pipeline_def legacy_finish_def legacy_guarded_def locked_undo [OF l])
    show ?thesis unfolding r using legacy_failure_Status [of e] by (cases "legacy_failure e") auto
  next
    case (Inr res)
    obtain resp payload where res: "res = (resp, payload)" by (cases res)
    have r: "run_pipeline mem_try_acquire mem_release st env impl c new_id rq w
        = (case save_escapes c w of Some e \<Rightarrow> Inl (Raised e) | None \<Rightarrow> Inr resp,
           after_save c (tk_query tk) payload (session_used new_id tk) ''MultiAgentGraph'' w)"
      using admitted same Inr res save_escapes_locked [OF l]
      by (simp add: run_pipeline_def legacy_finish_def legacy_guarded_def save_legacy_eq unlock_after_save [OF l] split: option.split)
    show ?thesis unfolding r using admitted(1) Inr res by (auto split: option.split)
  qed
qed

lemma stream_pipeline_effects:
  assumes "stream_pipeline st env impl c new_id tk w = (out, w')"
  shows "w' = w \<and> list_all not_done (chunks out)
    \<or> (\<exists>rep sent. w' = after_save c (tk_query tk) (VDict (report_to_dict rep)) (session_used new_id tk) ''stream_pipeline'' w
         \<and> list_all not_done sent
         \<and> (case save_escapes c w of
              None \<Rightarrow> chunks out = sent @ [done_event (run_id c) (session_used new_id tk) rep]
            | Some e \<Rightarrow> chunks out = chunks (legacy_stream_failure st sent e)))"
proof -
  have status: "not_done status_event" "\<And>m. not_done (error_event m)"
    by (simp_all add: not_done_def status_event_def error_event_def)
  have failed: "list_all not_done (chunks (legacy_stream_failure st (status_event # sent) e))" if "list_all not_done sent" for sent e
    using failure_not_done [of "status_event # sent" st e] that status by simp
  show ?thesis
  proof (cases "construct (impl (tk_class tk)) (pack_runtime_budget (policies w) st (tk_class tk))")
    case (Some e)
    then show ?thesis using assms failed [of "[]"] by (auto simp: stream_pipeline_def Let_def)
  next
    case None
    define src where "src = stream_events (raw_events (impl (tk_class tk)) (tk_query tk))"
    obtain sent slot where r: "relay (parse env) (yielded src) NoReport = (sent, slot)"
      by (cases "relay (parse env) (yielded src) NoReport")
    have s: "list_all not_done sent" using relay_not_done [of "parse env" "yielded src" NoReport] r by simp
    have out: "(out, w') = (case slot of None \<Rightarrow> (legacy_stream_failure st (status_event # sent) VALIDATION_ERROR, w)
        | Some slot \<Rightarrow> (case failure src of Some e \<Rightarrow> (legacy_stream_failure st (status_event # sent) e, w)
            | None \<Rightarrow> stream_report st c new_id tk (status_event # sent) slot w))"
      using assms None r by (simp add: stream_pipeline_def Let_def src_def split: option.splits)
    show ?thesis
    proof (cases "\<exists>rep. slot = Some (Report rep) \<and> failure src = None")
      case True
      then obtain rep where "slot = Some (Report rep)" "failure src = None" by blast
      then show ?thesis using out s status
        by (intro disjI2 exI [of _ rep] exI [of _ "status_event # sent"])
          (auto simp: stream_report_def save_legacy_eq split: option.splits)
    next
      case False
      then have "w' = w \<and> list_all not_done (chunks out)" using out s status failed [OF s]
        by (auto simp: stream_report_def split: option.splits report_slot.splits)
      then show ?thesis ..
    qed
  qed
qed

lemma run_stream_effects:
  "case run_stream mem_try_acquire mem_release st env impl c new_id mode rq w of
     (Inl err, w') \<Rightarrow> w' = w
   | (Inr out, w') \<Rightarrow> \<exists>tk. legacy_admit st env c rq w = Inr tk
       \<and> (if mode = Never then locked mem_try_acquire c tk w w' \<and> chunks out = []
          else w' = w \<and> list_all not_done (chunks out)
             \<or> mode = ToTheEnd \<and> (\<exists>rep sent.
                 w' = after_save c (tk_query tk) (VDict (report_to_dict rep)) (session_used new_id tk) ''stream_pipeline'' w
                 \<and> list_all not_done sent
                 \<and> (case save_escapes c w of
                      None \<Rightarrow> chunks out = sent @ [done_event (run_id c) (session_used new_id tk) rep]
                    | Some e \<Rightarrow> chunks out = chunks (legacy_stream_failure st sent e))))"
proof (cases rule: legacy_begin_cases [of st env c rq w])
  case (refused err)
  then show ?thesis by (simp add: run_stream_def)
next
  case (admitted tk w1)
  note l = admitted(3)
  obtain out w2 where p: "stream_pipeline st env impl c new_id tk w1 = (out, w2)"
    by (cases "stream_pipeline st env impl c new_id tk w1")
  note eff = stream_pipeline_effects [OF p]
  have frames: "list_all not_done (take n (butlast (chunks out)))" for n
  proof -
    have "list_all not_done (butlast (chunks out))"
      using eff
    proof (elim disjE exE conjE)
      fix rep sent
      assume s: "list_all not_done sent" and "case save_escapes c w1 of
          None \<Rightarrow> chunks out = sent @ [done_event (run_id c) (session_used new_id tk) rep]
        | Some e \<Rightarrow> chunks out = chunks (legacy_stream_failure st sent e)"
      then show ?thesis using failure_not_done [OF s, of st]
        by (cases "save_escapes c w1") (auto simp: list_all_iff dest: in_set_butlastD)
    qed (auto simp: list_all_iff dest: in_set_butlastD)
    then show ?thesis by (auto simp: list_all_iff dest: in_set_takeD)
  qed
  have late: "not_done (timeout_event st pols pid)" for pols pid
    by (simp add: not_done_def timeout_event_def error_event_def)
  have run: "run_stream mem_try_acquire mem_release st env impl c new_id mode rq w =
      (Inr (fst (legacy_finish_stream mem_release st env impl c new_id tk mode w1)),
       snd (legacy_finish_stream mem_release st env impl c new_id tk mode w1))"
    using admitted by (simp add: run_stream_def split: prod.split)
  show ?thesis
  proof (cases mode)
    case ToTheEnd
    show ?thesis unfolding run using ToTheEnd eff admitted(1) locked_undo [OF l] unlock_after_save [OF l] save_escapes_locked [OF l]
      by (auto simp: legacy_finish_stream_def p)
  qed (unfold run, use admitted(1) l frames late in \<open>simp_all add: legacy_finish_stream_def p Let_def locked_undo [OF l]\<close>)
qed

text \<open>C28. \<open>POST /run\<close>: a run answered with an error status leaves nothing behind, and the status is
  one of those the handler knows; an answered run is in the history, unless there is no store
  or the write fails or times out, and nothing else has changed: no session is in flight more
  than before, no review is queued. What escapes the handler leaves nothing either, or the
  finished run, when it struck during the save. \<open>POST /run/stream\<close>: a refused stream changes
  nothing; one that is admitted but never sent keeps its session locked; any other leaves
  nothing and has no \<open>done\<close> event, or it went to its end, its report is saved under the same
  conditions, and it ends with the \<open>done\<close> event of that report or, when the save raised what no
  handler catches, with the frames of the failure.\<close>

theorem legacy_run_effects:
  "(case run_pipeline mem_try_acquire mem_release st env impl c new_id rq w of
     (Inl (Status n), w') \<Rightarrow> w' = w \<and> n \<in> {400, 402, 409, 422, 500, 502, 503, 504}
   | (Inl err, w') \<Rightarrow> w' = w
       \<or> (\<exists>tk resp payload. legacy_admit st env c rq w = Inr tk \<and> legacy_execute st env impl new_id w tk = Inr (resp, payload)
            \<and> map_option Raised (save_escapes c w) = Some err
            \<and> w' = after_save c (tk_query tk) payload (session_used new_id tk) ''MultiAgentGraph'' w)
   | (Inr resp, w') \<Rightarrow> \<exists>tk payload. legacy_admit st env c rq w = Inr tk
       \<and> legacy_execute st env impl new_id w tk = Inr (resp, payload) \<and> save_escapes c w = None
       \<and> w' = after_save c (tk_query tk) payload (session_used new_id tk) ''MultiAgentGraph'' w)
   \<and> (case run_stream mem_try_acquire mem_release st env impl c new_id mode rq w of
     (Inl err, w') \<Rightarrow> w' = w
   | (Inr out, w') \<Rightarrow> \<exists>tk. legacy_admit st env c rq w = Inr tk
       \<and> (if mode = Never then locked mem_try_acquire c tk w w' \<and> chunks out = []
          else w' = w \<and> list_all not_done (chunks out)
             \<or> mode = ToTheEnd \<and> (\<exists>rep sent.
                 w' = after_save c (tk_query tk) (VDict (report_to_dict rep)) (session_used new_id tk) ''stream_pipeline'' w
                 \<and> list_all not_done sent
                 \<and> (case save_escapes c w of
                      None \<Rightarrow> chunks out = sent @ [done_event (run_id c) (session_used new_id tk) rep]
                    | Some e \<Rightarrow> chunks out = chunks (legacy_stream_failure st sent e)))))"
  by (rule conjI, rule run_pipeline_effects, rule run_stream_effects)

text \<open>C29. An answered run is in the session's history: if the store works, its clock goes forward
  and the session id of the answer is not blank and has no colon, the endpoint that lists the
  session shows the run first, with the validated query, the time, the session and the agent,
  and with the first 200 characters of the very result the answer's report was read from.\<close>

theorem answered_run_in_history:
  assumes "run_pipeline mem_try_acquire mem_release st env impl c new_id rq w = (Inr resp, w')"
    and "memory w = Some m" and "sql_rel m h" and "save_fault c = NoFault"
    and "\<forall>e\<in>set h. row_created (snd e) < now_at c"
    and "\<not> blank (run_id c)" and "\<not> blank (rp_session resp)" and "CHR '':'' \<notin> set (rp_session resp)"
  shows "\<exists>e rest d. get_session_history rend (rp_session resp) w' = Inr (e # rest) \<and> he_run_id e = run_id c
    \<and> validate_query_for_pack (policies w) (rq_query rq) (default_pack_id env) (validator st) = Inr (he_query e)
    \<and> parse env d = Some (rp_report resp)
    \<and> he_result_summary e = take 200 (if d = [] then [] else py_str rend (VDict d))
    \<and> he_created_at e = now_at c
    \<and> he_metadata e = [(''session_id'', VStr (rp_session resp)), (''agent'', VStr ''MultiAgentGraph'')]"
proof -
  from run_pipeline_effects [where st = st and env = env and impl = impl and c = c and new_id = new_id and rq = rq and w = w] assms(1) obtain tk payload where a: "legacy_admit st env c rq w = Inr tk"
    and e: "legacy_execute st env impl new_id w tk = Inr (resp, payload)"
    and w': "w' = after_save c (tk_query tk) payload (session_used new_id tk) ''MultiAgentGraph'' w"
    by auto
  note adm = legacy_admit_Inr [OF a]
  from adm(6) have q: "validate (validator st) (rq_query rq) = Inr (tk_query tk)"
    by (auto simp: validate_query_for_pack_def split: option.splits if_splits)
  have strip: "strip (tk_query tk) = tk_query tk"
    using q collapse_strip_fix [of "rq_query rq"] by (auto simp: validate_eq split: if_splits)
  then have nb: "\<not> blank (tk_query tk)" using adm(3) by (simp add: blank_iff)
  from e have sess: "rp_session resp = session_used new_id tk" and "\<exists>d. payload = VDict d \<and> parse env d = Some (rp_report resp)"
    by (auto simp: legacy_execute_def Let_def rbind_Inr_iff run_response_of_def report_in_def split: option.splits if_splits pyval.splits)
  then obtain d where d: "payload = VDict d" "parse env d = Some (rp_report resp)" by blast
  let ?meta = "[(''session_id'', VStr (session_used new_id tk)), (''agent'', VStr ''MultiAgentGraph'')]"
  let ?row = "new_row (tk_query tk) payload (Some ?meta) (now_at c)"
  have ok: "save_ok h (run_id c) ?row"
    using assms(5,8) sess by (auto simp: save_ok_def new_row_def dget_def text_or_none_def)
  obtain m' where m': "sqlite_save m (run_id c) (tk_query tk) payload (Some ?meta) (now_at c) = Inr m'"
    and rel: "sql_rel m' (h_save h (run_id c) ?row)"
    using sqlite.save_rel [OF assms(3) _ ok] assms(6) nb
    by (auto simp: save_args_ok_def)
  have mem: "memory w' = Some m'"
    using m' assms(2,4) by (simp add: w' after_save_def saved_legacy_def lands_def)
  have "map_sum id (map entry) (sqlite_by_session m' (rp_session resp) 50) = Inr (h_session (h_save h (run_id c) ?row) (rp_session resp) 50)"
    using sqlite.by_session_eq [OF rel] assms(7,8) by simp
  also have "h_session (h_save h (run_id c) ?row) (rp_session resp) 50
      = (run_id c, ?row) # take 49 (rev (filter (\<lambda>e. in_session (rp_session resp) (snd e)) (filter (\<lambda>e. fst e \<noteq> run_id c) h)))"
    by (simp add: h_session_def h_save_def in_session_def new_row_def dget_def sess)
  finally obtain r rs where runs: "sqlite_by_session m' (rp_session resp) 50 = Inr (r # rs)" and r: "entry r = (run_id c, ?row)"
    by (cases "sqlite_by_session m' (rp_session resp) 50") (auto simp: map_eq_Cons_conv)
  show ?thesis
    using adm(6) strip d runs r sess
    by (auto simp: get_session_history_def mem entry_of_def new_row_def py_or_def)
qed

section \<open>The lock is shared with the pack endpoints\<close>

text \<open>While a run or a stream of a session is in progress at any endpoint, \<open>POST /run\<close> and
  \<open>/run/stream\<close> for that session are turned away and change nothing.\<close>

theorem legacy_run_excluded:
  assumes "api_reach w ts ls" and "(streaming, tk) \<in> set ts" and "tk_session tk = Some sid" and "rq_session rq = Some sid"
    and "sid \<noteq> []"
  shows "\<exists>err. legacy_begin mem_try_acquire st env c rq w = (Inl err, w)
    \<and> ((\<exists>adm. legacy_admit st env c rq w = Inr adm) \<longrightarrow> err = Status 409)"
proof -
  have held: "sid \<in> set (sessions w)"
    using api_reach_locks [OF assms(1)] assms(2,3) by (force simp: locks_exact_def open_sessions_def)
  show ?thesis
  proof (cases rule: legacy_begin_cases [of st env c rq w])
    case (refused err)
    then show ?thesis by auto
  next
    case (admitted adm w1)
    have "tk_session adm = Some sid"
      using legacy_admit_Inr(4) [OF admitted(1)] assms(4,5) by (cases sid) (auto simp: text_of_def)
    with admitted(3) held have False by (auto simp: locked_def mem_try_acquire_def)
    then show ?thesis ..
  qed
qed

section \<open>The default pack behind the endpoints\<close>

definition report_object :: "analysis_report \<Rightarrow> pack_result" where
  "report_object rep = \<lparr>to_dict = Some (VDict (report_to_dict rep)), model_dump = Some (VDict (report_to_dict rep)),
     the_object = VDict (report_to_dict rep)\<rparr>"

definition research_analysis_impl ::
  "agent_env \<Rightarrow> llm_exc + unit \<Rightarrow> llm_exc + unit \<Rightarrow> (string \<times> (string \<Rightarrow> llm_exc + connector_result)) option
     \<Rightarrow> (string \<Rightarrow> event list) \<Rightarrow> rat option \<Rightarrow> pack_impl" where
  "research_analysis_impl agent init1 init2 connector toks spent =
     \<lparr>own_attributes = [''run'', ''arun'', ''_iter_stream_events'', ''get_research_result''],
      construct = (\<lambda>_. None),
      run_from_input = (\<lambda>body. Inl ATTRIBUTE_ERROR),
      run_text = (\<lambda>q. map_sum id report_object (research_analysis_run agent init1 init2 connector q)),
      run_cost = spent, close_pack = None,
      events_from_input = (\<lambda>body. \<lparr>yielded = [], failure = Some ATTRIBUTE_ERROR\<rparr>),
      raw_events = research_analysis_events agent init1 init2 connector toks\<rparr>"

definition is_token :: "event \<Rightarrow> bool" where
  "is_token ev \<longleftrightarrow> map_of ev ''type'' = Some (Plain (VStr ''token''))"

lemma relay_append:
  "relay prs (as @ bs) slot =
     (case relay prs as slot of (out, None) \<Rightarrow> (out, None)
      | (out, Some slot') \<Rightarrow> (case relay prs bs slot' of (out', r) \<Rightarrow> (out @ out', r)))"
  by (induction as arbitrary: slot) (auto split: prod.splits option.splits)

lemma relay_tokens: "list_all is_token evs \<Longrightarrow> relay prs evs slot = (evs, Some slot)"
  by (induction evs) (auto simp: is_token_def)

lemma phase_event_type: "map_of (phase_event kind phase) ''type'' = Some (Plain (VStr kind))"
  by (simp add: phase_event_def pack_stream_event_def)

lemma relay_node:
  assumes "list_all is_token toks"
  shows "relay prs (node_events phase toks outcome) slot = (node_events phase toks outcome, Some slot)"
  using relay_tokens [OF assms]
  by (auto simp: node_events_def phase_event_type relay_append split: sum.splits)

lemma completed_type: "map_of (pack_stream_event kind [(''report'', f)]) ''type'' = Some (Plain (VStr kind))"
  by (simp add: pack_stream_event_def)

lemma completed_read:
  assumes "prs (report_to_dict rep) = Some rep"
  shows "read_report prs (pack_stream_event kind [(''report'', ModelDump (VDict (report_to_dict rep)))]) = Some (Report rep)"
  using assms by (simp add: pack_stream_event_def read_report_def serialize_stream_field_def)

definition has_type :: "event \<Rightarrow> bool" where
  "has_type ev \<longleftrightarrow> map_of ev ''type'' \<noteq> None"

lemma has_type_simps [simp]: "has_type (phase_event kind phase)" "has_type (pack_stream_event kind payload)"
  using pack_stream_event_type by (simp_all add: has_type_def phase_event_type)

lemma node_events_typed: "list_all is_token toks \<Longrightarrow> list_all has_type (node_events phase toks x)"
  by (auto simp: node_events_def is_token_def list_all_iff split: sum.splits) (simp add: has_type_def)

lemma events_typed:
  assumes "\<And>n. list_all is_token (toks n)"
  shows "stream_events (research_analysis_events env init1 init2 connector toks q)
    = research_analysis_events env init1 init2 connector toks q"
proof -
  have "list_all has_type (yielded (research_analysis_events env init1 init2 connector toks q))"
    by (simp add: research_analysis_events_def Let_def node_events_typed [OF assms] split: sum.split option.split)
  then show ?thesis
    by (simp add: stream_events_def normalize_all_fix list_all_iff has_type_def)
qed

definition slot_of :: "llm_exc + analysis_report \<Rightarrow> report_slot" where
  "slot_of r = (case r of Inr rep \<Rightarrow> Report rep | Inl e \<Rightarrow> NoReport)"

lemma node_events_not_done: "list_all is_token toks \<Longrightarrow> list_all not_done (node_events phase toks x)"
  by (auto simp: node_events_def is_token_def not_done_def phase_event_type list_all_iff split: sum.splits)

lemma relay_pipeline:
  assumes "\<And>n. list_all is_token (toks n)" and "\<And>rep. prs (report_to_dict rep) = Some rep"
  obtains sent where "relay prs (yielded (research_analysis_events env init1 init2 connector toks q)) NoReport
      = (sent, Some (slot_of (research_analysis_run env init1 init2 connector q)))"
    and "list_all not_done sent"
    and "isl (research_analysis_run env init1 init2 connector q)
      \<or> failure (research_analysis_events env init1 init2 connector toks q) = None"
proof -
  let ?n1 = "pipeline_research_node env init1 connector (strip q)"
  note defs = research_analysis_run_def research_analysis_events_def research_analysis_graph_def pack_final_def Let_def
    relay_append relay_node [OF assms(1)] completed_type completed_read [of prs, OF assms(2)] node_events_not_done [OF assms(1)] slot_of_def
  consider "blank q" | (stop) e where "\<not> blank q" "?n1 = Inl e" | (none) "\<not> blank q" "?n1 = Inr None"
    | (go) r where "\<not> blank q" "?n1 = Inr (Some r)"
    by (metis sum.exhaust option.exhaust)
  then show ?thesis
  proof cases
    case 1
    then show ?thesis by (intro that [of "[]"]) (simp_all add: defs)
  next
    case (stop e)
    then show ?thesis by (intro that [of "node_events ''research'' (toks ''research_node'') ?n1"]) (simp_all add: defs)
  next
    case none
    then show ?thesis by (intro that [of "node_events ''research'' (toks ''research_node'') ?n1"]) (simp_all add: defs)
  next
    case (go r)
    let ?n2 = "pipeline_analysis_node env init2 r"
    show ?thesis using go
      by (intro that [of "node_events ''research'' (toks ''research_node'') ?n1 @ node_events ''analysis'' (toks ''analysis_node'') ?n2"])
        (simp_all add: defs split: sum.split option.split)
  qed
qed

lemma pack_node_Some: "pack_node x = Inr (Some y) \<longleftrightarrow> x = Inr y"
  by (auto simp: pack_node_def split: sum.splits if_splits)

lemma pack_final_Inr: "pack_final x = Inr y \<longleftrightarrow> x = Inr (Some y)"
  by (auto simp: pack_final_def split: sum.splits if_splits option.splits)

lemma report_in_unit:
  assumes "research_analysis_run env init1 init2 connector q = Inr rep"
  shows "unit_interval (ar_confidence rep)"
proof -
  from assms obtain r where "analyst_run_structured env r = Inr rep"
    by (auto simp: research_analysis_run_def pack_final_Inr research_analysis_graph_def pipeline_analysis_node_def pack_node_Some
        rbind_Inr_iff split: if_splits option.splits)
  then obtain st where e: "analyst_execute env (rr_query r) (research_to_dict r) = Inr st" and "as_report st = Some rep"
    by (auto simp: analyst_run_structured_def rbind_Inr_iff split: option.splits)
  from e obtain q' r' where "analysis_graph env (initial_analysis env q' r') = Inr st" by (rule analyst_execute_Inr)
  from analysis_effect [OF this] \<open>as_report st = Some rep\<close> show ?thesis by (auto simp: unit_interval_def)
qed

lemma save_no_fault: "save_fault c = NoFault \<Longrightarrow> fst (save_legacy_run c q payload sess agent w) = None"
  by (simp add: save_legacy_eq save_escapes_def escapes_def)

text \<open>C27. The two endpoints of the default pack agree on the same inputs: if \<open>POST /run\<close> answers,
  the stream ends with a \<open>done\<close> event that carries the report and the session of that answer; if
  the run fails, the stream never claims to be done.\<close>

theorem legacy_stream_matches_run:
  assumes "impl (tk_class tk) = research_analysis_impl agent init1 init2 connector toks spent"
    and "\<And>n. list_all is_token (toks n)" and "\<And>rep. parse env (report_to_dict rep) = Some rep"
    and "save_fault c = NoFault"
  shows "case fst (legacy_guarded st env impl c new_id tk w) of
      Inr resp \<Rightarrow> (\<exists>sent. chunks (fst (stream_pipeline st env impl c new_id tk w))
          = sent @ [done_event (run_id c) (rp_session resp) (rp_report resp)] \<and> list_all not_done sent)
    | Inl err \<Rightarrow> list_all not_done (chunks (fst (stream_pipeline st env impl c new_id tk w)))"
proof -
  let ?run = "research_analysis_run agent init1 init2 connector (tk_query tk)"
  obtain sent where r: "relay (parse env) (yielded (research_analysis_events agent init1 init2 connector toks (tk_query tk))) NoReport
      = (sent, Some (slot_of ?run))" and s: "list_all not_done sent"
    and f: "isl ?run \<or> failure (research_analysis_events agent init1 init2 connector toks (tk_query tk)) = None"
    using relay_pipeline [of toks "parse env", OF assms(2,3)] by blast
  have status: "not_done status_event" by (simp add: not_done_def status_event_def)
  note defs = research_analysis_impl_def legacy_guarded_def legacy_execute_def stream_pipeline_def assms(1) r
    events_typed [OF assms(2)] slot_of_def stream_report_def
  show ?thesis
  proof (cases ?run)
    case (Inl e)
    have "list_all not_done (chunks (fst (stream_pipeline st env impl c new_id tk w)))"
      using s status Inl
      by (auto simp: defs failure_not_done split: option.splits)
        (simp add: not_done_def error_event_def)
    then show ?thesis using Inl by (simp add: defs)
  next
    case (Inr rep)
    from save_no_fault [OF assms(4)] have none: "fst (save_legacy_run c q payload sess agent' w) = None" for q payload sess agent' .
    obtain w1 where w1: "save_legacy_run c (tk_query tk) (VDict (report_to_dict rep)) (session_used new_id tk) ''MultiAgentGraph'' w = (None, w1)"
      using none by (metis prod.collapse)
    obtain w2 where w2: "save_legacy_run c (tk_query tk) (VDict (report_to_dict rep)) (session_used new_id tk) ''stream_pipeline'' w = (None, w2)"
      using none by (metis prod.collapse)
    show ?thesis
      using Inr f s status report_in_unit [OF Inr]
      by (simp add: defs w1 w2 report_in_def report_object_def assms(3) run_response_of_def)
  qed
qed

section \<open>What the two families of endpoints treat differently\<close>

text \<open>The pack endpoints look for a rejected credential behind an execution error and answer
  502 (\<open>rejected_credentials_are_502\<close>); these endpoints do not look, and answer 500.\<close>

lemma wrapped_credentials_are_500: "legacy_failure (wrap EXECUTION_ERROR x) = Status 500"
  by (simp add: legacy_failure_def isinstance_def wrap_def EXECUTION_ERROR_def)

text \<open>With a regulated pack as the default, neither the flag that disables regulated packs nor
  the pack's endpoint decides: the run is admitted whatever the flag says.\<close>

lemma legacy_ignores_regulated_flag:
  "legacy_begin acquire (st\<lparr>regulated_packs_enabled := b\<rparr>) env c rq w = legacy_begin acquire st env c rq w"
  by (simp add: legacy_begin_def legacy_admit_def get_legacy_pack_cls_def cong: if_cong)

text \<open>A research request neither takes nor respects the lock of its session.\<close>

lemma research_ignores_lock:
  "fst (run_research st env agent agent_init cost c new_id rq (w\<lparr>sessions := s\<rparr>)) = fst (run_research st env agent agent_init cost c new_id rq w)
   \<and> sessions (snd (run_research st env agent agent_init cost c new_id rq w)) = sessions w"
  by (auto simp: run_research_def research_admit_def Let_def save_legacy_run_def
      split: sum.splits prod.splits option.splits)

section \<open>A small default pack\<close>

definition demo_legacy :: legacy_env where
  "demo_legacy = \<lparr>default_pack_id = ''research_analysis'', active_pack_cls = None,
     fallback_cls = builtin_class ''R'' ''research_analysis'' ''n'' ''d'', llm_ready = True,
     parse = (\<lambda>d. Some \<lparr>ar_query = ''q'', ar_executive_summary = [], ar_key_insights = [], ar_patterns = [],
        ar_implications = [], ar_confidence = 1/2, ar_research_summary = [], ar_metadata = []\<rparr>)\<rparr>"

definition demo_report_impl :: pack_impl where
  "demo_report_impl = demo_impl\<lparr>run_text := (\<lambda>q. Inr \<lparr>to_dict = Some (VDict []), model_dump = None, the_object = VNone\<rparr>)\<rparr>"

definition demo_request :: run_request where
  "demo_request = \<lparr>rq_query = ''Why?'', rq_session = Some ''s1''\<rparr>"

abbreviation demo_legacy_run :: "(api_error + run_response) \<times> session_set service" where
  "demo_legacy_run \<equiv> run_pipeline mem_try_acquire mem_release (demo_settings False) demo_legacy (\<lambda>_. demo_report_impl)
     (demo_call () ()) ''new'' demo_request (demo_service_of [])"

lemma demo_legacy_answer: "map_sum id rp_session (fst demo_legacy_run) = Inr ''s1''"
  by code_simp

theorem answered_run_in_history_witness:
  "\<exists>e rest. get_session_history (\<lambda>_. []) ''s1'' (snd demo_legacy_run) = Inr (e # rest)
     \<and> he_run_id e = ''run-1'' \<and> he_created_at e = 1"
proof -
  obtain resp where r: "fst demo_legacy_run = Inr resp" "rp_session resp = ''s1''"
    using demo_legacy_answer by (cases "fst demo_legacy_run") auto
  have p: "demo_legacy_run = (Inr resp, snd demo_legacy_run)" using r(1) by (metis prod.collapse)
  have c: "run_id (demo_call () ()) = ''run-1''" "now_at (demo_call () ()) = 1" "save_fault (demo_call () ()) = NoFault"
    by (simp_all add: demo_call_def)
  have side: "memory (demo_service_of []) = Some []" "sql_rel [] []" "\<forall>e\<in>set []. row_created (snd e) < now_at (demo_call () ())"
    by (simp_all add: demo_service_of_def sql_rel_def history_ok_def)
  have texts: "\<not> blank (run_id (demo_call () ()))" "\<not> blank (rp_session resp)" "CHR '':'' \<notin> set (rp_session resp)"
    unfolding c r(2) by code_simp+
  from answered_run_in_history [OF p side(1,2) c(3) side(3) texts, where rend = "\<lambda>_. []"]
  show ?thesis unfolding r(2) c by blast
qed

theorem legacy_run_excluded_witness:
  "\<exists>err. legacy_begin mem_try_acquire (demo_settings False) demo_legacy (demo_call () ()) demo_request (demo_service_of [''s1''])
     = (Inl err, demo_service_of [''s1''])"
  using legacy_run_excluded [OF demo_reach, of True demo_ticket "''s1''" demo_request "demo_settings False" demo_legacy "demo_call () ()"]
  by (auto simp: demo_ticket_def demo_request_def)

definition demo_parse :: "pydict \<Rightarrow> analysis_report option" where
  "demo_parse d = (case report_from_dict d of Inl e \<Rightarrow> None | Inr rep \<Rightarrow> Some rep)"

lemma demo_parse_report: "demo_parse (report_to_dict rep) = Some rep"
  by (simp add: demo_parse_def report_roundtrip)

definition demo_pipeline :: pack_impl where
  "demo_pipeline = research_analysis_impl (demo_agent 1) (Inr ()) (Inr ()) None (\<lambda>_. []) None"

definition demo_legacy_ticket :: ticket where
  "demo_legacy_ticket = \<lparr>tk_run = ''run-1'', tk_session = Some ''s1'', tk_class = builtin_class ''R'' ''research_analysis'' ''n'' ''d'',
     tk_version = [], tk_query = ''Why?'', tk_body = []\<rparr>"

abbreviation demo_guarded :: "(api_error + run_response) \<times> session_set service" where
  "demo_guarded \<equiv> legacy_guarded (demo_settings False) (demo_legacy\<lparr>parse := demo_parse\<rparr>) (\<lambda>_. demo_pipeline)
     (demo_call () ()) ''new'' demo_legacy_ticket (demo_service_of [])"

lemma demo_pipeline_answers: "\<not> isl (fst demo_guarded)"
  by code_simp

theorem legacy_stream_matches_run_witness:
  "\<exists>sent (resp :: run_response). chunks (fst (stream_pipeline (demo_settings False) (demo_legacy\<lparr>parse := demo_parse\<rparr>) (\<lambda>_. demo_pipeline)
     (demo_call () ()) ''new'' demo_legacy_ticket (demo_service_of [] :: session_set service)))
     = sent @ [done_event ''run-1'' (rp_session resp) (rp_report resp)]"
proof -
  obtain resp where r: "fst demo_guarded = Inr resp" using demo_pipeline_answers by (cases "fst demo_guarded") auto
  have h: "(\<lambda>_. demo_pipeline) (tk_class demo_legacy_ticket)
      = research_analysis_impl (demo_agent 1) (Inr ()) (Inr ()) None (\<lambda>_. []) None"
    by (simp add: demo_pipeline_def)
  have c: "save_fault (demo_call () ()) = NoFault" "run_id (demo_call () ()) = ''run-1''" by (simp_all add: demo_call_def)
  obtain sent where "chunks (fst (stream_pipeline (demo_settings False) (demo_legacy\<lparr>parse := demo_parse\<rparr>) (\<lambda>_. demo_pipeline)
      (demo_call () ()) ''new'' demo_legacy_ticket (demo_service_of [] :: session_set service)))
      = sent @ [done_event (run_id (demo_call () ())) (rp_session resp) (rp_report resp)]"
    using legacy_stream_matches_run [where impl = "\<lambda>_. demo_pipeline" and tk = demo_legacy_ticket, OF h, where env = "demo_legacy\<lparr>parse := demo_parse\<rparr>"
        and c = "demo_call () ()" and st = "demo_settings False" and new_id = "''new''"
        and w = "demo_service_of [] :: session_set service"] r c
    by (auto simp: demo_parse_report)
  then show ?thesis unfolding c(2) by blast
qed

end
