(* ===== verification/Calculator.thy ===== *)
theory Calculator
  imports Prelude
begin

text \<open>
  The calculator tool of \<open>core/tools.py\<close>. Python's \<open>ast.parse\<close> is the argument \<open>parse_expr\<close>, its trees
  are the datatype. Integers are exact; what involves a \<open>float\<close> or a \<open>complex\<close> is done by the
  arguments in \<open>float_arith\<close>, over any type of floats. The interpreter's recursion limit is not
  modelled.
\<close>

section \<open>Expressions and numbers\<close>

datatype 'f num = PInt int | PBool bool | PFloat 'f | PComplex 'f 'f

datatype binop = Add | Sub | Mult | Div | FloorDiv | Mod | Pow | OtherBinop string

datatype unop = USub | UAdd | OtherUnop string

datatype 'f literal = LInt int | LBool bool | LFloat 'f | LOther string   \<comment> \<open>the type's name\<close>

datatype 'f expr =
    Const "'f literal"
  | BinOp "'f expr" binop "'f expr"
  | UnaryOp unop "'f expr"
  | Call "'f expr" "'f expr list" "(string option \<times> 'f expr) list"   \<comment> \<open>positional and keyword arguments\<close>
  | NameRef string
  | OtherNode string                                                    \<comment> \<open>the node's type\<close>

datatype calc_error = ValueErr string | TypeErr string | ZeroDivErr | SyntaxErr | OtherErr string

record 'f float_arith =
  parse_expr :: "string \<Rightarrow> calc_error + 'f expr"
  binary :: "binop \<Rightarrow> 'f num \<Rightarrow> 'f num \<Rightarrow> calc_error + 'f num"
  unary :: "unop \<Rightarrow> 'f num \<Rightarrow> calc_error + 'f num"
  beyond :: "'f \<Rightarrow> int \<Rightarrow> bool"                       \<comment> \<open>\<open>abs(x) > n\<close>\<close>
  apply_fn :: "string \<Rightarrow> 'f num list \<Rightarrow> calc_error + 'f num"
  whole :: "'f \<Rightarrow> int option"                          \<comment> \<open>\<open>int(x)\<close> if \<open>x\<close> is finite and equal to it\<close>
  show_num :: "'f num \<Rightarrow> string"
  show_repr :: "string \<Rightarrow> string"

definition int_of :: "'f num \<Rightarrow> int option" where
  "int_of v = (case v of PInt i \<Rightarrow> Some i | PBool b \<Rightarrow> Some (if b then 1 else 0) | _ \<Rightarrow> None)"

section \<open>Operators and functions\<close>

definition int_binary :: "'f float_arith \<Rightarrow> binop \<Rightarrow> int \<Rightarrow> int \<Rightarrow> calc_error + 'f num" where
  "int_binary A op a b =
     (case op of
        Add \<Rightarrow> Inr (PInt (a + b))
      | Sub \<Rightarrow> Inr (PInt (a - b))
      | Mult \<Rightarrow> Inr (PInt (a * b))
      | FloorDiv \<Rightarrow> (if b = 0 then Inl ZeroDivErr else Inr (PInt (a div b)))
      | Mod \<Rightarrow> (if b = 0 then Inl ZeroDivErr else Inr (PInt (a mod b)))
      | Div \<Rightarrow> (if b = 0 then Inl ZeroDivErr else binary A Div (PInt a) (PInt b))
      | Pow \<Rightarrow> (if 0 \<le> b then Inr (PInt (a ^ nat b))
                else if a = 0 then Inl ZeroDivErr else binary A Pow (PInt a) (PInt b))
      | OtherBinop t \<Rightarrow> Inl (ValueErr (''Unsupported operator: '' @ t)))"

definition apply_binop :: "'f float_arith \<Rightarrow> binop \<Rightarrow> 'f num \<Rightarrow> 'f num \<Rightarrow> calc_error + 'f num" where
  "apply_binop A op x y =
     (case (int_of x, int_of y) of
        (Some a, Some b) \<Rightarrow> int_binary A op a b
      | _ \<Rightarrow> binary A op x y)"

definition apply_unop :: "'f float_arith \<Rightarrow> unop \<Rightarrow> 'f num \<Rightarrow> calc_error + 'f num" where
  "apply_unop A op x =
     (case int_of x of
        Some a \<Rightarrow> Inr (PInt (if op = USub then - a else a))
      | None \<Rightarrow> unary A op x)"

definition beyond_num :: "'f float_arith \<Rightarrow> 'f num \<Rightarrow> int \<Rightarrow> bool" where
  \<comment> \<open>an \<open>int\<close> or \<open>float\<close> of absolute value greater than \<open>n\<close>\<close>
  "beyond_num A x n =
     (case x of
        PFloat f \<Rightarrow> beyond A f n
      | PComplex re im \<Rightarrow> False
      | _ \<Rightarrow> (case int_of x of Some i \<Rightarrow> n < \<bar>i\<bar> | None \<Rightarrow> False))"

definition pow_guard :: "'f float_arith \<Rightarrow> 'f num \<Rightarrow> 'f num \<Rightarrow> string option" where
  "pow_guard A l r =
     (if beyond_num A r 1000 then Some ''Exponent too large (max 1000)''
      else if beyond_num A l 1000 \<and> beyond_num A r 1 then Some ''Base too large for exponentiation''
      else None)"

definition SAFE_NAMES :: "string list" where
  "SAFE_NAMES = [''abs'', ''round'', ''int'', ''float'', ''min'', ''max'']"

definition round_int :: "int \<Rightarrow> int \<Rightarrow> int" where
  \<comment> \<open>\<open>round(i, n)\<close>: ties to even\<close>
  "round_int i n =
     (if 0 \<le> n then i
      else (let p = 10 ^ nat (- n); r = i mod p in
        if 2 * r < p \<or> (2 * r = p \<and> even (i div p)) then i - r else i - r + p))"

definition py_min :: "'f num list \<Rightarrow> 'f num" where
  \<comment> \<open>of integers: the first of the least\<close>
  "py_min vs = fold (\<lambda>v m. if the (int_of v) < the (int_of m) then v else m) (tl vs) (hd vs)"

definition py_max :: "'f num list \<Rightarrow> 'f num" where
  "py_max vs = fold (\<lambda>v m. if the (int_of m) < the (int_of v) then v else m) (tl vs) (hd vs)"

definition call_builtin :: "'f float_arith \<Rightarrow> string \<Rightarrow> 'f num list \<Rightarrow> calc_error + 'f num" where
  "call_builtin A name vs =
     (if list_all (\<lambda>v. int_of v \<noteq> None) vs then
        (case map (\<lambda>v. the (int_of v)) vs of
           [i] \<Rightarrow>
             if name = ''abs'' then Inr (PInt \<bar>i\<bar>)
             else if name = ''int'' \<or> name = ''round'' then Inr (PInt i)
             else apply_fn A name vs
         | i # j # is \<Rightarrow>
             if name = ''min'' then Inr (py_min vs)
             else if name = ''max'' then Inr (py_max vs)
             else if name = ''round'' \<and> is = [] then Inr (PInt (round_int i j))
             else apply_fn A name vs
         | [] \<Rightarrow> apply_fn A name vs)
      else apply_fn A name vs)"

section \<open>The evaluator\<close>

definition unsafe_name :: "string \<Rightarrow> string" where
  "unsafe_name n = ''Function '' @ [CHR 0x27] @ n @ [CHR 0x27] @ '' is not allowed. Allowed functions: ''
     @ ''['' @ join '', '' (map (\<lambda>f. [CHR 0x27] @ f @ [CHR 0x27]) [''abs'', ''float'', ''int'', ''max'', ''min'', ''round'']) @ '']''"

fun safe_eval :: "'f float_arith \<Rightarrow> 'f expr \<Rightarrow> calc_error + 'f num"
  and safe_eval_args :: "'f float_arith \<Rightarrow> 'f expr list \<Rightarrow> calc_error + 'f num list"
where
  "safe_eval A (Const l) =
     (case l of
        LInt i \<Rightarrow> Inr (PInt i) | LBool b \<Rightarrow> Inr (PBool b) | LFloat f \<Rightarrow> Inr (PFloat f)
      | LOther t \<Rightarrow> Inl (ValueErr (''Unsupported literal type: '' @ t)))"
| "safe_eval A (BinOp l op r) =
     (case op of
        OtherBinop t \<Rightarrow> Inl (ValueErr (''Unsupported operator: '' @ t))
      | _ \<Rightarrow> rbind (safe_eval A l) (\<lambda>x. rbind (safe_eval A r) (\<lambda>y.
          (case (if op = Pow then pow_guard A x y else None) of
             Some msg \<Rightarrow> Inl (ValueErr msg)
           | None \<Rightarrow> apply_binop A op x y))))"
| "safe_eval A (UnaryOp op e) =
     (case op of
        OtherUnop t \<Rightarrow> Inl (ValueErr (''Unsupported unary operator: '' @ t))
      | _ \<Rightarrow> rbind (safe_eval A e) (apply_unop A op))"
| "safe_eval A (Call f args kws) =
     (case f of
        NameRef n \<Rightarrow>
          if n \<notin> set SAFE_NAMES then Inl (ValueErr (unsafe_name n))
          else rbind (safe_eval_args A args) (call_builtin A n)
      | _ \<Rightarrow> Inl (ValueErr ''Only simple function calls are allowed.''))"
| "safe_eval A (NameRef n) =
     Inl (ValueErr (''Variable references are not allowed: '' @ [CHR 0x27] @ n @ [CHR 0x27] @ ''. ''
       @ ''Use only numeric literals and the allowed built-in functions.''))"
| "safe_eval A (OtherNode t) = Inl (ValueErr (''Unsupported AST node: '' @ t))"
| "safe_eval_args A [] = Inr []"
| "safe_eval_args A (e # es) = rbind (safe_eval A e) (\<lambda>v. rbind (safe_eval_args A es) (\<lambda>vs. Inr (v # vs)))"

definition MAX_STR_DIGITS :: nat where "MAX_STR_DIGITS = 4300"   \<comment> \<open>the interpreter's default\<close>

definition str_of_int :: "int \<Rightarrow> calc_error + string" where
  "str_of_int i =
     (if 10 ^ MAX_STR_DIGITS \<le> \<bar>i\<bar>
      then Inl (ValueErr ''Exceeds the limit (4300 digits) for integer string conversion; use sys.set_int_max_str_digits() to increase the limit'')
      else Inr (show_int i))"

definition show_result :: "'f float_arith \<Rightarrow> 'f num \<Rightarrow> calc_error + string" where
  "show_result A v =
     (case v of
        PFloat f \<Rightarrow> (case whole A f of Some i \<Rightarrow> str_of_int i | None \<Rightarrow> Inr (show_num A v))
      | PInt i \<Rightarrow> str_of_int i
      | PBool b \<Rightarrow> Inr (if b then ''True'' else ''False'')
      | PComplex re im \<Rightarrow> Inr (show_num A v))"

definition error_text :: "'f float_arith \<Rightarrow> string \<Rightarrow> calc_error \<Rightarrow> string" where
  "error_text A text e =
     (case e of
        ZeroDivErr \<Rightarrow> ''Error: division by zero.''
      | ValueErr m \<Rightarrow> ''Error: '' @ m
      | TypeErr m \<Rightarrow> ''Error: '' @ m
      | SyntaxErr \<Rightarrow> ''Error: invalid expression syntax '' @ em_dash @ '' '' @ show_repr A text
      | OtherErr m \<Rightarrow> ''Error: '' @ m)"

definition calculator :: "'f float_arith \<Rightarrow> string \<Rightarrow> string" where
  "calculator A expression =
     (let text = strip expression in
      if text = [] then ''Error: empty expression.''
      else (case rbind (parse_expr A text) (\<lambda>tree. rbind (safe_eval A tree) (show_result A)) of
              Inr s \<Rightarrow> s | Inl e \<Rightarrow> error_text A text e))"

section \<open>Only the allowed constructs\<close>

fun whitelisted :: "'f expr \<Rightarrow> bool" where
  "whitelisted (Const l) \<longleftrightarrow> (case l of LOther t \<Rightarrow> False | _ \<Rightarrow> True)"
| "whitelisted (BinOp l op r) \<longleftrightarrow> (case op of OtherBinop t \<Rightarrow> False | _ \<Rightarrow> True) \<and> whitelisted l \<and> whitelisted r"
| "whitelisted (UnaryOp op e) \<longleftrightarrow> (case op of OtherUnop t \<Rightarrow> False | _ \<Rightarrow> True) \<and> whitelisted e"
| "whitelisted (Call f args kws) \<longleftrightarrow>
     (case f of NameRef n \<Rightarrow> n \<in> set SAFE_NAMES | _ \<Rightarrow> False) \<and> list_all whitelisted args"
| "whitelisted (NameRef n) \<longleftrightarrow> False"
| "whitelisted (OtherNode t) \<longleftrightarrow> False"

lemma eval_whitelisted:
  "safe_eval A e = Inr v \<Longrightarrow> whitelisted e"
  "safe_eval_args A es = Inr vs \<Longrightarrow> list_all whitelisted es"
  by (induction A e and A es arbitrary: v and vs rule: safe_eval_safe_eval_args.induct)
    (auto simp: rbind_Inr_iff split: literal.splits binop.splits unop.splits expr.splits if_splits)

lemma error_text_prefix: "\<exists>m. error_text A t e = ''Error: '' @ m"
  by (cases e) (auto simp: error_text_def)

text \<open>Nothing but numbers, the allowed operators and calls of the six allowed functions is ever
  computed with: an expression with any other construct in a position that is evaluated is
  answered with an error text.\<close>

theorem calculator_refuses_other_code:
  assumes "strip s \<noteq> []" and "parse_expr A (strip s) = Inr e" and "\<not> whitelisted e"
  shows "\<exists>m. calculator A s = ''Error: '' @ m"
proof -
  obtain err where "safe_eval A e = Inl err"
    using assms(3) eval_whitelisted(1) by (metis sum.exhaust)
  then show ?thesis using assms error_text_prefix by (simp add: calculator_def)
qed

section \<open>Integer arithmetic\<close>

fun denote :: "'f expr \<Rightarrow> int option" and denote_args :: "'f expr list \<Rightarrow> int list option" where
  \<comment> \<open>the integer an expression stands for\<close>
  "denote (Const l) = (case l of LInt i \<Rightarrow> Some i | _ \<Rightarrow> None)"
| "denote (BinOp l op r) =
     (case (denote l, denote r) of
        (Some a, Some b) \<Rightarrow>
          (case op of
             Add \<Rightarrow> Some (a + b) | Sub \<Rightarrow> Some (a - b) | Mult \<Rightarrow> Some (a * b)
           | FloorDiv \<Rightarrow> if b = 0 then None else Some (a div b)
           | Mod \<Rightarrow> if b = 0 then None else Some (a mod b)
           | Pow \<Rightarrow> if b < 0 then None else Some (a ^ nat b)
           | _ \<Rightarrow> None)
      | _ \<Rightarrow> None)"
| "denote (UnaryOp op e) = (case op of USub \<Rightarrow> map_option uminus (denote e) | UAdd \<Rightarrow> denote e | _ \<Rightarrow> None)"
| "denote (Call f args kws) =
     (case (f, denote_args args) of
        (NameRef n, Some [i]) \<Rightarrow> if n = ''abs'' then Some \<bar>i\<bar> else if n = ''int'' \<or> n = ''round'' then Some i else None
      | (NameRef n, Some (i # j # is)) \<Rightarrow>
          if n = ''min'' then Some (fold min (j # is) i) else if n = ''max'' then Some (fold max (j # is) i)
          else if n = ''round'' \<and> is = [] then Some (round_int i j) else None
      | _ \<Rightarrow> None)"
| "denote (NameRef n) = None"
| "denote (OtherNode t) = None"
| "denote_args [] = Some []"
| "denote_args (e # es) = (case (denote e, denote_args es) of (Some i, Some is) \<Rightarrow> Some (i # is) | _ \<Rightarrow> None)"

text \<open>\<open>round(i, n)\<close> with \<open>n < 0\<close> is the multiple of \<open>10 ^ -n\<close> that is nearest, the even one of two.\<close>

lemma round_int_nearest:
  assumes "n < 0" and "p = (10 :: int) ^ nat (- n)"
  shows "p dvd round_int i n" and "2 * \<bar>round_int i n - i\<bar> \<le> p"
    and "2 * \<bar>round_int i n - i\<bar> = p \<Longrightarrow> even (round_int i n div p)"
proof -
  define r where "r = i mod p"
  define q where "q = i div p"
  have p: "0 < p" using assms(2) by simp
  have r: "0 \<le> r" "r < p" and i: "i = q * p + r" using p by (simp_all add: r_def q_def)
  have eq: "round_int i n = (if 2 * r < p \<or> (2 * r = p \<and> even q) then q * p else (q + 1) * p)"
    using assms i by (simp add: round_int_def r_def q_def Let_def algebra_simps)
  show "p dvd round_int i n" "2 * \<bar>round_int i n - i\<bar> \<le> p" using eq i r p by (auto simp: algebra_simps)
  show "2 * \<bar>round_int i n - i\<bar> = p \<Longrightarrow> even (round_int i n div p)"
    using eq i r p by (auto simp: algebra_simps split: if_splits)
qed

text \<open>What is to come out, in the order of evaluation: an integer, the first error, or (\<open>None\<close>)
  nothing that integers alone decide. Powers are refused by their exponent, then by their base.\<close>

definition GUARDS :: "string list" where
  "GUARDS = [''Exponent too large (max 1000)'', ''Base too large for exponentiation'']"

definition exact_op :: "binop \<Rightarrow> int \<Rightarrow> int \<Rightarrow> (calc_error + int) option" where
  "exact_op op a b =
     (case op of
        Add \<Rightarrow> Some (Inr (a + b)) | Sub \<Rightarrow> Some (Inr (a - b)) | Mult \<Rightarrow> Some (Inr (a * b))
      | FloorDiv \<Rightarrow> Some (if b = 0 then Inl ZeroDivErr else Inr (a div b))
      | Mod \<Rightarrow> Some (if b = 0 then Inl ZeroDivErr else Inr (a mod b))
      | Div \<Rightarrow> if b = 0 then Some (Inl ZeroDivErr) else None
      | Pow \<Rightarrow> if 1000 < \<bar>b\<bar> then Some (Inl (ValueErr (GUARDS ! 0)))
               else if 1000 < \<bar>a\<bar> \<and> 1 < \<bar>b\<bar> then Some (Inl (ValueErr (GUARDS ! 1)))
               else if 0 \<le> b then Some (Inr (a ^ nat b))
               else if a = 0 then Some (Inl ZeroDivErr) else None
      | OtherBinop t \<Rightarrow> None)"

definition exact_call :: "string \<Rightarrow> int list \<Rightarrow> int option" where
  "exact_call n args =
     (case args of
        [i] \<Rightarrow> if n = ''abs'' then Some \<bar>i\<bar> else if n = ''int'' \<or> n = ''round'' then Some i else None
      | i # j # is \<Rightarrow>
          if n = ''min'' then Some (fold min (j # is) i) else if n = ''max'' then Some (fold max (j # is) i)
          else if n = ''round'' \<and> is = [] then Some (round_int i j) else None
      | [] \<Rightarrow> None)"

definition then_exact :: "(calc_error + 'a) option \<Rightarrow> ('a \<Rightarrow> (calc_error + 'b) option) \<Rightarrow> (calc_error + 'b) option" where
  "then_exact m f = (case m of None \<Rightarrow> None | Some (Inl e) \<Rightarrow> Some (Inl e) | Some (Inr x) \<Rightarrow> f x)"

fun meaning :: "'f expr \<Rightarrow> (calc_error + int) option" and meaning_args :: "'f expr list \<Rightarrow> (calc_error + int list) option" where
  "meaning (Const l) = (case l of LInt i \<Rightarrow> Some (Inr i) | _ \<Rightarrow> None)"
| "meaning (BinOp l op r) =
     (case op of
        OtherBinop t \<Rightarrow> None
      | _ \<Rightarrow> then_exact (meaning l) (\<lambda>a. then_exact (meaning r) (\<lambda>b. exact_op op a b)))"
| "meaning (UnaryOp op e) =
     (case op of
        USub \<Rightarrow> then_exact (meaning e) (\<lambda>a. Some (Inr (- a)))
      | UAdd \<Rightarrow> then_exact (meaning e) (\<lambda>a. Some (Inr a))
      | _ \<Rightarrow> None)"
| "meaning (Call f args kws) =
     (case f of
        NameRef n \<Rightarrow> if n \<notin> set SAFE_NAMES then None
          else then_exact (meaning_args args) (\<lambda>is. map_option Inr (exact_call n is))
      | _ \<Rightarrow> None)"
| "meaning (NameRef n) = None"
| "meaning (OtherNode t) = None"
| "meaning_args [] = Some (Inr [])"
| "meaning_args (e # es) = then_exact (meaning e) (\<lambda>i. then_exact (meaning_args es) (\<lambda>is. Some (Inr (i # is))))"

lemma then_exact_Some:
  "then_exact m f = Some y \<longleftrightarrow> (\<exists>e. m = Some (Inl e) \<and> y = Inl e) \<or> (\<exists>x. m = Some (Inr x) \<and> f x = Some y)"
  by (auto simp: then_exact_def split: option.splits sum.splits)

lemma int_of_PInt [simp]: "int_of (PInt i) = Some i"
  by (simp add: int_of_def)

lemma fold_extreme:
  "py_min (PInt i # map PInt is) = PInt (fold min is i)"
  "py_max (PInt i # map PInt is) = PInt (fold max is i)"
  unfolding py_min_def py_max_def by (induction "is" arbitrary: i) (auto simp: min_def max_def)

lemma fold_extreme_Cons:
  "py_min (PInt i # PInt j # map PInt is) = PInt (fold min is (min j i))"
  "py_max (PInt i # PInt j # map PInt is) = PInt (fold max is (max j i))"
  using fold_extreme [of i "j # is"] by simp_all

lemma exact_call_agrees: "exact_call n is = Some i \<Longrightarrow> call_builtin A n (map PInt is) = Inr (PInt i)"
  by (auto simp: exact_call_def call_builtin_def list_all_iff comp_def fold_extreme_Cons split: list.splits if_splits)

lemma exact_op_agrees:
  assumes "exact_op op a b = Some r"
  shows "(case (if op = Pow then pow_guard A (PInt a) (PInt b) else None) of
      Some msg \<Rightarrow> Inl (ValueErr msg) | None \<Rightarrow> apply_binop A op (PInt a) (PInt b)) = map_sum id PInt r"
  using assms
  by (cases op) (auto simp: exact_op_def apply_binop_def int_binary_def pow_guard_def beyond_num_def GUARDS_def split: if_splits)

lemma eval_meaning:
  fixes e :: "'f expr" and es :: "'f expr list"
  shows "meaning e = Some r \<Longrightarrow> safe_eval A e = map_sum id PInt r"
    and "meaning_args es = Some rs \<Longrightarrow> safe_eval_args A es = map_sum id (map PInt) rs"
proof (induction e and es arbitrary: r and rs rule: meaning_meaning_args.induct)
  case (2 l op rt)
  then show ?case
    using exact_op_agrees [of op _ _ r A] by (cases op) (auto simp: then_exact_Some id_def)
next
  case (3 op e)
  then show ?case by (cases op) (auto simp: then_exact_Some apply_unop_def)
next
  case (4 f args kws)
  then show ?case
    using exact_call_agrees [where A = A] by (cases f) (auto simp: then_exact_Some split: if_splits)
qed (auto simp: then_exact_Some split: literal.splits)

lemma denote_call:
  "denote (Call (NameRef n) args kws) = (case denote_args args of Some is \<Rightarrow> exact_call n is | None \<Rightarrow> None)"
  by (auto simp: exact_call_def split: option.split list.split)

lemma meaning_denotes:
  fixes e :: "'f expr" and es :: "'f expr list"
  shows "meaning e = Some (Inr i) \<Longrightarrow> denote e = Some i"
    and "meaning_args es = Some (Inr is) \<Longrightarrow> denote_args es = Some is"
proof (induction e and es arbitrary: i and "is" rule: meaning_meaning_args.induct)
  case (2 l op r)
  then show ?case by (cases op) (auto simp: then_exact_Some exact_op_def split: if_splits)
next
  case (3 op e)
  then show ?case by (cases op) (auto simp: then_exact_Some)
next
  case (4 f args kws)
  then show ?case by (cases f) (auto simp: then_exact_Some denote_call simp del: denote.simps(4) split: if_splits)
qed (auto simp: then_exact_Some split: literal.splits)

lemma meaning_errors:
  fixes e :: "'f expr" and es :: "'f expr list"
  shows "meaning e = Some (Inl err) \<Longrightarrow> err = ZeroDivErr \<or> err \<in> ValueErr ` set GUARDS"
    and "meaning_args es = Some (Inl err) \<Longrightarrow> err = ZeroDivErr \<or> err \<in> ValueErr ` set GUARDS"
proof (induction e and es rule: meaning_meaning_args.induct)
  case (2 l op r)
  then show ?case by (cases op) (auto simp: then_exact_Some exact_op_def GUARDS_def split: if_splits)
next
  case (3 op e)
  then show ?case by (cases op) (auto simp: then_exact_Some)
next
  case (4 f args kws)
  then show ?case by (cases f) (auto simp: then_exact_Some split: if_splits)
qed (auto simp: then_exact_Some split: literal.splits)

text \<open>Every expression that stands for an integer has a meaning: that integer or the refusal of a
  power.\<close>

lemma denoted_meaning:
  fixes e :: "'f expr" and es :: "'f expr list"
  shows "denote e = Some i \<Longrightarrow> meaning e = Some (Inr i) \<or> (\<exists>m\<in>set GUARDS. meaning e = Some (Inl (ValueErr m)))"
    and "denote_args es = Some is \<Longrightarrow> meaning_args es = Some (Inr is) \<or> (\<exists>m\<in>set GUARDS. meaning_args es = Some (Inl (ValueErr m)))"
proof (induction e and es arbitrary: i and "is" rule: denote_denote_args.induct)
  case (2 l op r)
  then obtain a b where ab: "denote l = Some a" "denote r = Some b" by (auto split: option.splits)
  show ?case using "2.IH"(1) [OF ab(1)] "2.IH"(2) [OF ab(2)] "2.prems" ab
    by (cases op) (auto simp: then_exact_def exact_op_def GUARDS_def split: if_splits)
next
  case (3 op e)
  then show ?case by (cases op) (auto simp: then_exact_def, blast)
next
  case (4 f args kws)
  then obtain n "is" where f: "f = NameRef n" "denote_args args = Some is"
    by (cases f) (auto split: option.splits)
  have c: "exact_call n is = Some i" using "4.prems" f by (simp add: denote_call del: denote.simps(4))
  then have "n \<in> set SAFE_NAMES" by (auto simp: exact_call_def SAFE_NAMES_def split: list.splits if_splits)
  with c "4.IH" [OF f(2)] f(1) show ?case by (auto simp: then_exact_def)
next
  case (8 e es)
  then show ?case by (auto simp: then_exact_def split: option.splits)
qed (auto split: literal.splits)

text \<open>C30. Where integers decide the outcome (literals, the operators with \<open>/\<close> and negative powers
  only for their division by zero, and \<open>abs\<close>, \<open>int\<close>, \<open>round\<close> with and without digits, \<open>min\<close>, \<open>max\<close>)
  the calculator answers exactly: the integer the expression stands for, or the text of the
  first error in the order of evaluation, which is a division by zero or one of the two guards
  on powers; a result of more than 4300 digits is refused with the interpreter's message.\<close>

theorem calculator_exact:
  assumes "strip s \<noteq> []" and "parse_expr A (strip s) = Inr e" and "meaning e = Some r"
  shows "case r of
      Inr i \<Rightarrow> denote e = Some i
        \<and> (if \<bar>i\<bar> < 10 ^ MAX_STR_DIGITS then calculator A s = show_int i \<and> py_int (calculator A s) = Some i
           else calculator A s = ''Error: Exceeds the limit (4300 digits) for integer string conversion; use sys.set_int_max_str_digits() to increase the limit'')
    | Inl err \<Rightarrow> err = ZeroDivErr \<and> calculator A s = ''Error: division by zero.''
        \<or> (\<exists>m\<in>set GUARDS. err = ValueErr m \<and> calculator A s = ''Error: '' @ m)"
proof (cases r)
  case (Inl err)
  then have "safe_eval A e = Inl err" using eval_meaning(1) [OF assms(3), of A] by simp
  then have "calculator A s = error_text A (strip s) err" using assms(1,2) by (simp add: calculator_def)
  then show ?thesis using meaning_errors(1) [of e err] assms(3) Inl by (auto simp: error_text_def)
next
  case (Inr i)
  then have "safe_eval A e = Inr (PInt i)" using eval_meaning(1) [OF assms(3), of A] by simp
  then show ?thesis using assms Inr meaning_denotes(1) [of e i]
    by (auto simp: calculator_def show_result_def str_of_int_def error_text_def py_int_show_int)
qed

section \<open>The size of results\<close>

fun bit_len :: "nat \<Rightarrow> nat" where
  "bit_len n = (if n = 0 then 0 else Suc (bit_len (n div 2)))"

declare bit_len.simps [simp del]

lemma less_bit_len: "n < 2 ^ bit_len n"
proof (induction n rule: bit_len.induct)
  case (1 n)
  show ?case
  proof (cases "n = 0")
    case False
    then have "n div 2 < 2 ^ bit_len (n div 2)" by (rule 1)
    then have "n < 2 * 2 ^ bit_len (n div 2)" by linarith
    then show ?thesis using False by (simp add: bit_len.simps [of n])
  qed (simp add: bit_len.simps)
qed

definition FLOAT_BITS :: nat where "FLOAT_BITS = 1024"

fun bits :: "'f expr \<Rightarrow> nat" and bits_args :: "'f expr list \<Rightarrow> nat" where
  "bits (Const l) = (case l of LInt i \<Rightarrow> max 1 (bit_len (nat \<bar>i\<bar>)) | _ \<Rightarrow> 1)"
| "bits (BinOp l op r) = (if op = Pow then 10000 else 0) + bits l + bits r"
| "bits (UnaryOp op e) = bits e"
| "bits (Call f args kws) = FLOAT_BITS + bits_args args"
| "bits (NameRef n) = 1"
| "bits (OtherNode t) = 1"
| "bits_args [] = 0"
| "bits_args (e # es) = bits e + bits_args es"

definition floats_bounded :: "'f float_arith \<Rightarrow> bool" where
  \<comment> \<open>arithmetic with a float gives no integer, a function of floats one that a float can be or an argument\<close>
  "floats_bounded A \<longleftrightarrow>
     (\<forall>op x y v. binary A op x y = Inr v \<longrightarrow> int_of v = None) \<and> (\<forall>op x v. unary A op x = Inr v \<longrightarrow> int_of v = None)
     \<and> (\<forall>n vs v i. apply_fn A n vs = Inr v \<and> int_of v = Some i \<longrightarrow> \<bar>i\<bar> \<le> 2 ^ FLOAT_BITS \<or> v \<in> set vs)"

definition fits :: "nat \<Rightarrow> 'f num \<Rightarrow> bool" where
  "fits n v \<longleftrightarrow> (case int_of v of Some i \<Rightarrow> \<bar>i\<bar> \<le> 2 ^ n | None \<Rightarrow> True)"

lemma bits_pos: "1 \<le> bits e"
  by (induction e) (auto simp: FLOAT_BITS_def split: literal.splits)

lemma pow2_mono: "m \<le> n \<Longrightarrow> \<bar>i\<bar> \<le> 2 ^ m \<Longrightarrow> \<bar>i :: int\<bar> \<le> 2 ^ n"
  by (meson order.trans power_increasing one_le_numeral)

lemma pow2_add:
  assumes "\<bar>a :: int\<bar> \<le> 2 ^ m" "\<bar>b\<bar> \<le> 2 ^ n" "1 \<le> m" "1 \<le> n"
  shows "\<bar>a\<bar> + \<bar>b\<bar> \<le> 2 ^ (m + n)" "\<bar>a\<bar> * \<bar>b\<bar> \<le> 2 ^ (m + n)"
proof -
  have two: "(2 :: int) \<le> 2 ^ m" "(2 :: int) \<le> 2 ^ n"
    using assms(3,4) power_increasing [of 1 m "2 :: int"] power_increasing [of 1 n "2 :: int"] by auto
  have "0 \<le> ((2 :: int) ^ m - 2) * (2 ^ n - 2)" using two by (intro mult_nonneg_nonneg) auto
  then have "(2 :: int) ^ m + 2 ^ n \<le> 2 ^ m * 2 ^ n" using two by (simp add: algebra_simps)
  then show "\<bar>a\<bar> + \<bar>b\<bar> \<le> 2 ^ (m + n)" using assms(1,2) by (simp add: power_add)
  show "\<bar>a\<bar> * \<bar>b\<bar> \<le> 2 ^ (m + n)" using assms(1,2) by (simp add: power_add mult_mono)
qed

lemma abs_div_pos: "0 < b \<Longrightarrow> \<bar>a div b\<bar> \<le> \<bar>a :: int\<bar>"
proof (cases "0 \<le> a")
  case True
  assume b: "0 < b"
  then have "a \<le> a * b" using True mult_left_mono [of 1 b a] by simp
  then have "a div b \<le> a" using zdiv_mono1 [of a "a * b" b] b by simp
  then show ?thesis using True b by (simp add: pos_imp_zdiv_nonneg_iff)
next
  case False
  assume b: "0 < b"
  then have "a * b \<le> a" using False mult_left_mono_neg [of 1 b a] by simp
  then have "a \<le> a div b" using zdiv_mono1 [of "a * b" a b] b by simp
  then show ?thesis using False b by (simp add: div_neg_pos_less0 less_imp_le)
qed

lemma abs_div_le: "\<bar>a div b\<bar> \<le> \<bar>a :: int\<bar>"
proof (cases "b < 0")
  case True
  then show ?thesis using abs_div_pos [of "- b" "- a"] by (simp add: div_minus_minus)
next
  case False
  then show ?thesis using abs_div_pos [of b a] by (cases "b = 0") auto
qed

lemma abs_mod_le: "b \<noteq> 0 \<Longrightarrow> \<bar>a mod b\<bar> \<le> \<bar>b :: int\<bar>"
  using pos_mod_bound [of b a] pos_mod_sign [of b a] neg_mod_bound [of b a] neg_mod_sign [of b a]
  by (cases "0 < b") (auto intro: less_imp_le)

lemma pow_guarded:
  assumes "\<bar>b\<bar> \<le> 1000" "\<bar>a\<bar> \<le> 1000 \<or> \<bar>b\<bar> \<le> 1" "0 \<le> b" "\<bar>a :: int\<bar> \<le> 2 ^ m"
  shows "\<bar>a ^ nat b\<bar> \<le> 2 ^ (10000 + m)"
proof (cases "\<bar>a\<bar> \<le> 1000")
  case True
  then have "\<bar>a\<bar> ^ nat b \<le> (2 ^ 10) ^ nat b" by (intro power_mono) auto
  also have "\<dots> = (2 :: int) ^ (10 * nat b)" by (simp only: power_mult)
  also have "\<dots> \<le> 2 ^ (10000 + m)" using assms(1) by (intro power_increasing) auto
  finally show ?thesis by (simp add: power_abs)
next
  case False
  then have "nat b = 0 \<or> nat b = 1" using assms(2,3) by auto
  then show ?thesis using assms(4) pow2_mono [of m "10000 + m" a] by auto
qed

lemma round_int_le: "\<bar>round_int i n\<bar> \<le> 2 * \<bar>i\<bar>"
proof (cases "0 \<le> n")
  case False
  define p :: int where "p = 10 ^ nat (- n)"
  define r where "r = i mod p"
  have p: "0 < p" by (simp add: p_def)
  have r: "0 \<le> r" "r < p" and i: "i = (i div p) * p + r"
    using p by (simp_all add: r_def)
  have eq: "round_int i n = (if 2 * r < p \<or> (2 * r = p \<and> even (i div p)) then i - r else i - r + p)"
    using False by (simp add: round_int_def p_def r_def Let_def)
  show ?thesis
  proof (cases "0 \<le> i")
    case True
    then have "0 \<le> i div p" using p by (simp add: pos_imp_zdiv_nonneg_iff)
    then have "0 \<le> (i div p) * p" using p by simp
    then have "r \<le> i" using i by linarith
    then show ?thesis using r True eq by (auto split: if_splits)
  next
    case neg: False
    then have "i div p \<le> - 1" using p div_neg_pos_less0 [of i p] by simp
    then have "(i div p) * p \<le> - 1 * p" using p by (intro mult_right_mono) auto
    then have "i - r + p \<le> 0" using i by linarith
    then show ?thesis using r neg eq by (auto split: if_splits)
  qed
qed (simp add: round_int_def)

lemma pow_guard_None:
  assumes "pow_guard A x y = None" "int_of x = Some a" "int_of y = Some b"
  shows "\<bar>b\<bar> \<le> 1000 \<and> (\<bar>a\<bar> \<le> 1000 \<or> \<bar>b\<bar> \<le> 1)"
  using assms by (auto simp: pow_guard_def beyond_num_def int_of_def split: num.splits if_splits)

lemma apply_binop_fits:
  assumes "floats_bounded A" "apply_binop A op x y = Inr v" "fits m x" "fits n y" "1 \<le> m" "1 \<le> n"
    and "op = Pow \<Longrightarrow> pow_guard A x y = None"
  shows "fits ((if op = Pow then 10000 else 0) + m + n) v"
proof (cases "\<exists>a b. int_of x = Some a \<and> int_of y = Some b")
  case True
  then obtain a b where ab: "int_of x = Some a" "int_of y = Some b" by blast
  have a: "\<bar>a\<bar> \<le> 2 ^ m" and b: "\<bar>b\<bar> \<le> 2 ^ n" using assms(3,4) ab by (auto simp: fits_def)
  have v: "int_binary A op a b = Inr v" using assms(2) ab by (simp add: apply_binop_def)
  note add = pow2_add [OF a b assms(5,6)]
  have le: "\<bar>a\<bar> \<le> 2 ^ (m + n)" "\<bar>b\<bar> \<le> 2 ^ (m + n)" using pow2_mono a b by (meson le_add1 le_add2)+
  have inexact: "fits k v" if "binary A op (PInt a) (PInt b) = Inr v" for k
    using assms(1) that by (auto simp: floats_bounded_def fits_def split: option.splits)
  show ?thesis
  proof (cases op)
    case Pow
    then show ?thesis
    proof (cases "0 \<le> b")
      case True
      have "\<bar>a ^ nat b\<bar> \<le> 2 ^ (10000 + m)"
        using pow_guard_None [OF assms(7) [OF Pow] ab] True a by (intro pow_guarded) auto
      then have "\<bar>a ^ nat b\<bar> \<le> 2 ^ (10000 + m + n)" by (rule pow2_mono [rotated]) simp
      then show ?thesis using v Pow True by (auto simp: int_binary_def fits_def)
    qed (use v inexact in \<open>auto simp: int_binary_def split: if_splits\<close>)
  next
    case FloorDiv
    then show ?thesis using v abs_div_le [of a b] le by (auto simp: int_binary_def fits_def split: if_splits)
  next
    case Mod
    then show ?thesis using v abs_mod_le [of b a] le by (auto simp: int_binary_def fits_def split: if_splits)
  next
    case Mult
    then show ?thesis using v add(2) by (auto simp: int_binary_def fits_def abs_mult)
  qed (use v inexact add(1) in \<open>auto simp: int_binary_def fits_def split: if_splits\<close>)
next
  case False
  then have "binary A op x y = Inr v" using assms(2) by (auto simp: apply_binop_def split: option.splits)
  then show ?thesis using assms(1) by (auto simp: floats_bounded_def fits_def split: option.splits)
qed

lemma fits_mono: "fits m v \<Longrightarrow> m \<le> n \<Longrightarrow> fits n v"
  using pow2_mono by (auto simp: fits_def split: option.splits)

lemma fold_pick:
  "(\<And>v m. f v m = v \<or> f v m = m) \<Longrightarrow> fold f vs m \<in> insert m (set vs)"
proof (induction vs arbitrary: m)
  case (Cons v vs)
  from Cons.IH [OF Cons.prems, of "f v m"] Cons.prems [of v m] show ?case by auto
qed simp

lemma py_min_in: "vs \<noteq> [] \<Longrightarrow> py_min vs \<in> set vs" "vs \<noteq> [] \<Longrightarrow> py_max vs \<in> set vs"
  using fold_pick [of _ "tl vs" "hd vs"] unfolding py_min_def py_max_def
  by (cases vs; force)+

lemma call_builtin_fits:
  assumes "floats_bounded A" "call_builtin A name vs = Inr v" "list_all (fits n) vs"
  shows "fits (FLOAT_BITS + n) v"
proof -
  have arg: "fits (FLOAT_BITS + n) u" if "u \<in> set vs" for u
    using assms(3) that fits_mono [of n u "FLOAT_BITS + n"] by (auto simp: list_all_iff)
  have fn: "fits (FLOAT_BITS + n) v" if "apply_fn A name vs = Inr v"
  proof (cases "int_of v")
    case (Some i)
    with assms(1) that have "\<bar>i\<bar> \<le> 2 ^ FLOAT_BITS \<or> v \<in> set vs"
      unfolding floats_bounded_def by blast
    then show ?thesis using Some arg [of v] pow2_mono [of FLOAT_BITS "FLOAT_BITS + n" i] by (auto simp: fits_def)
  qed (simp add: fits_def)
  show ?thesis
  proof (cases "list_all (\<lambda>v. int_of v \<noteq> None) vs")
    case False
    then show ?thesis using assms(2) fn by (simp add: call_builtin_def)
  next
    case True
    show ?thesis
    proof (cases vs)
      case Nil
      then show ?thesis using assms(2) fn by (simp add: call_builtin_def)
    next
      case (Cons x ws)
      obtain i where i: "int_of x = Some i" using True Cons by auto
      have ib: "\<bar>i\<bar> \<le> 2 ^ (FLOAT_BITS + n)" "\<bar>i\<bar> \<le> 2 ^ n"
        using arg [of x] assms(3) Cons i by (auto simp: fits_def)
      show ?thesis
      proof (cases ws)
        case Nil
        then show ?thesis using assms(2) fn True Cons i ib by (auto simp: call_builtin_def fits_def split: if_splits)
      next
        case ws: (Cons y us)
        have pick: "fits (FLOAT_BITS + n) (py_min vs)" "fits (FLOAT_BITS + n) (py_max vs)"
          using py_min_in [of vs] Cons arg by auto
        have "2 * \<bar>i\<bar> \<le> 2 ^ (1 + n)" using ib(2) by simp
        moreover have "1 + n \<le> FLOAT_BITS + n" by (simp add: FLOAT_BITS_def)
        ultimately have "\<bar>round_int i j\<bar> \<le> 2 ^ (FLOAT_BITS + n)" for j
          using round_int_le [of i j] pow2_mono [of "1 + n" "FLOAT_BITS + n" "2 * \<bar>i\<bar>"] by (simp add: abs_mult)
        then have "fits (FLOAT_BITS + n) (PInt (round_int i j))" for j by (simp add: fits_def)
        then show ?thesis using assms(2) fn True Cons ws i pick
          by (auto simp: call_builtin_def split: if_splits)
      qed
    qed
  qed
qed

lemma apply_unop_fits:
  assumes "floats_bounded A" "apply_unop A op x = Inr v" "fits n x"
  shows "fits n v"
  using assms by (auto simp: apply_unop_def floats_bounded_def fits_def split: option.splits)

lemma int_fits: "\<bar>i :: int\<bar> \<le> 2 ^ max 1 (bit_len (nat \<bar>i\<bar>))"
proof -
  have "int (nat \<bar>i\<bar>) < int (2 ^ bit_len (nat \<bar>i\<bar>))" using less_bit_len by (rule of_nat_less_iff [THEN iffD2])
  then have "\<bar>i\<bar> \<le> 2 ^ bit_len (nat \<bar>i\<bar>)" by simp
  then show ?thesis by (rule pow2_mono [rotated]) simp
qed

lemma eval_fits:
  assumes "floats_bounded A"
  shows "safe_eval A e = Inr v \<Longrightarrow> fits (bits e) v"
    and "safe_eval_args A es = Inr vs \<Longrightarrow> list_all (fits (bits_args es)) vs"
  using assms
proof (induction A e and A es arbitrary: v and vs rule: safe_eval_safe_eval_args.induct)
  case (1 A l)
  then show ?case by (cases l) (use int_fits in \<open>auto simp: fits_def int_of_def\<close>)
next
  case (2 A l op r)
  then obtain x y where e: "safe_eval A l = Inr x" "safe_eval A r = Inr y" "apply_binop A op x y = Inr v"
    and g: "op = Pow \<Longrightarrow> pow_guard A x y = None" and o: "\<And>t. op \<noteq> OtherBinop t"
    by (cases op) (auto simp: rbind_Inr_iff split: option.splits)
  have "fits (bits l) x" "fits (bits r) y" using "2.IH" e(1,2) "2.prems"(2) o by (cases op; blast)+
  from apply_binop_fits [OF "2.prems"(2) e(3) this bits_pos bits_pos g] show ?case by simp
next
  case (3 A op e)
  then obtain x where "safe_eval A e = Inr x" "apply_unop A op x = Inr v"
    by (cases op) (auto simp: rbind_Inr_iff)
  moreover from this have "fits (bits e) x" using "3.IH" "3.prems" by (cases op) auto
  ultimately show ?case using apply_unop_fits "3.prems"(2) by auto
next
  case (4 A f args kws)
  then obtain n vs where f: "f = NameRef n" "n \<in> set SAFE_NAMES" and c: "safe_eval_args A args = Inr vs" "call_builtin A n vs = Inr v"
    by (auto simp: rbind_Inr_iff split: expr.splits if_splits)
  have "list_all (fits (bits_args args)) vs" using "4.IH" [OF f(1) _ c(1) "4.prems"(2)] f(2) by blast
  with call_builtin_fits [OF "4.prems"(2) c(2)] show ?case by simp
next
  case (8 A e es)
  then obtain v ws where w: "vs = v # ws" "safe_eval A e = Inr v" "safe_eval_args A es = Inr ws"
    by (auto simp: rbind_Inr_iff)
  then have "fits (bits e) v" "list_all (fits (bits_args es)) ws" using "8.IH" "8.prems" by auto
  then show ?case using w by (auto simp: list_all_iff intro: fits_mono)
qed auto

text \<open>C31. The calculator cannot be driven to arbitrarily large integers: the result of an
  expression has at most as many bits as its literals have together, with 10000 more for each
  power and 1024 for each call.\<close>

theorem calculator_result_bounded:
  assumes "floats_bounded A" and "safe_eval A e = Inr (PInt i)"
  shows "\<bar>i\<bar> \<le> 2 ^ bits e"
  using eval_fits(1) [OF assms(1,2)] by (simp add: fits_def)

text \<open>Keyword arguments of a call are dropped without being looked at: \<open>round(2.567, ndigits=2)\<close> is
  \<open>round(2.567)\<close>, and what stands in them is not even checked.\<close>

lemma keywords_ignored: "safe_eval A (Call f args kws) = safe_eval A (Call f args [])"
  by simp

text \<open>A power with a fractional exponent can be a complex number. The tool is documented to return
  an integer or a float; it returns the complex number, and the guard on large bases does not
  apply to one.\<close>

lemma complex_result:
  assumes "strip s \<noteq> []" and "parse_expr A (strip s) = Inr (BinOp (Const (LInt a)) Pow (Const (LFloat x)))"
    and "binary A Pow (PInt a) (PFloat x) = Inr (PComplex re im)" and "\<bar>a\<bar> \<le> 1000" and "\<not> beyond A x 1000"
  shows "calculator A s = show_num A (PComplex re im)" and "pow_guard A (PComplex re im) (PInt 1000) = None"
  using assms
  by (auto simp: calculator_def pow_guard_def beyond_num_def apply_binop_def int_of_def show_result_def)

section \<open>A small arithmetic\<close>

definition demo_arith :: "rat expr \<Rightarrow> rat float_arith" where
  "demo_arith tree = \<lparr>parse_expr = (\<lambda>s. Inr tree), binary = (\<lambda>op x y. Inl (TypeErr ''float'')),
     unary = (\<lambda>op x. Inl (TypeErr ''float'')), beyond = (\<lambda>f n. of_int n < \<bar>f\<bar>), apply_fn = (\<lambda>n vs. Inl (TypeErr ''float'')),
     whole = (\<lambda>f. None), show_num = (\<lambda>v. ''0.5''), show_repr = id\<rparr>"

definition demo_tree :: "rat expr" where
  "demo_tree = BinOp (BinOp (Const (LInt 2)) Pow (Const (LInt 10))) Sub (Call (NameRef ''max'') [Const (LInt 7), Const (LInt 1025)] [])"

theorem calculator_refuses_other_code_witness:
  "\<exists>m. calculator (demo_arith (Call (OtherNode ''Attribute'') [] [])) ''os.system()'' = ''Error: '' @ m"
  by (rule calculator_refuses_other_code [where e = "Call (OtherNode ''Attribute'') [] []"])
    (simp_all add: demo_arith_def, code_simp?)

theorem calculator_exact_witness:
  "calculator (demo_arith demo_tree) ''2 ** 10 - max(7, 1025)'' = ''-1''
   \<and> py_int (calculator (demo_arith demo_tree) ''2 ** 10 - max(7, 1025)'') = Some (- 1)"
proof -
  have "strip ''2 ** 10 - max(7, 1025)'' \<noteq> []" "meaning demo_tree = Some (Inr (- 1))" "show_int (- 1) = ''-1''" by code_simp+
  moreover have "parse_expr (demo_arith demo_tree) s = Inr demo_tree" for s
    by (simp add: demo_arith_def)
  moreover have "1 < (10 :: int) ^ MAX_STR_DIGITS" by (rule one_less_power) (simp_all add: MAX_STR_DIGITS_def)
  ultimately show ?thesis
    using calculator_exact [of "''2 ** 10 - max(7, 1025)''" "demo_arith demo_tree" demo_tree "Inr (- 1)"] py_int_show_int [of "- 1"] by simp
qed

theorem calculator_result_bounded_witness: "\<bar>- 1\<bar> \<le> (2 :: int) ^ bits demo_tree"
  by (rule calculator_result_bounded [where A = "demo_arith demo_tree"])
    (simp_all add: floats_bounded_def demo_arith_def, code_simp)

end
