(* ===== verification/Tools.thy ===== *)
theory Tools
  imports Calculator Research RunHistory
begin

text \<open>
  The other tools of \<open>core/tools.py\<close>: web search with its choice of provider, the deterministic
  search of development, the recall of earlier runs, and the default list of tools from which the
  research agent takes its search (\<open>agents/researcher.py\<close>). \<open>TavilySearchResults\<close> and
  \<open>SerpAPIWrapper\<close> are arguments.
\<close>

section \<open>Web search\<close>

record tool =
  tool_name :: string
  invoke_tool :: "string \<Rightarrow> llm_exc + string"

record search_packages =   \<comment> \<open>\<open>None\<close>: not installed\<close>
  tavily :: "(string option \<Rightarrow> tool) option"        \<comment> \<open>the API key\<close>
  serpapi :: "(string option \<Rightarrow> string \<Rightarrow> llm_exc + string) option"

definition hex_digit :: "nat \<Rightarrow> char" where
  "hex_digit n = ''0123456789ABCDEF'' ! n"

definition percent_byte :: "nat \<Rightarrow> string" where
  "percent_byte n = CHR ''%'' # [hex_digit (n div 16), hex_digit (n mod 16)]"

definition url_safe :: "char \<Rightarrow> bool" where
  "url_safe c \<longleftrightarrow> (let n = (of_char c :: nat) in
     (48 \<le> n \<and> n \<le> 57) \<or> (65 \<le> n \<and> n \<le> 90) \<or> (97 \<le> n \<and> n \<le> 122) \<or> c \<in> set ''_.-~'')"

definition quote_char :: "char \<Rightarrow> string" where
  \<comment> \<open>the bytes of the character in UTF-8\<close>
  "quote_char c =
     (if c = CHR '' '' then ''+''
      else if url_safe c then [c]
      else (let n = (of_char c :: nat) in
        if n < 128 then percent_byte n else percent_byte (192 + n div 64) @ percent_byte (128 + n mod 64)))"

definition quote_plus :: "string \<Rightarrow> string" where
  "quote_plus s = concat (map quote_char s)"

definition quoted :: "string \<Rightarrow> string" where
  "quoted q = CHR 0x27 # q @ [CHR 0x27]"

definition mock_overview :: "string \<Rightarrow> string" where
  "mock_overview q =
     ''[MOCK RESULT 1] Comprehensive overview of '' @ quoted q
     @ '': This representative snippet describes key aspects of the topic, covering background, current state, and notable developments.''"

definition mock_recent :: "string \<Rightarrow> string" where
  "mock_recent q =
     ''[MOCK RESULT 2] Recent findings on '' @ quoted q
     @ '': Secondary perspective offering additional context and alternative viewpoints for a more balanced understanding.''"

definition mock_url :: "string \<Rightarrow> string" where
  "mock_url q = ''https://example.com/search?q='' @ quote_plus q"

definition mock_news_url :: "string \<Rightarrow> string" where
  "mock_news_url q = ''https://news.example.com/'' @ quote_plus (lower q)"

definition mock_web_search :: "string \<Rightarrow> string" where
  "mock_web_search q =
     mock_overview q @ [NL] @ ''Source: '' @ mock_url q @ [NL, NL]
     @ mock_recent q @ [NL] @ ''Source: '' @ mock_news_url q"

definition env_key :: "string option \<Rightarrow> string option" where
  \<comment> \<open>\<open>os.environ.get(name, "") or None\<close>\<close>
  "env_key v = (case v of Some (c # s) \<Rightarrow> Some (c # s) | _ \<Rightarrow> None)"

definition create_tavily_tool :: "search_packages \<Rightarrow> (string \<Rightarrow> string option) \<Rightarrow> tool result" where
  "create_tavily_tool pk environ =
     (case tavily pk of None \<Rightarrow> Inl ImportError | Some build \<Rightarrow> Inr (build (env_key (environ ''TAVILY_API_KEY''))))"

definition create_serpapi_tool :: "search_packages \<Rightarrow> (string \<Rightarrow> string option) \<Rightarrow> tool result" where
  "create_serpapi_tool pk environ =
     (case serpapi pk of
        None \<Rightarrow> Inl ImportError
      | Some run \<Rightarrow> Inr \<lparr>tool_name = ''web_search'', invoke_tool = run (env_key (environ ''SERPAPI_API_KEY''))\<rparr>)"

definition create_mock_search_tool :: tool where
  "create_mock_search_tool = \<lparr>tool_name = ''web_search'', invoke_tool = (\<lambda>q. Inr (mock_web_search q))\<rparr>"

definition create_search_tool :: "search_packages \<Rightarrow> (string \<Rightarrow> string option) \<Rightarrow> tool result" where
  "create_search_tool pk environ =
     (let provider = strip (lower (case environ ''SEARCH_PROVIDER'' of None \<Rightarrow> ''mock'' | Some p \<Rightarrow> p)) in
      if provider = ''tavily'' then create_tavily_tool pk environ
      else if provider = ''serpapi'' then create_serpapi_tool pk environ
      else Inr create_mock_search_tool)"

section \<open>Recall of earlier runs\<close>

fun first_truthy :: "pydict \<Rightarrow> string list \<Rightarrow> pyval option" where
  "first_truthy d [] = None"
| "first_truthy d (k # ks) =
     (if truthy (dget_or d k (VStr [])) then Some (dget_or d k (VStr [])) else first_truthy d ks)"

definition result_preview :: "(pyval \<Rightarrow> string) \<Rightarrow> pyval \<Rightarrow> string" where
  "result_preview rend res =
     (case res of
        VDict d \<Rightarrow> (case first_truthy d [''summary'', ''executive_summary'', ''output'', ''text''] of
            Some v \<Rightarrow> take 200 (py_str rend v) | None \<Rightarrow> [])
      | _ \<Rightarrow> [])"

definition run_line :: "(pyval \<Rightarrow> string) \<Rightarrow> (rat \<Rightarrow> string) \<Rightarrow> nat \<Rightarrow> string \<times> run_row \<Rightarrow> string" where
  "run_line rend stamp i e =
     (let p = result_preview rend (row_result (snd e)) in
      ''['' @ show_nat i @ ''] run_id='' @ fst e @ [NL]
      @ ''    created_at : '' @ stamp (row_created (snd e)) @ [NL]
      @ ''    query      : '' @ take 120 (row_query (snd e)) @ [NL]
      @ ''    result     : '' @ (if p = [] then ''(no summary available)'' else p) @ [NL])"

fun run_lines :: "(pyval \<Rightarrow> string) \<Rightarrow> (rat \<Rightarrow> string) \<Rightarrow> nat \<Rightarrow> history \<Rightarrow> string list" where
  "run_lines rend stamp i [] = []"
| "run_lines rend stamp i (e # es) = run_line rend stamp i e # run_lines rend stamp (Suc i) es"

definition recall_history ::
  "(pyval \<Rightarrow> string) \<Rightarrow> (rat \<Rightarrow> string) \<Rightarrow> (exn \<Rightarrow> string) \<Rightarrow> history result \<Rightarrow> string" where
  \<comment> \<open>what \<open>memory.list_runs(limit=5)\<close> gave\<close>
  "recall_history rend stamp txt runs =
     (case runs of
        Inl e \<Rightarrow> ''Error retrieving history: '' @ txt e
      | Inr [] \<Rightarrow> ''No previous run history found.''
      | Inr es \<Rightarrow> join [NL] ((''Found '' @ show_nat (length es) @ '' recent run(s) in history:'' @ [NL]) # run_lines rend stamp 1 es))"

definition create_memory_tool ::
  "(pyval \<Rightarrow> string) \<Rightarrow> (rat \<Rightarrow> string) \<Rightarrow> (exn \<Rightarrow> string) \<Rightarrow> sql_runs \<Rightarrow> tool" where
  "create_memory_tool rend stamp txt m =
     \<lparr>tool_name = ''recall_history'', invoke_tool = (\<lambda>q. Inr (recall_history rend stamp txt (runs_of (sqlite_list m 5))))\<rparr>"

section \<open>The default tools\<close>

definition create_calculator_tool :: "'f float_arith \<Rightarrow> tool" where
  "create_calculator_tool A = \<lparr>tool_name = ''calculator'', invoke_tool = (\<lambda>e. Inr (calculator A e))\<rparr>"

definition get_default_tools ::
  "search_packages \<Rightarrow> (string \<Rightarrow> string option) \<Rightarrow> 'f float_arith \<Rightarrow> tool option \<Rightarrow> tool list result" where
  \<comment> \<open>the last argument: the memory tool, if there is a memory\<close>
  "get_default_tools pk environ A mem =
     rbind (create_search_tool pk environ) (\<lambda>search.
       Inr ([search, create_calculator_tool A] @ (case mem of None \<Rightarrow> [] | Some t \<Rightarrow> [t])))"

definition search_of :: "tool list \<Rightarrow> tool option" where
  \<comment> \<open>the research agent's \<open>next((t for t in self.tools if t.name == "web_search"), None)\<close>\<close>
  "search_of tools = find (\<lambda>t. tool_name t = ''web_search'') tools"

definition with_tools :: "tool list \<Rightarrow> agent_env \<Rightarrow> agent_env" where
  "with_tools tools env = env\<lparr>web_search := map_option (\<lambda>t n i. invoke_tool t) (search_of tools)\<rparr>"

section \<open>What the search gives the research agent\<close>

lemma splitlines_from_line:
  "list_all (\<lambda>c. \<not> is_line_break c) s \<Longrightarrow> splitlines_from cur (s @ NL # t) = (rev cur @ s) # splitlines_from [] t"
proof (induction s arbitrary: cur)
  case Nil
  show ?case by (simp add: is_line_break_def)
qed simp

definition no_breaks :: "string \<Rightarrow> bool" where
  "no_breaks s \<longleftrightarrow> list_all (\<lambda>c. \<not> is_line_break c) s"

lemma splitlines_line: "no_breaks s \<Longrightarrow> splitlines (s @ NL # t) = s # splitlines t"
  by (simp add: splitlines_def splitlines_from_line no_breaks_def)

lemma splitlines_last: "no_breaks s \<Longrightarrow> s \<noteq> [] \<Longrightarrow> splitlines s = [s]"
proof -
  have "list_all (\<lambda>c. \<not> is_line_break c) s \<Longrightarrow> splitlines_from cur s = (if rev cur @ s = [] then [] else [rev cur @ s])" for cur
    by (induction s arbitrary: cur) auto
  then show "no_breaks s \<Longrightarrow> s \<noteq> [] \<Longrightarrow> splitlines s = [s]"
    by (simp add: splitlines_def no_breaks_def)
qed

definition solid :: "char \<Rightarrow> bool" where
  "solid c \<longleftrightarrow> \<not> py_isspace c \<and> \<not> is_line_break c"

lemma hex_solid: "n < 16 \<Longrightarrow> solid (hex_digit n)"
proof -
  have "list_all (\<lambda>n. solid (hex_digit n)) [0..<16]" by code_simp
  then show "n < 16 \<Longrightarrow> solid (hex_digit n)" by (simp add: list_all_iff)
qed

lemma percent_byte_solid: "n < 256 \<Longrightarrow> list_all solid (percent_byte n)"
  using hex_solid [of "n div 16"] hex_solid [of "n mod 16"]
  by (simp add: percent_byte_def solid_def py_isspace_def is_line_break_def)

lemma url_safe_solid: "url_safe c \<Longrightarrow> solid c"
  by (auto simp: url_safe_def solid_def py_isspace_def is_line_break_def Let_def)

lemma quote_plus_solid: "list_all solid (quote_plus s)"
proof -
  have "list_all solid (quote_char c)" for c
  proof -
    have n: "(of_char c :: nat) < 256" by simp
    have "of_char c div 64 < (4 :: nat)" using n by (simp add: less_mult_imp_div_less)
    moreover have "solid (CHR ''+'')" by (simp add: solid_def py_isspace_def is_line_break_def)
    ultimately show ?thesis using n url_safe_solid [of c] percent_byte_solid
      by (auto simp: quote_char_def Let_def)
  qed
  then show ?thesis by (induction s) (auto simp: quote_plus_def)
qed

lemma strip_line: "list_all solid s \<Longrightarrow> strip s = s"
  by (rule strip_solid) (auto simp: solid_def list_all_iff)

lemma source_line:
  assumes "list_all solid u" and "u \<noteq> []"
  shows "startswith ''Source:'' (strip (''Source: '' @ u))" and "strip (drop (length ''Source:'') (strip (''Source: '' @ u))) = u"
proof -
  have "strip (''Source: '' @ u) = ''Source: '' @ u"
    using assms by (intro strip_fix) (auto simp: py_isspace_def solid_def list_all_iff)
  moreover have "strip (CHR '' '' # u) = u"
    using strip_line [OF assms(1)] by (simp add: strip_def lstrip_def py_isspace_def)
  ultimately show "startswith ''Source:'' (strip (''Source: '' @ u))" "strip (drop (length ''Source:'') (strip (''Source: '' @ u))) = u"
    by (simp_all add: startswith_def)
qed

lemma no_breaks_append [simp]: "no_breaks (s @ t) \<longleftrightarrow> no_breaks s \<and> no_breaks t"
  by (simp add: no_breaks_def)

lemma no_breaks_empty: "no_breaks []"
  by (simp add: no_breaks_def)

lemma no_breaks_quote_plus: "no_breaks (quote_plus q)"
  using quote_plus_solid [of q] by (auto simp: no_breaks_def solid_def list_all_iff)

lemma no_breaks_texts:
  assumes "no_breaks q"
  shows "no_breaks (mock_overview q)" and "no_breaks (mock_recent q)"
    and "no_breaks (''Source: '' @ mock_url q)" and "no_breaks (''Source: '' @ mock_news_url q)"
proof -
  have quoted: "no_breaks (quoted q)" using assms by (simp add: quoted_def no_breaks_def is_line_break_def)
  have texts: "no_breaks ''[MOCK RESULT 1] Comprehensive overview of ''" "no_breaks ''[MOCK RESULT 2] Recent findings on ''"
    "no_breaks '': This representative snippet describes key aspects of the topic, covering background, current state, and notable developments.''"
    "no_breaks '': Secondary perspective offering additional context and alternative viewpoints for a more balanced understanding.''"
    "no_breaks ''Source: ''" "no_breaks ''https://example.com/search?q=''" "no_breaks ''https://news.example.com/''"
    by code_simp+
  show "no_breaks (mock_overview q)" "no_breaks (mock_recent q)"
    by (simp_all only: mock_overview_def mock_recent_def no_breaks_append quoted texts)
  show "no_breaks (''Source: '' @ mock_url q)" "no_breaks (''Source: '' @ mock_news_url q)"
    by (simp_all only: mock_url_def mock_news_url_def no_breaks_append no_breaks_quote_plus texts)
qed

lemma not_a_source: "\<not> startswith ''Source:'' (strip [])" "\<not> startswith ''Source:'' (strip (CHR ''['' # t))"
proof -
  have "strip (CHR ''['' # t) = rstrip (CHR ''['' # t)" by (simp add: strip_def lstrip_def py_isspace_def)
  moreover have "\<not> startswith ''Source:'' (rstrip (CHR ''['' # t))"
    using hd_rstrip [of "CHR ''['' # t"] by (cases "rstrip (CHR ''['' # t)") (auto simp: startswith_def)
  ultimately show "\<not> startswith ''Source:'' (strip (CHR ''['' # t))" by simp
qed (simp add: startswith_def strip_def lstrip_def rstrip_def)

lemma mock_lines:
  assumes "no_breaks q"
  shows "splitlines (mock_web_search q) =
    [mock_overview q, ''Source: '' @ mock_url q, [], mock_recent q, ''Source: '' @ mock_news_url q]"
proof -
  note n = no_breaks_texts [OF assms]
  have "mock_web_search q = mock_overview q @ NL # ((''Source: '' @ mock_url q) @ NL # ([] @ NL #
      (mock_recent q @ NL # (''Source: '' @ mock_news_url q))))"
    by (simp only: mock_web_search_def append_assoc append_Cons append_Nil)
  moreover have "splitlines (''Source: '' @ mock_news_url q) = [''Source: '' @ mock_news_url q]"
    by (rule splitlines_last [OF n(4)]) simp
  ultimately show ?thesis
    by (simp only: splitlines_line [OF n(1)] splitlines_line [OF n(2)] splitlines_line [OF n(3)] splitlines_line [OF no_breaks_empty])
qed

lemma mock_lines_start: "\<exists>t. mock_overview q = CHR ''['' # t" "\<exists>t. mock_recent q = CHR ''['' # t"
  by (simp_all add: mock_overview_def mock_recent_def)

lemma mock_urls: "list_all solid (mock_url q)" "list_all solid (mock_news_url q)" "mock_url q \<noteq> []" "mock_news_url q \<noteq> []"
proof -
  have "list_all solid ''https://example.com/search?q=''" "list_all solid ''https://news.example.com/''" by code_simp+
  then show "list_all solid (mock_url q)" "list_all solid (mock_news_url q)"
    using quote_plus_solid by (simp_all only: mock_url_def mock_news_url_def list_all_append)
qed (simp_all add: mock_url_def mock_news_url_def)

lemma mock_source_lines: "no_breaks q \<Longrightarrow> source_lines (mock_web_search q) = [mock_url q, mock_news_url q]"
  using not_a_source mock_lines_start [of q] source_line [OF mock_urls(1,3)] source_line [OF mock_urls(2,4)] mock_urls(3,4) [of q]
  by (auto simp: source_lines_def mock_lines)

text \<open>The development search feeds the research agent: with no provider configured the agent's
  search is the mock, and from its answer to a query of one line the agent extracts exactly the
  two URLs the mock put there, with the query percent-encoded.\<close>

theorem default_search_sources:
  assumes "environ ''SEARCH_PROVIDER'' = None" and "no_breaks q"
  shows "\<exists>tools t answer. get_default_tools pk environ A mem = Inr tools \<and> search_of tools = Some t
    \<and> invoke_tool t q = Inr answer
    \<and> source_lines answer = [mock_url q, mock_news_url q]"
proof -
  have "strip (lower ''mock'') = ''mock''" by code_simp
  then have t: "create_search_tool pk environ = Inr create_mock_search_tool"
    using assms(1) by (simp add: create_search_tool_def Let_def)
  show ?thesis
    using mock_source_lines [OF assms(2)]
    by (simp add: get_default_tools_def t search_of_def create_mock_search_tool_def)
qed

text \<open>Without a tool called \<open>web_search\<close> (the tool Tavily's package provides has another name)
  and without a connector the research agent finds nothing: every result it produces is without
  findings and without sources, whatever the search engine would have answered.\<close>

theorem unnamed_search_finds_nothing:
  assumes "list_all (\<lambda>t. tool_name t \<noteq> ''web_search'') tools" and "retrieve env = None"
    and "run_structured (with_tools tools env) q = Inr r"
  shows "rr_findings r = [] \<and> rr_sources r = []"
proof -
  have none: "web_search (with_tools tools env) = None" "retrieve (with_tools tools env) = None"
    using assms(1,2) by (simp_all add: with_tools_def search_of_def find_None_iff list_all_iff)
  from assms(3) obtain q' st where g: "research_graph (with_tools tools env) (make_initial_state (with_tools tools env) q') = Inr st"
    and r: "rs_result st = Some r"
    by (auto simp: run_structured_def research_execute_def invoke_graph_Inr rbind_Inr_iff split: if_splits option.splits)
  have "\<exists>st2. (rs_findings st2 = [] \<and> rs_sources st2 = []) \<and> node_summarize (with_tools tools env) st2 = Inr st"
  proof (rule graph_rule [OF g])
    fix st0 st1 st2
    assume "rs_findings st0 = [] \<and> rs_sources st0 = []" "node_research (with_tools tools env) st0 = Inr st1"
      and v: "node_validate (with_tools tools env) st1 = Inr st2"
    then have "rs_findings st1 = [] \<and> rs_sources st1 = []"
      using none by (auto simp: node_research_def rbind_Inr_iff fetch_connector_records_def with_findings_def dedupe_def)
    then show "rs_findings st2 = [] \<and> rs_sources st2 = []"
      using validate_effect(1) [OF v] by auto
  qed (simp add: make_initial_state_def)
  then show ?thesis using summarize_effect(4) r by fastforce
qed

text \<open>The recall tool answers every question with the same text: the five newest runs, newest
  first, numbered from one.\<close>

lemma recall_lists_newest:
  assumes "sql_rel m h"
  shows "invoke_tool (create_memory_tool rend stamp txt m) q =
    Inr (if h = [] then ''No previous run history found.''
         else join [NL] ((''Found '' @ show_nat (length (take 5 (rev h))) @ '' recent run(s) in history:'' @ [NL])
           # run_lines rend stamp 1 (take 5 (rev h))))"
  using sqlite.lst_eq [OF assms, of 5]
  by (cases "take 5 (rev h)") (auto simp: create_memory_tool_def recall_history_def h_list_def)

section \<open>Examples\<close>

definition no_packages :: search_packages where
  "no_packages = \<lparr>tavily = None, serpapi = None\<rparr>"

theorem default_search_sources_witness:
  "\<exists>tools t answer. get_default_tools no_packages (\<lambda>name. None) (demo_arith demo_tree) None = Inr tools \<and> search_of tools = Some t
    \<and> invoke_tool t ''AI & law'' = Inr answer
    \<and> source_lines answer = [''https://example.com/search?q=AI+%26+law'', ''https://news.example.com/ai+%26+law'']"
proof -
  have "mock_url ''AI & law'' = ''https://example.com/search?q=AI+%26+law''"
    "mock_news_url ''AI & law'' = ''https://news.example.com/ai+%26+law''" "no_breaks ''AI & law''"
    by code_simp+
  then show ?thesis using default_search_sources [where environ = "\<lambda>name. None" and A = "demo_arith demo_tree" and q = "''AI & law''"] by simp
qed

definition tavily_tool :: tool where
  "tavily_tool = \<lparr>tool_name = ''tavily_search_results_json'', invoke_tool = (\<lambda>q. Inr ''Source: u'')\<rparr>"

theorem unnamed_search_finds_nothing_witness:
  "\<exists>r. run_structured (with_tools [tavily_tool] (demo_agent 2)) ''Why?'' = Inr r \<and> rr_sources r = []"
proof -
  have "\<not> isl (run_structured (with_tools [tavily_tool] (demo_agent 2)) ''Why?'')" by code_simp
  then obtain r where r: "run_structured (with_tools [tavily_tool] (demo_agent 2)) ''Why?'' = Inr r"
    by (cases "run_structured (with_tools [tavily_tool] (demo_agent 2)) ''Why?''") auto
  have "rr_findings r = [] \<and> rr_sources r = []"
    by (rule unnamed_search_finds_nothing [OF _ _ r]) (simp_all add: tavily_tool_def demo_agent_def)
  with r show ?thesis by blast
qed

end
