(* ===== verification/Config.thy ===== *)
theory Config
  imports Connectors Checkpointers Gateway Sessions Research
begin

text \<open>
  The settings of the service (\<open>core/config.py\<close>) and the LLM client factory (\<open>core/llm.py\<close>).
  \<open>load_settings\<close> starts from the text pydantic-settings finds for each field in the environment
  or in \<open>.env\<close>; how pydantic reads numbers and booleans from text is an argument. Infinite
  floats are not modelled.
\<close>

section \<open>The LLM configuration\<close>

record llm_config =
  provider :: string
  request_timeout_seconds :: rat
  anthropic_api_key :: "string option"
  anthropic_model :: string
  anthropic_base_url :: "string option"
  max_tokens :: int
  openai_api_key :: "string option"
  openai_model :: string
  openai_base_url :: "string option"
  google_api_key :: "string option"
  google_model :: string
  google_base_url :: "string option"
  aws_access_key_id :: "string option"
  aws_secret_access_key :: "string option"
  aws_region :: string
  bedrock_model :: string
  bedrock_endpoint_url :: "string option"
  azure_openai_api_key :: "string option"
  azure_openai_endpoint :: "string option"
  azure_openai_base_url :: "string option"
  azure_openai_deployment :: string
  ollama_base_url :: string
  ollama_model :: string

definition PROVIDERS :: "string list" where
  "PROVIDERS = [''anthropic'', ''openai'', ''google'', ''bedrock'', ''azure'', ''ollama'', ''mock'']"

record 'c llm_packages =
  pkg_installed :: "string \<Rightarrow> bool"
  build :: "string \<Rightarrow> pydict \<Rightarrow> 'c"        \<comment> \<open>class and keyword arguments; constructors do not fail\<close>

definition SDK_MAX_RETRIES :: int where "SDK_MAX_RETRIES = 0"

definition optional_url :: "string \<Rightarrow> string option \<Rightarrow> pydict" where
  "optional_url key v = (if or_empty v = [] then [] else [(key, VStr (or_empty v))])"

definition int_of_rat :: "rat \<Rightarrow> int" where
  \<comment> \<open>\<open>int(x)\<close>: towards zero\<close>
  "int_of_rat x = (if 0 \<le> x then floor x else ceiling x)"

definition botocore_config :: "rat \<Rightarrow> pyval" where
  "botocore_config timeout = VDict
     [(''read_timeout'', VInt (int_of_rat timeout)),
      (''connect_timeout'', VInt (min 10 (int_of_rat timeout))),
      (''retries'', VDict [(''max_attempts'', VInt 1), (''mode'', VStr ''standard'')])]"

definition bedrock_chat_kwargs :: "'a llm_config_scheme \<Rightarrow> pydict result" where
  "bedrock_chat_kwargs cfg =
     (let key = or_empty (aws_access_key_id cfg); secret = or_empty (aws_secret_access_key cfg) in
      if key \<noteq> [] \<and> secret = [] then Inl ValueError
      else if secret \<noteq> [] \<and> key = [] then Inl ValueError
      else Inr ([(''model_id'', VStr (bedrock_model cfg)), (''region_name'', VStr (aws_region cfg)),
                 (''max_tokens'', VInt (max_tokens cfg)), (''credentials_profile_name'', VNone),
                 (''config'', botocore_config (request_timeout_seconds cfg))]
        @ (if key \<noteq> [] \<and> secret \<noteq> [] then [(''aws_access_key_id'', VStr key), (''aws_secret_access_key'', VStr secret)] else [])
        @ optional_url ''endpoint_url'' (bedrock_endpoint_url cfg)))"

definition requires :: "string option \<Rightarrow> pydict result \<Rightarrow> pydict result" where
  "requires key args = (if or_empty key = [] then Inl ValueError else args)"

definition client_kwargs :: "'a llm_config_scheme \<Rightarrow> pydict result" where
  \<comment> \<open>the checks and keyword arguments of the configured provider\<close>
  "client_kwargs cfg =
     (let timeout = VFloat (request_timeout_seconds cfg); retries = VInt SDK_MAX_RETRIES in
      if provider cfg = ''anthropic'' then
        requires (anthropic_api_key cfg)
          (Inr ([(''model'', VStr (anthropic_model cfg)), (''api_key'', VStr (or_empty (anthropic_api_key cfg))),
                 (''max_tokens'', VInt (max_tokens cfg)), (''max_retries'', retries), (''default_request_timeout'', timeout)]
             @ optional_url ''base_url'' (anthropic_base_url cfg)))
      else if provider cfg = ''openai'' then
        requires (openai_api_key cfg)
          (Inr ([(''model'', VStr (openai_model cfg)), (''api_key'', VStr (or_empty (openai_api_key cfg))),
                 (''max_tokens'', VInt (max_tokens cfg)), (''max_retries'', retries), (''request_timeout'', timeout)]
             @ optional_url ''base_url'' (openai_base_url cfg)))
      else if provider cfg = ''google'' then
        requires (google_api_key cfg)
          (Inr ([(''model'', VStr (google_model cfg)), (''google_api_key'', VStr (or_empty (google_api_key cfg))),
                 (''max_output_tokens'', VInt (max_tokens cfg)), (''max_retries'', retries), (''timeout'', timeout)]
             @ optional_url ''base_url'' (google_base_url cfg)))
      else if provider cfg = ''bedrock'' then bedrock_chat_kwargs cfg
      else if provider cfg = ''azure'' then
        requires (azure_openai_api_key cfg) (requires (azure_openai_endpoint cfg)
          (Inr ([(''azure_deployment'', VStr (azure_openai_deployment cfg)),
                 (''api_key'', VStr (or_empty (azure_openai_api_key cfg))),
                 (''azure_endpoint'', VStr (or_empty (azure_openai_endpoint cfg))),
                 (''max_tokens'', VInt (max_tokens cfg)), (''max_retries'', retries), (''request_timeout'', timeout)]
             @ optional_url ''base_url'' (azure_openai_base_url cfg))))
      else if provider cfg = ''ollama'' then
        Inr [(''model'', VStr (ollama_model cfg)), (''base_url'', VStr (ollama_base_url cfg)),
             (''num_predict'', VInt (max_tokens cfg)),
             (''sync_client_kwargs'', VDict [(''timeout'', timeout)]), (''async_client_kwargs'', VDict [(''timeout'', timeout)])]
      else if provider cfg = ''mock'' then Inr []
      else Inl ValueError)"

definition client_class :: "string \<Rightarrow> (string \<times> string) option" where
  \<comment> \<open>pkg and class of a provider's client\<close>
  "client_class p =
     map_of [(''anthropic'', ''langchain_anthropic'', ''ChatAnthropic''), (''openai'', ''langchain_openai'', ''ChatOpenAI''),
       (''google'', ''langchain_google_genai'', ''ChatGoogleGenerativeAI''), (''bedrock'', ''langchain_aws'', ''ChatBedrock''),
       (''azure'', ''langchain_openai'', ''AzureChatOpenAI''), (''ollama'', ''langchain_ollama'', ''ChatOllama''),
       (''mock'', ''core.mock_llm'', ''MockProviderChatModel'')] p"

definition get_llm :: "'c llm_packages \<Rightarrow> 'a llm_config_scheme \<Rightarrow> 'c result" where
  "get_llm pk cfg =
     (case client_class (provider cfg) of
        None \<Rightarrow> Inl ValueError
      | Some (pkg, cls) \<Rightarrow>
          if provider cfg \<noteq> ''mock'' \<and> \<not> pkg_installed pk pkg then Inl ImportError
          else if provider cfg = ''bedrock'' \<and> \<not> pkg_installed pk ''botocore.config'' then Inl ImportError
          else rbind (client_kwargs cfg) (\<lambda>args. Inr (build pk cls args)))"

section \<open>Reading the settings\<close>

record parsers =   \<comment> \<open>pydantic's reading of text\<close>
  parse_int :: "string \<Rightarrow> int option"
  parse_float :: "string \<Rightarrow> rat option"
  parse_bool :: "string \<Rightarrow> bool option"

type_synonym raw_settings = "string \<Rightarrow> string option"   \<comment> \<open>the text found for a field\<close>

record settings =
  llm :: llm_config
  memory :: memory_settings
  connectors :: connector_settings
  default_pack_id :: string
  pack_default_budget_usd :: "rat option"
  llm_cost_table_path :: "string option"
  rag_enabled :: bool
  connector_http_timeout_seconds :: rat
  log_level :: string
  api_host :: string
  api_port :: int
  cors_origins_raw :: string
  max_research_iterations :: int
  max_step_count :: int
  stream_timeout_seconds :: int
  max_request_body_bytes :: int
  thread_pool_max_workers :: int
  environment :: string
  rate_limit_backend :: string
  session_registry_backend :: string
  session_lock_ttl_seconds :: int
  review_store_backend :: string
  review_store_path :: string
  pack_plugins_enabled :: bool
  pack_plugins_allowlist :: string
  api_key :: "string option"
  api_keys :: "string option"
  trust_proxy_headers :: bool
  forwarded_allow_ips :: string
  regulated_packs_enabled :: bool

definition text_field :: "raw_settings \<Rightarrow> string \<Rightarrow> string \<Rightarrow> string" where
  "text_field raw name d = (case raw name of None \<Rightarrow> d | Some s \<Rightarrow> s)"

definition parsed_field :: "(string \<Rightarrow> 'a option) \<Rightarrow> raw_settings \<Rightarrow> string \<Rightarrow> 'a \<Rightarrow> ('a \<Rightarrow> bool) \<Rightarrow> 'a result" where
  \<comment> \<open>defaults are within the bounds\<close>
  "parsed_field parse raw name d ok =
     (case raw name of
        None \<Rightarrow> Inr d
      | Some s \<Rightarrow> (case parse s of None \<Rightarrow> Inl ValueError | Some x \<Rightarrow> if ok x then Inr x else Inl ValueError))"

definition choice_field :: "raw_settings \<Rightarrow> string \<Rightarrow> string \<Rightarrow> string list \<Rightarrow> string result" where
  "choice_field raw name d options = parsed_field Some raw name d (\<lambda>s. s \<in> set options)"

definition bool_field :: "parsers \<Rightarrow> raw_settings \<Rightarrow> string \<Rightarrow> bool result" where
  \<comment> \<open>every boolean setting is off by default\<close>
  "bool_field p raw name = parsed_field (parse_bool p) raw name False (\<lambda>b. True)"

definition load_llm :: "parsers \<Rightarrow> raw_settings \<Rightarrow> llm_config result" where
  "load_llm p raw =
     rbind (choice_field raw ''llm_provider'' ''anthropic'' PROVIDERS) (\<lambda>prov.
     rbind (parsed_field (parse_int p) raw ''max_tokens'' 4096 (\<lambda>i. 1 \<le> i \<and> i \<le> 32768)) (\<lambda>mt.
     rbind (parsed_field (parse_float p) raw ''llm_request_timeout_seconds'' 120 (\<lambda>x. 1 \<le> x)) (\<lambda>t.
       Inr \<lparr>provider = prov, request_timeout_seconds = t,
         anthropic_api_key = raw ''anthropic_api_key'',
         anthropic_model = text_field raw ''anthropic_model'' ''claude-sonnet-5'',
         anthropic_base_url = raw ''anthropic_base_url'', max_tokens = mt,
         openai_api_key = raw ''openai_api_key'', openai_model = text_field raw ''openai_model'' ''gpt-5.5'',
         openai_base_url = raw ''openai_base_url'',
         google_api_key = raw ''google_api_key'', google_model = text_field raw ''google_model'' ''gemini-3.5-flash'',
         google_base_url = raw ''google_base_url'',
         aws_access_key_id = raw ''aws_access_key_id'', aws_secret_access_key = raw ''aws_secret_access_key'',
         aws_region = text_field raw ''aws_region'' ''us-east-1'',
         bedrock_model = text_field raw ''bedrock_model'' ''anthropic.claude-sonnet-5'',
         bedrock_endpoint_url = raw ''bedrock_endpoint_url'',
         azure_openai_api_key = raw ''azure_openai_api_key'', azure_openai_endpoint = raw ''azure_openai_endpoint'',
         azure_openai_base_url = raw ''azure_openai_base_url'',
         azure_openai_deployment = text_field raw ''azure_openai_deployment'' ''gpt-4o'',
         ollama_base_url = text_field raw ''ollama_base_url'' ''http://localhost:11434'',
         ollama_model = text_field raw ''ollama_model'' ''llama3.2''\<rparr>)))"

definition backend_of :: "string \<Rightarrow> backend" where
  "backend_of s = (if s = ''sqlite'' then SQLITE else if s = ''redis'' then REDIS
     else if s = ''postgres'' then POSTGRES else UnknownBackend)"

definition redis_url_scheme :: "string \<Rightarrow> bool" where
  "redis_url_scheme v \<longleftrightarrow> startswith ''redis://'' v \<or> startswith ''rediss://'' v"

definition load_memory :: "raw_settings \<Rightarrow> memory_settings result" where
  "load_memory raw =
     rbind (choice_field raw ''memory_backend'' ''sqlite'' [''sqlite'', ''redis'', ''postgres'']) (\<lambda>b.
     rbind (parsed_field Some raw ''redis_url'' ''redis://localhost:6379/0'' redis_url_scheme) (\<lambda>u.
       Inr \<lparr>memory_backend = backend_of b, sqlite_path = text_field raw ''sqlite_path'' ''./data/agent_memory.db'',
            redis_url = u, postgres_url = raw ''postgres_url''\<rparr>))"

definition load_connectors :: "parsers \<Rightarrow> raw_settings \<Rightarrow> connector_settings result" where
  "load_connectors p raw =
     rbind (bool_field p raw ''connector_enabled'') (\<lambda>en.
     rbind (parsed_field (parse_int p) raw ''connector_http_max_response_bytes'' 1048576 (\<lambda>i. 1024 \<le> i)) (\<lambda>mb.
     rbind (parsed_field (parse_int p) raw ''connector_http_max_redirects'' 5 (\<lambda>i. 0 \<le> i \<and> i \<le> 20)) (\<lambda>mr.
       Inr \<lparr>connector_enabled = en, connector_id = text_field raw ''connector_id'' ''example_memory'',
         connector_http_url = raw ''connector_http_url'', connector_http_max_response_bytes = mb,
         connector_http_max_redirects = mr,
         connector_sharepoint_tenant_id = raw ''connector_sharepoint_tenant_id'',
         connector_sharepoint_client_id = raw ''connector_sharepoint_client_id'',
         connector_sharepoint_client_secret = raw ''connector_sharepoint_client_secret'',
         connector_gdrive_access_token = raw ''connector_gdrive_access_token'',
         connector_gdrive_drive_id = raw ''connector_gdrive_drive_id''\<rparr>)))"

definition blank_budget_is_none :: "parsers \<Rightarrow> raw_settings \<Rightarrow> rat option result" where
  "blank_budget_is_none p raw =
     (case raw ''pack_default_budget_usd'' of
        None \<Rightarrow> Inr None
      | Some v \<Rightarrow> if strip v = [] then Inr None
                  else (case parse_float p v of None \<Rightarrow> Inl ValueError | Some x \<Rightarrow> Inr (Some x)))"

definition comma_list :: "string \<Rightarrow> string list" where
  "comma_list s = filter (\<lambda>x. x \<noteq> []) (map strip (split_on CHR '','' s))"

definition cors_origins :: "settings \<Rightarrow> string list" where
  "cors_origins s = comma_list (cors_origins_raw s)"

definition resolved_pack_plugins_allowlist :: "settings \<Rightarrow> string list" where
  "resolved_pack_plugins_allowlist s = dedupe (comma_list (pack_plugins_allowlist s))"

definition gateway_of :: "'ip gateway_cfg \<Rightarrow> settings \<Rightarrow> 'ip gateway_cfg" where
  \<comment> \<open>what the middlewares read of the settings; the rest is the platform's\<close>
  "gateway_of cfg s = cfg\<lparr>cfg_api_key := api_key s, cfg_api_keys := api_keys s,
     gateway_cfg.trust_proxy_headers := trust_proxy_headers s,
     gateway_cfg.forwarded_allow_ips := forwarded_allow_ips s,
     gateway_cfg.environment := environment s,
     gateway_cfg.max_request_body_bytes := max_request_body_bytes s\<rparr>"

definition llm_config_of :: "settings \<Rightarrow> llm_config" where
  \<comment> \<open>\<open>Settings.llm_config\<close>: the settings hold the configuration's fields under the same names\<close>
  "llm_config_of s = llm s"

definition settings_api_keys :: "settings \<Rightarrow> string list" where
  \<comment> \<open>\<open>Settings.resolved_api_keys\<close>, as modelled with the gateway\<close>
  "settings_api_keys s = resolved_api_keys (gateway_of \<lparr>parse_ip = (\<lambda>_. None :: unit option), parse_net = (\<lambda>_. None), sha256_hex = id,
     cfg_api_key = None, cfg_api_keys = None, trust_proxy_headers = False, forwarded_allow_ips = [],
     environment = [], max_request_body_bytes = 0\<rparr> s)"

definition validate_backend_urls :: "settings \<Rightarrow> settings result" where
  "validate_backend_urls s =
     (let c = connectors s in
      if memory_backend (memory s) = POSTGRES \<and> or_empty (postgres_url (memory s)) = [] then Inl ValueError
      else if environment s = ''production'' \<and> settings_api_keys s = [] then Inl ValueError
      else if connector_enabled c \<and> connector_id c \<notin> set BUILTIN_CONNECTORS then Inl ValueError
      else if connector_enabled c \<and> connector_id c = ''http'' \<and> or_empty (connector_http_url c) = [] then Inl ValueError
      else if connector_enabled c \<and> connector_id c = ''rag'' \<and> \<not> rag_enabled s then Inl ValueError
      else Inr s)"

definition load_settings :: "parsers \<Rightarrow> raw_settings \<Rightarrow> settings result" where
  "load_settings p raw =
     (let int = parsed_field (parse_int p) raw; flag = bool_field p raw; choice = choice_field raw; txt = text_field raw in
      rbind (load_llm p raw) (\<lambda>llm_part.
      rbind (load_memory raw) (\<lambda>memory_part.
      rbind (load_connectors p raw) (\<lambda>connector_part.
      rbind (blank_budget_is_none p raw) (\<lambda>budget.
      rbind (flag ''rag_enabled'') (\<lambda>rag.
      rbind (parsed_field (parse_float p) raw ''connector_http_timeout_seconds'' 10 (\<lambda>x. 1 \<le> x)) (\<lambda>http_timeout.
      rbind (choice ''log_level'' ''INFO'' [''DEBUG'', ''INFO'', ''WARNING'', ''ERROR'', ''CRITICAL'']) (\<lambda>level.
      rbind (int ''api_port'' 8000 (\<lambda>i. 1 \<le> i \<and> i \<le> 65535)) (\<lambda>port.
      rbind (int ''max_research_iterations'' 3 (\<lambda>i. 1 \<le> i \<and> i \<le> 10)) (\<lambda>iterations.
      rbind (int ''max_step_count'' 20 (\<lambda>i. 1 \<le> i \<and> i \<le> 100)) (\<lambda>steps.
      rbind (int ''stream_timeout_seconds'' 120 (\<lambda>i. 1 \<le> i)) (\<lambda>stream_timeout.
      rbind (int ''max_request_body_bytes'' 1048576 (\<lambda>i. 1024 \<le> i \<and> i \<le> 52428800)) (\<lambda>body_bytes.
      rbind (int ''thread_pool_max_workers'' 8 (\<lambda>i. 1 \<le> i \<and> i \<le> 64)) (\<lambda>workers.
      rbind (choice ''environment'' ''development'' [''development'', ''staging'', ''production'']) (\<lambda>env.
      rbind (choice ''rate_limit_backend'' ''memory'' [''memory'', ''redis'']) (\<lambda>rl.
      rbind (choice ''session_registry_backend'' ''memory'' [''memory'', ''redis'']) (\<lambda>sr.
      rbind (int ''session_lock_ttl_seconds'' 300 (\<lambda>i. 10 \<le> i)) (\<lambda>ttl.
      rbind (choice ''review_store_backend'' ''memory'' [''memory'', ''sqlite'']) (\<lambda>rs.
      rbind (flag ''pack_plugins_enabled'') (\<lambda>plugins.
      rbind (flag ''trust_proxy_headers'') (\<lambda>proxy.
      rbind (flag ''regulated_packs_enabled'') (\<lambda>regulated.
        validate_backend_urls
          \<lparr>llm = llm_part, memory = memory_part, connectors = connector_part,
           default_pack_id = txt ''default_pack_id'' ''research_analysis'', pack_default_budget_usd = budget,
           llm_cost_table_path = raw ''llm_cost_table_path'', rag_enabled = rag,
           connector_http_timeout_seconds = http_timeout, log_level = level,
           api_host = txt ''api_host'' ''0.0.0.0'', api_port = port, cors_origins_raw = txt ''cors_origins_raw'' [],
           max_research_iterations = iterations, max_step_count = steps, stream_timeout_seconds = stream_timeout,
           max_request_body_bytes = body_bytes, thread_pool_max_workers = workers, environment = env,
           rate_limit_backend = rl, session_registry_backend = sr, session_lock_ttl_seconds = ttl,
           review_store_backend = rs, review_store_path = txt ''review_store_path'' ''./data/review_store.db'',
           pack_plugins_enabled = plugins, pack_plugins_allowlist = txt ''pack_plugins_allowlist'' [],
           api_key = raw ''api_key'', api_keys = raw ''api_keys'', trust_proxy_headers = proxy,
           forwarded_allow_ips = txt ''forwarded_allow_ips'' [], regulated_packs_enabled = regulated\<rparr>))))))))))))))))))))))"

section \<open>What an accepted configuration is\<close>

lemma parsed_field_ok: "parsed_field parse raw name d ok = Inr x \<Longrightarrow> ok d \<Longrightarrow> ok x"
  by (auto simp: parsed_field_def split: option.splits if_splits)

lemma choice_field_in: "choice_field raw name d options = Inr x \<Longrightarrow> d \<in> set options \<Longrightarrow> x \<in> set options"
  unfolding choice_field_def by (rule parsed_field_ok)

definition llm_ok :: "llm_config \<Rightarrow> bool" where
  "llm_ok c \<longleftrightarrow> provider c \<in> set PROVIDERS \<and> 1 \<le> max_tokens c \<and> max_tokens c \<le> 32768 \<and> 1 \<le> request_timeout_seconds c"

definition memory_ok :: "memory_settings \<Rightarrow> bool" where
  "memory_ok m \<longleftrightarrow> memory_backend m \<noteq> UnknownBackend \<and> redis_url_scheme (redis_url m)
     \<and> (memory_backend m = POSTGRES \<longrightarrow> or_empty (postgres_url m) \<noteq> [])"

definition connectors_ok :: "settings \<Rightarrow> bool" where
  "connectors_ok s \<longleftrightarrow> (let c = connectors s in
     1024 \<le> connector_http_max_response_bytes c \<and> 0 \<le> connector_http_max_redirects c \<and> connector_http_max_redirects c \<le> 20
     \<and> 1 \<le> connector_http_timeout_seconds s
     \<and> (connector_enabled c \<longrightarrow> connector_id c \<in> set BUILTIN_CONNECTORS
          \<and> (connector_id c = ''http'' \<longrightarrow> or_empty (connector_http_url c) \<noteq> [])
          \<and> (connector_id c = ''rag'' \<longrightarrow> rag_enabled s)))"

definition limits_ok :: "settings \<Rightarrow> bool" where
  "limits_ok s \<longleftrightarrow> api_port s \<in> {1..65535} \<and> max_research_iterations s \<in> {1..10} \<and> max_step_count s \<in> {1..100}
     \<and> 1 \<le> stream_timeout_seconds s \<and> max_request_body_bytes s \<in> {1024..52428800}
     \<and> thread_pool_max_workers s \<in> {1..64} \<and> 10 \<le> session_lock_ttl_seconds s"

definition choices_ok :: "settings \<Rightarrow> bool" where
  "choices_ok s \<longleftrightarrow> log_level s \<in> {''DEBUG'', ''INFO'', ''WARNING'', ''ERROR'', ''CRITICAL''}
     \<and> environment s \<in> {''development'', ''staging'', ''production''}
     \<and> rate_limit_backend s \<in> {''memory'', ''redis''} \<and> session_registry_backend s \<in> {''memory'', ''redis''}
     \<and> review_store_backend s \<in> {''memory'', ''sqlite''}"

lemma rbind_InrE:
  assumes "rbind m f = Inr y"
  obtains x where "m = Inr x" and "f x = Inr y"
  using assms by (cases m) auto

lemma load_llm_facts:
  assumes "load_llm p raw = Inr c"
  obtains "choice_field raw ''llm_provider'' ''anthropic'' PROVIDERS = Inr (provider c)"
    and "parsed_field (parse_int p) raw ''max_tokens'' 4096 (\<lambda>i. 1 \<le> i \<and> i \<le> 32768) = Inr (max_tokens c)"
    and "parsed_field (parse_float p) raw ''llm_request_timeout_seconds'' 120 (\<lambda>x. 1 \<le> x) = Inr (request_timeout_seconds c)"
  using assms unfolding load_llm_def sum.inject
  by (elim rbind_InrE, intro that; simp only: sum.inject) (auto simp only: llm_config.select_convs)

lemma load_llm_ok:
  assumes "load_llm p raw = Inr c"
  shows "llm_ok c"
proof (rule load_llm_facts [OF assms])
  assume r: "choice_field raw ''llm_provider'' ''anthropic'' PROVIDERS = Inr (provider c)"
    "parsed_field (parse_int p) raw ''max_tokens'' 4096 (\<lambda>i. 1 \<le> i \<and> i \<le> 32768) = Inr (max_tokens c)"
    "parsed_field (parse_float p) raw ''llm_request_timeout_seconds'' 120 (\<lambda>x. 1 \<le> x) = Inr (request_timeout_seconds c)"
  have "''anthropic'' \<in> set PROVIDERS" by (simp add: PROVIDERS_def)
  then show ?thesis
    using choice_field_in [OF r(1)] parsed_field_ok [OF r(2)] parsed_field_ok [OF r(3)] by (simp add: llm_ok_def)
qed

lemma backend_known: "choice_field raw name ''sqlite'' [''sqlite'', ''redis'', ''postgres''] = Inr b \<Longrightarrow> backend_of b \<noteq> UnknownBackend"
  by (drule choice_field_in) (auto simp: backend_of_def)

lemma redis_default: "redis_url_scheme ''redis://localhost:6379/0''"
  by code_simp

lemma load_memory_ok:
  assumes "load_memory raw = Inr m"
  shows "memory_backend m \<noteq> UnknownBackend \<and> redis_url_scheme (redis_url m)"
proof -
  obtain b u where b: "choice_field raw ''memory_backend'' ''sqlite'' [''sqlite'', ''redis'', ''postgres''] = Inr b"
    and u: "parsed_field Some raw ''redis_url'' ''redis://localhost:6379/0'' redis_url_scheme = Inr u"
    and m: "\<lparr>memory_backend = backend_of b, sqlite_path = text_field raw ''sqlite_path'' ''./data/agent_memory.db'',
            redis_url = u, postgres_url = raw ''postgres_url''\<rparr> = m"
    using assms unfolding load_memory_def by - (elim rbind_InrE, rule that, assumption, assumption, erule sum.inject(2) [THEN iffD1])
  show ?thesis unfolding m [symmetric] memory_settings.select_convs
    using backend_known [OF b] parsed_field_ok [OF u, OF redis_default] ..
qed

lemma load_connectors_ok:
  "load_connectors p raw = Inr c \<Longrightarrow> 1024 \<le> connector_http_max_response_bytes c
     \<and> 0 \<le> connector_http_max_redirects c \<and> connector_http_max_redirects c \<le> 20"
  by (auto simp: load_connectors_def rbind_Inr_iff dest!: parsed_field_ok)

lemma validate_Inr:
  "validate_backend_urls s = Inr s' \<longleftrightarrow> s' = s \<and> (memory_backend (memory s) = POSTGRES \<longrightarrow> or_empty (postgres_url (memory s)) \<noteq> [])
     \<and> (environment s = ''production'' \<longrightarrow> settings_api_keys s \<noteq> [])
     \<and> (connector_enabled (connectors s) \<longrightarrow> connector_id (connectors s) \<in> set BUILTIN_CONNECTORS
          \<and> (connector_id (connectors s) = ''http'' \<longrightarrow> or_empty (connector_http_url (connectors s)) \<noteq> [])
          \<and> (connector_id (connectors s) = ''rag'' \<longrightarrow> rag_enabled s))"
  by (auto simp: validate_backend_urls_def Let_def)

lemma validate_same: "validate_backend_urls s = Inr s' \<Longrightarrow> s' = s"
  by (simp add: validate_Inr)

lemma load_settings_facts:
  assumes "load_settings p raw = Inr s"
  obtains (fields) "validate_backend_urls s = Inr s" and "load_llm p raw = Inr (llm s)" and "load_memory raw = Inr (memory s)"
    and "load_connectors p raw = Inr (connectors s)"
    and "parsed_field (parse_float p) raw ''connector_http_timeout_seconds'' 10 (\<lambda>x. 1 \<le> x) = Inr (connector_http_timeout_seconds s)"
    and "parsed_field (parse_int p) raw ''api_port'' 8000 (\<lambda>i. 1 \<le> i \<and> i \<le> 65535) = Inr (api_port s)"
    and "parsed_field (parse_int p) raw ''max_research_iterations'' 3 (\<lambda>i. 1 \<le> i \<and> i \<le> 10) = Inr (max_research_iterations s)"
    and "parsed_field (parse_int p) raw ''max_step_count'' 20 (\<lambda>i. 1 \<le> i \<and> i \<le> 100) = Inr (max_step_count s)"
    and "parsed_field (parse_int p) raw ''stream_timeout_seconds'' 120 (\<lambda>i. 1 \<le> i) = Inr (stream_timeout_seconds s)"
    and "parsed_field (parse_int p) raw ''max_request_body_bytes'' 1048576 (\<lambda>i. 1024 \<le> i \<and> i \<le> 52428800) = Inr (max_request_body_bytes s)"
    and "parsed_field (parse_int p) raw ''thread_pool_max_workers'' 8 (\<lambda>i. 1 \<le> i \<and> i \<le> 64) = Inr (thread_pool_max_workers s)"
    and "choice_field raw ''environment'' ''development'' [''development'', ''staging'', ''production''] = Inr (environment s)"
    and "choice_field raw ''rate_limit_backend'' ''memory'' [''memory'', ''redis''] = Inr (rate_limit_backend s)"
    and "choice_field raw ''session_registry_backend'' ''memory'' [''memory'', ''redis''] = Inr (session_registry_backend s)"
    and "parsed_field (parse_int p) raw ''session_lock_ttl_seconds'' 300 (\<lambda>i. 10 \<le> i) = Inr (session_lock_ttl_seconds s)"
    and "choice_field raw ''review_store_backend'' ''memory'' [''memory'', ''sqlite''] = Inr (review_store_backend s)"
    and "choice_field raw ''log_level'' ''INFO'' [''DEBUG'', ''INFO'', ''WARNING'', ''ERROR'', ''CRITICAL''] = Inr (log_level s)"
  using assms unfolding load_settings_def Let_def
  by - (elim rbind_InrE, frule validate_same, rule that, simp_all only: settings.select_convs)

lemma load_settings_fields:
  assumes "load_settings p raw = Inr s"
  shows "validate_backend_urls s = Inr s \<and> load_llm p raw = Inr (llm s) \<and> load_memory raw = Inr (memory s)
    \<and> load_connectors p raw = Inr (connectors s) \<and> 1 \<le> connector_http_timeout_seconds s
    \<and> limits_ok s \<and> choices_ok s"
  using assms
proof (cases rule: load_settings_facts)
  case fields
  have "limits_ok s"
    using fields(6-11,15) [THEN parsed_field_ok] by (simp add: limits_ok_def)
  moreover have "choices_ok s"
    using fields(12-14,16,17) [THEN choice_field_in] by (auto simp: choices_ok_def)
  moreover have "1 \<le> connector_http_timeout_seconds s"
    using fields(5) [THEN parsed_field_ok] by simp
  ultimately show ?thesis
    using fields(1-4) by auto
qed

text \<open>C32. Settings that load satisfy every constraint the fields declare (the enumerated provider,
  memory, rate-limit, session and review backends, environment and log level; the bounds of
  every bounded number; the scheme of the Redis address) and every check of the model
  validator: PostgreSQL has an address, an enabled connector exists, has its address when it is
  the HTTP connector and RAG switched on when it is the RAG connector, and in production there
  is an API key. Rules that are only documented are not enforced, as the lemmas at the end of
  this theory show: the lock's life against the stream's time-out, the trusted proxies, the
  credentials of the other connectors.\<close>

theorem accepted_settings_ok:
  assumes "load_settings p raw = Inr s"
  shows "llm_ok (llm s) \<and> memory_ok (memory s) \<and> connectors_ok s \<and> limits_ok s \<and> choices_ok s
    \<and> (environment s = ''production'' \<longrightarrow> settings_api_keys s \<noteq> [])"
  using load_settings_fields [OF assms] load_llm_ok load_memory_ok load_connectors_ok
  by (auto simp: memory_ok_def connectors_ok_def Let_def validate_Inr)

section \<open>Production is authenticated\<close>

lemma settings_keys: "settings_api_keys s = resolved_api_keys (gateway_of cfg s)"
  by (simp add: settings_api_keys_def resolved_api_keys_def gateway_of_def cong: option.case_cong)

text \<open>C34. With settings that load for production, no request for anything but the probes, the
  documentation and the root reaches the routes without one of the configured keys, whatever the
  routes are: the answer and the state are those of a gateway with any other routes behind it.\<close>

theorem production_authenticated:
  assumes "load_settings p raw = Inr s" and "environment s = ''production''"
    and "rq_path r \<notin> set AUTH_EXEMPT_PATHS" and "presented_token r \<notin> set (settings_api_keys s)"
  shows "app_stack (gateway_of cfg s) cors routes r w = app_stack (gateway_of cfg s) cors' routes' r w
    \<and> app_state (snd (app_stack (gateway_of cfg s) cors routes r w)) = app_state w"
proof -
  have "settings_api_keys s \<noteq> []"
    using load_settings_fields [OF assms(1)] assms(2) by (simp add: validate_Inr)
  then have na: "\<not> authorised (gateway_of cfg s) r"
    using assms(3,4) by (simp add: authorised_def settings_keys [of s cfg])
  show ?thesis
  proof (cases "request_client_ip (gateway_of cfg s) r")
    case (Inr ip)
    then show ?thesis using na by (simp add: app_stack_eq [OF Inr] limiter_step_frame)
  next
    case (Inl e)
    then show ?thesis
      by (auto simp: app_stack_def body_size_limit_middleware_def drain_middleware_def log_requests_def Let_def
          split: bounded.split)
  qed
qed

section \<open>The LLM client\<close>

lemma client_kwargs_Inl: "client_kwargs cfg = Inl e \<Longrightarrow> e = ValueError"
  by (auto simp: client_kwargs_def bedrock_chat_kwargs_def requires_def Let_def split: if_splits)

definition secrets :: "pydict \<Rightarrow> pyval set" where
  \<comment> \<open>the credentials among keyword arguments\<close>
  "secrets args = {dget args ''api_key'', dget args ''google_api_key'', dget args ''aws_access_key_id'',
     dget args ''aws_secret_access_key''} - {VNone}"

definition own_secrets :: "'a llm_config_scheme \<Rightarrow> pyval set" where
  "own_secrets cfg = (VStr \<circ> or_empty) `
     (if provider cfg = ''anthropic'' then {anthropic_api_key cfg}
      else if provider cfg = ''openai'' then {openai_api_key cfg}
      else if provider cfg = ''google'' then {google_api_key cfg}
      else if provider cfg = ''bedrock'' then {aws_access_key_id cfg, aws_secret_access_key cfg}
      else if provider cfg = ''azure'' then {azure_openai_api_key cfg} else {}) - {VStr []}"

lemma optional_url_lookup: "map_of (optional_url k v) key = (if or_empty v = [] \<or> key \<noteq> k then None else Some (VStr (or_empty v)))"
  by (simp add: optional_url_def)

lemma client_secrets:
  assumes "client_kwargs cfg = Inr args"
  shows "secrets args = own_secrets cfg" and "provider cfg \<noteq> ''bedrock'' \<Longrightarrow> dget args ''max_retries'' \<in> {VInt 0, VNone}"
  using assms
  by (auto simp: client_kwargs_def bedrock_chat_kwargs_def requires_def Let_def secrets_def own_secrets_def dget_def
      map_add_def optional_url_lookup SDK_MAX_RETRIES_def split: if_splits)

text \<open>The client factory gives a client of the configured provider's class, with that
  provider's credentials and no others, present where they are required and with the client's
  own retries off, or fails with one of the two errors start-up knows how to handle.\<close>

theorem llm_client_as_configured:
  "case get_llm pk cfg of
     Inl e \<Rightarrow> e \<in> {ImportError, ValueError}
   | Inr client \<Rightarrow> (\<exists>pkg cls args. client_class (provider cfg) = Some (pkg, cls) \<and> client = build pk cls args
       \<and> (provider cfg = ''mock'' \<or> pkg_installed pk pkg)
       \<and> secrets args = own_secrets cfg
       \<and> (provider cfg \<in> {''bedrock'', ''ollama'', ''mock''} \<or> secrets args \<noteq> {})
       \<and> (provider cfg = ''bedrock'' \<or> dget args ''max_retries'' \<in> {VInt 0, VNone}))"
proof (cases "client_class (provider cfg)")
  case None
  then show ?thesis by (simp add: get_llm_def)
next
  case (Some mc)
  obtain pkg cls where mc: "mc = (pkg, cls)" by (cases mc)
  show ?thesis
  proof (cases "client_kwargs cfg")
    case (Inl e)
    then show ?thesis using client_kwargs_Inl [OF Inl] by (simp add: get_llm_def Some mc)
  next
    case (Inr args)
    note sec = client_secrets [OF Inr]
    have ne: "provider cfg \<in> {''bedrock'', ''ollama'', ''mock''} \<or> secrets args \<noteq> {}"
      using Inr Some unfolding sec(1)
      by (auto simp: client_kwargs_def requires_def own_secrets_def client_class_def Let_def split: if_splits)
    show ?thesis
    proof (cases "get_llm pk cfg")
      case (Inl e)
      then show ?thesis using Inr by (auto simp: get_llm_def Some mc split: if_splits)
    next
      case got: (Inr client)
      then have "client = build pk cls args" "provider cfg = ''mock'' \<or> pkg_installed pk pkg"
        using Inr by (auto simp: get_llm_def Some mc split: if_splits)
      then show ?thesis using got ne sec Some mc by auto
    qed
  qed
qed

section \<open>What is accepted but should not be\<close>

definition demo_parsers :: parsers where
  "demo_parsers = \<lparr>parse_int = py_int, parse_float = (\<lambda>s. map_option of_int (py_int s)),
     parse_bool = (\<lambda>s. if s = ''true'' then Some True else if s = ''false'' then Some False else None)\<rparr>"

definition raw_of :: "(string \<times> string) list \<Rightarrow> raw_settings" where
  "raw_of xs = map_of xs"

text \<open>The lock of a session lives for \<open>SESSION_LOCK_TTL_SECONDS\<close>, which must exceed the longest
  run according to its description; nothing compares the two. Ten seconds are accepted beside a
  stream of two minutes, and then a second run of the session is let in beside the first.\<close>

lemma short_lock_accepted:
  "map_sum id (\<lambda>s. (session_registry_backend s, session_lock_ttl_seconds s, stream_timeout_seconds s))
     (load_settings demo_parsers (raw_of [(''session_registry_backend'', ''redis''), (''session_lock_ttl_seconds'', ''10'')]))
   = Inr (''redis'', 10, 120)"
  by code_simp

lemma expired_lock_lets_in:
  assumes "redis_up e'" and "clock e + ttl \<le> clock e'" and "fst (redis_try_acquire ttl w e sid)" and "redis_up e"
  shows "fst (redis_try_acquire ttl (snd (redis_try_acquire ttl w e sid)) e' sid)"
  using assms by (auto simp: redis_try_acquire_def lock_of_def split: if_splits option.splits)

text \<open>\<open>FORWARDED_ALLOW_IPS\<close> is documented as required when proxy headers are trusted.\<close>

lemma proxy_without_peers_accepted:
  "map_sum id (\<lambda>s. (trust_proxy_headers s, forwarded_allow_ips s))
     (load_settings demo_parsers (raw_of [(''trust_proxy_headers'', ''true'')])) = Inr (True, [])"
  by code_simp

text \<open>The validator checks the address of the HTTP connector and the flag of the RAG connector,
  but not the credentials of the other two: such settings load, and start-up then fails.\<close>

lemma connector_credentials_unchecked:
  "map_sum id (\<lambda>s. resolve_connector n (connectors s))
     (load_settings demo_parsers (raw_of [(''connector_enabled'', ''true''), (''connector_id'', ''sharepoint'')])) = Inr (Inl ValueError)"
proof -
  let ?raw = "raw_of [(''connector_enabled'', ''true''), (''connector_id'', ''sharepoint'')]"
  have c: "map_sum id connectors (load_settings demo_parsers ?raw) = Inr
     \<lparr>connector_enabled = True, connector_id = ''sharepoint'', connector_http_url = None,
      connector_http_max_response_bytes = 1048576, connector_http_max_redirects = 5,
      connector_sharepoint_tenant_id = None, connector_sharepoint_client_id = None, connector_sharepoint_client_secret = None,
      connector_gdrive_access_token = None, connector_gdrive_drive_id = None\<rparr>"
    by code_simp
  then obtain s where s: "load_settings demo_parsers ?raw = Inr s" by (cases "load_settings demo_parsers ?raw") auto
  with c show ?thesis by (simp add: resolve_connector_def create_connector_def BUILTIN_CONNECTORS_def or_empty_def)
qed

text \<open>A run of the research agent takes at least three steps; \<open>MAX_STEP_COUNT\<close> may be one or two,
  and then no run ever gives a result.\<close>

lemma two_steps_accepted:
  "map_sum id max_step_count (load_settings demo_parsers (raw_of [(''max_step_count'', ''2'')])) = Inr 2"
  by code_simp

lemma two_steps_starve_research:
  assumes "agent_env.max_step_count env \<le> 2"
  shows "\<exists>e. research_execute env q = Inl e"
proof (cases "research_execute env q")
  case (Inr st)
  then obtain q' where g: "research_graph env (make_initial_state env q') = Inr st"
    by (auto simp: research_execute_def invoke_graph_Inr rbind_Inr_iff split: if_splits)
  have "0 < max 1 (agent_env.max_research_iterations env)" by simp
  with graph_steps [OF g] assms show ?thesis by (auto simp: make_initial_state_def)
qed blast

section \<open>Examples\<close>

definition prod_raw :: raw_settings where
  "prod_raw = raw_of [(''environment'', ''production''), (''api_keys'', ''k1, k2''), (''max_tokens'', ''100'')]"

lemma prod_loads: "map_sum id (\<lambda>s. (environment s, settings_api_keys s, max_tokens (llm s))) (load_settings demo_parsers prod_raw)
    = Inr (''production'', [''k1'', ''k2''], 100)"
  by code_simp

lemma prod_settings: "\<exists>s. load_settings demo_parsers prod_raw = Inr s \<and> environment s = ''production'' \<and> settings_api_keys s = [''k1'', ''k2'']"
  using prod_loads by (cases "load_settings demo_parsers prod_raw") auto

theorem accepted_settings_ok_witness:
  "\<exists>s. load_settings demo_parsers prod_raw = Inr s \<and> llm_ok (llm s) \<and> limits_ok s"
proof -
  obtain s where "load_settings demo_parsers prod_raw = Inr s" using prod_settings by blast
  with accepted_settings_ok [OF this] show ?thesis by blast
qed

theorem production_authenticated_witness:
  "\<exists>s. load_settings demo_parsers prod_raw = Inr s
    \<and> app_stack (gateway_of demo_cfg s) no_cors ok_routes (demo_request ''POST'' Map.empty) demo_world
      = app_stack (gateway_of demo_cfg s) no_cors (\<lambda>r w. (Inl RuntimeError, w)) (demo_request ''POST'' Map.empty) demo_world"
proof -
  obtain s where s: "load_settings demo_parsers prod_raw = Inr s" "environment s = ''production''" "settings_api_keys s = [''k1'', ''k2'']"
    using prod_settings by blast
  have "rq_path (demo_request ''POST'' Map.empty) \<notin> set AUTH_EXEMPT_PATHS"
    "presented_token (demo_request ''POST'' Map.empty) \<notin> {''k1'', ''k2''}" by code_simp+
  then show ?thesis
    using production_authenticated [OF s(1,2), where r = "demo_request ''POST'' Map.empty" and cfg = demo_cfg and cors = no_cors
        and cors' = no_cors and routes = ok_routes and routes' = "\<lambda>r w. (Inl RuntimeError, w)" and w = demo_world] s
    by simp
qed

end
