(* ===== verification/Lifespan.thy ===== *)
theory Lifespan
  imports Config RateLimit Sessions PackRegistry
begin

text \<open>
  The life of a server process: start-up and shutdown (\<open>api/lifespan.py\<close>), the shared state they fill
  (\<open>api/state.py\<close>), the probes that read it (\<open>api/endpoints/health.py\<close>), the endpoints over the
  pack registry (\<open>api/endpoints/packs.py\<close>) and the vector store factory (\<open>core/vectorstore.py\<close>).
  Tracing, log lines and the gauge of the drain have no effect here. What constructors of stores
  and clients raise, and whether the review database can be closed, is the platform's.
\<close>

section \<open>The shared state\<close>

record pack_router =
  rt_path :: string
  rt_class :: pack_class
  rt_schemas :: "schema_attr \<times> schema_attr"

datatype review_choice = MemoryReviews | SqliteReviews string

record 'c server =
  st_rate_limiter :: "limiter_backend option"
  st_session_registry :: "registry_choice option"
  st_review_store :: "(review_choice \<times> nat) option"       \<comment> \<open>and how often it was closed\<close>
  st_executor :: "(int \<times> nat) option"                       \<comment> \<open>workers, and how often it was shut down\<close>
  st_shared_llm :: "'c option"
  st_shared_checkpointer :: "checkpointer option"
  st_cms :: cm_state
  st_active_pack_cls :: "pack_class option"
  st_shared_connector :: "connector option"
  st_registry :: registry
  st_routes :: "pack_router list"
  st_shared_memory :: "(history_backend \<times> nat) option"     \<comment> \<open>and how often it was closed\<close>
  st_shutting_down :: bool

record 'c platform =
  packages :: "'c llm_packages"
  rt :: runtime
  network :: net
  entry_points :: "entry_point list"
  redis_client :: "string \<Rightarrow> exn option" \<comment> \<open>importing \<open>redis\<close> and \<open>Redis.from_url\<close>\<close>
  builds :: "history_backend \<Rightarrow> exn option" \<comment> \<open>the constructor of the store\<close>
  opens :: "string \<Rightarrow> exn option"        \<comment> \<open>opening the review database\<close>
  closes :: "string \<Rightarrow> exn option"       \<comment> \<open>closing it\<close>
  random :: "nat \<Rightarrow> rat"                   \<comment> \<open>the numbers \<open>random.choices\<close> draws\<close>

definition DEFAULT_LIMIT :: "int \<times> rat" where "DEFAULT_LIMIT = (60, 60)"

type_synonym 'c step = "'c server \<Rightarrow> exn option \<times> 'c server"

fun run_steps :: "('s \<Rightarrow> exn option \<times> 's) list \<Rightarrow> 's \<Rightarrow> exn option \<times> 's" where
  "run_steps [] s = (None, s)"
| "run_steps (f # fs) s = (case f s of (Some e, s') \<Rightarrow> (Some e, s') | (None, s') \<Rightarrow> run_steps fs s')"

section \<open>Start-up\<close>

definition create_review_store :: "'c platform \<Rightarrow> string \<Rightarrow> string \<Rightarrow> review_choice result" where
  "create_review_store pf backend path =
     (if backend = ''sqlite'' then (case opens pf path of Some e \<Rightarrow> Inl e | None \<Rightarrow> Inr (SqliteReviews path))
      else Inr MemoryReviews)"

definition init_rate_limiter :: "'c platform \<Rightarrow> settings \<Rightarrow> 'c step" where
  "init_rate_limiter pf s st =
     (if st_rate_limiter st \<noteq> None then (None, st)
      else (case create_rate_limiter (redis_client pf) (rate_limit_backend s) (redis_url (memory s))
                   (fst DEFAULT_LIMIT) (snd DEFAULT_LIMIT) of
              Inl e \<Rightarrow> (Some e, st) | Inr rl \<Rightarrow> (None, st\<lparr>st_rate_limiter := Some rl\<rparr>)))"

definition init_session_registry :: "'c platform \<Rightarrow> settings \<Rightarrow> 'c step" where
  "init_session_registry pf s st =
     (if st_session_registry st \<noteq> None then (None, st)
      else (case create_session_registry (redis_client pf) (session_registry_backend s)
                   (redis_url (memory s)) (of_int (session_lock_ttl_seconds s)) of
              Inl e \<Rightarrow> (Some e, st) | Inr sr \<Rightarrow> (None, st\<lparr>st_session_registry := Some sr\<rparr>)))"

definition init_review_store :: "'c platform \<Rightarrow> settings \<Rightarrow> 'c step" where
  "init_review_store pf s st =
     (if st_review_store st \<noteq> None then (None, st)
      else (case create_review_store pf (review_store_backend s) (review_store_path s) of
              Inl e \<Rightarrow> (Some e, st) | Inr r \<Rightarrow> (None, st\<lparr>st_review_store := Some (r, 0)\<rparr>)))"

definition check_backends :: "settings \<Rightarrow> 'c step" where
  "check_backends s st =
     (if memory_backend (memory s) = POSTGRES \<and> or_empty (postgres_url (memory s)) = [] then (Some RuntimeError, st)
      else if memory_backend (memory s) = REDIS \<and> redis_url (memory s) = [] then (Some RuntimeError, st)
      else (None, st))"

definition start_executor :: "settings \<Rightarrow> 'c step" where
  "start_executor s st = (None, st\<lparr>st_executor := Some (thread_pool_max_workers s, 0)\<rparr>)"

definition env_runtime :: "'c platform \<Rightarrow> settings \<Rightarrow> runtime" where
  "env_runtime pf s = (rt pf)\<lparr>runtime.environment := environment s\<rparr>"

definition init_llm_and_checkpointer :: "'c platform \<Rightarrow> settings \<Rightarrow> 'c step" where
  "init_llm_and_checkpointer pf s st =
     (let failed = (\<lambda>e st'. if e \<in> {ImportError, ValueError}
            then (None, st'\<lparr>st_shared_llm := None, st_shared_checkpointer := None\<rparr>) else (Some e, st'))
      in case get_llm (packages pf) (llm_config_of s) of
           Inl e \<Rightarrow> failed e st
         | Inr c \<Rightarrow>
             (case init_checkpointer (env_runtime pf s) (memory s) (st_cms st) of
                (Inl e, cms) \<Rightarrow> failed e (st\<lparr>st_shared_llm := Some c, st_cms := cms\<rparr>)
              | (Inr cp, cms) \<Rightarrow>
                  (None, st\<lparr>st_shared_llm := Some c, st_shared_checkpointer := Some cp, st_cms := cms\<rparr>)))"

definition registry_get :: "rat \<Rightarrow> string \<Rightarrow> registry \<Rightarrow> pack_class result" where
  \<comment> \<open>\<open>PackRegistry.get(pack_id)\<close>: no affinity, so no digest\<close>
  "registry_get rnd pid reg = get_pack (\<lambda>_. 0) rnd pid None None reg"

definition resolve_default_pack :: "'c platform \<Rightarrow> settings \<Rightarrow> 'c step" where
  "resolve_default_pack pf s st =
     (case registry_get (random pf 0) (default_pack_id s) (st_registry st) of
        Inr c \<Rightarrow> (None, st\<lparr>st_active_pack_cls := Some c\<rparr>)
      | Inl KeyError \<Rightarrow> (Some RuntimeError, st)
      | Inl e \<Rightarrow> (Some e, st))"

definition load_plugins :: "'c platform \<Rightarrow> settings \<Rightarrow> 'c step" where
  "load_plugins pf s st =
     (case register_plugin_packs (pack_plugins_enabled s) (resolved_pack_plugins_allowlist s) (entry_points pf) (st_registry st) of
        Inl e \<Rightarrow> (Some e, st) | Inr (ids, reg) \<Rightarrow> (None, st\<lparr>st_registry := reg\<rparr>))"

definition wire_connector :: "'c platform \<Rightarrow> settings \<Rightarrow> 'c step" where
  "wire_connector pf s st =
     (case resolve_connector (network pf) (connectors s) of
        Inl e \<Rightarrow> (Some e, st) | Inr c \<Rightarrow> (None, st\<lparr>st_shared_connector := c\<rparr>))"

fun cut_params :: "string \<Rightarrow> string" where
  \<comment> \<open>\<open>path.split("/{")[0]\<close>\<close>
  "cut_params [] = []"
| "cut_params (c # s) = (if startswith ''/{'' (c # s) then [] else c # cut_params s)"

definition run_path :: "string \<Rightarrow> string" where
  "run_path pid = ''/packs/'' @ pid @ ''/run''"

definition get_schemas :: "rat \<Rightarrow> string \<Rightarrow> registry \<Rightarrow> (schema_attr \<times> schema_attr) result" where
  "get_schemas rnd pid reg =
     rbind (registry_get rnd pid reg) (\<lambda>c.
       if pc_input c = NoSchema \<or> pc_output c = NoSchema then Inl OtherError else Inr (pc_input c, pc_output c))"

fun wire_routers ::
  "(nat \<Rightarrow> rat) \<Rightarrow> nat \<Rightarrow> string list \<Rightarrow> registry \<Rightarrow> string list \<Rightarrow> pack_router list \<Rightarrow> exn option \<times> pack_router list" where
  \<comment> \<open>class and schemas are looked up one after the other\<close>
  "wire_routers rnd i existing reg [] routes = (None, routes)"
| "wire_routers rnd i existing reg (pid # pids) routes =
     (if run_path pid \<in> set existing then wire_routers rnd i existing reg pids routes
      else (case rbind (registry_get (rnd i) pid reg) (\<lambda>c.
              rbind (get_schemas (rnd (i + 1)) pid reg) (\<lambda>schemas.
                Inr \<lparr>rt_path = run_path pid, rt_class = c, rt_schemas = schemas\<rparr>)) of
              Inl e \<Rightarrow> (Some e, routes)
            | Inr r \<Rightarrow> wire_routers rnd (i + 2) existing reg pids (routes @ [r])))"

definition include_pack_routers :: "'c platform \<Rightarrow> 'c step" where
  "include_pack_routers pf st =
     (case wire_routers (random pf) 1 (map (cut_params \<circ> rt_path) (st_routes st)) (st_registry st)
             (list_packs (st_registry st)) (st_routes st) of
        (err, routes) \<Rightarrow> (err, st\<lparr>st_routes := routes\<rparr>))"

definition open_memory :: "'c platform \<Rightarrow> settings \<Rightarrow> 'c step" where
  "open_memory pf s st =
     (case create_run_history (builds pf) (memory s) of
        Inl e \<Rightarrow> (Some e, st) | Inr h \<Rightarrow> (None, st\<lparr>st_shared_memory := Some (h, 0)\<rparr>))"

definition go_live :: "'c step" where
  "go_live st = (None, st\<lparr>st_shutting_down := False\<rparr>)"

definition startup :: "'c platform \<Rightarrow> settings \<Rightarrow> 'c step" where
  "startup pf s = run_steps
     [init_rate_limiter pf s, init_session_registry pf s, init_review_store pf s, check_backends s, start_executor s,
      init_llm_and_checkpointer pf s, resolve_default_pack pf s, load_plugins pf s, wire_connector pf s,
      include_pack_routers pf, open_memory pf s, go_live]"

section \<open>Shutdown\<close>

definition begin_drain :: "'c step" where
  "begin_drain st = (None, st\<lparr>st_shutting_down := True\<rparr>)"

definition stop_executor :: "'c step" where
  "stop_executor st = (None, st\<lparr>st_executor := map_option (apsnd Suc) (st_executor st)\<rparr>)"

definition close_checkpointer :: "'c step" where
  \<comment> \<open>an \<open>Exception\<close> of the context manager is logged\<close>
  "close_checkpointer st = (None, st\<lparr>st_cms := cleanup_checkpointer_async (st_cms st)\<rparr>)"

definition close_memory :: "'c step" where
  \<comment> \<open>each of the stores' \<open>close\<close> logs an \<open>Exception\<close>\<close>
  "close_memory st = (None, st\<lparr>st_shared_memory := map_option (apsnd Suc) (st_shared_memory st)\<rparr>)"

definition close_review_store :: "'c platform \<Rightarrow> 'c step" where
  "close_review_store pf st =
     (case st_review_store st of Some (SqliteReviews path, n) \<Rightarrow> closes pf path | _ \<Rightarrow> None,
      st\<lparr>st_review_store := map_option (apsnd Suc) (st_review_store st)\<rparr>)"

definition shutdown_steps :: "'c platform \<Rightarrow> 'c step list" where
  "shutdown_steps pf = [begin_drain, stop_executor, close_checkpointer, close_memory, close_review_store pf]"

definition shutdown :: "'c platform \<Rightarrow> 'c step" where
  "shutdown pf = run_steps (shutdown_steps pf)"

section \<open>The shared accessors and the probes\<close>

definition get_shared_llm :: "'c llm_packages \<Rightarrow> settings \<Rightarrow> 'c server \<Rightarrow> 'c option \<times> 'c server" where
  \<comment> \<open>tries again while there is none; the factory's errors are the ones it catches\<close>
  "get_shared_llm pk s st =
     (case st_shared_llm st of
        Some c \<Rightarrow> (Some c, st)
      | None \<Rightarrow>
          (case get_llm pk (llm_config_of s) of
             Inl e \<Rightarrow> (None, st) | Inr c \<Rightarrow> (Some c, st\<lparr>st_shared_llm := Some c\<rparr>)))"

definition ready :: "'c llm_packages \<Rightarrow> settings \<Rightarrow> 'c server \<Rightarrow> unit result \<times> 'c server" where
  "ready pk s st =
     (if st_shutting_down st then (Inl (HTTPException 503), st)
      else (case get_shared_llm pk s st of (l, st') \<Rightarrow>
        if l = None \<or> st_shared_checkpointer st' = None then (Inl (HTTPException 503), st') else (Inr (), st')))"

definition check_checkpointer_health :: "settings \<Rightarrow> (string \<Rightarrow> bool) \<Rightarrow> bool" where
  \<comment> \<open>\<open>reach\<close>: the server at the address answers\<close>
  "check_checkpointer_health s reach =
     (if memory_backend (memory s) = REDIS \<and> redis_url (memory s) \<noteq> [] then reach (redis_url (memory s))
      else if memory_backend (memory s) = POSTGRES \<and> or_empty (postgres_url (memory s)) \<noteq> []
        then reach (or_empty (postgres_url (memory s)))
      else True)"

definition health :: "settings \<Rightarrow> (string \<Rightarrow> bool) \<Rightarrow> bool \<Rightarrow> 'c server \<Rightarrow> (string \<times> bool) list \<times> bool" where
  \<comment> \<open>each component's state, \<open>True\<close> for \<open>ok\<close>, and the overall one; \<open>mem_ok\<close>: the store's own check\<close>
  "health s reach mem_ok st =
     (let components = [(''llm'', st_shared_llm st \<noteq> None), (''memory'', st_shared_memory st \<noteq> None \<and> mem_ok),
            (''checkpointer'', st_shared_checkpointer st \<noteq> None \<and> check_checkpointer_health s reach)]
      in (components, list_all snd components))"

datatype root_answer = Redirect string | Hints "(string \<times> string) list"

definition root :: "settings \<Rightarrow> root_answer" where
  "root s = (if environment s = ''production''
     then Hints [(''service'', ''langgraph-agent-stack''), (''health'', ''/health''), (''ready'', ''/ready''),
                 (''docs'', ''disabled in production'')]
     else Redirect ''/docs'')"

section \<open>The endpoints over the pack registry\<close>

definition list_packs_with_metadata :: "registry \<Rightarrow> (string \<times> string \<times> string \<times> string) list" where
  \<comment> \<open>pack, version, name and description; the JSON schemas are pydantic's\<close>
  "list_packs_with_metadata reg = concat (map (\<lambda>pid. map (\<lambda>pv. (pid, pv_version pv,
       attr_text (pc_name (pv_cls pv)), attr_text (pc_description (pv_cls pv)))) (the (map_of reg pid))) (list_packs reg))"

definition list_pack_versions :: "string \<Rightarrow> registry \<Rightarrow> (string \<times> rat) list result" where
  "list_pack_versions pid reg =
     (case get_versions pid reg of
        Inl e \<Rightarrow> Inl (HTTPException 404) | Inr vs \<Rightarrow> Inr (map (\<lambda>pv. (pv_version pv, pv_weight pv)) vs))"

definition float_overflow :: "int \<Rightarrow> bool" where
  \<comment> \<open>\<open>float(i)\<close> raises \<open>OverflowError\<close>\<close>
  "float_overflow i \<longleftrightarrow> 2 ^ 1024 - 2 ^ 970 \<le> \<bar>i\<bar>"

definition weight_of_body :: "pydict \<Rightarrow> rat result" where
  \<comment> \<open>a \<open>bool\<close> is an \<open>int\<close>\<close>
  "weight_of_body body =
     (case dget body ''weight'' of
        VBool b \<Rightarrow> Inr (if b then 1 else 0)
      | VInt i \<Rightarrow> if float_overflow i then Inl OverflowError else Inr (of_int i)
      | VFloat x \<Rightarrow> Inr x
      | _ \<Rightarrow> Inl (HTTPException 422))"

definition update_pack_version_weight :: "string \<Rightarrow> string \<Rightarrow> pydict \<Rightarrow> registry \<Rightarrow> rat result \<times> registry" where
  "update_pack_version_weight pid v body reg =
     (case weight_of_body body of
        Inl e \<Rightarrow> (Inl e, reg)
      | Inr w \<Rightarrow>
          (case set_weights pid [(v, w)] reg of
             (None, reg') \<Rightarrow> (Inr w, reg')
           | (Some KeyError, reg') \<Rightarrow> (Inl (HTTPException 404), reg')
           | (Some ValueError, reg') \<Rightarrow> (Inl (HTTPException 422), reg')
           | (Some e, reg') \<Rightarrow> (Inl e, reg')))"

section \<open>The vector store\<close>

datatype vectorstore = Chroma string | PGVector string string

definition get_chromadb :: "(string \<Rightarrow> bool) \<Rightarrow> vectorstore result" where
  "get_chromadb inst = (if inst ''langchain_chroma'' then Inr (Chroma ''langgraph_rag'') else Inl ImportError)"

definition get_pgvector :: "(string \<Rightarrow> bool) \<Rightarrow> settings \<Rightarrow> vectorstore result" where
  "get_pgvector inst s =
     (if or_empty (postgres_url (memory s)) = [] then Inl RuntimeError
      else if inst ''langchain_community.vectorstores'' then Inr (PGVector ''langgraph_rag'' (or_empty (postgres_url (memory s))))
      else Inl ImportError)"

definition get_vectorstore :: "(string \<Rightarrow> bool) \<Rightarrow> settings \<Rightarrow> vectorstore result" where
  "get_vectorstore inst s =
     (if \<not> rag_enabled s then Inl RuntimeError
      else if memory_backend (memory s) = POSTGRES then get_pgvector inst s
      else get_chromadb inst)"

section \<open>What start-up does\<close>

text \<open>What the settings configure, and what keeps it from being built.\<close>

definition configured_limiter :: "settings \<Rightarrow> limiter_backend" where
  "configured_limiter s =
     (if rate_limit_backend s = ''redis''
      then RedisLimiter (redis_url (memory s)) \<lparr>rl_max = 60, rl_window = 60, zsets = (\<lambda>_. None)\<rparr>
      else InMemoryLimiter \<lparr>max_requests = 60, window_seconds = 60, buckets = (\<lambda>_. None), call_count = 0\<rparr>)"

definition configured_sessions :: "settings \<Rightarrow> registry_choice" where
  "configured_sessions s =
     (if session_registry_backend s = ''redis''
      then RedisRegistry (redis_url (memory s)) (of_int (session_lock_ttl_seconds s)) else MemoryRegistry)"

definition configured_reviews :: "settings \<Rightarrow> review_choice" where
  "configured_reviews s =
     (if review_store_backend s = ''sqlite'' then SqliteReviews (review_store_path s) else MemoryReviews)"

definition or_new :: "'a option \<Rightarrow> 'a \<Rightarrow> 'a option" where
  "or_new v new = (case v of None \<Rightarrow> Some new | Some x \<Rightarrow> Some x)"

lemma or_new_simps [simp]: "or_new None new = Some new" "or_new (Some x) new = Some x"
  by (simp_all add: or_new_def)

definition limiter_blocked :: "'c platform \<Rightarrow> settings \<Rightarrow> 'c server \<Rightarrow> bool" where
  "limiter_blocked pf s st \<longleftrightarrow>
     st_rate_limiter st = None \<and> rate_limit_backend s = ''redis'' \<and> redis_client pf (redis_url (memory s)) \<noteq> None"

definition sessions_blocked :: "'c platform \<Rightarrow> settings \<Rightarrow> 'c server \<Rightarrow> bool" where
  "sessions_blocked pf s st \<longleftrightarrow>
     st_session_registry st = None \<and> session_registry_backend s = ''redis'' \<and> redis_client pf (redis_url (memory s)) \<noteq> None"

definition reviews_blocked :: "'c platform \<Rightarrow> settings \<Rightarrow> 'c server \<Rightarrow> bool" where
  "reviews_blocked pf s st \<longleftrightarrow>
     st_review_store st = None \<and> review_store_backend s = ''sqlite'' \<and> opens pf (review_store_path s) \<noteq> None"

definition stores_blocked :: "'c platform \<Rightarrow> settings \<Rightarrow> 'c server \<Rightarrow> bool" where
  "stores_blocked pf s st \<longleftrightarrow> limiter_blocked pf s st \<or> sessions_blocked pf s st \<or> reviews_blocked pf s st"

definition with_stores :: "settings \<Rightarrow> 'c server \<Rightarrow> 'c server" where
  "with_stores s st = st\<lparr>st_rate_limiter := or_new (st_rate_limiter st) (configured_limiter s),
     st_session_registry := or_new (st_session_registry st) (configured_sessions s),
     st_review_store := or_new (st_review_store st) (configured_reviews s, 0)\<rparr>"

lemma redis_url_given: "load_settings p raw = Inr s \<Longrightarrow> redis_url (memory s) \<noteq> []"
proof -
  assume "load_settings p raw = Inr s"
  note f = load_settings_fields [OF this]
  then have "redis_url_scheme (redis_url (memory s))" using load_memory_ok by blast
  then show ?thesis by (auto simp: redis_url_scheme_def startswith_def)
qed

lemma init_stores_eq:
  assumes "redis_url (memory s) \<noteq> []"
  shows "init_rate_limiter pf s st = (if limiter_blocked pf s st then (redis_client pf (redis_url (memory s)), st)
      else (None, st\<lparr>st_rate_limiter := or_new (st_rate_limiter st) (configured_limiter s)\<rparr>))"
    and "init_session_registry pf s st = (if sessions_blocked pf s st then (redis_client pf (redis_url (memory s)), st)
      else (None, st\<lparr>st_session_registry := or_new (st_session_registry st) (configured_sessions s)\<rparr>))"
    and "init_review_store pf s st = (if reviews_blocked pf s st then (opens pf (review_store_path s), st)
      else (None, st\<lparr>st_review_store := or_new (st_review_store st) (configured_reviews s, 0)\<rparr>))"
proof -
  show "init_rate_limiter pf s st = (if limiter_blocked pf s st then (redis_client pf (redis_url (memory s)), st)
      else (None, st\<lparr>st_rate_limiter := or_new (st_rate_limiter st) (configured_limiter s)\<rparr>))"
    using assms by (cases "st_rate_limiter st")
      (simp_all add: init_rate_limiter_def create_rate_limiter_def rate_limiter_init_def redis_limiter_init_def DEFAULT_LIMIT_def
        configured_limiter_def limiter_blocked_def split: option.split)
  show "init_session_registry pf s st = (if sessions_blocked pf s st then (redis_client pf (redis_url (memory s)), st)
      else (None, st\<lparr>st_session_registry := or_new (st_session_registry st) (configured_sessions s)\<rparr>))"
    using assms by (cases "st_session_registry st")
      (simp_all add: init_session_registry_def create_session_registry_def configured_sessions_def sessions_blocked_def
        split: option.split)
  show "init_review_store pf s st = (if reviews_blocked pf s st then (opens pf (review_store_path s), st)
      else (None, st\<lparr>st_review_store := or_new (st_review_store st) (configured_reviews s, 0)\<rparr>))"
    by (cases "st_review_store st")
      (simp_all add: init_review_store_def create_review_store_def configured_reviews_def reviews_blocked_def split: option.split)
qed

lemma start_stores:
  assumes "redis_url (memory s) \<noteq> []"
  shows "\<not> stores_blocked pf s st \<Longrightarrow>
      run_steps (init_rate_limiter pf s # init_session_registry pf s # init_review_store pf s # fs) st
        = run_steps fs (with_stores s st)"
    and "stores_blocked pf s st \<Longrightarrow>
      \<exists>e st'. run_steps (init_rate_limiter pf s # init_session_registry pf s # init_review_store pf s # fs) st = (Some e, st')"
proof -
  have frames: "sessions_blocked pf s (st\<lparr>st_rate_limiter := x\<rparr>) = sessions_blocked pf s st"
      "reviews_blocked pf s (st\<lparr>st_rate_limiter := x, st_session_registry := y\<rparr>) = reviews_blocked pf s st" for x y
    by (simp_all add: sessions_blocked_def reviews_blocked_def)
  have raises: "limiter_blocked pf s st \<or> sessions_blocked pf s st \<Longrightarrow> \<exists>e. redis_client pf (redis_url (memory s)) = Some e"
      "reviews_blocked pf s st \<Longrightarrow> \<exists>e. opens pf (review_store_path s) = Some e"
    by (auto simp: limiter_blocked_def sessions_blocked_def reviews_blocked_def)
  note eqs = init_stores_eq [OF assms] frames
  show "\<not> stores_blocked pf s st \<Longrightarrow>
      run_steps (init_rate_limiter pf s # init_session_registry pf s # init_review_store pf s # fs) st
        = run_steps fs (with_stores s st)"
    by (simp add: stores_blocked_def eqs with_stores_def)
  show "stores_blocked pf s st \<Longrightarrow>
      \<exists>e st'. run_steps (init_rate_limiter pf s # init_session_registry pf s # init_review_store pf s # fs) st = (Some e, st')"
    using raises
    by (cases "limiter_blocked pf s st"; cases "sessions_blocked pf s st"; cases "reviews_blocked pf s st")
      (auto simp: stores_blocked_def eqs)
qed

lemma wire_routers_None:
  "wire_routers rnd i existing reg pids rs = (None, rs') \<Longrightarrow>
     set rs \<subseteq> set rs' \<and> (\<forall>pid\<in>set pids. run_path pid \<in> set existing \<or> run_path pid \<in> rt_path ` set rs')"
proof (induction rnd i existing reg pids rs rule: wire_routers.induct)
  case (2 rnd i existing reg pid pids routes)
  then show ?case
  proof (cases "run_path pid \<in> set existing")
    case False
    let ?lookup = "rbind (registry_get (rnd i) pid reg) (\<lambda>c. rbind (get_schemas (rnd (i + 1)) pid reg) (\<lambda>schemas.
      Inr \<lparr>rt_path = run_path pid, rt_class = c, rt_schemas = schemas\<rparr>))"
    show ?thesis
    proof (cases ?lookup)
      case (Inr r)
      have "rt_path r = run_path pid" using Inr by (auto simp: rbind_Inr_iff)
      moreover have "wire_routers rnd (i + 2) existing reg pids (routes @ [r]) = (None, rs')"
        using "2.prems" False Inr by simp
      ultimately show ?thesis using "2.IH"(2) [OF False Inr] by (auto intro: rev_image_eqI)
    qed (use "2.prems" False in simp)
  qed simp
qed simp

lemma wire_routers_Some:
  "wire_routers rnd i existing reg pids rs = (Some e, rs') \<Longrightarrow>
     \<exists>pid x. pid \<in> set pids \<and> (registry_get x pid reg = Inl e
       \<or> (\<exists>c. registry_get x pid reg = Inr c \<and> (pc_input c = NoSchema \<or> pc_output c = NoSchema)))"
proof (induction rnd i existing reg pids rs rule: wire_routers.induct)
  case (2 rnd i existing reg pid pids routes)
  show ?case
  proof (cases "run_path pid \<in> set existing \<or> (\<exists>c schemas. registry_get (rnd i) pid reg = Inr c \<and> get_schemas (rnd (i + 1)) pid reg = Inr schemas)")
    case True
    then have "\<exists>pid x. pid \<in> set pids \<and> (registry_get x pid reg = Inl e
       \<or> (\<exists>c. registry_get x pid reg = Inr c \<and> (pc_input c = NoSchema \<or> pc_output c = NoSchema)))"
      using 2 by (auto split: if_splits)
    then show ?thesis by (meson list.set_intros(2))
  next
    case False
    then show ?thesis using "2.prems"
      by (auto simp: get_schemas_def rbind_def split: sum.splits if_splits)
  qed
qed simp

lemma check_backends_eq: "load_settings p raw = Inr s \<Longrightarrow> check_backends s st = (None, st)"
  using load_settings_fields [of p raw s] redis_url_given [of p raw s] by (auto simp: check_backends_def validate_Inr)

definition llm_blocked :: "'c platform \<Rightarrow> settings \<Rightarrow> 'c server \<Rightarrow> bool" where
  "llm_blocked pf s st \<longleftrightarrow> \<not> isl (get_llm (packages pf) (llm_config_of s))
     \<and> (case fst (init_checkpointer (env_runtime pf s) (memory s) (st_cms st)) of
          Inl e \<Rightarrow> e \<notin> {ImportError, ValueError} | Inr cp \<Rightarrow> False)"

definition llm_state :: "'c platform \<Rightarrow> settings \<Rightarrow> 'c server \<Rightarrow> 'c server \<Rightarrow> bool" where
  \<comment> \<open>LLM, checkpointer and context managers as they are to be after a start from \<open>st\<close>\<close>
  "llm_state pf s st st' \<longleftrightarrow>
     (case get_llm (packages pf) (llm_config_of s) of
        Inl e \<Rightarrow> st_shared_llm st' = None \<and> st_shared_checkpointer st' = None \<and> st_cms st' = st_cms st
      | Inr c \<Rightarrow> (case init_checkpointer (env_runtime pf s) (memory s) (st_cms st) of
            (Inl e, cms) \<Rightarrow> e \<in> {ImportError, ValueError}
              \<and> st_shared_llm st' = None \<and> st_shared_checkpointer st' = None \<and> st_cms st' = cms
          | (Inr cp, cms) \<Rightarrow> st_shared_llm st' = Some c \<and> st_shared_checkpointer st' = Some cp \<and> st_cms st' = cms))"

lemma get_llm_Inl: "get_llm pk cfg = Inl e \<Longrightarrow> e \<in> {ImportError, ValueError}"
  by (auto simp: get_llm_def rbind_def split: option.splits if_splits sum.splits dest: client_kwargs_Inl)

lemma init_llm_blocked: "llm_blocked pf s st \<Longrightarrow> \<exists>e st'. init_llm_and_checkpointer pf s st = (Some e, st')"
  by (cases "get_llm (packages pf) (llm_config_of s)"; cases "init_checkpointer (env_runtime pf s) (memory s) (st_cms st)")
    (auto simp: llm_blocked_def init_llm_and_checkpointer_def split: sum.splits)

lemma init_llm_works:
  assumes "\<not> llm_blocked pf s st"
  obtains l cp cms where "init_llm_and_checkpointer pf s st
        = (None, st\<lparr>st_shared_llm := l, st_shared_checkpointer := cp, st_cms := cms\<rparr>)"
    and "llm_state pf s st (st\<lparr>st_shared_llm := l, st_shared_checkpointer := cp, st_cms := cms\<rparr>)"
proof (cases "get_llm (packages pf) (llm_config_of s)")
  case (Inl e)
  then show thesis using that [where l = None and cp = None and cms = "st_cms st"] get_llm_Inl [OF Inl]
    by (simp add: init_llm_and_checkpointer_def llm_state_def)
next
  case (Inr c)
  obtain r cms where r: "init_checkpointer (env_runtime pf s) (memory s) (st_cms st) = (r, cms)"
    by (cases "init_checkpointer (env_runtime pf s) (memory s) (st_cms st)")
  show thesis
  proof (cases r)
    case (Inl e)
    then have "e \<in> {ImportError, ValueError}" using assms r Inr by (simp add: llm_blocked_def)
    then show thesis using that [where l = None and cp = None and cms = cms] Inl Inr r by (simp add: init_llm_and_checkpointer_def llm_state_def)
  next
    case cp: (Inr cp)
    then show thesis using that [where l = "Some c" and cp = "Some cp" and cms = cms] Inr r by (simp add: init_llm_and_checkpointer_def llm_state_def)
  qed
qed

definition plugin_registry :: "'c platform \<Rightarrow> settings \<Rightarrow> registry \<Rightarrow> registry" where
  "plugin_registry pf s reg =
     (case register_plugin_packs (pack_plugins_enabled s) (resolved_pack_plugins_allowlist s) (entry_points pf) reg of
        Inl e \<Rightarrow> reg | Inr (ids, reg') \<Rightarrow> reg')"

lemma load_plugins_eq:
  "load_plugins pf s st = (None, st\<lparr>st_registry := plugin_registry pf s (st_registry st)\<rparr>)"
  "\<forall>q\<in>fst ` set reg. map_of (plugin_registry pf s reg) q = map_of reg q"
proof -
  have v: "\<forall>c\<in>set (discover_plugin_packs al eps). validate_plugin_pack_class c = Inr c" for al eps
    by (auto simp: discover_plugin_packs_def discover_loop_set)
  have r: "\<exists>ids reg'. register_plugin_packs (pack_plugins_enabled s) (resolved_pack_plugins_allowlist s) (entry_points pf) reg
      = Inr (ids, reg') \<and> (\<forall>q\<in>fst ` set reg. map_of reg' q = map_of reg q)" for reg
  proof (cases "pack_plugins_enabled s \<and> resolved_pack_plugins_allowlist s \<noteq> []")
    case True
    then show ?thesis
      using register_plugins_loop_total [OF v, of "[]" "list_packs reg" "resolved_pack_plugins_allowlist s" "entry_points pf" reg]
      by (auto simp: register_plugin_packs_def list_packs_set)
  next
    case False
    then show ?thesis by (auto simp: register_plugin_packs_def)
  qed
  from r [of "st_registry st"] obtain ids reg' where
    "register_plugin_packs (pack_plugins_enabled s) (resolved_pack_plugins_allowlist s) (entry_points pf) (st_registry st) = Inr (ids, reg')"
    by blast
  then show "load_plugins pf s st = (None, st\<lparr>st_registry := plugin_registry pf s (st_registry st)\<rparr>)"
    by (simp add: load_plugins_def plugin_registry_def)
  from r [of reg] show "\<forall>q\<in>fst ` set reg. map_of (plugin_registry pf s reg) q = map_of reg q"
    by (elim exE conjE) (simp add: plugin_registry_def)
qed

definition unroutable :: "registry \<Rightarrow> string \<Rightarrow> bool" where
  \<comment> \<open>some look-up of the pack gives no class or one without schemas\<close>
  "unroutable reg pid \<longleftrightarrow> (\<exists>x. isl (registry_get x pid reg)
     \<or> (\<exists>c. registry_get x pid reg = Inr c \<and> (pc_input c = NoSchema \<or> pc_output c = NoSchema)))"

definition unrouted :: "'c platform \<Rightarrow> settings \<Rightarrow> 'c server \<Rightarrow> bool" where
  "unrouted pf s st \<longleftrightarrow>
     (let reg = plugin_registry pf s (st_registry st)
      in fst (wire_routers (random pf) 1 (map (cut_params \<circ> rt_path) (st_routes st)) reg (list_packs reg) (st_routes st)) \<noteq> None)"

lemma unrouted_pack:
  assumes "unrouted pf s st"
  shows "\<exists>pid\<in>fst ` set (plugin_registry pf s (st_registry st)). unroutable (plugin_registry pf s (st_registry st)) pid"
proof -
  let ?reg = "plugin_registry pf s (st_registry st)"
  from assms obtain e routes where
    "wire_routers (random pf) 1 (map (cut_params \<circ> rt_path) (st_routes st)) ?reg (list_packs ?reg) (st_routes st) = (Some e, routes)"
    by (metis unrouted_def not_None_eq prod.collapse)
  from wire_routers_Some [OF this] show ?thesis
    unfolding list_packs_set unroutable_def by (metis sum.disc(1))
qed

definition live_server :: "'c platform \<Rightarrow> settings \<Rightarrow> 'c server \<Rightarrow> 'c server \<Rightarrow> bool" where
  \<comment> \<open>the state of a server that started from \<open>st\<close> with settings \<open>s\<close>\<close>
  "live_server pf s st st' \<longleftrightarrow>
     \<not> st_shutting_down st' \<and> st_executor st' = Some (thread_pool_max_workers s, 0)
     \<and> st_rate_limiter st' = or_new (st_rate_limiter st) (configured_limiter s)
     \<and> st_session_registry st' = or_new (st_session_registry st) (configured_sessions s)
     \<and> st_review_store st' = or_new (st_review_store st) (configured_reviews s, 0)
     \<and> (\<exists>h. create_run_history (builds pf) (memory s) = Inr h \<and> st_shared_memory st' = Some (h, 0))
     \<and> (\<exists>c. registry_get (random pf 0) (default_pack_id s) (st_registry st) = Inr c \<and> st_active_pack_cls st' = Some c)
     \<and> resolve_connector (network pf) (connectors s) = Inr (st_shared_connector st')
     \<and> (\<forall>pid\<in>fst ` set (st_registry st'). run_path pid \<in> (cut_params \<circ> rt_path) ` set (st_routes st) \<union> rt_path ` set (st_routes st'))
     \<and> (\<forall>pid\<in>fst ` set (st_registry st). map_of (st_registry st') pid = map_of (st_registry st) pid)
     \<and> llm_state pf s st st'"

definition wiring_blocked :: "'c platform \<Rightarrow> settings \<Rightarrow> 'c server \<Rightarrow> bool" where
  "wiring_blocked pf s st \<longleftrightarrow>
     isl (registry_get (random pf 0) (default_pack_id s) (st_registry st))
     \<or> isl (resolve_connector (network pf) (connectors s))
     \<or> unrouted pf s st
     \<or> isl (create_run_history (builds pf) (memory s))"

definition startup_blocked :: "'c platform \<Rightarrow> settings \<Rightarrow> 'c server \<Rightarrow> bool" where
  \<comment> \<open>what keeps a server with accepted settings from starting\<close>
  "startup_blocked pf s st \<longleftrightarrow> stores_blocked pf s st \<or> llm_blocked pf s st \<or> wiring_blocked pf s st"

abbreviation wiring_steps :: "'c platform \<Rightarrow> settings \<Rightarrow> 'c step list" where
  "wiring_steps pf s \<equiv> [resolve_default_pack pf s, load_plugins pf s, wire_connector pf s, include_pack_routers pf,
     open_memory pf s, go_live]"

lemmas wiring_defs = resolve_default_pack_def load_plugins_eq(1) wire_connector_def include_pack_routers_def
  open_memory_def go_live_def

lemma finish_blocked:
  assumes "wiring_blocked pf s st"
  shows "\<exists>e st'. run_steps (wiring_steps pf s) st = (Some e, st')"
proof (cases "registry_get (random pf 0) (default_pack_id s) (st_registry st)")
  case (Inl e)
  then show ?thesis by (cases "e = KeyError") (auto simp: resolve_default_pack_def split: exn.split)
next
  case c: (Inr c)
  show ?thesis
  proof (cases "resolve_connector (network pf) (connectors s)")
    case (Inl e)
    then show ?thesis using c by (simp add: wiring_defs)
  next
    case con: (Inr con)
    show ?thesis
    proof (cases "unrouted pf s st")
      case True
      then show ?thesis using c con by (auto simp: wiring_defs unrouted_def Let_def split: prod.splits)
    next
      case False
      with assms c con obtain e where "create_run_history (builds pf) (memory s) = Inl e"
        by (auto simp: wiring_blocked_def isl_def)
      then show ?thesis using c con by (auto simp: wiring_defs split: prod.splits option.split)
    qed
  qed
qed

lemma finish_works:
  assumes "\<not> wiring_blocked pf s st"
  obtains c con routes h where "registry_get (random pf 0) (default_pack_id s) (st_registry st) = Inr c"
    and "resolve_connector (network pf) (connectors s) = Inr con"
    and "wire_routers (random pf) 1 (map (cut_params \<circ> rt_path) (st_routes st)) (plugin_registry pf s (st_registry st))
           (list_packs (plugin_registry pf s (st_registry st))) (st_routes st) = (None, routes)"
    and "create_run_history (builds pf) (memory s) = Inr h"
    and "run_steps (wiring_steps pf s) st = (None, st\<lparr>st_active_pack_cls := Some c,
            st_registry := plugin_registry pf s (st_registry st), st_shared_connector := con,
            st_routes := routes, st_shared_memory := Some (h, 0), st_shutting_down := False\<rparr>)"
proof -
  from assms obtain c con h where r: "registry_get (random pf 0) (default_pack_id s) (st_registry st) = Inr c"
      "resolve_connector (network pf) (connectors s) = Inr con" "create_run_history (builds pf) (memory s) = Inr h"
    by (auto simp: wiring_blocked_def split: sum.splits) (metis sum.collapse(2))
  from assms obtain routes where
    w: "wire_routers (random pf) 1 (map (cut_params \<circ> rt_path) (st_routes st)) (plugin_registry pf s (st_registry st))
           (list_packs (plugin_registry pf s (st_registry st))) (st_routes st) = (None, routes)"
    by (metis wiring_blocked_def unrouted_def prod.collapse)
  show thesis by (rule that [OF r(1,2) w r(3)]) (use r w in \<open>simp add: wiring_defs\<close>)
qed

lemma wiring_blocked_cong:
  "st_registry st' = st_registry st \<Longrightarrow> st_routes st' = st_routes st \<Longrightarrow> wiring_blocked pf s st' = wiring_blocked pf s st"
  by (simp add: wiring_blocked_def unrouted_def)

lemma startup_from:
  assumes "load_settings p raw = Inr s" and "\<not> stores_blocked pf s st"
  shows "startup pf s st = run_steps (init_llm_and_checkpointer pf s # wiring_steps pf s)
    ((with_stores s st)\<lparr>st_executor := Some (thread_pool_max_workers s, 0)\<rparr>)"
  unfolding startup_def start_stores(1) [where pf = pf and st = st and s = s, OF redis_url_given [OF assms(1)] assms(2)]
  by (simp add: check_backends_eq [OF assms(1)] start_executor_def)

lemma startup_live:
  assumes "load_settings p raw = Inr s"
  shows "case startup pf s st of
      (None, st') \<Rightarrow> live_server pf s st st' \<and> \<not> startup_blocked pf s st
    | (Some e, st') \<Rightarrow> startup_blocked pf s st"
proof (cases "stores_blocked pf s st")
  case True
  then obtain e st' where "startup pf s st = (Some e, st')"
    using start_stores(2) [OF redis_url_given [OF assms], of pf st] unfolding startup_def by blast
  then show ?thesis using True by (simp add: startup_blocked_def)
next
  case open_stores: False
  let ?s5 = "(with_stores s st)\<lparr>st_executor := Some (thread_pool_max_workers s, 0)\<rparr>"
  note start = startup_from [OF assms open_stores]
  have same: "llm_blocked pf s ?s5 = llm_blocked pf s st" "\<And>st'. llm_state pf s ?s5 st' = llm_state pf s st st'"
    by (simp_all add: llm_blocked_def llm_state_def with_stores_def split: sum.split prod.split)
  show ?thesis
  proof (cases "llm_blocked pf s st")
    case True
    then obtain e st' where "init_llm_and_checkpointer pf s ?s5 = (Some e, st')"
      using init_llm_blocked same(1) by blast
    then show ?thesis using True by (simp add: start startup_blocked_def)
  next
    case False
    then have "\<not> llm_blocked pf s ?s5" using same(1) by simp
    then obtain l cp cms where i: "init_llm_and_checkpointer pf s ?s5
        = (None, ?s5\<lparr>st_shared_llm := l, st_shared_checkpointer := cp, st_cms := cms\<rparr>)"
      and ls: "llm_state pf s st (?s5\<lparr>st_shared_llm := l, st_shared_checkpointer := cp, st_cms := cms\<rparr>)"
      by (rule init_llm_works) (simp add: same(2))
    let ?s6 = "?s5\<lparr>st_shared_llm := l, st_shared_checkpointer := cp, st_cms := cms\<rparr>"
    have frame: "st_registry ?s6 = st_registry st" "st_routes ?s6 = st_routes st" by (simp_all add: with_stores_def)
    note wb = wiring_blocked_cong [OF frame, of pf s]
    show ?thesis
    proof (cases "wiring_blocked pf s st")
      case True
      then obtain e st' where "run_steps (wiring_steps pf s) ?s6 = (Some e, st')"
        using finish_blocked wb by blast
      then show ?thesis using True by (simp add: start i startup_blocked_def)
    next
      case no_wb: False
      then have "\<not> wiring_blocked pf s ?s6" using wb by simp
      then obtain c con routes h where r: "registry_get (random pf 0) (default_pack_id s) (st_registry st) = Inr c"
          "resolve_connector (network pf) (connectors s) = Inr con" "create_run_history (builds pf) (memory s) = Inr h"
        and w: "wire_routers (random pf) 1 (map (cut_params \<circ> rt_path) (st_routes st)) (plugin_registry pf s (st_registry st))
           (list_packs (plugin_registry pf s (st_registry st))) (st_routes st) = (None, routes)"
        and run: "run_steps (wiring_steps pf s) ?s6 = (None, ?s6\<lparr>st_active_pack_cls := Some c,
            st_registry := plugin_registry pf s (st_registry st), st_shared_connector := con,
            st_routes := routes, st_shared_memory := Some (h, 0), st_shutting_down := False\<rparr>)"
        unfolding frame [symmetric] by (rule finish_works)
      have "live_server pf s st (snd (run_steps (wiring_steps pf s) ?s6))"
        using ls r wire_routers_None [OF w] load_plugins_eq(2) [where reg = "st_registry st"]
        unfolding run live_server_def llm_state_def list_packs_set
        by (auto simp: with_stores_def split: sum.splits prod.splits)
      moreover have "startup pf s st = run_steps (wiring_steps pf s) ?s6"
        unfolding start by (subst run_steps.simps(2)) (simp add: i del: run_steps.simps)
      ultimately show ?thesis using no_wb False open_stores run by (simp add: startup_blocked_def del: run_steps.simps)
    qed
  qed
qed


section \<open>From start-up to shutdown\<close>

text \<open>What a live server is asked in between that touches the shared state: readiness probes, runs
  and other requests that want the LLM (\<open>get_shared_llm\<close>), with what is installed at the time,
  and new traffic weights. The answers to the probes are collected.\<close>

datatype 'c event = Probe "'c llm_packages" | Wants_LLM "'c llm_packages" | Set_Weight string string pydict

fun serve :: "settings \<Rightarrow> 'c event \<Rightarrow> 'c server \<Rightarrow> unit result list \<times> 'c server" where
  "serve s (Probe pk) st = (case ready pk s st of (a, st') \<Rightarrow> ([a], st'))"
| "serve s (Wants_LLM pk) st = ([], snd (get_shared_llm pk s st))"
| "serve s (Set_Weight pid v body) st =
     ([], st\<lparr>st_registry := snd (update_pack_version_weight pid v body (st_registry st))\<rparr>)"

fun serve_all :: "settings \<Rightarrow> 'c event list \<Rightarrow> 'c server \<Rightarrow> unit result list \<times> 'c server" where
  "serve_all s [] st = ([], st)"
| "serve_all s (ev # evs) st =
     (case serve s ev st of (as, st1) \<Rightarrow> (case serve_all s evs st1 of (bs, st2) \<Rightarrow> (as @ bs, st2)))"

definition same_handles :: "'c server \<Rightarrow> 'c server \<Rightarrow> bool" where
  \<comment> \<open>all that start-up opened is where it was\<close>
  "same_handles st st' \<longleftrightarrow> st_shared_checkpointer st' = st_shared_checkpointer st
     \<and> st_shutting_down st' = st_shutting_down st \<and> st_executor st' = st_executor st
     \<and> st_shared_memory st' = st_shared_memory st \<and> st_review_store st' = st_review_store st
     \<and> st_cms st' = st_cms st \<and> (st_shared_llm st \<noteq> None \<longrightarrow> st_shared_llm st' = st_shared_llm st)"

lemma get_shared_llm_frame: "same_handles st (snd (get_shared_llm pk s st))"
  by (auto simp: get_shared_llm_def same_handles_def split: option.splits sum.splits)

lemma ready_frame: "same_handles st (snd (ready pk s st))"
  using get_shared_llm_frame [of st pk s] by (simp add: ready_def split_beta) (simp add: same_handles_def)

lemma serve_frame: "same_handles st (snd (serve s ev st))"
proof (cases ev)
  case (Set_Weight pid v body)
  then show ?thesis by (simp add: same_handles_def)
qed (simp_all add: split_beta ready_frame get_shared_llm_frame)

lemma serve_all_frame: "same_handles st (snd (serve_all s evs st))"
proof (induction evs arbitrary: st)
  case (Cons ev evs)
  then show ?case using serve_frame [of st s ev] Cons.IH [of "snd (serve s ev st)"]
    by (auto simp: same_handles_def split_beta)
qed (simp add: same_handles_def)

lemma answers_constant:
  assumes "\<And>pk st'. same_handles st st' \<Longrightarrow> fst (ready pk s st') = a"
  shows "set (fst (serve_all s evs st)) \<subseteq> {a}"
  using assms
proof (induction evs arbitrary: st)
  case (Cons ev evs)
  have "set (fst (serve s ev st)) \<subseteq> {a}"
    using Cons.prems [of st] by (cases ev) (auto simp: split_beta same_handles_def)
  moreover have "set (fst (serve_all s evs (snd (serve s ev st)))) \<subseteq> {a}"
    by (rule Cons.IH, rule Cons.prems) (use serve_frame [of st s ev] in \<open>auto simp: same_handles_def\<close>)
  ultimately show ?case by (simp add: split_beta)
qed simp

lemma ready_never:
  "st_shutting_down st \<or> st_shared_checkpointer st = None \<Longrightarrow> fst (ready pk s st) = Inl (HTTPException 503)"
  by (auto simp: ready_def get_shared_llm_def split: option.split sum.split)

lemma ready_always:
  "\<not> st_shutting_down st \<Longrightarrow> st_shared_checkpointer st = Some cp \<Longrightarrow> st_shared_llm st = Some c \<Longrightarrow> fst (ready pk s st) = Inr ()"
  by (simp add: ready_def get_shared_llm_def)

lemma draining: "st_shutting_down (snd (run_steps (take (Suc n) (shutdown_steps pf)) st))"
proof -
  have *: "st_shutting_down st' \<Longrightarrow> set fs \<subseteq> {stop_executor, close_checkpointer, close_memory, close_review_store pf} \<Longrightarrow>
      st_shutting_down (snd (run_steps fs st'))" for fs and st' :: "'a server"
    by (induction fs arbitrary: st')
      (auto simp: stop_executor_def close_checkpointer_def close_memory_def close_review_store_def split: prod.split option.split)
  show ?thesis
    by (simp add: shutdown_steps_def begin_drain_def)
      (rule *, use set_take_subset [of n "[stop_executor, close_checkpointer, close_memory, close_review_store pf]"] in auto)
qed

text \<open>C36. Readiness is decided at start-up: a server that found both its LLM and its checkpointer then
  answers every readiness probe with 200 until its shutdown begins, and one that did not answers
  every probe with 503 for the rest of its life, although a probe or a run may build the LLM
  later; the checkpointer is never tried again. From the first step of the shutdown on every
  probe is answered with 503.\<close>

theorem readiness_decided_at_startup:
  assumes "load_settings p raw = Inr s" and "startup pf s st = (None, st')"
  shows "set (fst (serve_all s evs st')) \<subseteq>
      {if isl (get_llm (packages pf) (llm_config_of s)) \<or> isl (fst (init_checkpointer (env_runtime pf s) (memory s) (st_cms st)))
       then Inl (HTTPException 503) else Inr ()}
    \<and> set (fst (serve_all s evs' (snd (run_steps (take (Suc n) (shutdown_steps pf)) (snd (serve_all s evs st'))))))
        \<subseteq> {Inl (HTTPException 503)}"
proof
  from startup_live [OF assms(1), of pf st] assms(2) have l: "live_server pf s st st'" by simp
  have "fst (ready pk s st1) = (if isl (get_llm (packages pf) (llm_config_of s))
        \<or> isl (fst (init_checkpointer (env_runtime pf s) (memory s) (st_cms st))) then Inl (HTTPException 503) else Inr ())"
    if "same_handles st' st1" for pk st1
  proof -
    obtain r cms where i: "init_checkpointer (env_runtime pf s) (memory s) (st_cms st) = (r, cms)"
      by (cases "init_checkpointer (env_runtime pf s) (memory s) (st_cms st)")
    from l have "\<not> st_shutting_down st'" "llm_state pf s st st'" by (simp_all add: live_server_def)
    then show ?thesis using that ready_never [of st1 pk s] ready_always [of st1 _ _ pk s]
      by (cases r; cases "get_llm (packages pf) (llm_config_of s)") (simp_all add: llm_state_def same_handles_def i)
  qed
  then show "set (fst (serve_all s evs st')) \<subseteq>
      {if isl (get_llm (packages pf) (llm_config_of s)) \<or> isl (fst (init_checkpointer (env_runtime pf s) (memory s) (st_cms st)))
       then Inl (HTTPException 503) else Inr ()}"
    by (rule answers_constant)
next
  show "set (fst (serve_all s evs' (snd (run_steps (take (Suc n) (shutdown_steps pf)) (snd (serve_all s evs st'))))))
        \<subseteq> {Inl (HTTPException 503)}"
    by (rule answers_constant, rule ready_never) (use draining [of n pf "snd (serve_all s evs st')"] in \<open>auto simp: same_handles_def\<close>)
qed

text \<open>C37. A process that starts afresh with accepted settings, serves any requests and then shuts
  down has released what it held exactly once: the pool was shut down once, the history store
  and the review store it built were closed once, and each context manager of a checkpointer
  that came up was exited once and is forgotten. Only closing the review database can make the
  shutdown fail, as its last step. From then on the gateway turns away every request but the
  probes.\<close>

theorem server_lifecycle:
  assumes "load_settings p raw = Inr s" and "startup pf s st = (None, st')"
    and "st_cms st = no_cms" and "st_review_store st = None"
  shows "case shutdown pf (snd (serve_all s evs st')) of (err, down) \<Rightarrow>
      (err \<noteq> None \<longrightarrow> (\<exists>path. configured_reviews s = SqliteReviews path \<and> err = closes pf path))
      \<and> st_executor down = Some (thread_pool_max_workers s, 1)
      \<and> (\<exists>h. create_run_history (builds pf) (memory s) = Inr h \<and> st_shared_memory down = Some (h, 1))
      \<and> st_review_store down = Some (configured_reviews s, 1)
      \<and> sync_cm (st_cms down) = None \<and> async_cm (st_cms down) = None
      \<and> (case st_shared_checkpointer st' of
           None \<Rightarrow> exited (st_cms down) = []
         | Some cp \<Rightarrow> if cp = MemorySaver then exited (st_cms down) = []
                      else entered (st_cms down) = [cp] \<and> exited (st_cms down) = [cp])
      \<and> (rq_path r \<in> set DRAIN_EXEMPT_PATHS \<or> (\<exists>resp.
           drain_middleware call_next r (g\<lparr>shutting_down := st_shutting_down down\<rparr>) = (Inr resp, g\<lparr>shutting_down := True\<rparr>)
           \<and> Gateway.response.resp_status resp = 503))"
proof -
  from startup_live [OF assms(1), of pf st] assms(2) have l: "live_server pf s st st'" by simp
  then obtain h where h: "create_run_history (builds pf) (memory s) = Inr h" "st_shared_memory st' = Some (h, 0)"
    by (auto simp: live_server_def)
  obtain st2 where st2: "st2 = snd (serve_all s evs st')" by simp
  then have "same_handles st' st2" using serve_all_frame by simp
  then have same: "st_executor st2 = Some (thread_pool_max_workers s, 0)" "st_shared_memory st2 = Some (h, 0)"
      "st_review_store st2 = Some (configured_reviews s, 0)" "st_cms st2 = st_cms st'"
    using l h(2) assms(4) by (simp_all add: same_handles_def live_server_def)
  have cms: "sync_cm (st_cms st') = None \<and> exited (st_cms st') = []
      \<and> (case st_shared_checkpointer st' of
           None \<Rightarrow> async_cm (st_cms st') = None
         | Some cp \<Rightarrow> if cp = MemorySaver then async_cm (st_cms st') = None
                      else async_cm (st_cms st') = Some cp \<and> entered (st_cms st') = [cp])"
  proof -
    have ls: "llm_state pf s st st'" using l by (simp add: live_server_def)
    obtain r cms where i: "init_checkpointer (env_runtime pf s) (memory s) no_cms = (r, cms)"
      by (cases "init_checkpointer (env_runtime pf s) (memory s) no_cms")
    show ?thesis using ls init_checkpointer_cms [OF i] unfolding llm_state_def assms(3) i
      by (auto simp: no_cms_def split: sum.splits if_splits)
  qed
  have down: "shutdown pf st2 = (case configured_reviews s of SqliteReviews path \<Rightarrow> closes pf path | MemoryReviews \<Rightarrow> None,
      st2\<lparr>st_shutting_down := True, st_executor := Some (thread_pool_max_workers s, 1),
        st_cms := cleanup_checkpointer_async (st_cms st'), st_shared_memory := Some (h, 1),
        st_review_store := Some (configured_reviews s, 1)\<rparr>)"
    by (simp add: shutdown_def shutdown_steps_def begin_drain_def stop_executor_def close_checkpointer_def close_memory_def
        close_review_store_def same split: review_choice.split option.split)
  show ?thesis unfolding st2 [symmetric] down using cms h
    by (auto simp: cleanup_checkpointer_async_def cleanup_checkpointer_def drain_middleware_def json_response_def
        split: option.splits review_choice.splits if_splits)
qed

text \<open>A second life in the same process takes over the review store of the first, which is
  closed: it is not built again, and its own shutdown closes it once more.\<close>

lemma restart_keeps_closed_reviews:
  assumes "load_settings p raw = Inr s" and "startup pf s st = (None, st')" and "st_review_store st = Some (rs, n)"
  shows "st_review_store st' = Some (rs, n)" and "st_review_store (snd (shutdown pf st')) = Some (rs, Suc n)"
proof -
  from startup_live [OF assms(1), of pf st] assms(2,3) show "st_review_store st' = Some (rs, n)"
    by (simp add: live_server_def)
  then show "st_review_store (snd (shutdown pf st')) = Some (rs, Suc n)"
    by (simp add: shutdown_def shutdown_steps_def begin_drain_def stop_executor_def close_checkpointer_def close_memory_def
        close_review_store_def split: option.split)
qed

text \<open>The default pack is looked up before the plugins are loaded: a pack that only a plugin
  provides cannot be the default, whatever the settings allow and the packages offer.\<close>

lemma default_pack_before_plugins:
  assumes "load_settings p raw = Inr s" and "map_of (st_registry st) (default_pack_id s) = None"
  shows "\<exists>e st'. startup pf s st = (Some e, st')"
proof (cases "startup pf s st")
  case (Pair err st')
  show ?thesis
  proof (cases err)
    case None
    with startup_live [OF assms(1), of pf st] Pair have "live_server pf s st st'" by simp
    then show ?thesis using assms(2) by (auto simp: live_server_def registry_get_def get_pack_def get_versions_def)
  qed (use Pair in simp)
qed

text \<open>Class and schemas of a router come from two separate draws: if a plugin brings two versions
  of one pack, the router can serve one version's class behind the other version's schemas.\<close>

definition two_versions :: registry where
  "two_versions = [(''demo'', [\<lparr>pv_version = ''1'', pv_cls = builtin_class ''C1'' ''demo'' ''n'' ''d'', pv_weight = 1\<rparr>,
     \<lparr>pv_version = ''2'', pv_cls = (builtin_class ''C2'' ''demo'' ''n'' ''d'')\<lparr>pc_input := Model None\<rparr>, pv_weight = 1\<rparr>])]"

lemma router_mixes_versions:
  "map (\<lambda>r. (pc_input (rt_class r), fst (rt_schemas r)))
     (snd (wire_routers (\<lambda>i. if i = 1 then 0 else 9/10) 1 [] two_versions [''demo''] []))
   = [(Model (Some ''forbid''), Model None)]"
  by code_simp

section \<open>Weights over HTTP\<close>

definition version_view :: "pack_version list \<Rightarrow> (string \<times> rat) list" where
  "version_view vs = map (\<lambda>pv. (pv_version pv, pv_weight pv)) vs"

lemma put_weight_view:
  "case put_weight v w vs of
     None \<Rightarrow> v \<notin> pv_version ` set vs
   | Some vs' \<Rightarrow> v \<in> pv_version ` set vs \<and> version_view vs' = AList.update v w (version_view vs)"
  by (induction vs) (auto simp: version_view_def split: option.splits)

text \<open>The endpoint that changes a traffic weight is exact: it answers 200 exactly for a known
  pack and version and a number that is not negative, and then that version has the weight and
  nothing else has changed; every other answer leaves the registry as it was.\<close>

theorem weight_update_exact:
  "case update_pack_version_weight pid v body reg of
     (Inr w, reg') \<Rightarrow> weight_of_body body = Inr w \<and> 0 \<le> w
       \<and> (\<exists>old. list_pack_versions pid reg = Inr old \<and> v \<in> fst ` set old
            \<and> list_pack_versions pid reg' = Inr (AList.update v w old))
       \<and> (q = pid \<or> map_of reg' q = map_of reg q)
   | (Inl e, reg') \<Rightarrow> map_of reg' = map_of reg
       \<and> e = (case weight_of_body body of
                Inl err \<Rightarrow> err
              | Inr w \<Rightarrow> if isl (list_pack_versions pid reg) \<or> (0 \<le> w \<and> v \<notin> fst ` set (projr (list_pack_versions pid reg)))
                         then HTTPException 404 else HTTPException 422)"
proof (cases "weight_of_body body")
  case (Inl e)
  then show ?thesis by (simp add: update_pack_version_weight_def)
next
  case (Inr w)
  show ?thesis
  proof (cases "map_of reg pid")
    case None
    then show ?thesis using Inr
      by (simp add: update_pack_version_weight_def set_weights_def list_pack_versions_def get_versions_def)
  next
    case (Some vs)
    have same: "map_of (AList.update pid vs reg) = map_of reg" using Some by (simp add: fun_upd_idem)
    have img: "fst ` set (version_view vs) = pv_version ` set vs" by (force simp: version_view_def)
    show ?thesis
      using put_weight_view [where v = v and w = w and vs = vs] img Inr Some same
      by (auto simp: update_pack_version_weight_def set_weights_def list_pack_versions_def get_versions_def
          version_view_def [symmetric] split: option.splits)
  qed
qed

text \<open>A weight beyond the range of floats is no bad request but an unhandled \<open>OverflowError\<close>.\<close>

lemma huge_weight_is_500:
  "http_status (fst (update_pack_version_weight pid v [(''weight'', VInt (2 ^ 1024))] reg)) = 500"
proof -
  have "(2 :: int) ^ 1024 - 2 ^ 970 \<le> \<bar>2 ^ 1024\<bar>" by simp
  then have "float_overflow (2 ^ 1024)" unfolding float_overflow_def .
  then show ?thesis
    by (simp add: update_pack_version_weight_def weight_of_body_def dget_def http_status_def del: power_numeral)
qed

section \<open>Retrieval\<close>

text \<open>With accepted settings and the RAG connector enabled, the vector store is always of the
  configured backend; the only error left is a package that is not installed.\<close>

theorem rag_store_as_configured:
  assumes "load_settings p raw = Inr s" and "connector_enabled (connectors s)" and "connector_id (connectors s) = ''rag''"
  shows "case get_vectorstore inst s of
      Inl e \<Rightarrow> e = ImportError
    | Inr store \<Rightarrow> store = (if memory_backend (memory s) = POSTGRES
        then PGVector ''langgraph_rag'' (the (postgres_url (memory s))) else Chroma ''langgraph_rag'')"
  using load_settings_fields [OF assms(1)] assms(2,3)
  by (auto simp: validate_Inr get_vectorstore_def get_pgvector_def get_chromadb_def or_empty_def split: option.splits)

section \<open>Examples\<close>

definition demo_platform :: "unit platform" where
  "demo_platform = \<lparr>packages = \<lparr>pkg_installed = (\<lambda>_. True), build = (\<lambda>c a. ())\<rparr>,
     rt = full_runtime, network = open_net, entry_points = [], redis_client = (\<lambda>_. None),
     builds = (\<lambda>_. None), opens = (\<lambda>_. None), closes = (\<lambda>_. None), random = (\<lambda>_. 0)\<rparr>"

definition demo_server :: "unit server" where
  "demo_server = \<lparr>st_rate_limiter = None, st_session_registry = None, st_review_store = None, st_executor = None,
     st_shared_llm = None, st_shared_checkpointer = None, st_cms = no_cms,
     st_active_pack_cls = None, st_shared_connector = None,
     st_registry = [(''research_analysis'', [new_version (builtin_class ''R'' ''research_analysis'' ''n'' ''d'')])],
     st_routes = [], st_shared_memory = None, st_shutting_down = False\<rparr>"

definition mock_raw :: raw_settings where
  "mock_raw = raw_of [(''llm_provider'', ''mock'')]"

lemma mock_starts:
  "map_sum id (\<lambda>s. (fst (startup demo_platform s demo_server), isl (get_llm (packages demo_platform) (llm_config_of s))))
     (load_settings demo_parsers mock_raw) = Inr (None, False)"
  by code_simp

lemma mock_start:
  obtains s st' where "load_settings demo_parsers mock_raw = Inr s" and "startup demo_platform s demo_server = (None, st')"
    and "\<not> isl (get_llm (packages demo_platform) (llm_config_of s))"
proof -
  obtain s where s: "load_settings demo_parsers mock_raw = Inr s" using mock_starts by (cases "load_settings demo_parsers mock_raw") auto
  with mock_starts have "fst (startup demo_platform s demo_server) = None" "\<not> isl (get_llm (packages demo_platform) (llm_config_of s))" by auto
  with s that show thesis by (metis prod.collapse)
qed


theorem readiness_decided_at_startup_witness:
  "\<exists>s st'. startup demo_platform s demo_server = (None, st')
     \<and> set (fst (serve_all s [Probe (packages demo_platform)] (snd (run_steps (take 1 (shutdown_steps demo_platform)) st'))))
         \<subseteq> {Inl (HTTPException 503)}"
proof -
  obtain s st' where s: "load_settings demo_parsers mock_raw = Inr s" "startup demo_platform s demo_server = (None, st')"
    by (rule mock_start)
  from readiness_decided_at_startup [OF s, of "[]" "[Probe (packages demo_platform)]" 0] s(2) show ?thesis by auto
qed

theorem server_lifecycle_witness:
  "\<exists>s st'. startup demo_platform s demo_server = (None, st')
     \<and> st_executor (snd (shutdown demo_platform st')) = Some (thread_pool_max_workers s, 1)"
proof -
  obtain s st' where s: "load_settings demo_parsers mock_raw = Inr s" "startup demo_platform s demo_server = (None, st')"
    by (rule mock_start)
  have "st_cms demo_server = no_cms" "st_review_store demo_server = None"
    by (simp_all add: demo_server_def)
  from server_lifecycle [OF s this, where evs = "[]" and r = "demo_request ''GET'' Map.empty" and call_next = ok_routes and g = demo_world]
  have "st_executor (snd (shutdown demo_platform st')) = Some (thread_pool_max_workers s, 1)"
    by (cases "shutdown demo_platform st'") simp
  with s(2) show ?thesis by blast
qed

definition rag_raw :: raw_settings where
  "rag_raw = raw_of [(''connector_enabled'', ''true''), (''connector_id'', ''rag''), (''rag_enabled'', ''true'')]"

theorem rag_store_as_configured_witness:
  "\<exists>s. load_settings demo_parsers rag_raw = Inr s \<and> get_vectorstore (\<lambda>_. True) s = Inr (Chroma ''langgraph_rag'')"
proof -
  have v: "map_sum id (\<lambda>s. (connector_enabled (connectors s), connector_id (connectors s), memory_backend (memory s)))
      (load_settings demo_parsers rag_raw) = Inr (True, ''rag'', SQLITE)" by code_simp
  then obtain s where s: "load_settings demo_parsers rag_raw = Inr s" by (cases "load_settings demo_parsers rag_raw") auto
  with v have c: "connector_enabled (connectors s)" "connector_id (connectors s) = ''rag''" "memory_backend (memory s) = SQLITE" by auto
  have "get_vectorstore (\<lambda>_. True) s \<noteq> Inl ImportError"
    using rag_store_as_configured [OF s c(1,2), of "\<lambda>_. True"] c(3) load_settings_fields [OF s] c
    by (auto simp: get_vectorstore_def get_chromadb_def validate_Inr)
  with rag_store_as_configured [OF s c(1,2), of "\<lambda>_. True"] c(3) s show ?thesis by (auto split: sum.splits)
qed

end
