(* ===== verification/Summariser.thy ===== *)
theory Summariser
  imports LegacyApi Tools
begin

text \<open>
  The summariser pack (\<open>domain_packs/productivity/summariser/\<close>): one LLM call whose answer is cut
  into bullet points. The model is asked inside \<open>mock_plain_bullets_context(n)\<close>, so what it
  answers may depend on \<open>n\<close>: a \<open>bullet_llm\<close>. LangGraph runs the only node once.
\<close>

section \<open>Schemas\<close>

record summary_input =
  si_text :: string
  si_bullet_count :: int

record summary_output =
  so_original_length :: int
  so_bullets :: "string list"
  so_cost_usd :: "rat option"

definition summary_input_init :: "string \<Rightarrow> int \<Rightarrow> llm_exc + summary_input" where
  \<comment> \<open>\<open>SummaryInput(text=..., bullet_count=...)\<close> on a \<open>str\<close> and an \<open>int\<close>\<close>
  "summary_input_init t n =
     (if 1 \<le> length t \<and> length t \<le> 4000 \<and> 1 \<le> n \<and> n \<le> 10
      then Inr \<lparr>si_text = t, si_bullet_count = n\<rparr> else Inl VALIDATION_ERROR)"

datatype summary_like =
    SummaryModel summary_output
  | SummaryLike int "string list"        \<comment> \<open>an object with the two attributes\<close>
  | NoSummary

definition from_summary_like :: "summary_like \<Rightarrow> rat option \<Rightarrow> llm_exc + summary_output" where
  "from_summary_like res cost =
     (case res of
        SummaryModel o1 \<Rightarrow> Inr (o1\<lparr>so_cost_usd := (case cost of Some c \<Rightarrow> Some c | None \<Rightarrow> so_cost_usd o1)\<rparr>)
      | SummaryLike n bullets \<Rightarrow> Inr \<lparr>so_original_length = n, so_bullets = bullets, so_cost_usd = cost\<rparr>
      | NoSummary \<Rightarrow> Inl TYPE_ERROR)"

section \<open>The node\<close>

type_synonym bullet_llm = "int \<Rightarrow> llm"

definition summariser_prompt :: "summary_input \<Rightarrow> string" where
  "summariser_prompt inp =
     ''Summarise the following text into exactly '' @ show_int (si_bullet_count inp) @ '' concise ''
     @ ''bullet points.'' @ [NL] @ ''Return only the bullet points, one per line, each ''
     @ ''starting with '' @ [CHR 0x27] @ ''- '' @ [CHR 0x27] @ ''.'' @ [NL, NL] @ ''Text:'' @ [NL] @ si_text inp"

definition dash_or_space :: "char \<Rightarrow> bool" where
  "dash_or_space c \<longleftrightarrow> c = CHR ''-'' \<or> c = CHR '' ''"

definition bullet_text :: "string \<Rightarrow> string" where
  \<comment> \<open>\<open>line.lstrip("- ").strip()\<close>\<close>
  "bullet_text line = strip (dropWhile dash_or_space line)"

definition parse_bullets :: "string \<Rightarrow> int \<Rightarrow> string list" where
  "parse_bullets raw expected =
     (let found = nonblank_lines (strip raw);
          bullets = map bullet_text (filter (startswith ''-'') found)
      in take (nat expected) (if bullets = [] then found else bullets))"

definition content_text :: "pyval \<Rightarrow> llm_exc + string" where
  \<comment> \<open>\<open>response.content.strip()\<close> needs a \<open>str\<close>\<close>
  "content_text content = (case content of VStr s \<Rightarrow> Inr s | _ \<Rightarrow> Inl ATTRIBUTE_ERROR)"

definition summarise :: "(string \<Rightarrow> bool) \<Rightarrow> bullet_llm option \<Rightarrow> summary_input \<Rightarrow> llm_exc + summary_output" where
  \<comment> \<open>what the node's outer \<open>try\<close> protects\<close>
  "summarise installed llm inp =
     (case llm of
        None \<Rightarrow> Inl (plain_error EXECUTION_ERROR)
      | Some invoke \<Rightarrow>
          (case invoke (si_bullet_count inp) (summariser_prompt inp) of
             Inl e \<Rightarrow> if isinstance e [''Exception''] \<and> is_auth_llm_error installed e then Inl (make_auth_error e) else Inl e
           | Inr content \<Rightarrow>
               rbind (content_text content) (\<lambda>raw.
                 Inr \<lparr>so_original_length = int (length (si_text inp)),
                      so_bullets = parse_bullets raw (si_bullet_count inp), so_cost_usd = None\<rparr>)))"

definition summarise_node :: "(string \<Rightarrow> bool) \<Rightarrow> bullet_llm option \<Rightarrow> string \<Rightarrow> int \<Rightarrow> llm_exc + summary_output option" where
  "summarise_node installed llm t n =
     rbind (summary_input_init t (if n = 0 then 3 else n)) (\<lambda>inp. pack_node (summarise installed llm inp))"

section \<open>Runs and streams\<close>

definition run_state :: "(string \<Rightarrow> bool) \<Rightarrow> bullet_llm option \<Rightarrow> string \<Rightarrow> int \<Rightarrow> llm_exc + summary_output" where
  \<comment> \<open>the output of the node is never an empty dictionary\<close>
  "run_state installed llm t n = pack_final (summarise_node installed llm t n)"

definition summary_run_from_input :: "(string \<Rightarrow> bool) \<Rightarrow> bullet_llm option \<Rightarrow> summary_input \<Rightarrow> llm_exc + summary_output" where
  "summary_run_from_input installed llm inp = run_state installed llm (si_text inp) (si_bullet_count inp)"

definition summary_run :: "(string \<Rightarrow> bool) \<Rightarrow> bullet_llm option \<Rightarrow> string \<Rightarrow> llm_exc + summary_output" where
  "summary_run installed llm q =
     (if blank q then Inl (plain_error VALIDATION_AGENT_ERROR) else run_state installed llm (strip q) 3)"

definition summary_dump :: "summary_output \<Rightarrow> pydict" where
  "summary_dump out =
     [(''original_length'', VInt (so_original_length out)), (''bullets'', VList (map VStr (so_bullets out))),
      (''cost_usd'', case so_cost_usd out of None \<Rightarrow> VNone | Some c \<Rightarrow> VFloat c)]"

definition summary_events_from_input :: "(string \<Rightarrow> bool) \<Rightarrow> bullet_llm option \<Rightarrow> summary_input \<Rightarrow> source" where
  "summary_events_from_input installed llm inp =
     (let started = phase_event ''phase_started'' ''summarise'' in
      case summary_run_from_input installed llm inp of
        Inl e \<Rightarrow> \<lparr>yielded = [started], failure = Some e\<rparr>
      | Inr out \<Rightarrow>
          \<lparr>yielded = [started, phase_event ''phase_completed'' ''summarise'',
              pack_stream_event ''pipeline_completed'' [(''result'', ModelDump (VDict (summary_dump out)))]],
           failure = None\<rparr>)"

definition summary_events :: "(string \<Rightarrow> bool) \<Rightarrow> bullet_llm option \<Rightarrow> string \<Rightarrow> source" where
  "summary_events installed llm q =
     (case summary_input_init q 3 of
        Inl e \<Rightarrow> \<lparr>yielded = [], failure = Some e\<rparr>
      | Inr inp \<Rightarrow> summary_events_from_input installed llm inp)"

section \<open>The pack behind the endpoints\<close>

definition summary_object :: "summary_output \<Rightarrow> pack_result" where
  "summary_object out =
     \<lparr>to_dict = None, model_dump = Some (VDict (summary_dump out)), the_object = VDict (summary_dump out)\<rparr>"

definition input_of_body :: "pydict \<Rightarrow> llm_exc + summary_input" where
  \<comment> \<open>the body as the endpoint validated it\<close>
  "input_of_body body =
     (case (dget body ''text'', dget_or body ''bullet_count'' (VInt 3)) of
        (VStr t, VInt n) \<Rightarrow> summary_input_init t n
      | _ \<Rightarrow> Inl VALIDATION_ERROR)"

definition summariser_impl :: "(string \<Rightarrow> bool) \<Rightarrow> bullet_llm option \<Rightarrow> pack_impl" where
  \<comment> \<open>the budget is checked and stored, and used by nothing; the cost is the base class's 0\<close>
  "summariser_impl installed llm =
     \<lparr>own_attributes = [''pack_id'', ''name'', ''description'', ''input_schema'', ''output_schema'', ''run_from_input'', ''run'',
        ''arun'', ''stream_events_from_input''],
      construct = (\<lambda>budget. case budget of None \<Rightarrow> None | Some b \<Rightarrow> if b < 0 then Some (exc_of ValueError) else None),
      run_from_input = (\<lambda>body. map_sum id summary_object (rbind (input_of_body body) (summary_run_from_input installed llm))),
      run_text = (\<lambda>q. map_sum id summary_object (summary_run installed llm q)),
      run_cost = Some 0,
      close_pack = None,
      events_from_input = (\<lambda>body. case input_of_body body of
          Inl e \<Rightarrow> \<lparr>yielded = [], failure = Some e\<rparr>
        | Inr inp \<Rightarrow> stream_events (summary_events_from_input installed llm inp)),
      raw_events = summary_events installed llm\<rparr>"

section \<open>Bullets\<close>

lemma set_splitlines_from: "l \<in> set (splitlines_from cur s) \<Longrightarrow> \<forall>c\<in>set cur. \<not> is_line_break c \<Longrightarrow> no_breaks l"
  by (induction cur s rule: splitlines_from.induct)
    (auto simp: no_breaks_def list_all_iff split: if_splits)

lemma splitlines_no_breaks: "l \<in> set (splitlines s) \<Longrightarrow> no_breaks l"
  unfolding splitlines_def by (rule set_splitlines_from) auto

lemma no_breaks_mono: "set s \<subseteq> set t \<Longrightarrow> no_breaks t \<Longrightarrow> no_breaks s"
  by (auto simp: no_breaks_def list_all_iff)

lemma nonblank_line:
  assumes "l \<in> set (nonblank_lines s)"
  shows "l \<noteq> []" and "strip l = l" and "no_breaks l"
  using assms no_breaks_mono [OF set_strip] splitlines_no_breaks by (auto simp: nonblank_lines_def)

lemma bullet_text_ok: "strip (bullet_text l) = bullet_text l" "no_breaks l \<Longrightarrow> no_breaks (bullet_text l)"
proof -
  show "strip (bullet_text l) = bullet_text l" by (simp add: bullet_text_def)
  have "set (bullet_text l) \<subseteq> set l"
    using set_strip [of "dropWhile dash_or_space l"] by (auto simp: bullet_text_def dest: set_dropWhileD)
  then show "no_breaks l \<Longrightarrow> no_breaks (bullet_text l)" by (rule no_breaks_mono)
qed

lemma parse_bullets_ok:
  "length (parse_bullets raw n) \<le> nat n"
  "b \<in> set (parse_bullets raw n) \<Longrightarrow> strip b = b \<and> no_breaks b"
  using nonblank_line [of _ "strip raw"]
  by (auto simp: parse_bullets_def Let_def bullet_text_ok dest!: in_set_takeD split: if_splits)

definition bullet_line :: "string \<Rightarrow> string" where
  "bullet_line b = ''- '' @ b"

definition proper_bullet :: "string \<Rightarrow> bool" where
  "proper_bullet b \<longleftrightarrow> b \<noteq> [] \<and> strip b = b \<and> no_breaks b \<and> hd b \<noteq> CHR ''-''"

lemma strip_hd_last: "b \<noteq> [] \<Longrightarrow> strip b = b \<Longrightarrow> \<not> py_isspace (hd b) \<and> \<not> py_isspace (last b)"
  using strip_ends [of b] by simp

lemma dash_not_space: "\<not> py_isspace (CHR ''-'')" "\<not> is_line_break (CHR ''-'')" "\<not> is_line_break (CHR '' '')" "py_isspace (CHR '' '')"
  by (simp_all add: py_isspace_def is_line_break_def)

lemma bullet_line_ok:
  assumes "proper_bullet b"
  shows "strip (bullet_line b) = bullet_line b" and "no_breaks (bullet_line b)" and "bullet_line b \<noteq> []"
    and "bullet_text (bullet_line b) = b"
proof -
  have b: "b \<noteq> []" "strip b = b" "no_breaks b" "hd b \<noteq> CHR ''-''" using assms by (auto simp: proper_bullet_def)
  note e = strip_hd_last [OF b(1,2)]
  show "strip (bullet_line b) = bullet_line b"
    by (rule strip_fix) (use b e in \<open>simp add: bullet_line_def dash_not_space\<close>)
  show "no_breaks (bullet_line b)" using b(3) by (simp add: bullet_line_def no_breaks_def dash_not_space)
  show "bullet_line b \<noteq> []" by (simp add: bullet_line_def)
  have "hd b \<noteq> CHR '' ''" using e dash_not_space(4) by auto
  then have "dropWhile dash_or_space b = b" using b by (intro dropWhile_fix) (auto simp: dash_or_space_def)
  then show "bullet_text (bullet_line b) = b"
    using b(2) by (simp add: bullet_text_def bullet_line_def dash_or_space_def)
qed

lemma splitlines_join:
  assumes "\<forall>l\<in>set ls. no_breaks l \<and> l \<noteq> []"
  shows "splitlines (join [NL] ls) = ls"
proof -
  have "splitlines [] = []" by (simp add: splitlines_def)
  with assms show ?thesis by (induction ls rule: induct_list012) (simp_all add: splitlines_line splitlines_last)
qed

lemma strip_join:
  assumes "\<forall>l\<in>set ls. strip l = l \<and> l \<noteq> []"
  shows "strip (join [NL] ls) = join [NL] ls"
proof -
  have hd: "ls \<noteq> [] \<Longrightarrow> join [NL] ls \<noteq> [] \<and> hd (join [NL] ls) = hd (hd ls) \<and> last (join [NL] ls) = last (last ls)"
    using assms by (induction ls rule: induct_list012) auto
  show ?thesis
  proof (cases "ls = []")
    case False
    then have "hd ls \<in> set ls" "last ls \<in> set ls" by auto
    then show ?thesis using hd [OF False] assms strip_hd_last by (intro strip_fix) metis
  qed simp
qed

lemma nonblank_lines_join:
  assumes "\<forall>l\<in>set ls. strip l = l \<and> l \<noteq> [] \<and> no_breaks l"
  shows "nonblank_lines (strip (join [NL] ls)) = ls"
proof -
  have "filter (\<lambda>l. strip l \<noteq> []) ls = ls" "map strip ls = ls"
    using assms by (auto intro: filter_True map_idI)
  then show ?thesis using assms by (simp add: nonblank_lines_def strip_join splitlines_join)
qed

lemma parse_rendered_bullets:
  assumes "list_all proper_bullet bs"
  shows "parse_bullets (join [NL] (map bullet_line bs)) n = take (nat n) bs"
proof -
  have p: "proper_bullet b" if "b \<in> set bs" for b using assms that by (auto simp: list_all_iff)
  have ls: "nonblank_lines (strip (join [NL] (map bullet_line bs))) = map bullet_line bs"
    by (rule nonblank_lines_join) (use p bullet_line_ok in auto)
  have "filter (startswith ''-'') (map bullet_line bs) = map bullet_line bs"
    by (auto simp: bullet_line_def startswith_def intro: filter_True)
  moreover have "map bullet_text (map bullet_line bs) = bs"
    using p bullet_line_ok(4) by (auto simp: map_idI)
  ultimately show ?thesis by (simp add: parse_bullets_def ls Let_def)
qed

text \<open>Bullets the model lists as it was told are found exactly as written, up to the number
  asked for; the leading \<open>- \<close> is the only thing that is lost.\<close>

theorem bullets_recovered:
  assumes "list_all proper_bullet bs"
  shows "parse_bullets (join [NL] (map bullet_line bs)) n = take (nat n) bs"
  by (rule parse_rendered_bullets [OF assms])

theorem bullets_recovered_witness:
  "parse_bullets (join [NL] (map bullet_line [''Rents rise'', ''a - b''])) 2 = [''Rents rise'', ''a - b'']"
  using bullets_recovered [of "[''Rents rise'', ''a - b'']" 2] by (simp add: proper_bullet_def, code_simp)

section \<open>Answers\<close>

lemma summary_input_Inr:
  "summary_input_init t n = Inr inp \<longleftrightarrow> inp = \<lparr>si_text = t, si_bullet_count = n\<rparr> \<and> 1 \<le> length t \<and> length t \<le> 4000 \<and> 1 \<le> n \<and> n \<le> 10"
  by (auto simp: summary_input_init_def)

lemma summarise_Inr:
  "summarise installed llm inp = Inr out \<longleftrightarrow>
     (\<exists>invoke raw. llm = Some invoke \<and> invoke (si_bullet_count inp) (summariser_prompt inp) = Inr (VStr raw)
       \<and> out = \<lparr>so_original_length = int (length (si_text inp)),
            so_bullets = parse_bullets raw (si_bullet_count inp), so_cost_usd = None\<rparr>)"
  by (auto simp: summarise_def content_text_def split: option.splits sum.splits pyval.splits)

lemma run_state_Inr:
  assumes "run_state installed llm t n = Inr out"
  obtains invoke raw where "llm = Some invoke"
    and "invoke (if n = 0 then 3 else n) (summariser_prompt \<lparr>si_text = t, si_bullet_count = if n = 0 then 3 else n\<rparr>) = Inr (VStr raw)"
    and "out = \<lparr>so_original_length = int (length t), so_bullets = parse_bullets raw (if n = 0 then 3 else n), so_cost_usd = None\<rparr>"
    and "1 \<le> length t" "length t \<le> 4000" "n \<le> 10"
  using assms by (auto simp: run_state_def pack_final_Inr summarise_node_def rbind_Inr_iff summary_input_Inr pack_node_Some
      summarise_Inr split: if_splits)

text \<open>An answered summary has at most the number of bullets asked for, each one line without
  surrounding blanks, and states the length of a text of 1 to 4000 characters.\<close>

theorem summary_bounded:
  assumes "summary_run_from_input installed llm inp = Inr out" and "1 \<le> si_bullet_count inp"
  shows "int (length (so_bullets out)) \<le> si_bullet_count inp \<and> so_original_length out = int (length (si_text inp))
    \<and> 1 \<le> so_original_length out \<and> so_original_length out \<le> 4000
    \<and> list_all (\<lambda>b. strip b = b \<and> no_breaks b) (so_bullets out)"
proof -
  obtain raw where "so_bullets out = parse_bullets raw (si_bullet_count inp)" "so_original_length out = int (length (si_text inp))"
    "1 \<le> length (si_text inp)" "length (si_text inp) \<le> 4000"
    using assms by (auto simp: summary_run_from_input_def elim!: run_state_Inr)
  then show ?thesis using parse_bullets_ok [where raw = raw and n = "si_bullet_count inp"] assms(2) by (auto simp: list_all_iff)
qed

definition demo_bullets :: bullet_llm where
  "demo_bullets n prompt = Inr (VStr (join [NL] (map (\<lambda>i. ''- Mock bullet '' @ show_nat i) [1 ..< nat n + 1])))"

definition demo_input :: summary_input where
  "demo_input = \<lparr>si_text = ''Rents rise.'', si_bullet_count = 2\<rparr>"

lemma demo_summary: "summary_run_from_input (\<lambda>p. True) (Some demo_bullets) demo_input
    = Inr \<lparr>so_original_length = 11, so_bullets = [''Mock bullet 1'', ''Mock bullet 2''], so_cost_usd = None\<rparr>"
  by code_simp

theorem summary_bounded_witness:
  "length [''Mock bullet 1'', ''Mock bullet 2''] \<le> 2 \<and> list_all (\<lambda>b. strip b = b \<and> no_breaks b) [''Mock bullet 1'', ''Mock bullet 2'']"
  using summary_bounded [OF demo_summary] by (simp add: demo_input_def)

text \<open>The stream of a valid input ends with the output exactly when the run returns it, and
  fails exactly when the run fails, with the same exception.\<close>

lemma summary_stream_matches_run:
  "case summary_run_from_input installed llm inp of
     Inr out \<Rightarrow> failure (summary_events_from_input installed llm inp) = None
       \<and> last (yielded (summary_events_from_input installed llm inp))
           = pack_stream_event ''pipeline_completed'' [(''result'', ModelDump (VDict (summary_dump out)))]
   | Inl e \<Rightarrow> failure (summary_events_from_input installed llm inp) = Some e"
  by (auto simp: summary_events_from_input_def Let_def split: sum.splits)

text \<open>Whatever the provider raises or answers, a run fails with one of the agents' own errors.\<close>

lemma summary_run_errors:
  assumes "summary_run installed llm q = Inl e" and "\<And>invoke n p x. llm = Some invoke \<Longrightarrow> invoke n p = Inl x \<Longrightarrow> outside x"
  shows "e = plain_error VALIDATION_AGENT_ERROR \<or> e = plain_error EXECUTION_ERROR
    \<or> (\<exists>x. e = make_auth_error x \<or> e = wrap EXECUTION_ERROR x)"
proof -
  have node: "isinstance x [''Exception''] \<and> (isinstance x [''AgentAuthenticationError''] \<longrightarrow> (\<exists>y. x = make_auth_error y))"
    if "summarise_node installed llm t n = Inl x" for t n x
  proof -
    have base: "outside (plain_error EXECUTION_ERROR)" "outside ATTRIBUTE_ERROR" "outside VALIDATION_ERROR"
      by (simp_all add: outside_def isinstance_def plain_error_def EXECUTION_ERROR_def ATTRIBUTE_ERROR_def VALIDATION_ERROR_def)
    have auth: "isinstance (make_auth_error y) [''Exception'']" for y
      by (simp add: isinstance_def make_auth_error_def wrap_def AUTHENTICATION_ERROR_def)
    have "outside z \<or> (\<exists>y. z = make_auth_error y)" if "summarise installed llm inp = Inl z" for inp z
      using that assms(2) base
      by (auto simp: summarise_def content_text_def split: option.splits sum.splits pyval.splits if_splits)
    then show ?thesis
      using that base auth
      by (fastforce simp: summarise_node_def summary_input_init_def pack_node_def outside_def rbind_def split: sum.splits if_splits)
  qed
  show ?thesis
    using assms(1) node
    by (auto simp: summary_run_def run_state_def pack_final_def split: if_splits sum.splits option.splits)
qed

section \<open>What the answers lose\<close>

text \<open>\<open>lstrip("- ")\<close> strips a set of characters, not a prefix: a minus sign at the start of a
  bullet goes with the dash, and a rule of dashes becomes an empty bullet that takes a place.\<close>

lemma minus_sign_lost:
  "parse_bullets (''- -5% revenue'' @ [NL] @ ''- +2% margin'') 3 = [''5% revenue'', ''+2% margin'']"
  by code_simp

lemma rule_takes_a_place:
  "parse_bullets (''---'' @ [NL] @ ''- first'' @ [NL] @ ''- second'') 2 = [[], ''first'']"
  by code_simp

text \<open>Neither the budget nor the spending of a run reaches anyone: a pack with a budget of 0 makes
  its call and reports that it cost nothing.\<close>

lemma budget_not_enforced:
  "construct (summariser_impl installed (Some demo_bullets)) (Some 0) = None
   \<and> run_cost (summariser_impl installed (Some demo_bullets)) = Some 0
   \<and> \<not> isl (run_text (summariser_impl installed (Some demo_bullets)) ''Rents rise.'')"
proof -
  have "summary_run installed (Some demo_bullets) ''Rents rise.''
      = Inr \<lparr>so_original_length = 11, so_bullets = [''Mock bullet 1'', ''Mock bullet 2'', ''Mock bullet 3''], so_cost_usd = None\<rparr>"
  proof -
    have "summarise installed (Some demo_bullets) \<lparr>si_text = ''Rents rise.'', si_bullet_count = 3\<rparr>
        = Inr \<lparr>so_original_length = 11, so_bullets = [''Mock bullet 1'', ''Mock bullet 2'', ''Mock bullet 3''], so_cost_usd = None\<rparr>"
      by (subst summarise_Inr) (rule exI [of _ demo_bullets], rule exI [of _ "join [NL] (map (\<lambda>i. ''- Mock bullet '' @ show_nat i) [1 ..< 4])"],
          simp add: demo_bullets_def, code_simp)
    moreover have "\<not> blank ''Rents rise.''" "strip ''Rents rise.'' = ''Rents rise.''" by code_simp+
    ultimately show ?thesis
      by (simp add: summary_run_def run_state_def summarise_node_def summary_input_init_def pack_node_def pack_final_def)
  qed
  then show ?thesis by (simp add: summariser_impl_def)
qed

text \<open>A run strips the text, a stream does not: they disagree about its length, and a text of
  blanks is refused by the one and summarised by the other.\<close>

lemma blank_text_streamed:
  "isl (summary_run (\<lambda>p. True) (Some demo_bullets) '' '')
   \<and> failure (summary_events (\<lambda>p. True) (Some demo_bullets) '' '') = None"
  by code_simp

end
