(* ===== verification/MockLlm.thy ===== *)
theory MockLlm
  imports Summariser
begin

text \<open>
  The mock provider (\<open>core/mock_llm.py\<close>): JSON that fits the output schema of the pack that asks,
  bullet lines for the summariser, and the six answers of the research pipeline in order. A field's
  annotation is a value of \<open>annotation\<close>; dates stand as the text \<open>model_dump\<close> gives them and an
  enum member as its value. pydantic, \<open>json.dumps\<close> and fresh ids are arguments. The context
  variables and the index of the thread are the record \<open>mock_context\<close>.
\<close>

section \<open>Payloads\<close>

datatype annotation =
    AStr | AInt | AFloat | ABool | ADate | ADatetime | AAny | ANone | AOther
  | AEnum "pyval list"                                            \<comment> \<open>the values, in order\<close>
  | AModel "(string \<times> annotation \<times> pyval option) list"           \<comment> \<open>name, annotation, default of each field\<close>
  | AList "annotation option"
  | ADict "(annotation \<times> annotation) option"
  | AUnion "annotation list"

type_synonym model_fields = "(string \<times> annotation \<times> pyval option) list"

record mock_env =
  validated :: "model_fields \<Rightarrow> pydict \<Rightarrow> pydict option"   \<comment> \<open>\<open>model_validate(...).model_dump(mode="json")\<close>\<close>
  json_dumps :: "pyval \<Rightarrow> string"
  local_new_year :: string                                  \<comment> \<open>\<open>datetime(2026, 1, 1)\<close> in the local zone\<close>

definition unwrap_optional :: "annotation \<Rightarrow> annotation" where
  "unwrap_optional a =
     (case a of
        AUnion args \<Rightarrow> (case filter (\<lambda>b. b \<noteq> ANone) args of [b] \<Rightarrow> b | _ \<Rightarrow> a)
      | _ \<Rightarrow> a)"

lemma size_unwrap: "size (unwrap_optional a) \<le> size a"
proof (cases a)
  case (AUnion args)
  show ?thesis
  proof (cases "filter (\<lambda>b. b \<noteq> ANone) args")
    case (Cons b bs)
    then have "b \<in> set args" by (metis filter_is_subset list.set_intros(1) subsetD)
    then have "size b \<le> size_list size args" by (simp add: size_list_estimation')
    then show ?thesis using AUnion Cons by (cases bs) (auto simp: unwrap_optional_def)
  qed (simp add: AUnion unwrap_optional_def)
qed (simp_all add: unwrap_optional_def)

definition spaced :: "string \<Rightarrow> string" where
  "spaced name = map (\<lambda>c. if c = CHR ''_'' then CHR '' '' else c) name"

definition add_field :: "string \<Rightarrow> pyval option \<Rightarrow> pydict option \<Rightarrow> pydict option" where
  "add_field name v rest = (case v of None \<Rightarrow> None | Some x \<Rightarrow> map_option ((#) (name, x)) rest)"

definition checked :: "mock_env \<Rightarrow> model_fields \<Rightarrow> pydict option \<Rightarrow> pydict option" where
  "checked me fs payload = (case payload of None \<Rightarrow> None | Some d \<Rightarrow> validated me fs d)"

function fake_scalar :: "mock_env \<Rightarrow> string \<Rightarrow> annotation \<Rightarrow> pyval option"
  and mock_fields :: "mock_env \<Rightarrow> model_fields \<Rightarrow> pydict option" where
  \<comment> \<open>\<open>None\<close>: an exception of pydantic's or an enum without members\<close>
  "fake_scalar me name ann =
     (let item = VStr (''Mock '' @ name @ '' item'') in
      case unwrap_optional ann of
        AStr \<Rightarrow> Some (VStr (''Mock '' @ spaced name))
      | AInt \<Rightarrow> Some (VInt 1)
      | AFloat \<Rightarrow> Some (VFloat (if name = ''confidence'' then 85/100 else 1/2))
      | ABool \<Rightarrow> Some (VBool False)
      | ADate \<Rightarrow> Some (VStr ''2026-01-01'')
      | ADatetime \<Rightarrow> Some (VStr (local_new_year me))
      | AEnum vs \<Rightarrow> (case vs of [] \<Rightarrow> None | v # _ \<Rightarrow> Some v)
      | AModel fs \<Rightarrow> map_option VDict (checked me fs (mock_fields me fs))
      | AList inner \<Rightarrow>
          (case inner of
             None \<Rightarrow> Some (VList [item])
           | Some i \<Rightarrow>
               (case unwrap_optional i of
                  AModel fs \<Rightarrow> map_option (\<lambda>d. VList [VDict d]) (checked me fs (mock_fields me fs))
                | _ \<Rightarrow> Some (VList [item])))
      | ADict kv \<Rightarrow>
          (if unwrap_optional (case kv of None \<Rightarrow> AStr | Some (k, v) \<Rightarrow> v) = AStr
           then Some (VDict [(''mock_section'', VStr (''Mock '' @ name @ '' content''))])
           else Some (VDict [(''mock_key'', VStr ''mock_value'')]))
      | _ \<Rightarrow> Some (VStr (''Mock '' @ name)))"
| "mock_fields me [] = Some []"
| "mock_fields me ((name, ann, Some v) # fs) = add_field name (Some v) (mock_fields me fs)"
| "mock_fields me ((name, ann, None) # fs) = add_field name (fake_scalar me name ann) (mock_fields me fs)"
  by pat_completeness auto

lemma size_AModel: "unwrap_optional a = AModel fs \<Longrightarrow> size_list (size_prod (\<lambda>_. 0) (size_prod size (\<lambda>_. 0))) fs < size a"
  using size_unwrap [of a] by simp

lemma size_AList:
  assumes "unwrap_optional a = AList (Some b)" and "unwrap_optional b = AModel fs"
  shows "size_list (size_prod (\<lambda>_. 0) (size_prod size (\<lambda>_. 0))) fs < size a"
  using size_unwrap [of a] size_AModel [OF assms(2)] assms(1) by simp

termination fake_scalar
  by (relation "measure (\<lambda>x. case x of Inl (me, name, a) \<Rightarrow> size a | Inr (me, fs) \<Rightarrow> size_list (size_prod (\<lambda>_. 0) (size_prod size (\<lambda>_. 0))) fs)")
    (auto intro: size_AModel size_AList)

definition generate_mock_payload :: "mock_env \<Rightarrow> model_fields \<Rightarrow> pydict option" where
  \<comment> \<open>also \<open>minimal_valid_input\<close>\<close>
  "generate_mock_payload me fs = checked me fs (mock_fields me fs)"

section \<open>The chat model\<close>

record mock_context =
  output_schema_var :: "model_fields option"
  plain_bullets_var :: "int option"
  research_index :: nat                    \<comment> \<open>of the thread; unset is 0\<close>

definition PIPELINE_VALUES :: "pyval list" where
  "PIPELINE_VALUES =
     [VList [VStr ''sub-query 1'', VStr ''sub-query 2'', VStr ''sub-query 3''],
      VDict [(''sufficient'', VBool True), (''reason'', VStr ''Mock validation passed.'')],
      VDict [(''summary'', VStr ''Mock research summary based on findings.''), (''confidence'', VFloat (85/100))],
      VDict [(''insights'', VList [VStr ''Mock insight 1: Key trend identified.'', VStr ''Mock insight 2: Pattern detected.'']),
        (''confidence'', VFloat (82/100))],
      VDict [(''patterns'', VList [VStr ''Mock pattern: Consistent growth.'']),
        (''implications'', VList [VStr ''Mock implication: Continued adoption expected.''])]]"

definition MOCK_EXECUTIVE_SUMMARY :: string where
  "MOCK_EXECUTIVE_SUMMARY = ''Mock executive summary: The analysis reveals significant trends across the research domain.''"

definition RESEARCH_PIPELINE_RESPONSES :: "mock_env \<Rightarrow> string list" where
  "RESEARCH_PIPELINE_RESPONSES me = map (json_dumps me) PIPELINE_VALUES @ [MOCK_EXECUTIVE_SUMMARY]"

definition mock_bullets :: "int \<Rightarrow> string" where
  "mock_bullets n = join [NL] (map (\<lambda>i. ''- Mock bullet '' @ show_nat (i + 1)) [0 ..< nat n])"

definition next_content :: "mock_env \<Rightarrow> string \<Rightarrow> mock_context \<Rightarrow> string option \<times> mock_context" where
  \<comment> \<open>the fresh id; \<open>None\<close>: no payload validates\<close>
  "next_content me uuid ctx =
     (case output_schema_var ctx of
        Some fs \<Rightarrow> (map_option (\<lambda>d. json_dumps me (VDict d)) (generate_mock_payload me fs), ctx)
      | None \<Rightarrow>
          (case plain_bullets_var ctx of
             Some n \<Rightarrow> (Some (mock_bullets n), ctx)
           | None \<Rightarrow>
               if research_index ctx < length (RESEARCH_PIPELINE_RESPONSES me)
               then (Some (RESEARCH_PIPELINE_RESPONSES me ! research_index ctx), ctx\<lparr>research_index := research_index ctx + 1\<rparr>)
               else (Some (json_dumps me (VDict [(''mock'', VBool True), (''id'', VStr uuid)])), ctx)))"

definition reset_mock_research_sequence :: "nat \<Rightarrow> mock_context \<Rightarrow> mock_context" where
  "reset_mock_research_sequence start ctx = ctx\<lparr>research_index := start\<rparr>"

definition with_output_schema :: "model_fields \<Rightarrow> (mock_context \<Rightarrow> 'a \<times> mock_context) \<Rightarrow> mock_context \<Rightarrow> 'a \<times> mock_context" where
  \<comment> \<open>\<open>mock_output_schema_context\<close> around a call\<close>
  "with_output_schema fs call ctx =
     (case call (ctx\<lparr>output_schema_var := Some fs\<rparr>) of (a, ctx') \<Rightarrow> (a, ctx'\<lparr>output_schema_var := output_schema_var ctx\<rparr>))"

definition with_plain_bullets :: "int \<Rightarrow> (mock_context \<Rightarrow> 'a \<times> mock_context) \<Rightarrow> mock_context \<Rightarrow> 'a \<times> mock_context" where
  "with_plain_bullets n call ctx =
     (case call (ctx\<lparr>plain_bullets_var := Some n\<rparr>) of (a, ctx') \<Rightarrow> (a, ctx'\<lparr>plain_bullets_var := plain_bullets_var ctx\<rparr>))"

fun research_calls :: "mock_env \<Rightarrow> string list \<Rightarrow> mock_context \<Rightarrow> string option list" where
  \<comment> \<open>the answers to consecutive calls of a thread, one for each fresh id\<close>
  "research_calls me [] ctx = []"
| "research_calls me (u # us) ctx = (case next_content me u ctx of (a, ctx') \<Rightarrow> a # research_calls me us ctx')"

section \<open>The contexts\<close>

lemma length_responses [simp]: "length (RESEARCH_PIPELINE_RESPONSES me) = 6"
  by (simp add: RESEARCH_PIPELINE_RESPONSES_def PIPELINE_VALUES_def)

text \<open>A call inside a context leaves the thread as it found it, and a schema has priority over bullets.\<close>

lemma contexts_restored:
  "snd (with_output_schema fs (next_content me u) ctx) = ctx"
  "output_schema_var ctx = None \<Longrightarrow> snd (with_plain_bullets n (next_content me u) ctx) = ctx"
  by (simp_all add: with_output_schema_def with_plain_bullets_def next_content_def)

lemma schema_answer:
  "fst (with_output_schema fs (next_content me u) ctx) = map_option (\<lambda>d. json_dumps me (VDict d)) (generate_mock_payload me fs)"
  by (simp add: with_output_schema_def next_content_def)

lemma bullets_answer:
  "output_schema_var ctx = None \<Longrightarrow> fst (with_plain_bullets n (next_content me u) ctx) = Some (mock_bullets n)"
  by (simp add: with_plain_bullets_def next_content_def)

lemma research_calls_nth:
  assumes "output_schema_var ctx = None" "plain_bullets_var ctx = None" "i < length us"
  shows "research_calls me us ctx ! i =
    Some (if research_index ctx + i < 6 then RESEARCH_PIPELINE_RESPONSES me ! (research_index ctx + i)
          else json_dumps me (VDict [(''mock'', VBool True), (''id'', VStr (us ! i))]))"
  using assms
proof (induction us arbitrary: ctx i)
  case (Cons u us)
  show ?case
  proof (cases i)
    case 0
    then show ?thesis using Cons.prems by (simp add: next_content_def)
  next
    case (Suc j)
    then show ?thesis
      using Cons.prems Cons.IH [of "snd (next_content me u ctx)" j]
      by (auto simp: next_content_def)
  qed
qed simp

section \<open>The schemas of the vertical packs\<close>

fun annotation_of :: "field_type \<Rightarrow> annotation" where
  "annotation_of (TStr lo hi) = AStr"
| "annotation_of TText = AStr"
| "annotation_of TStrList = AList (Some AStr)"
| "annotation_of TBool = ABool"
| "annotation_of TOptFloat = AUnion [AFloat, ANone]"
| "annotation_of TUnit = AFloat"
| "annotation_of (TIntRange lo hi) = AInt"
| "annotation_of TStrDict = ADict (Some (AStr, AStr))"

definition model_fields_of :: "schema \<Rightarrow> model_fields" where
  "model_fields_of s = map (\<lambda>f. (sf_name f, annotation_of (sf_type f), sf_default f)) (fields_of s)"

fun is_str :: "pyval \<Rightarrow> bool" where
  "is_str (VStr s) = True"
| "is_str _ = False"

fun conforms :: "field_type \<Rightarrow> pyval \<Rightarrow> bool" where
  "conforms (TStr lo hi) (VStr s) = (lo \<le> int (length s) \<and> int (length s) \<le> hi)"
| "conforms TText (VStr s) = True"
| "conforms TStrList (VList xs) = list_all is_str xs"
| "conforms TBool (VBool b) = True"
| "conforms TOptFloat VNone = True"
| "conforms TOptFloat (VFloat r) = True"
| "conforms TUnit (VFloat r) = (0 \<le> r \<and> r \<le> 1)"
| "conforms (TIntRange lo hi) (VInt i) = (lo \<le> i \<and> i \<le> hi)"
| "conforms TStrDict (VDict d) = list_all is_str (map snd d)"
| "conforms _ _ = False"

definition fits_schema :: "schema \<Rightarrow> pydict \<Rightarrow> bool" where
  \<comment> \<open>every field in order, of its type and range, with no blanks around texts where the schema strips them\<close>
  "fits_schema s d \<longleftrightarrow> map fst d = field_names s
     \<and> list_all2 (\<lambda>f (k, v). conforms (sf_type f) v) (fields_of s) d
     \<and> (strips s \<longrightarrow> list_all (\<lambda>t. strip t = t) (strings_of_dict d))"

definition mock_payload_of :: "schema \<Rightarrow> pydict" where
  "mock_payload_of s =
     map (\<lambda>f. (sf_name f, case sf_default f of Some v \<Rightarrow> v
       | None \<Rightarrow> (case sf_type f of
           TStr lo hi \<Rightarrow> VStr (''Mock '' @ spaced (sf_name f)) | TText \<Rightarrow> VStr (''Mock '' @ spaced (sf_name f))
         | TStrList \<Rightarrow> VList [VStr (''Mock '' @ sf_name f @ '' item'')] | TBool \<Rightarrow> VBool False
         | TOptFloat \<Rightarrow> VFloat (if sf_name f = ''confidence'' then 85/100 else 1/2)
         | TUnit \<Rightarrow> VFloat (if sf_name f = ''confidence'' then 85/100 else 1/2)
         | TIntRange lo hi \<Rightarrow> VInt 1
         | TStrDict \<Rightarrow> VDict [(''mock_section'', VStr (''Mock '' @ sf_name f @ '' content''))]))) (fields_of s)"

lemma mock_fields_schema: "mock_fields me (model_fields_of s) = Some (mock_payload_of s)"
proof -
  have "mock_fields me (map (\<lambda>f. (sf_name f, annotation_of (sf_type f), sf_default f)) fs)
      = Some (mock_payload_of \<lparr>fields_of = fs, strips = strips s\<rparr>)" for fs
  proof (induction fs)
    case (Cons f fs)
    then show ?case
      by (cases "sf_default f"; cases "sf_type f") (auto simp: mock_payload_of_def add_field_def unwrap_optional_def Let_def)
  qed (simp add: mock_payload_of_def)
  from this [of "fields_of s"] show ?thesis by (simp add: model_fields_of_def mock_payload_of_def)
qed

lemma mock_outputs_fit: "list_all (\<lambda>p. fits_schema (output_schema p) (mock_payload_of (output_schema p))) VERTICAL_PACKS"
  by code_simp

lemma mock_inputs_fit: "list_all (\<lambda>p. fits_schema (input_schema p) (mock_payload_of (input_schema p))) VERTICAL_PACKS"
  by code_simp

section \<open>Payloads are harmless\<close>

lemma ends_Lit_sub: "ends (Lit w) s i \<noteq> [] \<Longrightarrow> has_sub w (lower s)"
proof -
  assume "ends (Lit w) s i \<noteq> []"
  then have "lower (take (length w) (drop i s)) = w" by (auto split: if_splits)
  moreover have "lower s = lower (take i s) @ lower (take (length w) (drop i s)) @ lower (drop (length w) (drop i s))"
    by (metis append_take_drop_id lower_append)
  ultimately show ?thesis unfolding has_sub_iff by metis
qed

lemma ends_Cat_parts:
  assumes "ends (Cat a b) s i \<noteq> []"
  shows "ends a s i \<noteq> []" and "\<exists>j. ends b s j \<noteq> []"
  using assms by (auto simp: concat_eq_Nil_conv)

definition KEYWORDS :: "string list" where
  "KEYWORDS = [''ignore'', ''disregard'', ''neglect'', ''<'', ''system:'', ''you are now '']"

lemma suspicious_keyword:
  assumes "suspicious s"
  shows "list_ex (\<lambda>w. has_sub w (lower s)) KEYWORDS"
proof -
  have start: "has_sub w (lower s)" if "ends (Cat (Lit w) r) s i \<noteq> []" for w r i
    using ends_Lit_sub ends_Cat_parts(1) [OF that] by blast
  have later: "has_sub w (lower s)" if "ends (Cat a (Cat (Lit w) r)) s i \<noteq> []" for w r i a
    using start ends_Cat_parts(2) [OF that] by blast
  show ?thesis
    using assms
    by (auto simp: suspicious_def OUTPUT_INTEGRITY_PATTERNS_def occurs_iff KEYWORDS_def simp del: ends.simps dest!: start later)
qed

lemma mock_outputs_plain:
  "list_all (\<lambda>p. list_all (\<lambda>t. \<not> list_ex (\<lambda>w. has_sub w (lower t)) KEYWORDS)
      (strings_of_dict (mock_payload_of (output_schema p)))) VERTICAL_PACKS"
  by code_simp

lemma mock_outputs_harmless:
  assumes "p \<in> set VERTICAL_PACKS"
  shows "\<not> list_ex suspicious (strings_of_dict (mock_payload_of (output_schema p)))"
  using mock_outputs_plain assms suspicious_keyword unfolding list_all_iff list_ex_iff by blast

lemma compliant_outputs_fit:
  "list_all (\<lambda>p. fits_schema (output_schema p) (apply_compliance_output builtin_registry (vp_id p) (mock_payload_of (output_schema p))))
     VERTICAL_PACKS"
  by code_simp

lemma no_cross_checks: "list_all (\<lambda>p. \<not> policy_cross_check_enabled builtin_registry (vp_id p)) VERTICAL_PACKS"
  by code_simp

section \<open>Every pack answers with the mock provider\<close>

definition mock_llm :: "mock_env \<Rightarrow> mock_context \<Rightarrow> schema \<Rightarrow> llm" where
  \<comment> \<open>the model as the node of a structured pack calls it\<close>
  "mock_llm me ctx s prompt =
     (case fst (with_output_schema (model_fields_of s) (next_content me []) ctx) of
        None \<Rightarrow> Inl VALIDATION_ERROR
      | Some text \<Rightarrow> Inr (VStr text))"

definition accepts_fitting :: "(schema \<Rightarrow> bool \<Rightarrow> pydict \<Rightarrow> pydict option) \<Rightarrow> bool" where
  \<comment> \<open>documented of pydantic: data of the declared types and ranges passes unchanged\<close>
  "accepts_fitting mv \<longleftrightarrow> (\<forall>s strict d. fits_schema s d \<longrightarrow> mv s strict d = Some d)"

definition json_of :: "pack_env \<Rightarrow> string \<Rightarrow> pydict \<Rightarrow> bool" where
  \<comment> \<open>a JSON text of the dictionary, of a size the packs read\<close>
  "json_of env text d \<longleftrightarrow> parse_json env (strip text) = Some (VDict d) \<and> startswith ''{'' (strip text)
     \<and> utf8_length text \<le> MAX_JSON_RESPONSE_BYTES"

lemma mock_llm_eq:
  assumes "\<And>d. validated me (model_fields_of s) d = mv s False d" and "accepts_fitting mv" and "fits_schema s (mock_payload_of s)"
  shows "mock_llm me ctx s prompt = Inr (VStr (json_dumps me (VDict (mock_payload_of s))))"
  using assms by (simp add: mock_llm_def schema_answer generate_mock_payload_def checked_def mock_fields_schema accepts_fitting_def)

lemma output_fields: "list_all (\<lambda>p. 0 < length (field_names (output_schema p))) VERTICAL_PACKS"
  by code_simp

lemma vertical_facts:
  assumes "p \<in> set VERTICAL_PACKS"
  shows "fits_schema (output_schema p) (mock_payload_of (output_schema p))" and "fits_schema (input_schema p) (mock_payload_of (input_schema p))"
    and "fits_schema (output_schema p) (apply_compliance_output builtin_registry (vp_id p) (mock_payload_of (output_schema p)))"
    and "\<not> policy_cross_check_enabled builtin_registry (vp_id p)" and "field_names (output_schema p) \<noteq> []"
  using assms mock_outputs_fit mock_inputs_fit compliant_outputs_fit no_cross_checks output_fields by (auto simp: list_all_iff)

lemma parse_mock_output:
  assumes p: "p \<in> set VERTICAL_PACKS" and env: "env_policies env = builtin_registry" and mv: "accepts_fitting (validates env)"
    and j: "json_of env text (mock_payload_of (output_schema p))"
  shows "parse_llm_output env p text d llm = Inr (apply_compliance_output builtin_registry (vp_id p) (mock_payload_of (output_schema p)))"
proof -
  have "extract_json_object env text = Inr (mock_payload_of (output_schema p))"
    using j by (simp add: extract_json_object_def json_of_def)
  moreover have "non_json_prefix text = []"
    using j by (cases "strip text") (auto simp: json_of_def startswith_def non_json_prefix_def Let_def)
  then have "fst (guard_llm_output builtin_registry (vp_id p) text (mock_payload_of (output_schema p))) = Inr (mock_payload_of (output_schema p))"
    using mock_outputs_harmless [OF p] by (simp add: guard_exact) (simp add: suspicious_def)
  moreover have "validates env (output_schema p) b (apply_compliance_output builtin_registry (vp_id p) (mock_payload_of (output_schema p)))
      = Some (apply_compliance_output builtin_registry (vp_id p) (mock_payload_of (output_schema p)))" for b
    using mv vertical_facts(3) [OF p] by (simp add: accepts_fitting_def)
  ultimately show ?thesis
    by (simp add: parse_llm_output_def env raised_def model_validate_def cross_check_output_if_enabled_def vertical_facts(4) [OF p])
qed

text \<open>C19. With the mock provider and the built-in policies each of the nine vertical packs answers
  every body its input schema accepts, with or without a connector, whatever the connector
  returns or raises as an \<open>Exception\<close>, and the answer fits its output schema: the payload the
  mock builds from the schema alone passes JSON extraction, output guard, compliance fields,
  strict validation and cross-check.\<close>

theorem mock_provider_answers:
  assumes "p \<in> set VERTICAL_PACKS" and "env_policies env = builtin_registry" and "accepts_fitting (validates env)"
    and "\<And>d. validated me (model_fields_of (output_schema p)) d = validates env (output_schema p) False d"
    and "json_of env (json_dumps me (VDict (mock_payload_of (output_schema p)))) (mock_payload_of (output_schema p))"
    and "validates env (input_schema p) False body = Some input"
    and "\<And>retrieve q e. connector = Some retrieve \<Longrightarrow> retrieve q = Inl e \<Longrightarrow> isinstance e [''Exception'']"
  shows "\<exists>out. vertical_run_from_input env p (Some (mock_llm me ctx (output_schema p))) connector body = Inr out
    \<and> fits_schema (output_schema p) out"
proof -
  let ?out = "apply_compliance_output builtin_registry (vp_id p) (mock_payload_of (output_schema p))"
  have node: "node_body env p (Some (mock_llm me ctx (output_schema p))) d ref refs = Inr ?out" for d ref refs
  proof -
    have inv: "invoke_model env (mock_llm me ctx (output_schema p)) prompt = Inr (VStr (json_dumps me (VDict (mock_payload_of (output_schema p)))))"
      for prompt
      using mock_llm_eq [of me _ "validates env", OF assms(4,3) vertical_facts(1) [OF assms(1)]] by simp
    then show ?thesis
      using parse_mock_output [OF assms(1,2,3,5)] vertical_schema(1) [OF assms(1)]
      by (simp add: node_body_def inv extract_text_content_def raised_def inject_source_citations_def)
  qed
  have ref: "\<exists>r. resolve_reference_text env p connector d = Inr r" for d
  proof (cases connector)
    case (Some retrieve)
    then show ?thesis using assms(7) [OF Some, of "primary_text env p d"]
      by (cases "retrieve (primary_text env p d)") (auto simp: resolve_reference_text_def Let_def split: prod.split)
  qed (simp add: resolve_reference_text_def Let_def)
  have valid: "validates env (output_schema p) False ?out = Some ?out"
    using assms(3) vertical_facts(3) [OF assms(1)] by (auto simp: accepts_fitting_def)
  have run: "run_node env p (Some (mock_llm me ctx (output_schema p))) connector body t refs = Inr (Some ?out)" for t refs
  proof -
    obtain r where "resolve_reference_text env p connector input = Inr r" using ref by blast
    then show ?thesis by (simp add: run_node_def model_validate_def assms(6) node node_state_def)
  qed
  have "?out \<noteq> []" using vertical_facts(3,5) [OF assms(1)] by (auto simp: fits_schema_def)
  obtain r where "resolve_reference_text env p connector body = Inr r" using ref by blast
  then have "vertical_run_from_input env p (Some (mock_llm me ctx (output_schema p))) connector body = Inr ?out"
    using \<open>?out \<noteq> []\<close> by (simp add: vertical_run_from_input_def run final_output_def model_validate_def valid)
  then show ?thesis using vertical_facts(3) [OF assms(1)] by blast
qed

text \<open>The body a test sends to a pack, \<open>minimal_valid_input\<close>, is one of them.\<close>

definition memo_input :: pydict where "memo_input = mock_payload_of (input_schema financial_memo)"

definition strict_env :: pack_env where
  "strict_env = demo_env\<lparr>validates := (\<lambda>s strict d. if fits_schema s d then Some d else None),
     parse_json := (\<lambda>t. Some (VDict (mock_payload_of (output_schema financial_memo))))\<rparr>"

definition brace_env :: mock_env where
  "brace_env = \<lparr>validated = (\<lambda>fs d. if fits_schema (output_schema financial_memo) d then Some d else None),
     json_dumps = (\<lambda>v. ''{}''), local_new_year = ''2026-01-01T00:00:00Z''\<rparr>"

theorem mock_provider_answers_witness:
  "\<exists>out. vertical_run_from_input strict_env financial_memo
      (Some (mock_llm brace_env \<lparr>output_schema_var = None, plain_bullets_var = None, research_index = 0\<rparr> (output_schema financial_memo)))
      None memo_input = Inr out \<and> fits_schema (output_schema financial_memo) out"
proof (rule mock_provider_answers)
  show p: "financial_memo \<in> set VERTICAL_PACKS" by (simp add: VERTICAL_PACKS_def)
  show "env_policies strict_env = builtin_registry" by (simp add: strict_env_def demo_env_def)
  show "accepts_fitting (validates strict_env)" by (simp add: accepts_fitting_def strict_env_def)
  show "validates strict_env (input_schema financial_memo) False memo_input = Some memo_input"
    using vertical_facts(2) [OF p] by (simp add: strict_env_def memo_input_def)
  have "strip ''{}'' = ''{}''" "utf8_length ''{}'' = 2" by code_simp+
  then show "json_of strict_env (json_dumps brace_env (VDict (mock_payload_of (output_schema financial_memo))))
      (mock_payload_of (output_schema financial_memo))"
    by (simp add: json_of_def strict_env_def brace_env_def startswith_def MAX_JSON_RESPONSE_BYTES_def)
qed (simp_all add: brace_env_def strict_env_def)

section \<open>The research pipeline\<close>

text \<open>The LLM calls of a run whose research takes one round, in their order: each is named by the
  step and the system prompt of its node. A run that starts in a thread with context \<open>ctx\<close> first
  resets the thread's index (\<open>ResearchAnalysisPack.run\<close>); then the calls get the mock's answers
  one after the other.\<close>

definition PIPELINE_CALLS :: "(int \<times> string) list" where
  "PIPELINE_CALLS =
     [(1, ''You are a precise research query expander.''), (2, ''You are a strict research quality assessor.''),
      (3, ''You are a precise research summariser.''), (1, ''You are a rigorous analytical thinker.''),
      (2, ''You are a strategic pattern synthesiser.''), (3, ''You are a precise executive report writer.'')]"

definition asks_mock :: "mock_env \<Rightarrow> mock_context \<Rightarrow> agent_env \<Rightarrow> bool" where
  "asks_mock me ctx env \<longleftrightarrow>
     (\<forall>i<6. \<forall>human. ask env (fst (PIPELINE_CALLS ! i)) (snd (PIPELINE_CALLS ! i)) human =
        (case research_calls me (replicate 6 []) (reset_mock_research_sequence 0 ctx) ! i of
           None \<Rightarrow> Inl VALIDATION_ERROR | Some text \<Rightarrow> Inr (VStr text)))"

lemma mock_asks:
  assumes "asks_mock me ctx env" and "output_schema_var ctx = None" and "plain_bullets_var ctx = None"
  shows "ask env 1 ''You are a precise research query expander.'' h = Inr (VStr (json_dumps me (PIPELINE_VALUES ! 0)))"
    and "ask env 2 ''You are a strict research quality assessor.'' h = Inr (VStr (json_dumps me (PIPELINE_VALUES ! 1)))"
    and "ask env 3 ''You are a precise research summariser.'' h = Inr (VStr (json_dumps me (PIPELINE_VALUES ! 2)))"
    and "ask env 1 ''You are a rigorous analytical thinker.'' h = Inr (VStr (json_dumps me (PIPELINE_VALUES ! 3)))"
    and "ask env 2 ''You are a strategic pattern synthesiser.'' h = Inr (VStr (json_dumps me (PIPELINE_VALUES ! 4)))"
    and "ask env 3 ''You are a precise executive report writer.'' h = Inr (VStr MOCK_EXECUTIVE_SUMMARY)"
proof -
  have "research_calls me (replicate 6 []) (reset_mock_research_sequence 0 ctx) ! i = Some (RESEARCH_PIPELINE_RESPONSES me ! i)"
    if "i < 6" for i
    using research_calls_nth [of "reset_mock_research_sequence 0 ctx" i "replicate 6 []" me] that assms(2,3)
    by (simp add: reset_mock_research_sequence_def del: replicate.simps)
  then have a: "ask env (fst (PIPELINE_CALLS ! i)) (snd (PIPELINE_CALLS ! i)) h = Inr (VStr (RESEARCH_PIPELINE_RESPONSES me ! i))"
    if "i < 6" for i
    using assms(1) that by (simp add: asks_mock_def)
  note calls = PIPELINE_CALLS_def RESEARCH_PIPELINE_RESPONSES_def PIPELINE_VALUES_def
  show "ask env 1 ''You are a precise research query expander.'' h = Inr (VStr (json_dumps me (PIPELINE_VALUES ! 0)))"
    using a [of 0] by (simp add: calls)
  show "ask env 2 ''You are a strict research quality assessor.'' h = Inr (VStr (json_dumps me (PIPELINE_VALUES ! 1)))"
    using a [of 1] by (simp add: calls)
  show "ask env 3 ''You are a precise research summariser.'' h = Inr (VStr (json_dumps me (PIPELINE_VALUES ! 2)))"
    using a [of 2] by (simp add: calls)
  show "ask env 1 ''You are a rigorous analytical thinker.'' h = Inr (VStr (json_dumps me (PIPELINE_VALUES ! 3)))"
    using a [of 3] by (simp add: calls)
  show "ask env 2 ''You are a strategic pattern synthesiser.'' h = Inr (VStr (json_dumps me (PIPELINE_VALUES ! 4)))"
    using a [of 4] by (simp add: calls)
  show "ask env 3 ''You are a precise executive report writer.'' h = Inr (VStr MOCK_EXECUTIVE_SUMMARY)"
    using a [of 5] by (simp add: calls)
qed

definition mock_pipeline_env :: "mock_env \<Rightarrow> mock_context \<Rightarrow> agent_env \<Rightarrow> bool" where
  \<comment> \<open>mock provider, a search tool that answers, no connector, JSON that reads back, step budget\<close>
  "mock_pipeline_env me ctx env \<longleftrightarrow> asks_mock me ctx env \<and> output_schema_var ctx = None \<and> plain_bullets_var ctx = None
     \<and> retrieve env = None \<and> 3 \<le> max_step_count env
     \<and> (\<exists>f. web_search env = Some f \<and> (\<forall>n i s. \<not> isl (f n i s)))
     \<and> list_all (\<lambda>v. json_value env (json_dumps me v) = Some v) PIPELINE_VALUES"

lemma pipeline_json:
  assumes "mock_pipeline_env me ctx env"
  shows "json_value env (json_dumps me (PIPELINE_VALUES ! 0)) = Some (PIPELINE_VALUES ! 0)"
    and "json_value env (json_dumps me (PIPELINE_VALUES ! 1)) = Some (PIPELINE_VALUES ! 1)"
    and "json_value env (json_dumps me (PIPELINE_VALUES ! 2)) = Some (PIPELINE_VALUES ! 2)"
    and "json_value env (json_dumps me (PIPELINE_VALUES ! 3)) = Some (PIPELINE_VALUES ! 3)"
    and "json_value env (json_dumps me (PIPELINE_VALUES ! 4)) = Some (PIPELINE_VALUES ! 4)"
proof -
  have "length PIPELINE_VALUES = 5" by (simp add: PIPELINE_VALUES_def)
  then have "\<forall>i<5. json_value env (json_dumps me (PIPELINE_VALUES ! i)) = Some (PIPELINE_VALUES ! i)"
    using assms by (auto simp: mock_pipeline_env_def list_all_length)
  then show "json_value env (json_dumps me (PIPELINE_VALUES ! 0)) = Some (PIPELINE_VALUES ! 0)"
    "json_value env (json_dumps me (PIPELINE_VALUES ! 1)) = Some (PIPELINE_VALUES ! 1)"
    "json_value env (json_dumps me (PIPELINE_VALUES ! 2)) = Some (PIPELINE_VALUES ! 2)"
    "json_value env (json_dumps me (PIPELINE_VALUES ! 3)) = Some (PIPELINE_VALUES ! 3)"
    "json_value env (json_dumps me (PIPELINE_VALUES ! 4)) = Some (PIPELINE_VALUES ! 4)"
    by simp_all
qed

lemma searches_answer:
  "\<forall>i s. \<not> isl (f i s) \<Longrightarrow> \<exists>r. run_searches f k sqs = Inr r \<and> length (fst r) = length sqs"
proof (induction sqs arbitrary: k)
  case (Cons sq sqs)
  obtain t where t: "f k sq = Inr t" using Cons.prems by (metis sum.collapse(2))
  obtain r where r: "run_searches f (Suc k) sqs = Inr r" "length (fst r) = length sqs"
    using Cons.IH [OF Cons.prems] by blast
  show ?case using r by (cases r) (simp add: t)
qed simp

definition mock_research :: "agent_env \<Rightarrow> string \<Rightarrow> string list \<Rightarrow> string list \<Rightarrow> research_result" where
  "mock_research env q findings urls =
     \<lparr>rr_query = q, rr_findings = findings, rr_summary = ''Mock research summary based on findings.'', rr_sources = dedupe urls,
      rr_confidence = 85/100, rr_metadata = run_facts env @ [(''input'', VStr q)]\<rparr>"

lemma mock_research_run:
  assumes e: "mock_pipeline_env me ctx env" and q: "\<not> blank q" "validate (query_validator env) q = Inr q'"
  shows "\<exists>findings urls. run_structured env q = Inr (mock_research env q' findings urls) \<and> length findings = 3"
proof -
  obtain f where f: "web_search env = Some f" "\<forall>n i s. \<not> isl (f n i s)" and r: "retrieve env = None" and m: "3 \<le> max_step_count env"
    using e by (auto simp: mock_pipeline_env_def)
  have a: "asks_mock me ctx env" "output_schema_var ctx = None" "plain_bullets_var ctx = None"
    using e by (simp_all add: mock_pipeline_env_def)
  note asks = mock_asks [OF a]
  note j = pipeline_json [OF e]
  define sqs where "sqs = take 3 (sub_queries env q' (json_dumps me (PIPELINE_VALUES ! 0)))"
  have "length sqs = 3" unfolding sqs_def sub_queries_def j(1) by (simp add: PIPELINE_VALUES_def)
  then obtain found urls where s: "run_searches (f 1) 0 sqs = Inr (found, urls)" "length found = 3"
    using searches_answer [of "f 1" 0 sqs] f(2) by fastforce
  define st1 where "st1 = with_findings (make_initial_state env q') 1 (found, urls) ([], [], [])"
  have n1: "node_research env (make_initial_state env q') = Inr st1"
  proof -
    have "next_step env 0 = Inr 1" using m by (simp add: next_step_Inr)
    then show ?thesis
      using s(1) by (simp add: node_research_def make_initial_state_def asks extract_text_content_def raised_def f(1)
          sqs_def [symmetric] fetch_connector_records_def r st1_def)
  qed
  define st2 where "st2 = st1\<lparr>rs_steps := 2, rs_validation := Some (True, VStr ''Mock validation passed.'')\<rparr>"
  have as: "assessment env (VStr (json_dumps me (PIPELINE_VALUES ! 1))) = (True, VStr ''Mock validation passed.'')"
    by (simp add: assessment_def extract_text_content_def j(2) Let_def del: One_nat_def) (simp add: PIPELINE_VALUES_def dget_or_def)
  have n2: "node_validate env st1 = Inr st2"
  proof -
    have "next_step env 1 = Inr 2" using m by (simp add: next_step_Inr)
    moreover have "rs_steps st1 = 1" "rs_findings st1 \<noteq> []"
      using s(2) by (auto simp: st1_def with_findings_def make_initial_state_def)
    ultimately show ?thesis by (simp add: node_validate_def asks as sliceable_def st2_def del: One_nat_def)
  qed
  have so: "summary_of env (VStr (json_dumps me (PIPELINE_VALUES ! 2))) = Inr (VStr ''Mock research summary based on findings.'', 85/100)"
    by (simp add: summary_of_def extract_text_content_def j(3)) (simp add: PIPELINE_VALUES_def dget_or_def py_float_def)
  have n3: "\<exists>st3. node_summarize env st2 = Inr st3 \<and> rs_result st3 = Some (mock_research env q' found urls)"
  proof -
    have "next_step env 2 = Inr 3" using m by (simp add: next_step_Inr)
    moreover have "rs_steps st2 = 2" by (simp add: st2_def)
    ultimately show ?thesis
      by (simp add: node_summarize_def asks so as_text_def clamp_def)
        (simp add: st2_def st1_def with_findings_def make_initial_state_def mock_research_def)
  qed
  have "route_after_validate env st2 = ''summarize''" by (simp add: route_after_validate_def st2_def)
  then have "research_graph env (make_initial_state env q') = node_summarize env st2"
    by (subst research_graph.simps) (simp add: n1 n2)
  then obtain st3 where "research_execute env q = Inr st3" "rs_result st3 = Some (mock_research env q' found urls)"
    using n3 q by (auto simp: research_execute_def raised_def invoke_graph_def)
  then show ?thesis using s(2) by (auto simp: run_structured_def)
qed

definition mock_report :: "agent_env \<Rightarrow> string \<Rightarrow> analysis_report" where
  "mock_report env q =
     \<lparr>ar_query = q, ar_executive_summary = MOCK_EXECUTIVE_SUMMARY,
      ar_key_insights = [''Mock insight 1: Key trend identified.'', ''Mock insight 2: Pattern detected.''],
      ar_patterns = [''Mock pattern: Consistent growth.''], ar_implications = [''Mock implication: Continued adoption expected.''],
      ar_confidence = 82/100, ar_research_summary = ''Mock research summary based on findings.'',
      ar_metadata = run_facts env @ [(''input'', VStr q)]\<rparr>"

lemma strip_executive: "strip MOCK_EXECUTIVE_SUMMARY = MOCK_EXECUTIVE_SUMMARY"
  by code_simp

lemma mock_analyst_run:
  assumes e: "mock_pipeline_env me ctx env" and q: "\<not> blank q" "validate (query_validator env) q = Inr q"
  shows "analyst_run_structured env (mock_research env q fs us) = Inr (mock_report env q)"
proof -
  have a: "asks_mock me ctx env" "output_schema_var ctx = None" "plain_bullets_var ctx = None" and m: "3 \<le> max_step_count env"
    using e by (simp_all add: mock_pipeline_env_def)
  note asks = mock_asks [OF a]
  note j = pipeline_json [OF e]
  have steps: "next_step env 0 = Inr 1" "next_step env 1 = Inr 2" "next_step env 2 = Inr 3" using m by (simp_all add: next_step_Inr)
  define st0 where "st0 = initial_analysis env q (mock_research env q fs us)"
  have st0: "as_steps st0 = 0" by (simp add: st0_def initial_analysis_def)
  have i1: "insights_of env (VStr (json_dumps me (PIPELINE_VALUES ! 3)))
      = (VList [VStr ''Mock insight 1: Key trend identified.'', VStr ''Mock insight 2: Pattern detected.''], 82/100)"
    unfolding insights_of_def json_dict_def extract_text_content_def
    by (simp add: j(4) Let_def) (simp add: PIPELINE_VALUES_def dget_or_def py_float_def)
  define st1 where "st1 = st0\<lparr>as_steps := 1,
      as_insights := VList [VStr ''Mock insight 1: Key trend identified.'', VStr ''Mock insight 2: Pattern detected.''],
      as_confidence := 82/100\<rparr>"
  have n1: "node_analyze env st0 = Inr st1"
    by (simp add: node_analyze_def st0 steps asks i1 sized_def st1_def)
  have i2: "patterns_of env (VStr (json_dumps me (PIPELINE_VALUES ! 4)))
      = (VList [VStr ''Mock pattern: Consistent growth.''], VList [VStr ''Mock implication: Continued adoption expected.''])"
    unfolding patterns_of_def json_dict_def extract_text_content_def
    by (simp add: j(5)) (simp add: PIPELINE_VALUES_def dget_or_def)
  define st2 where "st2 = st1\<lparr>as_steps := 2, as_patterns := VList [VStr ''Mock pattern: Consistent growth.''],
      as_implications := VList [VStr ''Mock implication: Continued adoption expected.'']\<rparr>"
  have "as_steps st1 = 1" by (simp add: st1_def)
  then have n2: "node_synthesize env st1 = Inr st2"
    by (simp add: node_synthesize_def steps asks i2 sized_def st2_def del: One_nat_def)
  have f2: "as_steps st2 = 2" "as_insights st2 = VList [VStr ''Mock insight 1: Key trend identified.'', VStr ''Mock insight 2: Pattern detected.'']"
    "as_patterns st2 = VList [VStr ''Mock pattern: Consistent growth.'']"
    "as_implications st2 = VList [VStr ''Mock implication: Continued adoption expected.'']"
    "as_confidence st2 = 82/100" "as_research st2 = mock_research env q fs us" "as_metadata st2 = run_facts env @ [(''input'', VStr q)]"
    by (simp_all add: st2_def st1_def st0_def initial_analysis_def)
  have "\<exists>top. joined 5 (as_insights st2) = Inr top" "\<exists>trends. joined 3 (as_patterns st2) = Inr trends"
    unfolding f2 by (simp_all add: joined_def)
  then obtain top trends where jo: "joined 5 (as_insights st2) = Inr top" "joined 3 (as_patterns st2) = Inr trends" by blast
  have "\<exists>st3. node_report env st2 = Inr st3 \<and> as_report st3 = Some (mock_report env q)"
    unfolding node_report_def f2(1) steps rbind_simps f2 jo [unfolded f2]
    by (simp add: asks extract_text_content_def raised_def as_texts_def strip_executive mock_report_def mock_research_def clamp_def Let_def)
  then obtain st3 where n3: "node_report env st2 = Inr st3" "as_report st3 = Some (mock_report env q)" by blast
  then have "analysis_graph env st0 = Inr st3" by (simp add: analysis_graph_def n1 n2)
  moreover have "rr_query (mock_research env q fs us) = q" by (simp add: mock_research_def)
  ultimately show ?thesis
    using q n3(2) by (simp add: research_roundtrip analyst_run_structured_def analyst_execute_def raised_def invoke_graph_def st0_def)
qed

text \<open>The six answers of the mock provider drive the research and analysis pack to the end,
  whatever the index of the thread was before: for every question that passes validation, when
  the search tool answers, there is no connector and the budget allows three steps, the run
  returns the one report they spell out, with the question and the run's metadata in it.\<close>

theorem mock_pipeline_report:
  assumes "mock_pipeline_env me ctx env" and "\<not> blank q" and "validate (query_validator env) (strip q) = Inr q'"
  shows "research_analysis_run env (Inr ()) (Inr ()) None q = Inr (mock_report env q')"
proof -
  have v: "validate (query_validator env) q' = Inr q'" "strip q' = q'" using validate_safe [OF assms(3)] by blast+
  have "strip q \<noteq> []" using assms(2) by (simp add: blank_iff)
  then have "collapse_newlines (strip (strip q)) \<noteq> []" using collapse_hd [of "strip q"] by simp
  then have b: "\<not> blank (strip q)" "\<not> blank q'"
    using assms(2,3) v(2) by (auto simp: blank_iff validate_eq split: if_splits)
  obtain fs us where r: "run_structured env (strip q) = Inr (mock_research env q' fs us)"
    using mock_research_run [OF assms(1) b(1) assms(3)] by blast
  have "analyst_run_structured env (mock_research env q' fs us) = Inr (mock_report env q')"
    by (rule mock_analyst_run [OF assms(1) b(2) v(1)])
  then show ?thesis
    using assms(2) r
    by (simp add: research_analysis_run_def research_analysis_graph_def pipeline_research_node_def pipeline_analysis_node_def
        pack_node_def pack_final_def)
qed

definition demo_mock :: mock_env where
  \<comment> \<open>texts that tell the five answers apart\<close>
  "demo_mock = \<lparr>validated = (\<lambda>fs d. Some d),
     json_dumps = (\<lambda>v. case find (\<lambda>i. PIPELINE_VALUES ! i = v) [0 ..< 5] of None \<Rightarrow> [] | Some i \<Rightarrow> show_nat i),
     local_new_year = []\<rparr>"

definition demo_pipeline_env :: agent_env where
  "demo_pipeline_env = (demo_agent 3)\<lparr>ask := (\<lambda>n system human.
       case find (\<lambda>i. PIPELINE_CALLS ! i = (n, system)) [0 ..< 6] of None \<Rightarrow> Inl VALIDATION_ERROR
       | Some i \<Rightarrow> Inr (VStr (RESEARCH_PIPELINE_RESPONSES demo_mock ! i))),
     json_value := (\<lambda>t. case find (\<lambda>i. show_nat i = t) [0 ..< 5] of None \<Rightarrow> None | Some i \<Rightarrow> Some (PIPELINE_VALUES ! i))\<rparr>"

definition used_thread :: mock_context where
  "used_thread = \<lparr>output_schema_var = None, plain_bullets_var = None, research_index = 4\<rparr>"

lemma demo_pipeline_ok: "mock_pipeline_env demo_mock used_thread demo_pipeline_env"
proof -
  have "list_all (\<lambda>v. json_value demo_pipeline_env (json_dumps demo_mock v) = Some v) PIPELINE_VALUES" by code_simp
  moreover have "asks_mock demo_mock used_thread demo_pipeline_env"
  proof -
    have r: "research_calls demo_mock (replicate 6 []) (reset_mock_research_sequence 0 used_thread) ! i
        = Some (RESEARCH_PIPELINE_RESPONSES demo_mock ! i)" if "i < 6" for i
      using research_calls_nth [of "reset_mock_research_sequence 0 used_thread" i "replicate 6 []" demo_mock] that
      by (simp add: reset_mock_research_sequence_def used_thread_def del: replicate.simps)
    have "list_all (\<lambda>i. find (\<lambda>k. PIPELINE_CALLS ! k = (fst (PIPELINE_CALLS ! i), snd (PIPELINE_CALLS ! i))) [0 ..< 6] = Some i) [0 ..< 6]"
      by code_simp
    then show ?thesis by (auto simp: asks_mock_def demo_pipeline_env_def r list_all_iff)
  qed
  ultimately show ?thesis by (simp add: mock_pipeline_env_def demo_pipeline_env_def demo_agent_def used_thread_def)
qed

theorem mock_pipeline_report_witness:
  "research_analysis_run demo_pipeline_env (Inr ()) (Inr ()) None '' Why? '' = Inr (mock_report demo_pipeline_env ''Why?'')"
proof (rule mock_pipeline_report [OF demo_pipeline_ok])
  show "\<not> blank '' Why? ''" "validate (query_validator demo_pipeline_env) (strip '' Why? '') = Inr ''Why?''" by code_simp+
qed

section \<open>What the payloads do not look at\<close>

text \<open>The bounds of a field: a payload for an integer between 2 and 5 is 1. None of the packs has
  such a field, see \<open>mock_outputs_fit\<close>.\<close>

lemma mock_ignores_bounds:
  "\<not> fits_schema \<lparr>fields_of = [req ''urgency'' (TIntRange 2 5)], strips = False\<rparr>
     (mock_payload_of \<lparr>fields_of = [req ''urgency'' (TIntRange 2 5)], strips = False\<rparr>)"
  by code_simp

text \<open>An element type that is neither text nor a model: the item is a text all the same.\<close>

lemma mock_list_of_int: "fake_scalar me ''scores'' (AList (Some AInt)) = Some (VList [VStr ''Mock scores item''])"
  by (simp add: unwrap_optional_def)

end
