(* ===== verification/Examples.thy ===== *)
theory Examples
  imports Research
begin

text \<open>
  The example graphs (\<open>examples/\<close>): sequential, parallel, supervisor, human in the loop. The chat
  model gets the number of the call and the messages, so it may answer the same messages
  differently. LangGraph runs the nodes along the edges; its limit on supersteps is an argument.
\<close>

section \<open>Chat models\<close>

datatype message = SystemMessage string | HumanMessage string | AIMessage string

type_synonym chat = "nat \<Rightarrow> message list \<Rightarrow> llm_exc + pyval"

definition reply :: "(pyval \<Rightarrow> string) \<Rightarrow> chat \<Rightarrow> nat \<Rightarrow> string \<Rightarrow> string \<Rightarrow> llm_exc + string" where
  \<comment> \<open>\<open>str(llm.invoke([SystemMessage(...), HumanMessage(...)]).content)\<close>\<close>
  "reply rend llm i system human = map_sum id (py_str rend) (llm i [SystemMessage system, HumanMessage human])"

section \<open>Sequential\<close>

record sequential_state =
  sq_query :: string
  sq_research_output :: string
  sq_analysis_output :: string
  sq_messages :: "message list"

definition research_node :: "(pyval \<Rightarrow> string) \<Rightarrow> chat \<Rightarrow> sequential_state \<Rightarrow> llm_exc + sequential_state" where
  \<comment> \<open>the update, whose messages the reducer appends\<close>
  "research_node rend llm st =
     (let system = ''You are a thorough research assistant. Given a topic, produce a ''
            @ ''structured information brief covering: key concepts, current state of ''
            @ ''the art, main challenges, and notable examples. Be factual and concise.'';
          human = ''Research the following topic in depth:'' @ [NL, NL] @ sq_query st
      in rbind (reply rend llm 0 system human) (\<lambda>text.
           Inr \<lparr>sq_query = sq_query st, sq_research_output = text, sq_analysis_output = [],
                sq_messages = [HumanMessage human, AIMessage text]\<rparr>))"

definition analyze_node :: "(pyval \<Rightarrow> string) \<Rightarrow> chat \<Rightarrow> sequential_state \<Rightarrow> llm_exc + sequential_state" where
  "analyze_node rend llm st =
     (let system = ''You are a senior analyst. Given a research brief, produce a rigorous ''
            @ ''analysis that includes: key insights, implications, trade-offs, ''
            @ ''recommendations, and open questions. Use clear structure.'';
          human = ''Original question: '' @ sq_query st @ [NL, NL] @ ''Research brief:'' @ [NL] @ sq_research_output st @ [NL, NL]
            @ ''Provide a strategic analysis of these findings.''
      in rbind (reply rend llm 1 system human) (\<lambda>text.
           Inr \<lparr>sq_query = sq_query st, sq_research_output = sq_research_output st, sq_analysis_output = text,
                sq_messages = [HumanMessage human, AIMessage text]\<rparr>))"

definition apply_update :: "sequential_state \<Rightarrow> sequential_state \<Rightarrow> sequential_state" where
  "apply_update st up = up\<lparr>sq_messages := sq_messages st @ sq_messages up\<rparr>"

definition sequential_graph :: "(pyval \<Rightarrow> string) \<Rightarrow> chat \<Rightarrow> sequential_state \<Rightarrow> llm_exc + sequential_state" where
  "sequential_graph rend llm st =
     rbind (research_node rend llm st) (\<lambda>up.
       let st1 = apply_update st up in
       rbind (analyze_node rend llm st1) (\<lambda>up'. Inr (apply_update st1 up')))"

section \<open>Parallel\<close>

type_synonym branch = "(string \<times> string) list"   \<comment> \<open>the dictionary a node is called with\<close>

definition KEY_ERROR :: llm_exc where
  "KEY_ERROR = Exc [''KeyError'', ''LookupError'', ''Exception''] None None None None"

definition item :: "branch \<Rightarrow> string \<Rightarrow> llm_exc + string" where
  "item st k = (case map_of st k of None \<Rightarrow> Inl KEY_ERROR | Some v \<Rightarrow> Inr v)"

record parallel_state =
  pl_query :: string
  pl_analyses :: "string list"
  pl_final_report :: string

definition fan_out_node :: "parallel_state \<Rightarrow> branch list" where
  \<comment> \<open>one \<open>Send\<close> to \<open>analyst_node\<close> each\<close>
  "fan_out_node st =
     [[(''query'', pl_query st), (''role'', ''Technology Analyst''),
       (''focus'', ''technical feasibility, architectural patterns, tooling ecosystem, and engineering trade-offs'')],
      [(''query'', pl_query st), (''role'', ''Market Analyst''),
       (''focus'', ''market adoption, competitive landscape, business drivers, and growth trends'')],
      [(''query'', pl_query st), (''role'', ''Risk Analyst''),
       (''focus'', ''operational risks, security concerns, compliance requirements, and mitigation strategies'')]]"

definition analyst_node :: "(pyval \<Rightarrow> string) \<Rightarrow> chat \<Rightarrow> nat \<Rightarrow> branch \<Rightarrow> llm_exc + string list" where
  "analyst_node rend llm i st =
     rbind (item st ''role'') (\<lambda>role. rbind (item st ''focus'') (\<lambda>focus. rbind (item st ''query'') (\<lambda>q.
       rbind (reply rend llm i
           (''You are a '' @ role @ ''. Analyse the given topic from the perspective of '' @ focus
             @ ''. Structure your analysis with clear sections. Be specific, evidence-based, and actionable.'')
           (''Topic: '' @ q @ [NL, NL] @ ''Provide a focused '' @ role @ '' analysis.''))
         (\<lambda>text. Inr [''## '' @ role @ [NL, NL] @ text]))))"

definition consolidate_node :: "(pyval \<Rightarrow> string) \<Rightarrow> chat \<Rightarrow> nat \<Rightarrow> parallel_state \<Rightarrow> llm_exc + parallel_state" where
  "consolidate_node rend llm i st =
     rbind (reply rend llm i
         (''You are a chief strategy officer. You receive three specialist analyses ''
           @ ''(technology, market, and risk) on the same topic. Synthesise them into ''
           @ ''a cohesive executive report that: highlights cross-cutting themes, ''
           @ ''reconciles conflicting views, and ends with prioritised recommendations.'')
         (''Topic: '' @ pl_query st @ [NL, NL] @ ''Specialist analyses:'' @ [NL, NL]
           @ join [NL, NL, CHR ''-'', CHR ''-'', CHR ''-'', NL, NL] (pl_analyses st) @ [NL, NL]
           @ ''Produce the consolidated executive report.''))
       (\<lambda>text. Inr (st\<lparr>pl_final_report := text\<rparr>))"

fun branches :: "(pyval \<Rightarrow> string) \<Rightarrow> chat \<Rightarrow> nat \<Rightarrow> branch list \<Rightarrow> llm_exc + string list" where
  "branches rend llm i [] = Inr []"
| "branches rend llm i (b # bs) =
     rbind (analyst_node rend llm i b) (\<lambda>xs. rbind (branches rend llm (i + 1) bs) (\<lambda>ys. Inr (xs @ ys)))"

definition as_branch :: "parallel_state \<Rightarrow> branch" where
  \<comment> \<open>the keys of the graph's own state; \<open>analyses\<close> is a list, which no node looks up here\<close>
  "as_branch st = [(''query'', pl_query st), (''analyses'', []), (''final_report'', pl_final_report st)]"

datatype sends = Rejected llm_exc | Ignored | Dispatched
  \<comment> \<open>what LangGraph makes of a node that returns a list of \<open>Send\<close>\<close>

definition parallel_graph :: "sends \<Rightarrow> (pyval \<Rightarrow> string) \<Rightarrow> chat \<Rightarrow> parallel_state \<Rightarrow> llm_exc + parallel_state" where
  \<comment> \<open>\<open>fan_out\<close> is a node, and a plain edge leads from it to \<open>analyst_node\<close>\<close>
  "parallel_graph how rend llm st =
     (case how of
        Rejected e \<Rightarrow> Inl e
      | _ \<Rightarrow>
          rbind (branches rend llm 0 ((if how = Dispatched then fan_out_node st else []) @ [as_branch st])) (\<lambda>found.
            consolidate_node rend llm (length found) (st\<lparr>pl_analyses := pl_analyses st @ found\<rparr>)))"

section \<open>Supervisor\<close>

record supervisor_state =
  sv_query :: string
  sv_next_agent :: string
  sv_agent_output :: string
  sv_messages :: "message list"

definition AGENTS :: "string list" where "AGENTS = [''research'', ''code'', ''data'']"

definition SUPERVISOR_SYSTEM :: string where
  "SUPERVISOR_SYSTEM =
     ''You are a supervisor that routes user queries to the correct specialist agent.'' @ [NL, NL]
     @ ''Available agents:'' @ [NL]
     @ ''- research: answers factual questions, explains concepts, summarises information'' @ [NL]
     @ ''- code: writes, reviews, or debugs code; explains algorithms'' @ [NL]
     @ ''- data: analyses datasets, creates SQL queries, interprets statistics'' @ [NL, NL]
     @ ''Return a JSON object with exactly one key \"next\":'' @ [NL]
     @ ''- Set \"next\" to the name of the most appropriate agent for the current query.'' @ [NL]
     @ ''- Set \"next\" to \"FINISH\" if the query has been fully answered by the previous agent output.'' @ [NL, NL]
     @ ''Previous agent output (if any) is included in the conversation history.'' @ [NL]
     @ ''Respond ONLY with the JSON object, no other text.''"

definition decision_of :: "(string \<Rightarrow> pyval option) \<Rightarrow> string \<Rightarrow> string" where
  \<comment> \<open>\<open>decision.get("next", "FINISH")\<close>, with everything unusable turned into \<open>FINISH\<close>\<close>
  "decision_of parse raw =
     (case parse (strip raw) of
        Some (VDict d) \<Rightarrow>
          (case dget_or d ''next'' (VStr ''FINISH'') of
             VStr s \<Rightarrow> if s \<in> set AGENTS then s else ''FINISH''
           | _ \<Rightarrow> ''FINISH'')
      | _ \<Rightarrow> ''FINISH'')"

definition supervisor_node ::
  "(pyval \<Rightarrow> string) \<Rightarrow> (string \<Rightarrow> pyval option) \<Rightarrow> chat \<Rightarrow> nat \<Rightarrow> supervisor_state \<Rightarrow> llm_exc + supervisor_state" where
  "supervisor_node rend parse llm i st =
     (let history = (if sv_messages st = [] then [HumanMessage (sv_query st)] else sv_messages st) in
      rbind (llm i (SystemMessage SUPERVISOR_SYSTEM # history)) (\<lambda>content.
        Inr (st\<lparr>sv_next_agent := decision_of parse (py_str rend content)\<rparr>)))"

definition persona :: "string \<Rightarrow> string" where
  "persona role =
     (if role = ''research'' then
        ''You are a senior research analyst. Answer the query with thorough, ''
        @ ''well-structured information. Cite key concepts and provide context.''
      else if role = ''code'' then
        ''You are an expert software engineer. Provide clean, well-commented code ''
        @ ''or a clear technical explanation as appropriate. Follow best practices.''
      else
        ''You are a data scientist and SQL expert. Provide rigorous analysis, ''
        @ ''SQL queries, or statistical interpretations with clear explanations.'')"

definition upper_role :: "string \<Rightarrow> string" where
  "upper_role role = (if role = ''research'' then ''RESEARCH'' else if role = ''code'' then ''CODE'' else ''DATA'')"

definition specialist_node ::
  "string \<Rightarrow> (pyval \<Rightarrow> string) \<Rightarrow> chat \<Rightarrow> nat \<Rightarrow> supervisor_state \<Rightarrow> llm_exc + supervisor_state" where
  "specialist_node role rend llm i st =
     (let human = (if sv_agent_output st = [] then sv_query st
            else ''Original query: '' @ sv_query st @ [NL, NL] @ ''Prior agent output:'' @ [NL] @ sv_agent_output st @ [NL, NL]
              @ ''Continue or refine the answer based on the above.'')
      in rbind (reply rend llm i (persona role) human) (\<lambda>text.
           Inr (st\<lparr>sv_agent_output := text,
                   sv_messages := sv_messages st
                     @ [HumanMessage (''['' @ upper_role role @ '' AGENT] '' @ human), AIMessage text]\<rparr>)))"

definition route_after_supervisor :: "supervisor_state \<Rightarrow> string" where
  "route_after_supervisor st = sv_next_agent st"

definition RECURSION_ERROR :: llm_exc where
  "RECURSION_ERROR = Exc [''GraphRecursionError'', ''RecursionError'', ''RuntimeError'', ''Exception''] None None None None"

fun supervisor_run ::
  "(pyval \<Rightarrow> string) \<Rightarrow> (string \<Rightarrow> pyval option) \<Rightarrow> chat \<Rightarrow> nat \<Rightarrow> nat \<Rightarrow> supervisor_state \<Rightarrow> llm_exc + supervisor_state" where
  \<comment> \<open>the supersteps left, the calls so far; one superstep per node\<close>
  "supervisor_run rend parse llm 0 i st = Inl RECURSION_ERROR"
| "supervisor_run rend parse llm (Suc k) i st =
     rbind (supervisor_node rend parse llm i st) (\<lambda>st1.
       if route_after_supervisor st1 = ''FINISH'' then Inr st1
       else (case k of
          0 \<Rightarrow> Inl RECURSION_ERROR
        | Suc k' \<Rightarrow> rbind (specialist_node (route_after_supervisor st1) rend llm (i + 1) st1)
            (supervisor_run rend parse llm k' (i + 2))))"

definition supervisor_start :: "string \<Rightarrow> supervisor_state" where
  \<comment> \<open>the input of the script\<close>
  "supervisor_start q = \<lparr>sv_query = q, sv_next_agent = [], sv_agent_output = [], sv_messages = [HumanMessage q]\<rparr>"

definition routed_to :: "supervisor_state \<Rightarrow> string" where
  \<comment> \<open>what the script prints\<close>
  "routed_to st = (if sv_next_agent st = [] then ''FINISH'' else sv_next_agent st)"

section \<open>Human in the loop\<close>

record hil_state =
  hl_query :: string
  hl_proposed_action :: string
  hl_human_approved :: bool
  hl_result :: string

definition plan_node :: "(pyval \<Rightarrow> string) \<Rightarrow> chat \<Rightarrow> nat \<Rightarrow> hil_state \<Rightarrow> llm_exc + hil_state" where
  "plan_node rend llm i st =
     rbind (reply rend llm i
         (''You are an intelligent automation agent. The user gives you a task. ''
           @ ''Your job is to propose a single, specific, concrete action to fulfil it. ''
           @ ''Describe the action precisely: what will be done, what data will be changed, ''
           @ ''and what the expected outcome is. Be explicit about any side effects.'')
         (hl_query st))
       (\<lambda>text. Inr (st\<lparr>hl_proposed_action := text\<rparr>))"

definition approval_node :: "pyval \<Rightarrow> hil_state \<Rightarrow> llm_exc + hil_state" where
  \<comment> \<open>with the value of \<open>Command(resume=...)\<close>\<close>
  "approval_node human_response st =
     (case human_response of
        VDict d \<Rightarrow> Inr (st\<lparr>hl_human_approved := truthy (dget_or d ''approved'' (VBool False))\<rparr>)
      | _ \<Rightarrow> Inl (Exc [''AttributeError'', ''Exception''] None None None None))"

definition route_after_approval :: "hil_state \<Rightarrow> string" where
  "route_after_approval st = (if hl_human_approved st then ''execute'' else ''reject'')"

definition execute_node :: "(pyval \<Rightarrow> string) \<Rightarrow> chat \<Rightarrow> nat \<Rightarrow> hil_state \<Rightarrow> llm_exc + hil_state" where
  "execute_node rend llm i st =
     rbind (reply rend llm i
         (''You are an execution engine. The following action has been reviewed and ''
           @ ''approved by a human operator. Simulate its execution and report the outcome ''
           @ ''in detail, including any confirmation identifiers, timestamps, or affected ''
           @ ''records. Treat this as a successful dry-run.'')
         (''Execute the following approved action:'' @ [NL, NL] @ hl_proposed_action st))
       (\<lambda>text. Inr (st\<lparr>hl_result := text\<rparr>))"

definition rejection_node :: "hil_state \<Rightarrow> hil_state" where
  "rejection_node st = st\<lparr>hl_result := ''Action rejected by human operator. No changes were made to any system.''\<rparr>"

text \<open>A thread as the checkpointer holds it: the node that is to run next, with the state. What a
  caller sends is an input, \<open>Command(resume=v)\<close> or \<open>None\<close>; inputs that rewrite the state of a
  suspended thread (\<open>update\<close>, \<open>goto\<close>) and overlapping calls are left out. LangGraph starts an
  input at \<open>plan\<close>, also over an earlier run; otherwise it runs the pending node, again if it
  failed before, and only \<open>approval\<close> looks at the resume value, or interrupts again without one.\<close>

datatype hil_node = Plan | Approval | Execute

datatype hil_thread = Fresh | Pending hil_node hil_state | Finished hil_state

datatype hil_message = Input hil_state | Resume pyval | Continue

datatype hil_event = Proposed string | Decided pyval | Ignored pyval | Executed string | Refused

record hil =
  hl_thread :: hil_thread
  hl_calls :: nat
  hl_log :: "hil_event list"              \<comment> \<open>what happened, the latest first\<close>

definition approves :: "pyval \<Rightarrow> bool" where
  "approves v = (case v of VDict d \<Rightarrow> truthy (dget_or d ''approved'' (VBool False)) | _ \<Rightarrow> False)"

definition run_plan :: "(pyval \<Rightarrow> string) \<Rightarrow> chat \<Rightarrow> hil_state \<Rightarrow> hil \<Rightarrow> hil" where
  "run_plan rend llm st h =
     (case plan_node rend llm (hl_calls h) st of
        Inr st1 \<Rightarrow> \<lparr>hl_thread = Pending Approval st1, hl_calls = hl_calls h + 1,
          hl_log = Proposed (hl_proposed_action st1) # hl_log h\<rparr>
      | Inl e \<Rightarrow> h\<lparr>hl_thread := Pending Plan st, hl_calls := hl_calls h + 1\<rparr>)"

definition run_execute :: "(pyval \<Rightarrow> string) \<Rightarrow> chat \<Rightarrow> hil_state \<Rightarrow> hil \<Rightarrow> hil" where
  "run_execute rend llm st h =
     (case execute_node rend llm (hl_calls h) st of
        Inr st1 \<Rightarrow> \<lparr>hl_thread = Finished st1, hl_calls = hl_calls h + 1, hl_log = Executed (hl_proposed_action st) # hl_log h\<rparr>
      | Inl e \<Rightarrow> h\<lparr>hl_thread := Pending Execute st, hl_calls := hl_calls h + 1\<rparr>)"

definition run_approval :: "(pyval \<Rightarrow> string) \<Rightarrow> chat \<Rightarrow> pyval \<Rightarrow> hil_state \<Rightarrow> hil \<Rightarrow> hil" where
  "run_approval rend llm v st h =
     (case approval_node v st of
        Inl e \<Rightarrow> h
      | Inr st1 \<Rightarrow>
          if route_after_approval st1 = ''execute'' then run_execute rend llm st1 (h\<lparr>hl_log := Decided v # hl_log h\<rparr>)
          else h\<lparr>hl_thread := Finished (rejection_node st1), hl_log := Refused # Decided v # hl_log h\<rparr>)"

fun hil_send :: "(pyval \<Rightarrow> string) \<Rightarrow> chat \<Rightarrow> hil_message \<Rightarrow> hil \<Rightarrow> hil" where
  "hil_send rend llm (Input st) h = run_plan rend llm st h"
| "hil_send rend llm (Resume v) h =
     (case hl_thread h of
        Pending Plan st \<Rightarrow> run_plan rend llm st (h\<lparr>hl_log := Ignored v # hl_log h\<rparr>)
      | Pending Approval st \<Rightarrow> run_approval rend llm v st h
      | Pending Execute st \<Rightarrow> run_execute rend llm st (h\<lparr>hl_log := Ignored v # hl_log h\<rparr>)
      | _ \<Rightarrow> h)"
| "hil_send rend llm Continue h =
     (case hl_thread h of
        Pending Plan st \<Rightarrow> run_plan rend llm st h
      | Pending Execute st \<Rightarrow> run_execute rend llm st h
      | _ \<Rightarrow> h)"

definition hil_session :: "(pyval \<Rightarrow> string) \<Rightarrow> chat \<Rightarrow> hil_message list \<Rightarrow> hil" where
  "hil_session rend llm msgs = fold (hil_send rend llm) msgs \<lparr>hl_thread = Fresh, hl_calls = 0, hl_log = []\<rparr>"

section \<open>Nothing is executed without approval\<close>

fun approved :: "string \<Rightarrow> hil_event list \<Rightarrow> bool" where
  \<comment> \<open>the action was proposed last and then approved, with only ignored resumes since\<close>
  "approved a (Ignored v # evs) = approved a evs"
| "approved a (Decided v # Proposed b # evs) = (a = b \<and> approves v)"
| "approved a _ = False"

fun justified :: "hil_event list \<Rightarrow> bool" where
  "justified [] = True"
| "justified (Executed a # evs) = (approved a evs \<and> justified evs)"
| "justified (Refused # evs) = ((\<exists>v evs'. evs = Decided v # evs' \<and> \<not> approves v) \<and> justified evs)"
| "justified (_ # evs) = justified evs"

lemma approval_Inr:
  "approval_node v st = Inr st1 \<Longrightarrow> st1 = st\<lparr>hl_human_approved := approves v\<rparr>"
  by (auto simp: approval_node_def approves_def split: pyval.splits)

lemma route_execute: "route_after_approval st = ''execute'' \<longleftrightarrow> hl_human_approved st"
  by (simp add: route_after_approval_def)

definition hil_inv :: "hil \<Rightarrow> bool" where
  "hil_inv h \<longleftrightarrow> justified (hl_log h)
     \<and> (case hl_thread h of
          Pending Approval st \<Rightarrow> \<exists>evs. hl_log h = Proposed (hl_proposed_action st) # evs
        | Pending Execute st \<Rightarrow> approved (hl_proposed_action st) (hl_log h)
        | _ \<Rightarrow> True)"

lemma run_plan_inv: "justified (hl_log h) \<Longrightarrow> hil_inv (run_plan rend llm st h)"
  by (simp add: run_plan_def hil_inv_def split: sum.split)

lemma run_execute_inv:
  "justified (hl_log h) \<Longrightarrow> approved (hl_proposed_action st) (hl_log h) \<Longrightarrow> hil_inv (run_execute rend llm st h)"
  by (simp add: run_execute_def hil_inv_def split: sum.split)

lemma run_approval_inv:
  assumes "hil_inv h" and "hl_thread h = Pending Approval st"
  shows "hil_inv (run_approval rend llm v st h)"
proof (cases "approval_node v st")
  case (Inr st1)
  then have st1: "st1 = st\<lparr>hl_human_approved := approves v\<rparr>" by (rule approval_Inr)
  obtain evs where l: "hl_log h = Proposed (hl_proposed_action st) # evs" "justified (hl_log h)"
    using assms by (auto simp: hil_inv_def)
  show ?thesis
  proof (cases "approves v")
    case True
    then show ?thesis using Inr l st1 run_execute_inv [of "h\<lparr>hl_log := Decided v # hl_log h\<rparr>" st1]
      by (simp add: run_approval_def route_execute)
  next
    case False
    then show ?thesis using Inr l st1 by (simp add: run_approval_def route_execute hil_inv_def)
  qed
qed (use assms in \<open>simp add: run_approval_def\<close>)

lemma hil_send_inv: "hil_inv h \<Longrightarrow> hil_inv (hil_send rend llm msg h)"
proof (induction rend llm msg h rule: hil_send.induct)
  case (1 rend llm st h)
  then have "justified (hl_log h)" by (simp add: hil_inv_def)
  then show ?case by (simp add: run_plan_inv)
next
  case (2 rend llm v h)
  show ?case
  proof (cases "hl_thread h")
    case (Pending n st)
    then show ?thesis using 2 run_plan_inv run_execute_inv run_approval_inv
      by (cases n) (auto simp: hil_inv_def)
  qed (use 2 in simp_all)
next
  case (3 rend llm h)
  show ?case
  proof (cases "hl_thread h")
    case (Pending n st)
    then show ?thesis using 3 run_plan_inv run_execute_inv
      by (cases n) (auto simp: hil_inv_def)
  qed (use 3 in simp_all)
qed

text \<open>C39. Whatever inputs, resumes and repetitions a caller sends and whatever the model answers, in
  whatever order, the graph executes only the action that the last plan proposed, only after the
  resume of its approval approves it, and at most once for each approval; only a resume that
  does not approve is recorded as a refusal. An input that claims to be approved already changes
  nothing. A resume that comes while a failed execution waits to be repeated is not looked at.\<close>

theorem no_execution_without_approval: "justified (hl_log (hil_session rend llm msgs))"
proof -
  have "hil_inv (fold (hil_send rend llm) msgs h)" if "hil_inv h" for h
    using that by (induction msgs arbitrary: h) (auto simp: hil_send_inv)
  then show ?thesis by (simp add: hil_session_def hil_inv_def)
qed

definition yes_chat :: chat where "yes_chat i ms = Inr (VStr ''drop t'')"

definition delete_request :: hil_state where
  "delete_request = \<lparr>hl_query = ''Clean up'', hl_proposed_action = [], hl_human_approved = True, hl_result = []\<rparr>"

definition decision :: "bool \<Rightarrow> hil_message" where
  "decision b = Resume (VDict [(''approved'', VBool b)])"

theorem no_execution_without_approval_witness:
  "hl_log (hil_session (\<lambda>v. []) yes_chat [Input delete_request, Continue, decision True, decision True])
     = [Executed ''drop t'', Decided (VDict [(''approved'', VBool True)]), Proposed ''drop t'']
   \<and> justified (hl_log (hil_session (\<lambda>v. []) yes_chat [Input delete_request, Continue, decision True, decision True]))"
proof
  show "hl_log (hil_session (\<lambda>v. []) yes_chat [Input delete_request, Continue, decision True, decision True])
     = [Executed ''drop t'', Decided (VDict [(''approved'', VBool True)]), Proposed ''drop t'']"
    by code_simp
qed (rule no_execution_without_approval)

text \<open>The model fails during an approved execution; the human has second thoughts and resumes with a
  refusal; the execution is repeated and the action carried out.\<close>

definition flaky_chat :: chat where
  "flaky_chat i ms = (if i = 1 then Inl (Exc [''TimeoutError'', ''Exception''] None None None None) else Inr (VStr ''drop t''))"

lemma refusal_of_repeated_execution_ignored:
  "hl_log (hil_session (\<lambda>v. []) flaky_chat [Input delete_request, decision True, decision False])
     = [Executed ''drop t'', Ignored (VDict [(''approved'', VBool False)]), Decided (VDict [(''approved'', VBool True)]),
        Proposed ''drop t'']"
  by code_simp

text \<open>What counts as approval is the truth of the value: the text \<open>false\<close> approves.\<close>

lemma text_false_approves: "approves (VDict [(''approved'', VStr ''false'')])"
  by (simp add: approves_def dget_or_def)

section \<open>The supervisor ends\<close>

lemma decision_in: "decision_of parse raw \<in> insert ''FINISH'' (set AGENTS)"
  by (auto simp: decision_of_def split: option.splits pyval.splits)

lemma supervisor_node_Inr:
  "supervisor_node rend parse llm i st = Inr st1 \<Longrightarrow> \<exists>raw. st1 = st\<lparr>sv_next_agent := decision_of parse raw\<rparr>"
  by (auto simp: supervisor_node_def Let_def rbind_Inr_iff)

text \<open>Whatever the model answers, the edge it selects exists.\<close>

lemma route_exists:
  "supervisor_node rend parse llm i st = Inr st1 \<Longrightarrow> route_after_supervisor st1 \<in> insert ''FINISH'' (set AGENTS)"
proof -
  assume "supervisor_node rend parse llm i st = Inr st1"
  then obtain raw where "st1 = st\<lparr>sv_next_agent := decision_of parse raw\<rparr>" using supervisor_node_Inr by blast
  then show ?thesis using decision_in [of parse raw] by (simp add: route_after_supervisor_def)
qed

definition model_error :: "chat \<Rightarrow> llm_exc \<Rightarrow> bool" where
  "model_error llm e \<longleftrightarrow> (\<exists>i ms. llm i ms = Inl e)"

lemma node_errors:
  "supervisor_node rend parse llm i st = Inl e \<Longrightarrow> model_error llm e"
  "specialist_node role rend llm i st = Inl e \<Longrightarrow> model_error llm e"
  by (auto simp: supervisor_node_def specialist_node_def reply_def Let_def rbind_Inl_iff model_error_def map_sum_def split: sum.splits)

lemma specialist_effect:
  "specialist_node role rend llm i st = Inr st' \<Longrightarrow>
     length (sv_messages st') = length (sv_messages st) + 2 \<and> sv_query st' = sv_query st"
  by (auto simp: specialist_node_def Let_def rbind_Inr_iff)

lemma supervisor_run_ends:
  "case supervisor_run rend parse llm k i st of
     Inr st' \<Rightarrow> sv_next_agent st' = ''FINISH'' \<and> sv_query st' = sv_query st
       \<and> (\<exists>n. 2 * n + 1 \<le> k \<and> length (sv_messages st') = length (sv_messages st) + 2 * n)
   | Inl e \<Rightarrow> e = RECURSION_ERROR \<or> model_error llm e"
proof (induction rend parse llm k i st rule: supervisor_run.induct)
  case (2 rend parse llm k i st)
  show ?case
  proof (cases "supervisor_node rend parse llm i st")
    case (Inl e)
    then show ?thesis using node_errors by simp
  next
    case (Inr st1)
    then obtain d where st1: "st1 = st\<lparr>sv_next_agent := d\<rparr>" using supervisor_node_Inr by blast
    show ?thesis
    proof (cases "route_after_supervisor st1 = ''FINISH''")
      case True
      then show ?thesis using Inr st1 by (auto simp: route_after_supervisor_def intro: exI [of _ 0])
    next
      case nf: False
      show ?thesis
      proof (cases k)
        case 0
        then show ?thesis using Inr nf by simp
      next
        case (Suc k')
        show ?thesis
        proof (cases "specialist_node (route_after_supervisor st1) rend llm (i + 1) st1")
          case (Inl e)
          then show ?thesis using Inr nf Suc node_errors(2) by simp
        next
          case sp: (Inr st2)
          have eq: "supervisor_run rend parse llm (Suc k) i st = supervisor_run rend parse llm k' (i + 2) st2"
            using Inr nf Suc sp by simp
          note IH = "2.IH" [OF nf Suc, of st2]
          have len: "length (sv_messages st2) = length (sv_messages st) + 2" "sv_query st2 = sv_query st"
            using specialist_effect [OF sp] st1 by simp_all
          show ?thesis
          proof (cases "supervisor_run rend parse llm k' (i + 2) st2")
            case (Inl e)
            then show ?thesis using IH eq by simp
          next
            case r: (Inr st')
            then obtain n where "2 * n + 1 \<le> k'" "length (sv_messages st') = length (sv_messages st2) + 2 * n"
              "sv_next_agent st' = ''FINISH''" "sv_query st' = sv_query st2"
              using IH by auto
            then show ?thesis unfolding eq using r len Suc by (auto intro!: exI [of _ "n + 1"])
          qed
        qed
      qed
    qed
  qed
qed simp

text \<open>The supervisor always comes to an end within the limit on supersteps: either with a finished
  state, after \<open>2n + 1\<close> steps that added two messages for each of the \<open>n\<close> specialists, or with the
  model's own exception, or with the recursion error.\<close>

theorem supervisor_ends:
  "case supervisor_run rend parse llm limit 0 (supervisor_start q) of
     Inr st \<Rightarrow> sv_next_agent st = ''FINISH'' \<and> sv_query st = q
       \<and> (\<exists>n. 2 * n + 1 \<le> limit \<and> length (sv_messages st) = 2 * n + 1)
   | Inl e \<Rightarrow> e = RECURSION_ERROR \<or> model_error llm e"
  using supervisor_run_ends [where rend = rend and parse = parse and llm = llm and k = limit and i = 0 and st = "supervisor_start q"]
  by (auto simp: supervisor_start_def split: sum.splits)

text \<open>What the script prints as the agent the query was routed to is therefore always \<open>FINISH\<close>.\<close>

lemma routed_to_finish:
  "supervisor_run rend parse llm limit 0 (supervisor_start q) = Inr st \<Longrightarrow> routed_to st = ''FINISH''"
  using supervisor_run_ends [where rend = rend and parse = parse and llm = llm and k = limit and i = 0 and st = "supervisor_start q"] by (simp add: routed_to_def)

text \<open>There is no cap on rounds but LangGraph's: a model that never says \<open>FINISH\<close> makes the run end
  in the recursion error, and every answer of the specialists is lost.\<close>

lemma rbind_total: "\<exists>x. m = Inr x \<Longrightarrow> (\<And>x. \<exists>y. f x = Inr y) \<Longrightarrow> \<exists>y. rbind m f = Inr y"
  by auto

lemma specialist_answers:
  assumes "\<And>i ms. \<exists>c. llm i ms = Inr c"
  shows "\<exists>st2. specialist_node role rend llm i st = Inr st2"
proof -
  have "\<exists>t. reply rend llm i system human = Inr t" for system human
    using assms [of i "[SystemMessage system, HumanMessage human]"] by (auto simp: reply_def)
  then show ?thesis unfolding specialist_node_def Let_def by (rule rbind_total) simp
qed

lemma supervisor_gives_up:
  assumes "\<And>i ms. \<exists>c. llm i ms = Inr c \<and> decision_of parse (py_str rend c) \<noteq> ''FINISH''"
  shows "supervisor_run rend parse llm k i st = Inl RECURSION_ERROR"
proof (induction k arbitrary: i st rule: less_induct)
  case (less k)
  show ?case
  proof (cases k)
    case (Suc j)
    obtain st1 where sv: "supervisor_node rend parse llm i st = Inr st1" "route_after_supervisor st1 \<noteq> ''FINISH''"
      using assms [of i "SystemMessage SUPERVISOR_SYSTEM # (if sv_messages st = [] then [HumanMessage (sv_query st)] else sv_messages st)"]
      by (auto simp: supervisor_node_def Let_def route_after_supervisor_def)
    show ?thesis
    proof (cases j)
      case 0
      then show ?thesis using Suc sv by simp
    next
      case sj: (Suc j')
      have "\<exists>st2. specialist_node (route_after_supervisor st1) rend llm (i + 1) st1 = Inr st2"
        by (rule specialist_answers) (use assms in blast)
      then show ?thesis using Suc sj sv less.IH [of j'] by auto
    qed
  qed simp
qed

section \<open>The other two graphs\<close>

text \<open>The analyst of the sequential graph is shown the research brief word for word, and the log of
  a finished run has the two exchanges after whatever it held before.\<close>

lemma sequential_result:
  assumes "sequential_graph rend llm st = Inr st'"
  shows "sq_query st' = sq_query st"
    and "\<exists>h1 h2. sq_messages st' = sq_messages st @ [HumanMessage h1, AIMessage (sq_research_output st'),
           HumanMessage h2, AIMessage (sq_analysis_output st')] \<and> has_sub (sq_research_output st') h2"
proof -
  show "sq_query st' = sq_query st"
    using assms by (auto simp: sequential_graph_def research_node_def analyze_node_def Let_def rbind_Inr_iff apply_update_def)
  obtain a b where st': "st' = apply_update (apply_update st a) b" and a: "research_node rend llm st = Inr a"
    and b: "analyze_node rend llm (apply_update st a) = Inr b"
    using assms by (auto simp: sequential_graph_def Let_def rbind_Inr_iff)
  obtain h1 where "sq_messages a = [HumanMessage h1, AIMessage (sq_research_output a)]"
    using a by (auto simp: research_node_def Let_def rbind_Inr_iff)
  moreover obtain h2 where "sq_messages b = [HumanMessage h2, AIMessage (sq_analysis_output b)]"
    "sq_research_output b = sq_research_output a" "has_sub (sq_research_output a) h2"
  proof -
    let ?pre = "''Original question: '' @ sq_query (apply_update st a) @ [NL, NL] @ ''Research brief:'' @ [NL]"
      and ?post = "[NL, NL] @ ''Provide a strategic analysis of these findings.''"
    have r: "sq_research_output (apply_update st a) = sq_research_output a" by (simp add: apply_update_def)
    obtain t where "b = \<lparr>sq_query = sq_query (apply_update st a), sq_research_output = sq_research_output a, sq_analysis_output = t,
        sq_messages = [HumanMessage (?pre @ sq_research_output a @ ?post), AIMessage t]\<rparr>"
      using b by (auto simp: analyze_node_def Let_def rbind_Inr_iff r)
    moreover have "has_sub (sq_research_output a) (?pre @ sq_research_output a @ ?post)" unfolding has_sub_iff by blast
    ultimately show ?thesis using that by (metis sequential_state.select_convs(2-4))
  qed
  ultimately show "\<exists>h1 h2. sq_messages st' = sq_messages st @ [HumanMessage h1, AIMessage (sq_research_output st'),
           HumanMessage h2, AIMessage (sq_analysis_output st')] \<and> has_sub (sq_research_output st') h2"
    by (auto simp: st' apply_update_def)
qed

text \<open>The parallel graph never answers. \<open>fan_out_node\<close> is a node where LangGraph expects a router, and the
  plain edge behind it calls \<open>analyst_node\<close> with the graph's own state, which has no role: whatever
  LangGraph makes of the list of \<open>Send\<close>, the run fails.\<close>

lemma branches_fail:
  "analyst_node rend llm i b = Inl e \<Longrightarrow> isl (branches rend llm i (b # bs))"
  by simp

lemma branches_append_fail: "(\<And>i. isl (branches rend llm i bs)) \<Longrightarrow> isl (branches rend llm i (as @ bs))"
proof (induction as arbitrary: i)
  case (Cons a as)
  then have "isl (branches rend llm (i + 1) (as @ bs))" by blast
  then show ?case by (cases "analyst_node rend llm i a") (auto simp: isl_def)
qed simp

lemma parallel_never_answers: "isl (parallel_graph how rend llm st)"
proof -
  have "isl (branches rend llm i [as_branch st])" for i
    by (simp add: analyst_node_def item_def as_branch_def)
  then have "isl (branches rend llm i (as @ [as_branch st]))" for i as
    by (rule branches_append_fail)
  then have "isl (rbind (branches rend llm 0 (as @ [as_branch st])) f)" for as and f :: "string list \<Rightarrow> llm_exc + parallel_state"
    by (metis isl_def rbind_simps(1))
  note fails = this
  show ?thesis
  proof (cases how)
    case (Rejected e)
    then show ?thesis by (simp add: parallel_graph_def)
  next
    case Ignored
    show ?thesis unfolding parallel_graph_def Ignored sends.case by (rule fails)
  next
    case Dispatched
    show ?thesis unfolding parallel_graph_def Dispatched sends.case by (rule fails)
  qed
qed

end
