(* ===== verification/Evals.thy ===== *)
theory Evals
  imports Lifespan StructuredPacks
begin

text \<open>
  The evaluation harness (\<open>evals/\<close>): golden cases run against a pack version, deterministic checks,
  the optional judge, reports and the exit code of the command line. YAML, pydantic, \<open>repr\<close>,
  \<open>str\<close> of floats and containers, rounding and the clock are arguments of the record \<open>eval_env\<close>.
\<close>

section \<open>Cases and reports\<close>

record eval_case =
  ec_id :: string
  ec_input :: pydict
  ec_mock_responses :: "string list option"
  ec_checks :: pydict
  ec_expect_error :: "string option"
  ec_judge :: "string option"

record check_result =
  ck_name :: string
  ck_passed :: bool
  ck_detail :: string

record case_result =
  cr_case_id :: string
  cr_passed :: bool
  cr_checks :: "check_result list"
  cr_latency_seconds :: rat
  cr_cost_usd :: "rat option"
  cr_judge_score :: "rat option"
  cr_error :: "string option"

record eval_report =
  er_pack_id :: string
  er_version :: string
  er_cases :: "case_result list"

record eval_env =
  str_of :: "pyval \<Rightarrow> string"                       \<comment> \<open>\<open>str\<close> of floats and containers\<close>
  repr_of :: "pyval \<Rightarrow> string"
  parse_rat :: "string \<Rightarrow> rat option"
  json_loads :: "string \<Rightarrow> pyval option"
  json_text :: "pyval \<Rightarrow> string"                    \<comment> \<open>\<open>json.dumps(..., default=str)\<close>\<close>
  valid_verdict :: "pyval \<Rightarrow> rat option"            \<comment> \<open>\<open>JudgeVerdict.model_validate\<close>, the score\<close>
  message_of :: "llm_exc \<Rightarrow> string"
  rounded :: "nat \<Rightarrow> rat \<Rightarrow> rat"
  took :: "eval_case \<Rightarrow> rat"                         \<comment> \<open>how long a case runs\<close>

definition report_total :: "eval_report \<Rightarrow> nat" where
  "report_total r = length (er_cases r)"

definition report_passed :: "eval_report \<Rightarrow> nat" where
  "report_passed r = length (filter cr_passed (er_cases r))"

definition pass_rate :: "eval_report \<Rightarrow> rat" where
  "pass_rate r = (if er_cases r = [] then 0 else of_nat (report_passed r) / of_nat (report_total r))"

definition mean_latency_seconds :: "eval_report \<Rightarrow> rat" where
  "mean_latency_seconds r =
     (if er_cases r = [] then 0 else sum_list (map cr_latency_seconds (er_cases r)) / of_nat (length (er_cases r)))"

definition total_cost :: "eval_report \<Rightarrow> rat" where
  "total_cost r = sum_list (map (\<lambda>c. case cr_cost_usd c of None \<Rightarrow> 0 | Some x \<Rightarrow> x) (er_cases r))"

definition report_summary :: "eval_env \<Rightarrow> eval_report \<Rightarrow> pydict" where
  "report_summary env r =
     [(''pack_id'', VStr (er_pack_id r)), (''version'', VStr (er_version r)), (''total'', VInt (int (report_total r))),
      (''passed'', VInt (int (report_passed r))), (''pass_rate'', VFloat (rounded env 4 (pass_rate r))),
      (''mean_latency_seconds'', VFloat (rounded env 4 (mean_latency_seconds r))),
      (''total_cost_usd'', VFloat (rounded env 6 (total_cost r)))]"

definition comparison_diff :: "eval_env \<Rightarrow> string \<Rightarrow> eval_report \<Rightarrow> eval_report \<Rightarrow> pydict" where
  \<comment> \<open>baseline and candidate\<close>
  "comparison_diff env pid b c =
     [(''pack_id'', VStr pid), (''baseline_version'', VStr (er_version b)), (''candidate_version'', VStr (er_version c)),
      (''pass_rate_delta'', VFloat (rounded env 4 (pass_rate c - pass_rate b))),
      (''mean_latency_delta_seconds'', VFloat (rounded env 4 (mean_latency_seconds c - mean_latency_seconds b))),
      (''total_cost_delta_usd'', VFloat (rounded env 6 (total_cost c - total_cost b)))]"

section \<open>Checks\<close>

definition field_as_text :: "(pyval \<Rightarrow> string) \<Rightarrow> pyval \<Rightarrow> string" where
  "field_as_text rend v = (case v of VList xs \<Rightarrow> join [NL] (map (py_str rend) xs) | _ \<Rightarrow> py_str rend v)"

definition items_of_kind :: "pydict \<Rightarrow> string \<Rightarrow> pydict result" where
  \<comment> \<open>\<open>(checks.get(kind) or {}).items()\<close>\<close>
  "items_of_kind checks kind =
     (case py_or (dget checks kind) (VDict []) of VDict d \<Rightarrow> Inr d | _ \<Rightarrow> Inl OtherError)"

definition named :: "string \<Rightarrow> string \<Rightarrow> bool \<Rightarrow> string \<Rightarrow> check_result" where
  "named kind f ok detail = \<lparr>ck_name = kind @ '':'' @ f, ck_passed = ok, ck_detail = (if ok then [] else detail)\<rparr>"

definition hashable :: "pyval \<Rightarrow> bool" where
  "hashable v = (case v of VList xs \<Rightarrow> False | VDict d \<Rightarrow> False | _ \<Rightarrow> True)"

definition check_required :: "eval_env \<Rightarrow> pydict \<Rightarrow> pyval \<Rightarrow> check_result result" where
  "check_required env outp f =
     (if \<not> hashable f then Inl TypeError
      else Inr (named ''required_fields'' (py_str (str_of env) f)
        (case f of VStr k \<Rightarrow> dget outp k \<noteq> VNone | _ \<Rightarrow> False)
        (''field '' @ repr_of env f @ '' missing or None'')))"

definition check_contains :: "eval_env \<Rightarrow> pydict \<Rightarrow> string \<times> pyval \<Rightarrow> check_result" where
  "check_contains env outp = (\<lambda>(f, needle).
     named ''contains'' f (has_sub (py_str (str_of env) needle) (field_as_text (str_of env) (dget_or outp f (VStr []))))
       (repr_of env needle @ '' not found in '' @ repr_of env (VStr f)))"

definition check_not_contains :: "eval_env \<Rightarrow> pydict \<Rightarrow> string \<times> pyval \<Rightarrow> check_result" where
  "check_not_contains env outp = (\<lambda>(f, needle).
     named ''not_contains'' f (\<not> has_sub (py_str (str_of env) needle) (field_as_text (str_of env) (dget_or outp f (VStr []))))
       (''forbidden '' @ repr_of env needle @ '' found in '' @ repr_of env (VStr f)))"

definition py_len :: "pyval \<Rightarrow> int" where
  \<comment> \<open>\<open>len(v)\<close>, -1 where there is none\<close>
  "py_len v = (case v of VStr s \<Rightarrow> int (length s) | VList xs \<Rightarrow> int (length xs) | VDict d \<Rightarrow> int (length d) | _ \<Rightarrow> - 1)"

definition int_field :: "pyval \<Rightarrow> int result" where
  \<comment> \<open>\<open>int(v)\<close>\<close>
  "int_field v =
     (case v of
        VInt i \<Rightarrow> Inr i
      | VBool b \<Rightarrow> Inr (if b then 1 else 0)
      | VFloat r \<Rightarrow> Inr (int_of_rat r)
      | VStr s \<Rightarrow> (case py_int s of None \<Rightarrow> Inl ValueError | Some i \<Rightarrow> Inr i)
      | _ \<Rightarrow> Inl TypeError)"

definition check_min_length :: "eval_env \<Rightarrow> pydict \<Rightarrow> string \<times> pyval \<Rightarrow> check_result result" where
  "check_min_length env outp = (\<lambda>(f, bound).
     (let n = py_len (dget outp f) in
      rbind (int_field bound) (\<lambda>b.
        Inr (named ''min_length'' f (b \<le> n)
          (''len('' @ f @ '')='' @ show_int n @ '' < '' @ py_str (str_of env) bound)))))"

definition indexed :: "pyval \<Rightarrow> nat \<Rightarrow> pyval result" where
  \<comment> \<open>\<open>bounds[i]\<close>\<close>
  "indexed v i =
     (case v of
        VList xs \<Rightarrow> if i < length xs then Inr (xs ! i) else Inl OtherError
      | VStr s \<Rightarrow> if i < length s then Inr (VStr [s ! i]) else Inl OtherError
      | VDict d \<Rightarrow> Inl KeyError
      | _ \<Rightarrow> Inl TypeError)"

definition number_of :: "pyval \<Rightarrow> rat option" where
  \<comment> \<open>\<open>isinstance(v, (int, float))\<close>, which a \<open>bool\<close> is\<close>
  "number_of v =
     (case v of VInt i \<Rightarrow> Some (of_int i) | VFloat r \<Rightarrow> Some r | VBool b \<Rightarrow> Some (if b then 1 else 0) | _ \<Rightarrow> None)"

definition check_numeric_range :: "eval_env \<Rightarrow> pydict \<Rightarrow> string \<times> pyval \<Rightarrow> check_result result" where
  "check_numeric_range env outp = (\<lambda>(f, bounds).
     rbind (rbind (indexed bounds 0) (py_float (parse_rat env))) (\<lambda>low.
     rbind (rbind (indexed bounds 1) (py_float (parse_rat env))) (\<lambda>high.
       Inr (named ''numeric_range'' f
         (case number_of (dget outp f) of None \<Rightarrow> False | Some x \<Rightarrow> low \<le> x \<and> x \<le> high)
         (f @ ''='' @ repr_of env (dget outp f) @ '' outside ['' @ str_of env (VFloat low) @ '', '' @ str_of env (VFloat high) @ '']'')))))"

fun all_results :: "('a \<Rightarrow> 'b result) \<Rightarrow> 'a list \<Rightarrow> 'b list result" where
  "all_results f [] = Inr []"
| "all_results f (x # xs) = rbind (f x) (\<lambda>y. rbind (all_results f xs) (\<lambda>ys. Inr (y # ys)))"

definition run_checks :: "eval_env \<Rightarrow> pydict \<Rightarrow> pydict \<Rightarrow> check_result list result" where
  "run_checks env outp checks =
     rbind (rbind (py_iter (dget_or checks ''required_fields'' (VList []))) (all_results (check_required env outp))) (\<lambda>required.
     rbind (items_of_kind checks ''contains'') (\<lambda>contains.
     rbind (items_of_kind checks ''not_contains'') (\<lambda>absent.
     rbind (rbind (items_of_kind checks ''min_length'') (all_results (check_min_length env outp))) (\<lambda>lengths.
     rbind (rbind (items_of_kind checks ''numeric_range'') (all_results (check_numeric_range env outp))) (\<lambda>ranges.
       Inr (required @ map (check_contains env outp) contains @ map (check_not_contains env outp) absent @ lengths @ ranges))))))"

section \<open>The judge\<close>

definition judge_prompt :: "eval_env \<Rightarrow> string \<Rightarrow> pydict \<Rightarrow> pydict \<Rightarrow> string" where
  "judge_prompt env rubric case_input outp =
     ''You are an evaluation judge for AI pack outputs.'' @ [NL, NL]
     @ ''Score how well the OUTPUT satisfies the RUBRIC for the given INPUT.'' @ [NL]
     @ ''Respond with ONLY a JSON object: {\"score\": <float 0.0-1.0>, \"reasoning\": \"<one sentence>\"}'' @ [NL, NL]
     @ ''RUBRIC:'' @ [NL] @ rubric @ [NL, NL]
     @ wrap_untrusted_content ''INPUT'' (take 4000 (json_text env (VDict case_input))) @ [NL, NL]
     @ wrap_untrusted_content ''OUTPUT'' (take 8000 (json_text env (VDict outp)))"

definition judge_case :: "eval_env \<Rightarrow> llm \<Rightarrow> string \<Rightarrow> pydict \<Rightarrow> pydict \<Rightarrow> llm_exc + rat" where
  "judge_case env judge rubric case_input outp =
     rbind (judge (judge_prompt env rubric case_input outp)) (\<lambda>content.
     rbind (raised (extract_text_content (str_of env) content)) (\<lambda>text.
       (case json_loads env (strip text) of
          None \<Rightarrow> Inl (exc_of ValueError)
        | Some v \<Rightarrow> (case valid_verdict env v of None \<Rightarrow> Inl (exc_of ValueError) | Some score \<Rightarrow> Inr score))))"

section \<open>Running a case\<close>

datatype 'l case_llm = Scripted "string list" | Supplied 'l

definition scripted_answer :: "string list \<Rightarrow> nat \<Rightarrow> string" where
  \<comment> \<open>the answer to call \<open>i\<close> of \<open>ScriptedChatModel\<close>: the list over and over\<close>
  "scripted_answer responses i = responses ! (i mod length responses)"

record 'l eval_pack =
  ep_impl :: "'l case_llm \<Rightarrow> pack_impl"
  ep_attributes :: "string list"           \<comment> \<open>what \<open>hasattr\<close> finds, inherited ones included\<close>

definition PRIMARY_TEXT_FIELDS :: "string list" where
  "PRIMARY_TEXT_FIELDS = [''query'', ''text'', ''topic'', ''question'']"

definition some_text :: "pyval \<Rightarrow> string option" where
  "some_text v = (case v of VStr s \<Rightarrow> if s = [] then None else Some s | _ \<Rightarrow> None)"

definition eval_primary_text :: "pydict \<Rightarrow> string result" where
  "eval_primary_text d =
     (case List.map_filter some_text (map (dget d) PRIMARY_TEXT_FIELDS @ map snd d) of
        [] \<Rightarrow> Inl ValueError
      | t # _ \<Rightarrow> Inr t)"

definition result_to_dict :: "eval_env \<Rightarrow> pack_result \<Rightarrow> pydict" where
  "result_to_dict env res =
     (case to_dict res of
        Some v \<Rightarrow> as_dict v
      | None \<Rightarrow> (case model_dump res of
          Some v \<Rightarrow> as_dict v
        | None \<Rightarrow> (case the_object res of VDict d \<Rightarrow> d | v \<Rightarrow> [(''result'', VStr (py_str (str_of env) v))])))"

definition answer_of :: "'l eval_pack \<Rightarrow> (pydict \<Rightarrow> pydict option) \<Rightarrow> 'l case_llm \<Rightarrow> pydict \<Rightarrow> llm_exc + pack_result \<times> rat option" where
  \<comment> \<open>what the \<open>try\<close> protects: input model, constructor, run, cost, exit of the \<open>with\<close>\<close>
  "answer_of pack input_model model d =
     (case input_model d of
        None \<Rightarrow> Inl VALIDATION_ERROR
      | Some body \<Rightarrow>
          (let p = ep_impl pack model in
           case construct p None of
             Some e \<Rightarrow> Inl e
           | None \<Rightarrow>
               rbind (if ''run_from_input'' \<in> set (ep_attributes pack) then run_from_input p body
                      else rbind (raised (eval_primary_text d)) (run_text p)) (\<lambda>res.
                 case close_pack p of Some e \<Rightarrow> Inl e | None \<Rightarrow> Inr (res, run_cost p))))"

definition failed :: "eval_case \<Rightarrow> rat \<Rightarrow> string \<Rightarrow> case_result" where
  "failed c latency message =
     \<lparr>cr_case_id = ec_id c, cr_passed = False, cr_checks = [], cr_latency_seconds = latency, cr_cost_usd = None,
      cr_judge_score = None, cr_error = Some message\<rparr>"

definition case_llm_of :: "eval_case \<Rightarrow> 'l option \<Rightarrow> 'l case_llm option" where
  "case_llm_of c model =
     (case ec_mock_responses c of
        Some (r # rs) \<Rightarrow> Some (Scripted (r # rs))
      | _ \<Rightarrow> map_option Supplied model)"

definition scored :: "eval_env \<Rightarrow> llm option \<Rightarrow> eval_case \<Rightarrow> pydict \<Rightarrow> llm_exc + rat option" where
  \<comment> \<open>asked only if there is a judge and a rubric\<close>
  "scored env judge c outp =
     (case (judge, ec_judge c) of
        (Some j, Some rubric) \<Rightarrow> if rubric = [] then Inr None else map_sum id Some (judge_case env j rubric (ec_input c) outp)
      | _ \<Rightarrow> Inr None)"

definition judged :: "eval_env \<Rightarrow> eval_case \<Rightarrow> rat option \<Rightarrow> check_result list \<Rightarrow> llm_exc + rat option \<Rightarrow> llm_exc + case_result" where
  "judged env c cost checks score =
     (case score of
        Inl e \<Rightarrow>
          if isinstance e [''ValueError'']
          then Inr ((failed c (took env c) (message_of env e))\<lparr>cr_checks := checks, cr_cost_usd := cost\<rparr>)
          else Inl e
      | Inr s \<Rightarrow>
          Inr \<lparr>cr_case_id = ec_id c, cr_passed = list_all ck_passed checks, cr_checks = checks, cr_latency_seconds = took env c,
               cr_cost_usd = cost, cr_judge_score = s, cr_error = None\<rparr>)"

definition run_one_case ::
  "eval_env \<Rightarrow> 'l eval_pack \<Rightarrow> (pydict \<Rightarrow> pydict option) \<Rightarrow> 'l option \<Rightarrow> llm option \<Rightarrow> eval_case \<Rightarrow> llm_exc + case_result" where
  \<comment> \<open>\<open>Inl\<close>: the exception leaves the harness\<close>
  "run_one_case env pack input_model model judge c =
     (case case_llm_of c model of
        None \<Rightarrow> Inr (failed c 0 ''No LLM available: case has no mock_responses and no LLM was given.'')
      | Some case_llm \<Rightarrow>
          (case answer_of pack input_model case_llm (ec_input c) of
             Inl e \<Rightarrow>
               if \<not> isinstance e [''Exception''] then Inl e
               else (case ec_expect_error c of
                   Some wanted \<Rightarrow>
                     if has_sub wanted (message_of env e)
                     then Inr ((failed c (took env c) [])\<lparr>cr_passed := True, cr_error := None\<rparr>)
                     else Inr (failed c (took env c) (hd (mro e @ [[]]) @ '': '' @ message_of env e))
                 | None \<Rightarrow> Inr (failed c (took env c) (hd (mro e @ [[]]) @ '': '' @ message_of env e)))
           | Inr (res, cost) \<Rightarrow>
               (case ec_expect_error c of
                  Some wanted \<Rightarrow>
                    Inr ((failed c (took env c) (''Expected an error containing '' @ repr_of env (VStr wanted) @ '', got success.''))
                      \<lparr>cr_cost_usd := cost\<rparr>)
                | None \<Rightarrow>
                    (let outp = result_to_dict env res in
                     rbind (raised (run_checks env outp (ec_checks c))) (\<lambda>checks.
                       judged env c cost checks (scored env judge c outp))))))"

section \<open>Reports, comparisons and the command line\<close>

fun run_cases :: "(eval_case \<Rightarrow> llm_exc + case_result) \<Rightarrow> eval_case list \<Rightarrow> llm_exc + case_result list" where
  "run_cases run [] = Inr []"
| "run_cases run (c # cs) = rbind (run c) (\<lambda>r. rbind (run_cases run cs) (\<lambda>rs. Inr (r # rs)))"

record 'l harness =
  h_env :: eval_env
  h_registry :: registry
  h_draws :: "nat \<Rightarrow> rat"                          \<comment> \<open>of \<open>random\<close>: the class, the schemas\<close>
  h_pack :: "pack_class \<Rightarrow> 'l eval_pack"
  h_input :: "schema_attr \<Rightarrow> pydict \<Rightarrow> pydict option"  \<comment> \<open>construction of the input model\<close>

definition run_pack_eval ::
  "'l harness \<Rightarrow> string \<Rightarrow> eval_case list \<Rightarrow> string option \<Rightarrow> 'l option \<Rightarrow> llm option \<Rightarrow> llm_exc + eval_report" where
  "run_pack_eval h pid cases version model judge =
     rbind (raised (get_pack (\<lambda>_. 0) (h_draws h 0) pid version None (h_registry h))) (\<lambda>c.
     rbind (raised (get_schemas (h_draws h 1) pid (h_registry h))) (\<lambda>schemas.
     rbind (run_cases (run_one_case (h_env h) (h_pack h c) (h_input h (fst schemas)) model judge) cases) (\<lambda>results.
       Inr \<lparr>er_pack_id = pid, er_version = (if attr_text version = [] then ''default'' else attr_text version),
            er_cases = results\<rparr>)))"

definition compare_versions ::
  "'l harness \<Rightarrow> string \<Rightarrow> eval_case list \<Rightarrow> string option \<Rightarrow> string \<Rightarrow> 'l option \<Rightarrow> llm option \<Rightarrow> llm_exc + eval_report \<times> eval_report" where
  "compare_versions h pid cases baseline candidate model judge =
     rbind (run_pack_eval h pid cases baseline model judge) (\<lambda>b.
     rbind (run_pack_eval h pid cases (Some candidate) model judge) (\<lambda>c. Inr (b, c)))"

record eval_args =
  arg_pack :: "string option"
  arg_all :: bool
  arg_version :: "string option"
  arg_compare :: "string option"
  arg_dataset :: "string option"
  arg_list :: bool

datatype exit = Code nat | Crash llm_exc

record datasets =
  builtin_sets :: "string list"                    \<comment> \<open>pack ids with a file, sorted\<close>
  path_for :: "string \<Rightarrow> string"
  cases_at :: "string \<Rightarrow> (llm_exc + eval_case list) option"   \<comment> \<open>\<open>None\<close>: no such file\<close>

definition pack_exit :: "'l harness \<Rightarrow> eval_args \<Rightarrow> string \<Rightarrow> eval_case list \<Rightarrow> llm_exc + bool" where
  \<comment> \<open>one round of the loop: whether the exit code becomes 1\<close>
  "pack_exit h args pid cases =
     (if attr_text (arg_compare args) \<noteq> [] then
        rbind (compare_versions h pid cases (arg_version args) (attr_text (arg_compare args)) None None)
          (\<lambda>(b, c). Inr (pass_rate c < pass_rate b))
      else rbind (run_pack_eval h pid cases (arg_version args) None None) (\<lambda>r. Inr (pass_rate r < 1)))"

fun eval_packs :: "'l harness \<Rightarrow> datasets \<Rightarrow> eval_args \<Rightarrow> nat \<Rightarrow> string list \<Rightarrow> exit" where
  "eval_packs h ds args code [] = Code code"
| "eval_packs h ds args code (pid # pids) =
     (case cases_at ds (if attr_text (arg_dataset args) \<noteq> [] then attr_text (arg_dataset args) else path_for ds pid) of
        None \<Rightarrow> Code 2
      | Some (Inl e) \<Rightarrow> Crash e
      | Some (Inr cases) \<Rightarrow>
          (case pack_exit h args pid cases of
             Inl e \<Rightarrow> Crash e
           | Inr worse \<Rightarrow> eval_packs h ds args (if worse then 1 else code) pids))"

definition eval_pack_ids :: "datasets \<Rightarrow> eval_args \<Rightarrow> string list" where
  "eval_pack_ids ds args =
     (if arg_all args then builtin_sets ds
      else if attr_text (arg_pack args) \<noteq> [] then [attr_text (arg_pack args)] else [])"

definition eval_main :: "'l harness \<Rightarrow> datasets \<Rightarrow> eval_args \<Rightarrow> exit" where
  \<comment> \<open>after \<open>register_builtin_packs\<close>; a usage error leaves with code 2\<close>
  "eval_main h ds args =
     (if arg_list args then Code 0
      else if eval_pack_ids ds args = [] then Code 2
      else eval_packs h ds args 0 (eval_pack_ids ds args))"

section \<open>When a case passes\<close>

definition checks_pass :: "eval_env \<Rightarrow> pydict \<Rightarrow> pydict \<Rightarrow> bool" where
  "checks_pass env outp checks \<longleftrightarrow> (\<exists>rs. run_checks env outp checks = Inr rs \<and> list_all ck_passed rs)"

lemma case_passes:
  assumes "run_one_case env pack input_model model judge c = Inr r"
  shows "cr_passed r \<longleftrightarrow>
    (\<exists>l. case_llm_of c model = Some l \<and>
      (case answer_of pack input_model l (ec_input c) of
         Inl e \<Rightarrow> (\<exists>wanted. ec_expect_error c = Some wanted \<and> has_sub wanted (message_of env e))
       | Inr (res, cost) \<Rightarrow> ec_expect_error c = None \<and> checks_pass env (result_to_dict env res) (ec_checks c)
           \<and> \<not> isl (scored env judge c (result_to_dict env res))))"
proof (cases "case_llm_of c model")
  case None
  then show ?thesis using assms by (auto simp: run_one_case_def failed_def)
next
  case (Some l)
  show ?thesis
  proof (cases "answer_of pack input_model l (ec_input c)")
    case (Inl e)
    then show ?thesis using assms Some by (auto simp: run_one_case_def failed_def split: option.splits if_splits)
  next
    case (Inr rc)
    obtain res cost where rc: "rc = (res, cost)" by (cases rc)
    show ?thesis
    proof (cases "ec_expect_error c")
      case (Some w)
      then show ?thesis using assms \<open>case_llm_of c model = Some l\<close> Inr rc by (auto simp: run_one_case_def failed_def)
    next
      case None
      then show ?thesis
        using assms \<open>case_llm_of c model = Some l\<close> Inr rc
        by (cases "run_checks env (result_to_dict env res) (ec_checks c)";
            cases "scored env judge c (result_to_dict env res)")
          (auto simp: run_one_case_def failed_def checks_pass_def judged_def Let_def raised_def split: if_splits)
    qed
  qed
qed

section \<open>What exit code 0 means\<close>

lemma run_one_case_id: "run_one_case env pack input_model model judge c = Inr r \<Longrightarrow> cr_case_id r = ec_id c"
proof -
  assume r: "run_one_case env pack input_model model judge c = Inr r"
  have "cr_case_id x = ec_id c" if "judged env c cost checks score = Inr x" for cost checks score x
    using that by (auto simp: judged_def failed_def split: sum.splits if_splits)
  then show ?thesis
    using r by (auto simp: run_one_case_def failed_def Let_def rbind_Inr_iff split: option.splits sum.splits if_splits)
qed

lemma run_cases_ids:
  assumes "run_cases run cs = Inr rs" and "\<And>c r. run c = Inr r \<Longrightarrow> cr_case_id r = ec_id c"
  shows "map cr_case_id rs = map ec_id cs"
  using assms(1) by (induction cs arbitrary: rs) (auto simp: rbind_Inr_iff assms(2))

lemma pass_rate_full: "pass_rate r < 1 \<longleftrightarrow> er_cases r = [] \<or> \<not> list_all cr_passed (er_cases r)"
proof -
  have le: "report_passed r \<le> report_total r" by (simp add: report_passed_def report_total_def)
  have "report_passed r = report_total r \<longleftrightarrow> list_all cr_passed (er_cases r)"
    unfolding report_passed_def report_total_def list_all_iff
    by (metis filter_True length_filter_less linorder_neq_iff)
  moreover have "er_cases r \<noteq> [] \<Longrightarrow> 0 < report_total r" by (simp add: report_total_def)
  ultimately show ?thesis
    using le by (auto simp: pass_rate_def divide_less_eq_1_pos)
qed

definition pack_clean :: "'l harness \<Rightarrow> datasets \<Rightarrow> eval_args \<Rightarrow> string \<Rightarrow> bool" where
  \<comment> \<open>a data set with at least one case, every one of which was run and passed\<close>
  "pack_clean h ds args pid \<longleftrightarrow>
     (\<exists>cases r. cases_at ds (if attr_text (arg_dataset args) \<noteq> [] then attr_text (arg_dataset args) else path_for ds pid) = Some (Inr cases)
        \<and> cases \<noteq> [] \<and> run_pack_eval h pid cases (arg_version args) None None = Inr r
        \<and> map cr_case_id (er_cases r) = map ec_id cases \<and> list_all cr_passed (er_cases r))"

lemma pack_exit_clean:
  assumes "attr_text (arg_compare args) = []"
    and "cases_at ds (if attr_text (arg_dataset args) \<noteq> [] then attr_text (arg_dataset args) else path_for ds pid) = Some (Inr cases)"
  shows "pack_exit h args pid cases = Inr False \<longleftrightarrow> pack_clean h ds args pid"
proof (cases "run_pack_eval h pid cases (arg_version args) None None")
  case (Inl e)
  then show ?thesis using assms by (simp add: pack_exit_def pack_clean_def)
next
  case (Inr r)
  have ids: "map cr_case_id (er_cases r) = map ec_id cases"
    using Inr run_cases_ids [OF _ run_one_case_id] by (auto simp: run_pack_eval_def rbind_Inr_iff)
  then have "er_cases r = [] \<longleftrightarrow> cases = []" by (metis list.map_disc_iff)
  then show ?thesis using assms Inr ids by (simp add: pack_exit_def pack_clean_def) (auto simp: pass_rate_full)
qed

lemma eval_packs_code:
  assumes "attr_text (arg_compare args) = []"
  shows "eval_packs h ds args code pids = Code 0 \<longleftrightarrow> code = 0 \<and> (\<forall>pid\<in>set pids. pack_clean h ds args pid)"
proof (induction pids arbitrary: code)
  case (Cons pid pids)
  let ?at = "cases_at ds (if attr_text (arg_dataset args) \<noteq> [] then attr_text (arg_dataset args) else path_for ds pid)"
  show ?case
  proof (cases ?at)
    case None
    then show ?thesis by (auto simp: pack_clean_def)
  next
    case (Some lc)
    show ?thesis
    proof (cases lc)
      case (Inl e)
      then show ?thesis using Some by (auto simp: pack_clean_def)
    next
      case (Inr cases)
      have clean: "pack_exit h args pid cases = Inr False \<longleftrightarrow> pack_clean h ds args pid"
        using pack_exit_clean [OF assms] Some Inr by blast
      show ?thesis
      proof (cases "pack_exit h args pid cases")
        case (Inl e)
        then show ?thesis using Some Inr clean by simp
      next
        case w: (Inr worse)
        then show ?thesis using Some Inr clean Cons.IH by (cases worse) auto
      qed
    qed
  qed
qed simp

text \<open>C40. Without \<open>--compare\<close> and \<open>--list\<close> the command leaves with code 0 exactly if at least one pack
  was named and for each of them there is a data set with at least one case, and every case of it
  was run and passed: a missing or empty data set, a failing case or an exception of the harness
  never looks like success.\<close>

theorem eval_exit_zero:
  assumes "attr_text (arg_compare args) = []" and "\<not> arg_list args"
  shows "eval_main h ds args = Code 0 \<longleftrightarrow>
    eval_pack_ids ds args \<noteq> [] \<and> (\<forall>pid\<in>set (eval_pack_ids ds args). pack_clean h ds args pid)"
  using assms by (simp add: eval_main_def eval_packs_code)

definition demo_harness :: "unit harness" where
  "demo_harness =
     \<lparr>h_env = \<lparr>str_of = (\<lambda>v. ''{}''), repr_of = (\<lambda>v. ''{}''), parse_rat = (\<lambda>s. None), json_loads = (\<lambda>s. None), json_text = (\<lambda>v. ''{}''),
        valid_verdict = (\<lambda>v. None), message_of = (\<lambda>e. ''failed''), rounded = (\<lambda>n r. r), took = (\<lambda>c. 1)\<rparr>,
      h_registry = [], h_draws = (\<lambda>i. 0),
      h_pack = (\<lambda>c. \<lparr>ep_impl = (\<lambda>l. demo_impl), ep_attributes = [''run'']\<rparr>), h_input = (\<lambda>a d. Some d)\<rparr>"

definition demo_args :: eval_args where
  "demo_args = \<lparr>arg_pack = Some ''summariser'', arg_all = False, arg_version = None, arg_compare = None, arg_dataset = None, arg_list = False\<rparr>"

definition no_datasets :: datasets where
  "no_datasets = \<lparr>builtin_sets = [], path_for = (\<lambda>p. p), cases_at = (\<lambda>p. None)\<rparr>"

theorem eval_exit_zero_witness:
  "eval_main demo_harness no_datasets demo_args = Code 2 \<and> \<not> pack_clean demo_harness no_datasets demo_args ''summariser''"
proof -
  have "attr_text (arg_compare demo_args) = []" "\<not> arg_list demo_args" "eval_pack_ids no_datasets demo_args = [''summariser'']"
    by (simp_all add: demo_args_def attr_text_def eval_pack_ids_def)
  from eval_exit_zero [OF this(1,2), of demo_harness no_datasets] this(3)
  show ?thesis by (simp add: eval_main_def demo_args_def no_datasets_def attr_text_def eval_pack_ids_def)
qed

section \<open>What the harness does not see\<close>

text \<open>The harness asks \<open>hasattr\<close>, which finds an inherited \<open>run_from_input\<close>, where the endpoints look
  in the class's own dictionary: it runs a vertical pack on the whole body, while a request gets
  a run on the primary text alone (\<open>vertical_sees_primary_text_only\<close>).\<close>

lemma evaluated_on_the_body:
  assumes "''run_from_input'' \<in> set (ep_attributes pack)" and "ep_impl pack l = vertical_pack_impl env p lm connector"
    and "input_model d = Some body"
  shows "answer_of pack input_model l d = map_sum id (\<lambda>out. (model_result out, Some 0)) (vertical_run_from_input env p lm connector body)"
  using assms by (cases "vertical_run_from_input env p lm connector body") (simp_all add: answer_of_def vertical_pack_impl_def)

text \<open>The input model comes from a draw of its own: version 2 is evaluated on inputs of version 1.\<close>

lemma schemas_of_another_version:
  assumes "h_registry h = [(''p'', [\<lparr>pv_version = ''1'', pv_cls = c1, pv_weight = 1\<rparr>, \<lparr>pv_version = ''2'', pv_cls = c2, pv_weight = 0\<rparr>])]"
    and "0 \<le> h_draws h 1" "h_draws h 1 < 1" and "pc_input c1 \<noteq> NoSchema" "pc_output c1 \<noteq> NoSchema"
  shows "run_pack_eval h ''p'' cases (Some ''2'') model judge =
    map_sum id (\<lambda>rs. \<lparr>er_pack_id = ''p'', er_version = ''2'', er_cases = rs\<rparr>)
      (run_cases (run_one_case (h_env h) (h_pack h c2) (h_input h (pc_input c1)) model judge) cases)"
proof -
  have "get_pack (\<lambda>_. 0) (h_draws h 0) ''p'' (Some ''2'') None (h_registry h) = Inr c2"
    using assms(1) by (simp add: get_pack_def get_versions_def)
  moreover have "get_schemas (h_draws h 1) ''p'' (h_registry h) = Inr (pc_input c1, pc_output c1)"
    using assms by (simp add: get_schemas_def registry_get_def get_pack_def get_versions_def select_weighted_def attr_text_def total_weight_def)
  ultimately show ?thesis
    by (cases "run_cases (run_one_case (h_env h) (h_pack h c2) (h_input h (pc_input c1)) model judge) cases")
      (simp_all add: run_pack_eval_def raised_def attr_text_def)
qed

text \<open>\<open>True\<close> is a number between 0 and 1, as \<open>bool\<close> is a subclass of \<open>int\<close>.\<close>

lemma true_in_range:
  "map_sum id ck_passed (check_numeric_range env [(''fit_score'', VBool True)] (''fit_score'', VList [VInt 0, VInt 1])) = Inr True"
  by (simp add: check_numeric_range_def indexed_def py_float_def number_of_def named_def dget_def)

text \<open>Only a \<open>ValueError\<close> of the judge fails the case; an outage of its provider ends the whole evaluation.\<close>

lemma judge_outage_ends_evaluation:
  assumes "ec_mock_responses c = Some (t # ts)" and "ec_expect_error c = None" and "ec_judge c = Some (k # ks)"
    and "answer_of pack input_model (Scripted (t # ts)) (ec_input c) = Inr (res, cost)"
    and "run_checks env (result_to_dict env res) (ec_checks c) = Inr checks"
    and "\<And>prompt. judge prompt = Inl e" and "\<not> isinstance e [''ValueError'']"
  shows "run_one_case env pack input_model model (Some judge) c = Inl e"
  using assms by (simp add: run_one_case_def case_llm_of_def scored_def judge_case_def judged_def Let_def raised_def)

end
