(* ===== verification/Observability.thy ===== *)
theory Observability
  imports LogSanitize Config
begin

text \<open>
  \<open>core/observability.py\<close>: the log pipeline of the root logger (the request-id filter, then the
  sanitising filter, on one handler), the configuration of tracing, spans, the metric label of a
  request and the timing of graph nodes. A log record is its \<open>__dict__\<close>; the formatter, which
  prints the record's attributes, and the exporters are not modelled.
\<close>

section \<open>Log records and their filters\<close>

definition PROTECTED_ATTRS :: "string list" where
  "PROTECTED_ATTRS = [''name'', ''msg'', ''args'', ''created'', ''relativeCreated'', ''exc_info'', ''exc_text'',
     ''stack_info'', ''lineno'', ''funcName'', ''pathname'', ''filename'', ''module'', ''levelno'', ''levelname'',
     ''message'', ''msecs'', ''process'', ''processName'', ''thread'', ''threadName'', ''request_id'', ''taskName'']"

definition is_extra :: "string \<Rightarrow> bool" where
  "is_extra k \<longleftrightarrow> \<not> startswith ''_'' k \<and> k \<notin> set PROTECTED_ATTRS"

definition record_extras :: "pydict \<Rightarrow> pydict" where
  "record_extras entry = filter (\<lambda>(k, v). is_extra k) entry"

definition request_id_filter :: "string \<Rightarrow> pydict \<Rightarrow> pydict" where
  \<comment> \<open>the first argument is the context variable: empty outside a request\<close>
  "request_id_filter rid entry = AList.update ''request_id'' (VStr rid) entry"

definition set_attributes :: "pydict \<Rightarrow> pydict \<Rightarrow> pydict" where
  "set_attributes entry upd = fold (\<lambda>(k, v). AList.update k v) upd entry"

definition sanitizing_filter :: "pydict \<Rightarrow> pydict" where
  "sanitizing_filter entry =
     (let extras = record_extras entry in
      if extras = [] then entry else set_attributes entry (sanitize_log_data extras))"

datatype log_filter = RequestIdFilter | SanitizingFilter

fun apply_filter :: "string \<Rightarrow> log_filter \<Rightarrow> pydict \<Rightarrow> pydict" where
  \<comment> \<open>both filters answer \<open>True\<close>, so no record is dropped\<close>
  "apply_filter rid RequestIdFilter entry = request_id_filter rid entry"
| "apply_filter rid SanitizingFilter entry = sanitizing_filter entry"

section \<open>The root logger\<close>

text \<open>\<open>logging.Logger.setLevel\<close> accepts the standard names, in upper case.\<close>

definition level_number :: "string \<Rightarrow> nat option" where
  "level_number name = map_of [(''CRITICAL'', 50), (''FATAL'', 50), (''ERROR'', 40), (''WARN'', 30), (''WARNING'', 30),
     (''INFO'', 20), (''DEBUG'', 10), (''NOTSET'', 0)] name"

datatype formatter = JsonFormatter | TextFormatter

record log_handler =
  handler_level :: nat
  handler_formatter :: formatter
  handler_filters :: "log_filter list"

record root_logger =
  root_level :: nat
  root_handlers :: "log_handler list"

definition configure_logging :: "bool \<Rightarrow> string \<Rightarrow> root_logger \<Rightarrow> root_logger result" where
  \<comment> \<open>the flag: \<open>python-json-logger\<close> is installed\<close>
  "configure_logging json level logger =
     (case level_number level of
        None \<Rightarrow> Inl ValueError
      | Some n \<Rightarrow> Inr \<lparr>root_level = n, root_handlers =
          [\<lparr>handler_level = n, handler_formatter = (if json then JsonFormatter else TextFormatter),
            handler_filters = [RequestIdFilter, SanitizingFilter]\<rparr>]\<rparr>)"

text \<open>\<open>Logger.handle\<close>: the handlers see the same record one after the other, each after its own
  filters; what reaches a handler's stream is the record as it is then.\<close>

fun call_handlers :: "string \<Rightarrow> nat \<Rightarrow> log_handler list \<Rightarrow> pydict \<Rightarrow> pydict list" where
  "call_handlers rid levelno [] entry = []"
| "call_handlers rid levelno (h # hs) entry =
     (if levelno < handler_level h then call_handlers rid levelno hs entry
      else let seen = fold (apply_filter rid) (handler_filters h) entry in
        seen # call_handlers rid levelno hs seen)"

definition log_call :: "root_logger \<Rightarrow> string \<Rightarrow> nat \<Rightarrow> pydict \<Rightarrow> pydict list" where
  "log_call logger rid levelno entry =
     (if levelno < root_level logger then [] else call_handlers rid levelno (root_handlers logger) entry)"

section \<open>What the filters do\<close>

lemma map_of_set_attributes:
  "distinct (map fst upd) \<Longrightarrow> map_of (set_attributes entry upd) k = (case map_of upd k of None \<Rightarrow> map_of entry k | Some v \<Rightarrow> Some v)"
proof (induction upd arbitrary: entry)
  case Nil
  show ?case by (simp add: set_attributes_def)
next
  case (Cons kv upd)
  obtain k' v' where kv: "kv = (k', v')" by (cases kv)
  have "map_of (set_attributes entry (kv # upd)) k = map_of (set_attributes (AList.update k' v' entry) upd) k"
    by (simp add: set_attributes_def kv)
  with Cons show ?case
    by (auto simp: kv split: option.splits dest: map_of_SomeD)
       (metis fst_conv image_eqI map_of_SomeD)
qed

lemma set_attributes_names:
  "fst ` set upd \<subseteq> fst ` set entry \<Longrightarrow> map fst (set_attributes entry upd) = map fst entry"
proof (induction upd arbitrary: entry)
  case (Cons kv upd)
  obtain k v where kv: "kv = (k, v)" by (cases kv)
  have names: "map fst (AList.update k v entry) = map fst entry"
    using Cons.prems by (intro fst_update_in) (auto simp: kv)
  then have "fst ` set (AList.update k v entry) = fst ` set entry"
    by (metis list.set_map)
  with Cons.prems have "map fst (set_attributes (AList.update k v entry) upd) = map fst (AList.update k v entry)"
    by (intro Cons.IH) (auto simp: kv)
  then show ?case using names by (simp add: set_attributes_def kv)
qed (simp add: set_attributes_def)

lemma sanitized_names: "map fst (sanitize_log_data d) = map fst d"
  by (simp add: sanitize_log_data_def split_beta comp_def)

lemma map_of_sanitized:
  "map_of (sanitize_log_data d) k = map_option (\<lambda>v. if is_sensitive_key k then VStr MASK else sanitize_value v) (map_of d k)"
  by (induction d) (auto simp: sanitize_log_data_def)

lemma map_of_extras: "map_of (record_extras entry) k = (if is_extra k then map_of entry k else None)"
  by (induction entry) (auto simp: record_extras_def)

lemma distinct_extras: "distinct (map fst entry) \<Longrightarrow> distinct (map fst (record_extras entry))"
  unfolding record_extras_def by (induction entry) (auto simp: split_beta)

definition clean_value :: "string \<Rightarrow> pyval \<Rightarrow> pyval" where
  "clean_value k v = (if is_sensitive_key k then VStr MASK else sanitize_value v)"

text \<open>The reference: every extra is sanitised where it stands.\<close>

definition clean_record :: "pydict \<Rightarrow> pydict" where
  "clean_record entry = map (\<lambda>(k, v). (k, if is_extra k then clean_value k v else v)) entry"

lemma map_of_clean_record:
  "map_of (clean_record entry) k = map_option (\<lambda>v. if is_extra k then clean_value k v else v) (map_of entry k)"
  by (induction entry) (auto simp: clean_record_def)

lemma clean_record_names: "map fst (clean_record entry) = map fst entry"
  by (simp add: clean_record_def split_beta comp_def)

lemma alist_eqI:
  assumes "map fst xs = map fst ys" and "distinct (map fst xs)" and "\<And>k. map_of xs k = map_of ys k"
  shows "xs = ys"
proof (rule nth_equalityI)
  show len: "length xs = length ys" using assms(1) by (metis length_map)
  fix i assume i: "i < length xs"
  have "fst (xs ! i) = fst (ys ! i)" using assms(1) i len by (metis nth_map)
  moreover have "map_of xs (fst (xs ! i)) = Some (snd (xs ! i))"
    using assms(2) i by (intro map_of_is_SomeI) auto
  moreover have "map_of ys (fst (ys ! i)) = Some (snd (ys ! i))"
    using assms(1,2) i len by (intro map_of_is_SomeI) auto
  ultimately show "xs ! i = ys ! i"
    using assms(3) [of "fst (xs ! i)"] by (simp add: prod_eq_iff)
qed

lemma sanitizing_filter_clean:
  assumes d: "distinct (map fst entry)"
  shows "sanitizing_filter entry = clean_record entry"
proof -
  let ?upd = "sanitize_log_data (record_extras entry)"
  have eq: "sanitizing_filter entry = set_attributes entry ?upd"
    by (simp add: sanitizing_filter_def Let_def set_attributes_def sanitize_log_data_def)
  have sub: "fst ` set ?upd \<subseteq> fst ` set entry"
  proof -
    have "fst ` set ?upd = fst ` set (record_extras entry)"
      by (metis list.set_map sanitized_names)
    then show ?thesis by (auto simp: record_extras_def)
  qed
  have names: "map fst (set_attributes entry ?upd) = map fst entry"
    by (rule set_attributes_names [OF sub])
  show ?thesis unfolding eq
  proof (rule alist_eqI)
    show "map fst (set_attributes entry ?upd) = map fst (clean_record entry)"
      by (simp only: names clean_record_names)
    show "distinct (map fst (set_attributes entry ?upd))"
      using names d by simp
    fix k
    show "map_of (set_attributes entry ?upd) k = map_of (clean_record entry) k"
      using distinct_extras [OF d]
      by (simp add: map_of_set_attributes sanitized_names map_of_sanitized map_of_extras map_of_clean_record clean_value_def
               split: option.splits)
  qed
qed

lemma clean_value_idem: "clean_value k (clean_value k v) = clean_value k v"
  by (simp add: clean_value_def sanitize_value_idem)

lemma clean_record_idem: "clean_record (clean_record entry) = clean_record entry"
  by (simp add: clean_record_def split_beta comp_def clean_value_idem)

lemma record_extras_clean: "record_extras (clean_record entry) = sanitize_log_data (record_extras entry)"
  by (induction entry) (auto simp: record_extras_def clean_record_def sanitize_log_data_def clean_value_def)

lemma record_extras_request_id: "record_extras (request_id_filter rid entry) = record_extras entry"
proof -
  have "\<not> is_extra ''request_id''" by code_simp
  then have "filter (\<lambda>(k, v). is_extra k) (AList.update ''request_id'' (VStr rid) entry) = filter (\<lambda>(k, v). is_extra k) entry"
    by (induction entry) auto
  then show ?thesis by (simp add: record_extras_def request_id_filter_def)
qed

lemma request_id_not_extra: "\<not> is_extra ''request_id''"
  by code_simp

definition filtered :: "string \<Rightarrow> pydict \<Rightarrow> pydict" where
  "filtered rid entry = fold (apply_filter rid) [RequestIdFilter, SanitizingFilter] entry"

lemma filtered_clean:
  assumes "distinct (map fst entry)"
  shows "filtered rid entry = clean_record (request_id_filter rid entry)"
  using sanitizing_filter_clean [of "request_id_filter rid entry"] assms
  by (simp add: filtered_def request_id_filter_def distinct_update)

lemma map_of_filtered:
  assumes "distinct (map fst entry)"
  shows "map_of (filtered rid entry) k =
    (if k = ''request_id'' then Some (VStr rid)
     else map_option (\<lambda>v. if is_extra k then clean_value k v else v) (map_of entry k))"
  unfolding filtered_clean [OF assms] using request_id_not_extra
  by (auto simp: map_of_clean_record request_id_filter_def)

section \<open>The configured service\<close>

lemma log_level_known:
  assumes "load_settings p raw = Inr s"
  shows "log_level s \<in> {''DEBUG'', ''INFO'', ''WARNING'', ''ERROR'', ''CRITICAL''}"
  using load_settings_fields [OF assms] by (simp add: choices_ok_def)

lemma level_numbers:
  "level_number ''DEBUG'' = Some 10" "level_number ''INFO'' = Some 20" "level_number ''WARNING'' = Some 30"
  "level_number ''ERROR'' = Some 40" "level_number ''CRITICAL'' = Some 50"
  by code_simp+

lemma logging_starts:
  assumes "load_settings p raw = Inr s"
  obtains n where "level_number (log_level s) = Some n" and "10 \<le> n" and "n \<le> 50"
  using log_level_known [OF assms] by (auto simp: level_numbers)

lemma log_call_configured:
  "level_number level = Some n \<Longrightarrow> \<exists>logger'. configure_logging json level logger = Inr logger'
     \<and> log_call logger' rid levelno entry = (if levelno < n then [] else [filtered rid entry])"
  by (simp add: configure_logging_def log_call_def filtered_def)

text \<open>C33. The log of a service started with settings that load: logging is configured whatever
  handlers were there before, one line per record at or above the configured level, and in
  each line the only values under sensitive keys left unmasked among the extras, at any depth
  of dictionaries and lists, are those below a list that is itself an element of a list (there
  the sanitiser's recursion stops, against its documentation); the line carries the request's
  id, even when the caller passed another one, and every other standard attribute as it was.
  Records have distinct attribute names, as every \<open>__dict__\<close> does.\<close>

theorem log_lines_sanitised:
  assumes "load_settings p raw = Inr s" and "distinct (map fst entry)"
  shows "\<exists>logger' n. configure_logging json (log_level s) logger = Inr logger' \<and> level_number (log_level s) = Some n
    \<and> log_call logger' rid levelno entry = (if levelno < n then [] else [filtered rid entry])
    \<and> (exposes (VDict (record_extras (filtered rid entry))) \<longleftrightarrow> below_inner_list (VDict (record_extras entry)))
    \<and> map_of (filtered rid entry) ''request_id'' = Some (VStr rid)
    \<and> (\<forall>k. k \<noteq> ''request_id'' \<longrightarrow> \<not> is_extra k \<longrightarrow> map_of (filtered rid entry) k = map_of entry k)
    \<and> (\<forall>k. k \<noteq> ''request_id'' \<longrightarrow> (map_of (filtered rid entry) k = None \<longleftrightarrow> map_of entry k = None))"
proof -
  obtain n where n: "level_number (log_level s) = Some n" using logging_starts [OF assms(1)] by blast
  have "exposes (VDict (record_extras (filtered rid entry))) \<longleftrightarrow> below_inner_list (VDict (record_extras entry))"
    unfolding filtered_clean [OF assms(2)] record_extras_clean record_extras_request_id
    by (metis sanitize_value_exposes sanitize_value_dict)
  moreover obtain logger' where "configure_logging json (log_level s) logger = Inr logger'"
    and "log_call logger' rid levelno entry = (if levelno < n then [] else [filtered rid entry])"
    using log_call_configured [OF n] by blast
  moreover note n
  ultimately show ?thesis
    by (auto simp: map_of_filtered [OF assms(2)] option.map_ident simp del: exposes.simps below_inner_list.simps)
qed

lemma filters_idempotent:
  assumes "distinct (map fst entry)"
  shows "filtered rid (filtered rid entry) = filtered rid entry"
proof -
  have d: "distinct (map fst (filtered rid entry))"
    using assms by (simp add: filtered_clean clean_record_names request_id_filter_def distinct_update)
  show ?thesis
  proof (rule alist_eqI)
    have "''request_id'' \<in> fst ` set (filtered rid entry)"
      using map_of_filtered [OF assms, of rid "''request_id''"] by (simp flip: dom_map_of_conv_image_fst add: domI)
    then show "map fst (filtered rid (filtered rid entry)) = map fst (filtered rid entry)"
      using fst_update_in [of "''request_id''" "filtered rid entry" "VStr rid"]
      by (simp add: filtered_clean [OF d] clean_record_names request_id_filter_def)
    then show "distinct (map fst (filtered rid (filtered rid entry)))" using d by simp
    fix k
    show "map_of (filtered rid (filtered rid entry)) k = map_of (filtered rid entry) k"
      by (simp add: map_of_filtered [OF d] map_of_filtered [OF assms] clean_value_idem option.map_comp comp_def cong: if_cong
               split: option.splits)
  qed
qed

lemma unknown_level: "level_number level = None \<Longrightarrow> configure_logging json level logger = Inl ValueError"
  by (simp add: configure_logging_def)

section \<open>Tracing\<close>

definition truthy_flag :: "string \<Rightarrow> bool" where
  "truthy_flag v \<longleftrightarrow> lower v \<in> set [''1'', ''true'', ''yes'']"

definition or_default :: "string \<Rightarrow> string option \<Rightarrow> string" where
  "or_default d v = (case v of None \<Rightarrow> d | Some s \<Rightarrow> s)"

record exporter =
  exporter_endpoint :: string
  insecure :: bool  \<comment> \<open>passed as \<open>insecure=True\<close>; otherwise the argument is left out\<close>

record tracing =
  tracer_of :: "(string \<times> exporter) option"  \<comment> \<open>\<open>_tracer\<close>: the service's name and where spans go\<close>

definition init_tracing :: "bool \<Rightarrow> (string \<Rightarrow> string option) \<Rightarrow> string \<Rightarrow> tracing \<Rightarrow> tracing" where
  "init_tracing otel_available getenv service st =
     (if \<not> otel_available then st
      else if \<not> truthy_flag (or_default ''false'' (getenv ''OTEL_ENABLED'')) then st
      else let otlp_endpoint = or_default ''http://localhost:4317'' (getenv ''OTEL_EXPORTER_OTLP_ENDPOINT'');
               otel_insecure = truthy_flag (or_default [] (getenv ''OTEL_EXPORTER_OTLP_INSECURE''));
               is_local = has_sub ''localhost'' otlp_endpoint \<or> has_sub ''127.0.0.1'' otlp_endpoint
           in \<lparr>tracer_of = Some (service, \<lparr>exporter_endpoint = otlp_endpoint, insecure = otel_insecure \<or> is_local\<rparr>)\<rparr>)"

datatype tracer = Configured string | ApiTracer string | NoOpTracer

definition get_tracer :: "bool \<Rightarrow> tracing \<Rightarrow> tracer" where
  "get_tracer otel_available st =
     (case tracer_of st of
        Some (service, _) \<Rightarrow> Configured service
      | None \<Rightarrow> if otel_available then ApiTracer ''langgraph-agent-stack'' else NoOpTracer)"

text \<open>A span is a name with attributes; the body gets it, or \<open>None\<close> from the stub. The body's
  outcome, a result or an exception, passes through \<open>start_as_current_span\<close>.\<close>

type_synonym span = "string \<times> pydict"

definition start_as_current_span :: "tracer \<Rightarrow> string \<Rightarrow> span option" where
  "start_as_current_span t name = (case t of NoOpTracer \<Rightarrow> None | _ \<Rightarrow> Some (name, []))"

definition trace_span :: "tracer \<Rightarrow> string \<Rightarrow> pydict option \<Rightarrow> (span option \<Rightarrow> 'e + 'a) \<Rightarrow> 'e + 'a" where
  "trace_span t name attributes body =
     (case start_as_current_span t name of
        None \<Rightarrow> body None
      | Some (nm, attrs) \<Rightarrow>
          body (Some (nm, case attributes of None \<Rightarrow> attrs | Some d \<Rightarrow> set_attributes attrs d)))"

lemma tracing_off_is_transparent:
  assumes "tracer_of st = None"
  shows "trace_span (get_tracer False (init_tracing False getenv service st)) name attributes body = body None"
  using assms by (simp add: init_tracing_def get_tracer_def trace_span_def start_as_current_span_def)

lemma span_attributes:
  assumes "distinct (map fst d)"
  shows "trace_span (Configured svc) name (Some d) body = body (Some (name, d))"
proof -
  have "set_attributes acc d = acc @ d" if "distinct (map fst (acc @ d))" for acc
    using that
  proof (induction d arbitrary: acc)
    case (Cons kv d)
    obtain k v where "kv = (k, v)" by (cases kv)
    with Cons.prems have "AList.update k v acc = acc @ [kv]" by (simp add: fst_update_notin)
    moreover have "set_attributes (acc @ [kv]) d = (acc @ [kv]) @ d" using Cons.prems by (intro Cons.IH) simp
    ultimately show ?case using \<open>kv = (k, v)\<close> by (simp add: set_attributes_def)
  qed (simp add: set_attributes_def)
  from this [of "[]"] assms show ?thesis
    by (simp add: trace_span_def start_as_current_span_def)
qed

text \<open>Whether the collector is local is decided by a substring of its address: an endpoint
  elsewhere whose name contains \<open>localhost\<close> is exported to without TLS.\<close>

lemma remote_collector_insecure:
  "has_sub ''localhost'' host \<Longrightarrow> getenv ''OTEL_ENABLED'' = Some ''true'' \<Longrightarrow>
   getenv ''OTEL_EXPORTER_OTLP_ENDPOINT'' = Some host \<Longrightarrow> getenv ''OTEL_EXPORTER_OTLP_INSECURE'' = None \<Longrightarrow>
   tracer_of (init_tracing True getenv svc st) = Some (svc, \<lparr>exporter_endpoint = host, insecure = True\<rparr>)"
  by (simp add: init_tracing_def or_default_def truthy_flag_def lower_def lower_char_def)

lemma remote_collector_example: "has_sub ''localhost'' ''localhost.collector.example.com:4317''"
  by code_simp

section \<open>Metrics\<close>

datatype route = APIRoute string | OtherRoute "pyval option"  \<comment> \<open>its \<open>path\<close> attribute, if any\<close>

definition metrics_path_label :: "route option \<Rightarrow> string" where
  "metrics_path_label r =
     (case r of
        Some (APIRoute path) \<Rightarrow> path
      | Some (OtherRoute (Some (VStr path))) \<Rightarrow> if path \<noteq> [] then path else ''unknown''
      | _ \<Rightarrow> ''unknown'')"

text \<open>Labels come from the routes alone: with finitely many routes, finitely many labels,
  whatever is requested.\<close>

lemma label_cardinality:
  "finite routes \<Longrightarrow> finite (metrics_path_label ` Some ` routes) \<and> card (metrics_path_label ` Some ` routes) \<le> card routes"
  by (metis card_image_le finite_imageI le_trans)

lemma label_nonempty: "(\<And>path. r = Some (APIRoute path) \<Longrightarrow> path \<noteq> []) \<Longrightarrow> metrics_path_label r \<noteq> []"
  by (auto simp: metrics_path_label_def split: option.splits route.splits pyval.splits)

text \<open>\<open>timed_node\<close>: the histogram, when Prometheus is installed, is the list of observations.\<close>

type_synonym observations = "((string \<times> string) \<times> rat) list"

definition timed_node :: "string \<Rightarrow> string \<Rightarrow> rat \<Rightarrow> rat \<Rightarrow> ('a \<Rightarrow> 'e + 'b) \<Rightarrow> 'a \<Rightarrow> observations option \<Rightarrow> ('e + 'b) \<times> observations option" where
  \<comment> \<open>the two times: \<open>time.monotonic()\<close> before and after the call\<close>
  "timed_node agent node start stop func args metric =
     (case metric of
        None \<Rightarrow> (func args, None)
      | Some obs \<Rightarrow> (func args, Some (obs @ [((agent, node), stop - start)])))"

lemma timing_transparent: "fst (timed_node agent node start stop func args metric) = func args"
  by (simp add: timed_node_def split: option.splits)

section \<open>Example\<close>

definition demo_record :: pydict where
  "demo_record = [(''msg'', VStr ''login''), (''request_id'', VStr ''forged''), (''password'', VStr ''hunter2''),
     (''ctx'', VDict [(''api_key'', VStr ''sk-1''), (''n'', VInt 1)])]"

lemma demo_filtered: "filtered ''r1'' demo_record =
   [(''msg'', VStr ''login''), (''request_id'', VStr ''r1''), (''password'', VStr MASK),
    (''ctx'', VDict [(''api_key'', VStr MASK), (''n'', VInt 1)])]"
  by code_simp

theorem log_lines_sanitised_witness:
  "\<exists>s logger'. load_settings demo_parsers prod_raw = Inr s
     \<and> configure_logging True (log_level s) \<lparr>root_level = 0, root_handlers = []\<rparr> = Inr logger'
     \<and> log_call logger' ''r1'' 50 demo_record =
        [[(''msg'', VStr ''login''), (''request_id'', VStr ''r1''), (''password'', VStr MASK),
          (''ctx'', VDict [(''api_key'', VStr MASK), (''n'', VInt 1)])]]"
proof -
  obtain s where s: "load_settings demo_parsers prod_raw = Inr s" using prod_settings by blast
  have "distinct (map fst demo_record)" by (simp add: demo_record_def)
  from log_lines_sanitised [OF s this, of True "\<lparr>root_level = 0, root_handlers = []\<rparr>" "''r1''" 50]
  obtain logger' n where "configure_logging True (log_level s) \<lparr>root_level = 0, root_handlers = []\<rparr> = Inr logger'"
    and "level_number (log_level s) = Some n"
    and "log_call logger' ''r1'' 50 demo_record = (if 50 < n then [] else [filtered ''r1'' demo_record])"
    by blast
  moreover have "n \<le> 50" using logging_starts [OF s] \<open>level_number (log_level s) = Some n\<close> by fastforce
  ultimately show ?thesis using s demo_filtered by auto
qed

end
