(* ===== verification/Lifecycle.thy ===== *)
theory Lifecycle
  imports Cost Lifespan Tools LegacyApi
begin

text \<open>
  What an agent and a pack hold while they live: construction (\<open>BaseAgent.__init__\<close>, the packs'
  \<open>__init__\<close>, the agents a pack makes when it needs them), the cost trackers they share, the
  pack's thread pool with its double-checked lock, and the tutorial pack of
  \<open>examples/custom_pack/\<close>. Trackers are shared objects: an address is a position in a list.
  Compiling a graph is LangGraph's.
\<close>

section \<open>Construction of an agent\<close>

record 'c host =
  host_settings :: settings
  host_packages :: "'c llm_packages"
  host_runtime :: runtime
  host_tools :: "tool list result"      \<comment> \<open>\<open>get_default_tools()\<close>\<close>
  binds_tools :: "'c \<Rightarrow> bool"            \<comment> \<open>\<open>bind_tools\<close> is implemented\<close>
  new_uuid :: string

record world =
  trackers :: "cost_tracker list"
  checkpointer_cms :: cm_state

record 'c agent =
  ag_name :: string
  ag_thread_id :: string
  ag_tools :: "tool list"
  ag_model :: 'c
  ag_callbacks :: "nat list"            \<comment> \<open>the trackers attached to the model\<close>
  ag_tools_bound :: bool
  ag_checkpointer :: checkpointer
  ag_cost_tracker :: "nat option"

definition or_text :: "string option \<Rightarrow> string \<Rightarrow> string" where
  \<comment> \<open>\<open>s or default\<close>\<close>
  "or_text s d = (case s of None \<Rightarrow> d | Some t \<Rightarrow> if t = [] then d else t)"

definition effective_budget :: "'c host \<Rightarrow> rat option \<Rightarrow> rat option" where
  "effective_budget h budget = (case budget of Some b \<Rightarrow> Some b | None \<Rightarrow> pack_default_budget_usd (host_settings h))"

definition new_tracker :: "rat option \<Rightarrow> world \<Rightarrow> nat option \<times> world" where
  "new_tracker budget w =
     (case budget of
        None \<Rightarrow> (None, w)
      | Some b \<Rightarrow> (Some (length (trackers w)), w\<lparr>trackers := trackers w @ [cost_tracker_init (Some b)]\<rparr>))"

definition resolve_tracker :: "'c host \<Rightarrow> rat option \<Rightarrow> nat option \<Rightarrow> world \<Rightarrow> nat option \<times> world" where
  "resolve_tracker h budget tracker w =
     (case tracker of Some a \<Rightarrow> (Some a, w) | None \<Rightarrow> new_tracker (effective_budget h budget) w)"

definition resolve_model :: "'c host \<Rightarrow> 'c option \<Rightarrow> 'c result" where
  "resolve_model h model =
     (case model of
        Some m \<Rightarrow> Inr m
      | None \<Rightarrow> (case get_llm (host_packages h) (llm_config_of (host_settings h)) of
            Inr m \<Rightarrow> Inr m
          | Inl e \<Rightarrow> Inl (if e \<in> {ImportError, ValueError} then AgentConfigurationError else e)))"

definition resolve_checkpointer :: "'c host \<Rightarrow> checkpointer option \<Rightarrow> world \<Rightarrow> checkpointer result \<times> world" where
  "resolve_checkpointer h given w =
     (case given of
        Some cp \<Rightarrow> (Inr cp, w)
      | None \<Rightarrow>
          (case create_checkpointer ((host_runtime h)\<lparr>runtime.environment := settings.environment (host_settings h)\<rparr>)
                  (settings.memory (host_settings h)) (checkpointer_cms w) of
             (r, cms) \<Rightarrow> (r, w\<lparr>checkpointer_cms := cms\<rparr>)))"

definition agent_init ::
  "'c host \<Rightarrow> string \<Rightarrow> string option \<Rightarrow> tool list option \<Rightarrow> 'c option \<Rightarrow> checkpointer option \<Rightarrow> rat option \<Rightarrow> nat option
     \<Rightarrow> world \<Rightarrow> 'c agent result \<times> world" where
  "agent_init h name thread_id given model checkpointer budget tracker w =
     (case (case given of Some ts \<Rightarrow> Inr ts | None \<Rightarrow> host_tools h) of
        Inl e \<Rightarrow> (Inl e, w)
      | Inr ts \<Rightarrow>
          (case resolve_model h model of
             Inl e \<Rightarrow> (Inl e, w)
           | Inr m \<Rightarrow>
               (case resolve_tracker h budget tracker w of (addr, w1) \<Rightarrow>
               (case resolve_checkpointer h checkpointer w1 of
                  (Inl e, w2) \<Rightarrow> (Inl e, w2)
                | (Inr cp, w2) \<Rightarrow>
                    (Inr \<lparr>ag_name = name, ag_thread_id = or_text thread_id (new_uuid h), ag_tools = ts, ag_model = m,
                       ag_callbacks = (case addr of None \<Rightarrow> [] | Some a \<Rightarrow> [a]),
                       ag_tools_bound = (ts \<noteq> [] \<and> binds_tools h m), ag_checkpointer = cp, ag_cost_tracker = addr\<rparr>, w2)))))"

definition tracked_cost :: "nat option \<Rightarrow> world \<Rightarrow> rat" where
  "tracked_cost addr w = (case addr of None \<Rightarrow> 0 | Some a \<Rightarrow> total_cost_usd (trackers w ! a))"

definition agent_cost_usd :: "'c agent \<Rightarrow> world \<Rightarrow> rat" where
  "agent_cost_usd ag w = tracked_cost (ag_cost_tracker ag) w"

definition get_config :: "'c agent \<Rightarrow> pydict" where
  "get_config ag = [(''configurable'', VDict [(''thread_id'', VStr (ag_thread_id ag))])]"

text \<open>A call-back of a call the agent makes reaches the trackers of its model, up to the first
  exception.\<close>

fun notify ::
  "(pyval \<Rightarrow> string) \<Rightarrow> price_table \<Rightarrow> bool \<Rightarrow> nat list \<Rightarrow> llm_event \<Rightarrow> cost_tracker list \<Rightarrow> exn option \<times> cost_tracker list" where
  "notify rend table strict [] ev ts = (None, ts)"
| "notify rend table strict (a # as) ev ts =
     (case tracker_step rend table strict (ts ! a) ev of
        (Some x, t) \<Rightarrow> (Some x, ts[a := t])
      | (None, t) \<Rightarrow> notify rend table strict as ev (ts[a := t]))"

section \<open>Construction of packs\<close>

definition base_pack_init :: "rat option \<Rightarrow> unit result" where
  "base_pack_init budget = (case budget of None \<Rightarrow> Inr () | Some b \<Rightarrow> if b < 0 then Inl ValueError else Inr ())"

record 'c rpack =
  rp_run_id :: string
  rp_model :: "'c option"
  rp_checkpointer :: checkpointer
  rp_budget :: "rat option"
  rp_cost_tracker :: "nat option"       \<comment> \<open>of the research and analysis pack\<close>
  rp_research :: "'c agent option"
  rp_analyst :: "'c agent option"

definition agent_pack_init :: "'c host \<Rightarrow> string option \<Rightarrow> 'c option \<Rightarrow> checkpointer option \<Rightarrow> rat option \<Rightarrow> world \<Rightarrow> 'c rpack result \<times> world" where
  \<comment> \<open>the packs with one agent\<close>
  "agent_pack_init h rid model checkpointer budget w =
     (case base_pack_init budget of
        Inl e \<Rightarrow> (Inl e, w)
      | Inr _ \<Rightarrow>
          (case resolve_checkpointer h checkpointer w of
             (Inl e, w1) \<Rightarrow> (Inl e, w1)
           | (Inr cp, w1) \<Rightarrow>
               (Inr \<lparr>rp_run_id = or_text rid (new_uuid h), rp_model = model, rp_checkpointer = cp, rp_budget = budget,
                  rp_cost_tracker = None, rp_research = None, rp_analyst = None\<rparr>, w1)))"

definition research_analysis_init :: "'c host \<Rightarrow> string option \<Rightarrow> 'c option \<Rightarrow> checkpointer option \<Rightarrow> rat option \<Rightarrow> world \<Rightarrow> 'c rpack result \<times> world" where
  "research_analysis_init h rid model checkpointer budget w =
     (case agent_pack_init h rid model checkpointer budget w of
        (Inl e, w1) \<Rightarrow> (Inl e, w1)
      | (Inr pk, w1) \<Rightarrow>
          (case new_tracker (effective_budget h budget) w1 of (addr, w2) \<Rightarrow> (Inr (pk\<lparr>rp_cost_tracker := addr\<rparr>), w2)))"

definition pack_cost_usd :: "'c rpack \<Rightarrow> world \<Rightarrow> rat" where
  "pack_cost_usd pk w = tracked_cost (rp_cost_tracker pk) w"

text \<open>The agents of the research and analysis pack: two that are made once, and one that
  \<open>get_research_result\<close> makes for itself.\<close>

datatype role = Researcher | Analyst | ResearchOnly

definition make_agent :: "'c host \<Rightarrow> string \<Rightarrow> string \<Rightarrow> 'c rpack \<Rightarrow> world \<Rightarrow> 'c agent result \<times> world" where
  "make_agent h name ending pk w =
     agent_init h name (Some (rp_run_id pk @ ending)) None (rp_model pk) (Some (rp_checkpointer pk)) None (rp_cost_tracker pk) w"

fun agent_for :: "'c host \<Rightarrow> role \<Rightarrow> 'c rpack \<Rightarrow> world \<Rightarrow> 'c agent result \<times> 'c rpack \<times> world" where
  "agent_for h Researcher pk w =
     (case rp_research pk of
        Some ag \<Rightarrow> (Inr ag, pk, w)
      | None \<Rightarrow> (case make_agent h ''ResearchAgent'' ''-research'' pk w of
            (Inl e, w1) \<Rightarrow> (Inl e, pk, w1)
          | (Inr ag, w1) \<Rightarrow> (Inr ag, pk\<lparr>rp_research := Some ag\<rparr>, w1)))"
| "agent_for h Analyst pk w =
     (case rp_analyst pk of
        Some ag \<Rightarrow> (Inr ag, pk, w)
      | None \<Rightarrow> (case make_agent h ''AnalystAgent'' ''-analysis'' pk w of
            (Inl e, w1) \<Rightarrow> (Inl e, pk, w1)
          | (Inr ag, w1) \<Rightarrow> (Inr ag, pk\<lparr>rp_analyst := Some ag\<rparr>, w1)))"
| "agent_for h ResearchOnly pk w =
     (case make_agent h ''ResearchAgent'' ''-research-only'' pk w of (r, w1) \<Rightarrow> (r, pk, w1))"

text \<open>The call-backs of a pack's life, of whichever agent, up to the first exception.\<close>

fun pack_events ::
  "'c host \<Rightarrow> (pyval \<Rightarrow> string) \<Rightarrow> price_table \<Rightarrow> bool \<Rightarrow> (role \<times> llm_event) list \<Rightarrow> 'c rpack \<Rightarrow> world \<Rightarrow> exn option \<times> 'c rpack \<times> world" where
  "pack_events h rend table strict [] pk w = (None, pk, w)"
| "pack_events h rend table strict ((who, ev) # evs) pk w =
     (case agent_for h who pk w of
        (Inl e, pk1, w1) \<Rightarrow> (Some e, pk1, w1)
      | (Inr ag, pk1, w1) \<Rightarrow>
          (case notify rend table strict (ag_callbacks ag) ev (trackers w1) of
             (Some e, ts) \<Rightarrow> (Some e, pk1, w1\<lparr>trackers := ts\<rparr>)
           | (None, ts) \<Rightarrow> pack_events h rend table strict evs pk1 (w1\<lparr>trackers := ts\<rparr>)))"

section \<open>One budget for all agents of a run\<close>

lemma resolve_checkpointer_trackers: "resolve_checkpointer h cp w = (r, w') \<Longrightarrow> trackers w' = trackers w"
  by (auto simp: resolve_checkpointer_def split: option.splits prod.splits)

lemma agent_init_shared:
  assumes "agent_init h name tid given model cp budget (Some a) w = (r, w')"
  shows "trackers w' = trackers w \<and> (\<forall>ag. r = Inr ag \<longrightarrow> ag_callbacks ag = [a] \<and> ag_cost_tracker ag = Some a)"
  using assms
  by (auto simp: agent_init_def resolve_tracker_def dest!: resolve_checkpointer_trackers split: sum.splits option.splits prod.splits)

definition shares :: "nat \<Rightarrow> 'c rpack \<Rightarrow> bool" where
  "shares a pk \<longleftrightarrow> rp_cost_tracker pk = Some a
     \<and> (\<forall>ag. rp_research pk = Some ag \<or> rp_analyst pk = Some ag \<longrightarrow> ag_callbacks ag = [a] \<and> ag_cost_tracker ag = Some a)"

lemma agent_for_shared:
  assumes "shares a pk" and "agent_for h who pk w = (r, pk', w')"
  shows "shares a pk' \<and> trackers w' = trackers w \<and> (\<forall>ag. r = Inr ag \<longrightarrow> ag_callbacks ag = [a])"
  using assms
  by (cases who)
    (auto simp: shares_def make_agent_def split: option.splits prod.splits sum.splits dest!: agent_init_shared)

lemma research_analysis_init_shared:
  assumes "research_analysis_init h rid model cp budget w = (Inr pk, w')" and "effective_budget h budget = Some b"
  shows "shares (length (trackers w)) pk" and "trackers w' = trackers w @ [cost_tracker_init (Some b)]"
  using assms
  by (auto simp: research_analysis_init_def agent_pack_init_def new_tracker_def shares_def
      dest!: resolve_checkpointer_trackers split: sum.splits prod.splits)

definition done_cost :: "price_table \<Rightarrow> bool \<Rightarrow> (role \<times> llm_event) list \<Rightarrow> rat" where
  "done_cost table strict calls = sum_list (map (\<lambda>c. event_cost table strict (snd c)) calls)"

definition metered ::
  "price_table \<Rightarrow> bool \<Rightarrow> nat \<Rightarrow> rat \<Rightarrow> cost_tracker list \<Rightarrow> (role \<times> llm_event) list \<Rightarrow> exn option \<Rightarrow> cost_tracker list \<Rightarrow> bool" where
  \<comment> \<open>tracker \<open>a\<close> took the calls up to the exception, and nothing else was touched\<close>
  "metered table strict a b ts calls x ts' \<longleftrightarrow>
     length ts' = length ts \<and> (\<forall>i. i \<noteq> a \<longrightarrow> ts' ! i = ts ! i)
     \<and> (\<exists>ran rest. calls = ran @ rest \<and> (x = None \<longrightarrow> rest = [])
          \<and> total_cost_usd (ts' ! a) = total_cost_usd (ts ! a) + done_cost table strict ran
          \<and> total_cost_usd (ts ! a) + done_cost table strict (butlast ran) \<le> b
          \<and> (x = None \<longrightarrow> total_cost_usd (ts' ! a) \<le> b))"

lemma metered_none: "total_cost_usd (ts ! a) \<le> b \<Longrightarrow> x \<noteq> None \<or> calls = [] \<Longrightarrow> metered table strict a b ts calls x ts"
  unfolding metered_def by (intro conjI exI [of _ "[]"] exI [of _ calls]) (auto simp: done_cost_def)

lemma metered_stop:
  assumes "a < length ts" and "total_cost_usd (ts ! a) \<le> b" and "total_cost_usd t = total_cost_usd (ts ! a) + event_cost table strict (snd c)"
  shows "metered table strict a b ts (c # calls) (Some e) (ts[a := t])"
  unfolding metered_def using assms by (intro conjI exI [of _ "[c]"] exI [of _ calls]) (auto simp: done_cost_def)

lemma metered_Cons:
  assumes "metered table strict a b (ts[a := t]) calls x ts'" and "a < length ts" and "total_cost_usd (ts ! a) \<le> b"
    and "total_cost_usd t = total_cost_usd (ts ! a) + event_cost table strict (snd c)"
  shows "metered table strict a b ts (c # calls) x ts'"
proof -
  obtain ran rest where *: "calls = ran @ rest" "x = None \<longrightarrow> rest = []"
      "total_cost_usd (ts' ! a) = total_cost_usd t + done_cost table strict ran"
      "total_cost_usd t + done_cost table strict (butlast ran) \<le> b" "x = None \<longrightarrow> total_cost_usd (ts' ! a) \<le> b"
    using assms(1) unfolding metered_def nth_list_update_eq [OF assms(2)] by (elim conjE exE) rule
  show ?thesis unfolding metered_def
  proof (rule conjI [OF _ conjI [OF _ exI [of _ "c # ran", OF exI [of _ rest]]]], goal_cases)
    case 3
    show ?case
      using * assms(3,4) by (simp add: done_cost_def)
  qed (use assms(1) in \<open>simp_all add: metered_def\<close>)
qed

lemma pack_events_shared:
  assumes "pack_events h rend table strict calls pk w = (x, pk', w')" and "shares a pk"
    and "a < length (trackers w)" and "budget_usd (trackers w ! a) = Some b" and "total_cost_usd (trackers w ! a) \<le> b"
  shows "shares a pk' \<and> metered table strict a b (trackers w) calls x (trackers w')"
  using assms
proof (induction calls arbitrary: pk w)
  case Nil
  then show ?case by (simp add: metered_none)
next
  case (Cons c calls)
  obtain who ev where c: "c = (who, ev)" by (cases c)
  obtain r pk1 w1 where ag: "agent_for h who pk w = (r, pk1, w1)" by (metis prod_cases3)
  note sh = agent_for_shared [OF Cons.prems(2) ag]
  show ?case
  proof (cases r)
    case (Inl e)
    with Cons.prems ag c sh show ?thesis by (auto intro: metered_none)
  next
    case (Inr a1)
    obtain y t where st: "tracker_step rend table strict (trackers w1 ! a) ev = (y, t)" by fastforce
    have tot: "total_cost_usd t = total_cost_usd (trackers w ! a) + event_cost table strict (snd c)"
      using tracker_step_total [OF st] sh c by simp
    have cb: "ag_callbacks a1 = [a]" using sh Inr by blast
    show ?thesis
    proof (cases y)
      case (Some e)
      with Cons.prems ag c Inr cb st sh show ?thesis using metered_stop [OF Cons.prems(3,5) tot] by auto
    next
      case None
      let ?w = "w1\<lparr>trackers := (trackers w1)[a := t]\<rparr>"
      have run: "pack_events h rend table strict calls pk1 ?w = (x, pk', w')"
        using None Cons.prems(1) ag c Inr cb st by auto
      have "shares a pk' \<and> metered table strict a b (trackers ?w) calls x (trackers w')"
        using Cons.prems(3,4,5) sh tracker_step_budget [OF st] tracker_step_within [OF st [unfolded None]]
        by (intro Cons.IH [OF run]) auto
      then show ?thesis
        using Cons.prems(3,5) sh tot by (auto intro: metered_Cons)
    qed
  qed
qed

text \<open>C9. A research and analysis pack (\<open>ResearchAnalysisPack\<close>; the structured packs attach no
  tracker) made with a budget gives one ceiling to all its agents together: whichever agents
  make the calls and however they alternate, what the pack reports as its cost is the price of all
  calls made so far; while nothing raises it is within the budget, and when a call-back or the
  construction of an agent does raise, the calls before the last one were; no other tracker
  changes and no further one is made.\<close>

theorem pipeline_budget_is_cumulative:
  assumes "research_analysis_init h rid model cp budget w = (Inr pk, w1)"
    and "effective_budget h budget = Some b" and "0 \<le> b"
    and "pack_events h rend table strict calls pk w1 = (x, pk', w2)"
  shows "\<exists>ran rest. calls = ran @ rest \<and> (x = None \<longrightarrow> rest = [])
    \<and> pack_cost_usd pk' w2 = done_cost table strict ran
    \<and> done_cost table strict (butlast ran) \<le> b \<and> (x = None \<longrightarrow> pack_cost_usd pk' w2 \<le> b)
    \<and> butlast (trackers w2) = trackers w"
proof -
  note init = research_analysis_init_shared [OF assms(1,2)]
  let ?a = "length (trackers w)"
  have *: "shares ?a pk' \<and> metered table strict ?a b (trackers w1) calls x (trackers w2)"
    using assms(3) init(2) by (intro pack_events_shared [OF assms(4) init(1)]) (simp_all add: cost_tracker_init_def)
  then have "butlast (trackers w2) = trackers w"
    using init(2) by (intro nth_equalityI) (auto simp: metered_def nth_butlast nth_append)
  with * init(2) show ?thesis
    by (auto simp: pack_cost_usd_def tracked_cost_def shares_def metered_def cost_tracker_init_def)
qed

lemma agent_init_untracked:
  assumes "agent_init h name tid given model cp None None w = (r, w')" and "pack_default_budget_usd (host_settings h) = None"
  shows "trackers w' = trackers w \<and> (\<forall>ag. r = Inr ag \<longrightarrow> ag_callbacks ag = [] \<and> agent_cost_usd ag w' = 0)"
  using assms
  by (auto simp: agent_init_def resolve_tracker_def new_tracker_def effective_budget_def agent_cost_usd_def tracked_cost_def
      dest!: resolve_checkpointer_trackers split: sum.splits option.splits prod.splits)

text \<open>Only a failure of the LLM factory is reported as a configuration error; an unknown search provider
  or a missing search package leaves the constructor as it is, also for the analyst, which never
  searches.\<close>

lemma tools_fail_every_agent:
  "host_tools h = Inl e \<Longrightarrow> agent_init h name tid None model cp budget tracker w = (Inl e, w)"
  by (simp add: agent_init_def)

lemma agent_configuration_error:
  assumes "host_tools h = Inr ts"
  shows "fst (agent_init h name tid None None (Some cp) budget tracker w) = Inl AgentConfigurationError
    \<longleftrightarrow> isl (get_llm (host_packages h) (llm_config_of (host_settings h)))"
proof -
  have "e \<in> {ImportError, ValueError}" if "get_llm (host_packages h) (llm_config_of (host_settings h)) = Inl e" for e
    using that by (auto simp: get_llm_def rbind_def split: option.splits if_splits sum.splits dest: client_kwargs_Inl)
  then show ?thesis
    using assms by (auto simp: agent_init_def resolve_model_def resolve_checkpointer_def split: sum.splits prod.splits)
qed

text \<open>The pack's own budget is checked; the default from the settings is not, and a negative one
  stops every run at its first priced call.\<close>

lemma negative_default_accepted:
  "map_sum id pack_default_budget_usd
     (load_settings (demo_parsers\<lparr>parse_float := (\<lambda>s. if s = ''-1'' then Some (- 1) else parse_float demo_parsers s)\<rparr>)
       (raw_of [(''pack_default_budget_usd'', ''-1'')])) = Inr (Some (- 1))"
  by code_simp

lemma negative_pack_budget_refused: "b < 0 \<Longrightarrow> fst (research_analysis_init h rid model cp (Some b) w) = Inl ValueError"
  by (simp add: research_analysis_init_def agent_pack_init_def base_pack_init_def)


definition demo_world :: world where
  "demo_world = \<lparr>trackers = [], checkpointer_cms = no_cms\<rparr>"

definition demo_host :: "settings \<Rightarrow> unit host" where
  "demo_host s = \<lparr>host_settings = s, host_packages = \<lparr>pkg_installed = (\<lambda>_. False), build = (\<lambda>_ _. ())\<rparr>, host_runtime = bare_runtime,
     host_tools = Inr [], binds_tools = (\<lambda>_. False), new_uuid = ''u''\<rparr>"

definition two_calls :: "(role \<times> llm_event) list" where
  "two_calls = [(Researcher, CallEnd (demo_usage 1000 0)), (Analyst, CallEnd (demo_usage 2000 0))]"

definition demo_pack :: "unit rpack" where
  "demo_pack = \<lparr>rp_run_id = ''r'', rp_model = Some (), rp_checkpointer = MemorySaver, rp_budget = Some (1 / 100),
     rp_cost_tracker = Some 0, rp_research = None, rp_analyst = None\<rparr>"

lemma demo_init: "research_analysis_init (demo_host s) (Some ''r'') (Some ()) (Some MemorySaver) (Some (1 / 100)) demo_world
    = (Inr demo_pack, demo_world\<lparr>trackers := [cost_tracker_init (Some (1 / 100))]\<rparr>)"
  by (simp add: research_analysis_init_def agent_pack_init_def base_pack_init_def resolve_checkpointer_def new_tracker_def
      effective_budget_def demo_pack_def demo_world_def or_text_def)

lemma demo_calls: "\<exists>pk w. pack_events (demo_host s) (\<lambda>_. []) demo_table True two_calls demo_pack
    (demo_world\<lparr>trackers := [cost_tracker_init (Some (1 / 100))]\<rparr>) = (None, pk, w)"
  by (simp add: two_calls_def make_agent_def agent_init_def demo_host_def demo_pack_def resolve_model_def resolve_tracker_def
      resolve_checkpointer_def demo_world_def cost_tracker_init_def on_llm_end_def demo_extract compute_call_cost_def demo_resolve
      pricing_def Let_def)

theorem pipeline_budget_is_cumulative_witness:
  "\<exists>s pk w. load_settings demo_parsers prod_raw = Inr s
     \<and> pack_events (demo_host s) (\<lambda>_. []) demo_table True two_calls demo_pack
         (demo_world\<lparr>trackers := [cost_tracker_init (Some (1 / 100))]\<rparr>) = (None, pk, w)
     \<and> pack_cost_usd pk w = done_cost demo_table True two_calls \<and> pack_cost_usd pk w \<le> 1 / 100"
proof -
  obtain s where s: "load_settings demo_parsers prod_raw = Inr s" using prod_settings by blast
  obtain pk w where run: "pack_events (demo_host s) (\<lambda>_. []) demo_table True two_calls demo_pack
    (demo_world\<lparr>trackers := [cost_tracker_init (Some (1 / 100))]\<rparr>) = (None, pk, w)"
    using demo_calls by blast
  have "effective_budget (demo_host s) (Some (1 / 100)) = Some (1 / 100)" by (simp add: effective_budget_def)
  from pipeline_budget_is_cumulative [OF demo_init this _ run] s run show ?thesis by auto
qed

section \<open>The pack's thread pool\<close>

definition pool_prefix :: "string option \<Rightarrow> string \<Rightarrow> string" where
  "pool_prefix given pid = or_text given (pid @ ''-pack'')"

text \<open>\<open>_get_executor\<close> reads the field without the lock, and again with it, before it makes a pool, and
  then reads it once more to return it; \<open>close\<close> takes no lock: it checks the field, shuts down what
  it reads there next (an \<open>AttributeError\<close> if that is \<open>None\<close> by then), and clears the field. Any
  thread may call either, at any time. Threads and pools are numbers.\<close>

datatype phase = Idle | Waiting | Holding | Making | Releasing | Reading | Got "nat option"
  | Closing | Clearing | Crashed

record pool_state =
  ps_executor :: "nat option"
  ps_made :: nat
  ps_lock :: "nat option"
  ps_phase :: "nat \<Rightarrow> phase"
  ps_shut :: "nat set"

definition goto :: "nat \<Rightarrow> phase \<Rightarrow> pool_state \<Rightarrow> pool_state" where
  "goto t p s = s\<lparr>ps_phase := (ps_phase s)(t := p)\<rparr>"

inductive pool_step :: "pool_state \<Rightarrow> pool_state \<Rightarrow> bool" where
  fast: "ps_phase s t = Idle \<Longrightarrow> ps_executor s = Some e \<Longrightarrow> pool_step s (goto t Reading s)"
| slow: "ps_phase s t = Idle \<Longrightarrow> ps_executor s = None \<Longrightarrow> pool_step s (goto t Waiting s)"
| acquire: "ps_phase s t = Waiting \<Longrightarrow> ps_lock s = None \<Longrightarrow> pool_step s (goto t Holding (s\<lparr>ps_lock := Some t\<rparr>))"
| missing: "ps_phase s t = Holding \<Longrightarrow> ps_executor s = None \<Longrightarrow> pool_step s (goto t Making s)"
| present: "ps_phase s t = Holding \<Longrightarrow> ps_executor s = Some e \<Longrightarrow> pool_step s (goto t Releasing s)"
| create: "ps_phase s t = Making \<Longrightarrow>
    pool_step s (goto t Releasing (s\<lparr>ps_executor := Some (ps_made s), ps_made := ps_made s + 1\<rparr>))"
| unlock: "ps_phase s t = Releasing \<Longrightarrow> pool_step s (goto t Reading (s\<lparr>ps_lock := None\<rparr>))"
| reread: "ps_phase s t = Reading \<Longrightarrow> pool_step s (goto t (Got (ps_executor s)) s)"
| again: "ps_phase s t = Got e \<Longrightarrow> pool_step s (goto t Idle s)"
| close_check: "ps_phase s t = Idle \<Longrightarrow> ps_executor s = Some e \<Longrightarrow> pool_step s (goto t Closing s)"
| close_shut: "ps_phase s t = Closing \<Longrightarrow> ps_executor s = Some e \<Longrightarrow>
    pool_step s (goto t Clearing (s\<lparr>ps_shut := insert e (ps_shut s)\<rparr>))"
| close_crash: "ps_phase s t = Closing \<Longrightarrow> ps_executor s = None \<Longrightarrow> pool_step s (goto t Crashed s)"
| close_clear: "ps_phase s t = Clearing \<Longrightarrow> pool_step s (goto t Idle (s\<lparr>ps_executor := None\<rparr>))"

definition one_closer :: "pool_state \<Rightarrow> bool" where
  "one_closer s \<longleftrightarrow> (\<forall>t u. ps_phase s t \<in> {Closing, Clearing} \<longrightarrow> ps_phase s u \<in> {Closing, Clearing} \<longrightarrow> t = u)"

text \<open>The states a pack's threads reach: all of them, or those reached while no two calls of
  \<open>close\<close> overlapped.\<close>

inductive pool_reach :: "bool \<Rightarrow> pool_state \<Rightarrow> bool" for overlaps where
  start: "pool_reach overlaps \<lparr>ps_executor = None, ps_made = 0, ps_lock = None, ps_phase = (\<lambda>t. Idle), ps_shut = {}\<rparr>"
| step: "pool_reach overlaps s \<Longrightarrow> pool_step s s' \<Longrightarrow> overlaps \<or> one_closer s' \<Longrightarrow> pool_reach overlaps s'"

definition in_lock :: "phase \<Rightarrow> bool" where
  "in_lock p \<longleftrightarrow> p = Holding \<or> p = Making \<or> p = Releasing"

definition locking_ok :: "pool_state \<Rightarrow> bool" where
  "locking_ok s \<longleftrightarrow> (\<forall>t. in_lock (ps_phase s t) \<longleftrightarrow> ps_lock s = Some t) \<and> (\<forall>t. ps_phase s t = Making \<longrightarrow> ps_executor s = None)"

definition pools_known :: "pool_state \<Rightarrow> bool" where
  "pools_known s \<longleftrightarrow> ps_shut s \<union> set_option (ps_executor s) \<subseteq> {..<ps_made s}
     \<and> (ps_shut s = {} \<longrightarrow> (\<forall>t. ps_phase s t \<noteq> Clearing)
          \<and> (case ps_executor s of None \<Rightarrow> ps_made s = 0 | Some e \<Rightarrow> e = 0 \<and> ps_made s = 1))"

definition pools_ok :: "pool_state \<Rightarrow> bool" where
  \<comment> \<open>with one closer at a time\<close>
  "pools_ok s \<longleftrightarrow> one_closer s \<and> {..<ps_made s} \<subseteq> ps_shut s \<union> set_option (ps_executor s)
     \<and> (case ps_executor s of None \<Rightarrow> (\<forall>t. ps_phase s t \<noteq> Closing \<and> ps_phase s t \<noteq> Clearing)
        | Some e \<Rightarrow> ((\<exists>t. ps_phase s t = Clearing) \<longrightarrow> e \<in> ps_shut s))"

definition callers_ok :: "pool_state \<Rightarrow> bool" where
  "callers_ok s \<longleftrightarrow> (ps_shut s = {} \<longrightarrow> (\<forall>t. (ps_phase s t = Reading \<or> ps_phase s t = Releasing \<longrightarrow> ps_executor s = Some 0)
          \<and> (\<forall>e. ps_phase s t = Got e \<longrightarrow> e = Some 0)))"

lemma in_lock_simps [simp]:
  "\<not> in_lock Idle" "\<not> in_lock Waiting" "in_lock Holding" "in_lock Making" "in_lock Releasing" "\<not> in_lock Reading" "\<not> in_lock (Got e)"
  "\<not> in_lock Closing" "\<not> in_lock Clearing" "\<not> in_lock Crashed"
  by (simp_all add: in_lock_def)

lemma lock_holder: "locking_ok s \<Longrightarrow> ps_phase s t = p \<Longrightarrow> in_lock p = (ps_lock s = Some t)"
  by (auto simp: locking_ok_def)

lemma goto_locking:
  assumes "locking_ok s" and "in_lock (ps_phase s t) = in_lock p" and "p = Making \<Longrightarrow> ps_executor s = None"
  shows "locking_ok (goto t p s)"
  using assms by (auto simp: locking_ok_def goto_def)

lemma pool_step_locking: "pool_step s s' \<Longrightarrow> locking_ok s \<Longrightarrow> locking_ok s'"
proof (induction rule: pool_step.induct)
  case (acquire s t)
  then have "\<not> in_lock (ps_phase s u)" for u by (simp add: locking_ok_def)
  then have "ps_phase s u \<noteq> Making" for u by (metis in_lock_simps(4))
  with \<open>\<And>u. \<not> in_lock (ps_phase s u)\<close> show ?case by (simp add: locking_ok_def goto_def)
next
  case (create s t)
  then have l: "ps_lock s = Some t" using lock_holder [of s t Making] by simp
  then have "ps_phase s u \<noteq> Making" if "u \<noteq> t" for u using lock_holder [OF create(2), of u Making] that by auto
  with create l show ?case by (simp add: locking_ok_def goto_def)
next
  case (unlock s t)
  then have l: "ps_lock s = Some t" using lock_holder [of s t Releasing] by simp
  then have "ps_phase s u \<noteq> Making" if "u \<noteq> t" for u using lock_holder [OF unlock(2), of u Making] that by auto
  with unlock l show ?case by (simp add: locking_ok_def goto_def)
next
  case (close_shut s t e)
  then have "locking_ok (s\<lparr>ps_shut := insert e (ps_shut s)\<rparr>)" by (simp add: locking_ok_def)
  then show ?case using close_shut by (intro goto_locking) simp_all
next
  case (close_clear s t)
  then have "locking_ok (s\<lparr>ps_executor := None\<rparr>)" by (simp add: locking_ok_def)
  then show ?case using close_clear by (intro goto_locking) simp_all
qed (rule goto_locking; simp)+

lemma pool_step_known: "pool_step s s' \<Longrightarrow> locking_ok s \<Longrightarrow> pools_known s \<Longrightarrow> pools_known s'"
proof (induction rule: pool_step.induct)
  case (create s t)
  then have "ps_executor s = None" unfolding locking_ok_def by blast
  with create show ?case by (auto simp: pools_known_def goto_def)
next
  case (close_clear s t)
  then show ?case by (auto simp: pools_known_def goto_def)
qed (auto simp: pools_known_def goto_def split: option.splits)

lemma goto_one_closer:
  assumes "one_closer s" and "ps_phase s' = (ps_phase s)(t := p)"
    and "p \<in> {Closing, Clearing} \<Longrightarrow> ps_phase s t \<in> {Closing, Clearing}"
  shows "one_closer s'"
  using assms unfolding one_closer_def by (metis fun_upd_apply)

lemma pool_step_pools:
  assumes "pool_step s s'" and "locking_ok s" and "pools_ok s" and "one_closer s'"
  shows "pools_ok s'"
  using assms
proof (induction rule: pool_step.induct)
  case (create s t)
  then have "ps_executor s = None" unfolding locking_ok_def by blast
  with create show ?case by (auto simp: pools_ok_def goto_def less_Suc_eq)
next
  case (close_clear s t)
  then obtain e where e: "ps_executor s = Some e" "e \<in> ps_shut s" "{..<ps_made s} \<subseteq> insert e (ps_shut s)"
    by (cases "ps_executor s") (auto simp: pools_ok_def)
  then have "{..<ps_made s} \<subseteq> ps_shut s" by auto
  moreover have "ps_phase s u \<noteq> Closing \<and> ps_phase s u \<noteq> Clearing" if "u \<noteq> t" for u
    using close_clear that by (auto simp: pools_ok_def one_closer_def)
  ultimately show ?case using close_clear by (simp add: pools_ok_def goto_def)
next
  case (close_check s t e)
  then show ?case by (auto simp: pools_ok_def goto_def)
next
  case (close_shut s t e)
  then show ?case by (auto simp: pools_ok_def goto_def)
next
  case (reread s t)
  then show ?case by (auto simp: pools_ok_def goto_def split: option.splits)
qed (auto simp: pools_ok_def goto_def split: option.splits)

lemma pool_step_callers:
  assumes "pool_step s s'" and "locking_ok s" and "pools_known s" and "callers_ok s"
  shows "callers_ok s'"
  using assms
proof (induction rule: pool_step.induct)
  case (create s t)
  then have none: "ps_executor s = None" unfolding locking_ok_def by blast
  with create show ?case by (auto simp: callers_ok_def goto_def pools_known_def)
next
  case (again s t e)
  then show ?case by (simp add: callers_ok_def goto_def) metis
next
  case (close_clear s t)
  then show ?case by (auto simp: callers_ok_def goto_def pools_known_def)
qed (auto simp: callers_ok_def goto_def pools_known_def split: option.splits)

lemma pool_reach_ok: "pool_reach overlaps s \<Longrightarrow> locking_ok s \<and> pools_known s \<and> callers_ok s \<and> (overlaps \<or> pools_ok s)"
proof (induction rule: pool_reach.induct)
  case start
  then show ?case by (auto simp: locking_ok_def pools_known_def pools_ok_def callers_ok_def in_lock_def one_closer_def)
next
  case (step s s')
  then show ?case using pool_step_locking pool_step_known pool_step_callers pool_step_pools by blast
qed

text \<open>C38. However the calls of \<open>_get_executor\<close> and \<open>close\<close> interleave, until some pool is shut down at
  most one was made and every caller got that one; and as long as no two calls of \<open>close\<close>
  overlap, no thread pool is lost: every pool ever made is the current one or was shut down.\<close>

theorem one_thread_pool:
  assumes "pool_reach overlaps s"
  shows "(ps_shut s = {} \<longrightarrow> ps_made s \<le> 1 \<and> (\<forall>t e. ps_phase s t = Got e \<longrightarrow> e = Some 0))
    \<and> ps_shut s \<union> set_option (ps_executor s) \<subseteq> {..<ps_made s}
    \<and> (\<not> overlaps \<longrightarrow> ps_shut s \<union> set_option (ps_executor s) = {..<ps_made s})"
  using pool_reach_ok [OF assms]
  by (auto simp: pools_known_def pools_ok_def callers_ok_def split: option.splits)

lemma makes_pool:
  assumes "pool_reach b s" and "ps_phase s t = Idle" and "ps_executor s = None" and "ps_lock s = None"
    and "b \<or> (\<forall>u. ps_phase s u \<noteq> Closing \<and> ps_phase s u \<noteq> Clearing)"
  shows "pool_reach b (goto t (Got (Some (ps_made s))) (s\<lparr>ps_executor := Some (ps_made s), ps_made := ps_made s + 1\<rparr>))"
proof -
  define g where "g p l e n = goto t p (s\<lparr>ps_lock := l, ps_executor := e, ps_made := n\<rparr>)" for p l e n
  let ?n = "ps_made s"
  have oc: "b \<or> one_closer (g p l e n)" if "p \<noteq> Closing" "p \<noteq> Clearing" for p l e n
    using assms(5) that by (auto simp: g_def one_closer_def goto_def)
  have g: "ps_phase (g p l e n) t = p" "ps_lock (g p l e n) = l" "ps_executor (g p l e n) = e" "ps_made (g p l e n) = n"
    "goto t p' (g p l e n) = g p' l e n" "(g p l e n)\<lparr>ps_lock := l'\<rparr> = g p l' e n"
    "(g p l e n)\<lparr>ps_executor := e', ps_made := n'\<rparr> = g p l e' n'" for p p' l l' e e' n n'
    by (simp_all add: g_def goto_def)
  have "s = g Idle None None ?n" using assms(2-4) by (simp add: g_def goto_def fun_upd_idem)
  then have 0: "pool_reach b (g Idle None None ?n)" using assms(1) by simp
  have 1: "pool_reach b (g Waiting None None ?n)"
    using pool_reach.step [OF 0 pool_step.slow [of _ t]] oc [of Waiting] by (simp add: g)
  have 2: "pool_reach b (g Holding (Some t) None ?n)"
    using pool_reach.step [OF 1 pool_step.acquire [of _ t]] oc [of Holding] by (simp add: g)
  have 3: "pool_reach b (g Making (Some t) None ?n)"
    using pool_reach.step [OF 2 pool_step.missing [of _ t]] oc [of Making] by (simp add: g)
  have 4: "pool_reach b (g Releasing (Some t) (Some ?n) (?n + 1))"
    using pool_reach.step [OF 3 pool_step.create [of _ t]] oc [of Releasing] by (simp add: g)
  have 5: "pool_reach b (g Reading None (Some ?n) (?n + 1))"
    using pool_reach.step [OF 4 pool_step.unlock [of _ t]] oc [of Reading] by (simp add: g)
  have 6: "pool_reach b (g (Got (Some ?n)) None (Some ?n) (?n + 1))"
    using pool_reach.step [OF 5 pool_step.reread [of _ t]] oc [of "Got (Some ?n)"] by (simp add: g)
  moreover have "s\<lparr>ps_lock := None\<rparr> = s" using assms(4) by simp
  ultimately show ?thesis by (simp add: g_def)
qed

definition fresh_pack :: pool_state where
  "fresh_pack = \<lparr>ps_executor = None, ps_made = 0, ps_lock = None, ps_phase = (\<lambda>t. Idle), ps_shut = {}\<rparr>"

lemma first_pool: "pool_reach b (goto 7 (Got (Some 0)) (fresh_pack\<lparr>ps_executor := Some 0, ps_made := 1\<rparr>))"
proof -
  have "pool_reach b fresh_pack" unfolding fresh_pack_def by (rule pool_reach.start)
  from makes_pool [OF this, of 7] show ?thesis by (simp add: fresh_pack_def)
qed

theorem one_thread_pool_witness:
  "{} \<union> {0} = {..<ps_made (goto 7 (Got (Some 0)) (fresh_pack\<lparr>ps_executor := Some 0, ps_made := 1\<rparr>))}"
  using one_thread_pool [OF first_pool [of False]] by (simp add: goto_def fresh_pack_def)

text \<open>Two overlapping calls of \<open>close\<close> lose a pool: both see and shut down pool 0, one clears the
  field, a caller makes pool 1, and the other clears the field again; nobody shuts down pool 1.\<close>

definition closing_pack :: "phase \<Rightarrow> phase \<Rightarrow> nat option \<Rightarrow> nat \<Rightarrow> nat set \<Rightarrow> pool_state" where
  "closing_pack p q e n shut = \<lparr>ps_executor = e, ps_made = n, ps_lock = None,
     ps_phase = (\<lambda>t. if t = 1 then p else if t = 2 then q else Idle), ps_shut = shut\<rparr>"

lemma closing_goto:
  "goto (Suc 0) p' (closing_pack p q e n shut) = closing_pack p' q e n shut"
  "goto 2 q' (closing_pack p q e n shut) = closing_pack p q' e n shut"
  "(closing_pack p q e n shut)\<lparr>ps_shut := shut'\<rparr> = closing_pack p q e n shut'"
  "(closing_pack p q e n shut)\<lparr>ps_executor := e'\<rparr> = closing_pack p q e' n shut"
  "(closing_pack p q e n shut)\<lparr>ps_made := n'\<rparr> = closing_pack p q e n' shut"
  "ps_phase (closing_pack p q e n shut) (Suc 0) = p" "ps_phase (closing_pack p q e n shut) 2 = q"
  "ps_executor (closing_pack p q e n shut) = e" "ps_shut (closing_pack p q e n shut) = shut"
  "ps_made (closing_pack p q e n shut) = n" "ps_lock (closing_pack p q e n shut) = None"
  "goto 7 Idle (goto 7 r (closing_pack p q e n shut)) = closing_pack p q e n shut"
  "ps_phase (closing_pack p q e n shut) 7 = Idle"
  by (auto simp: closing_pack_def goto_def)

lemma overlapping_closes_lose_a_pool:
  "pool_reach True (closing_pack Idle Idle None 2 {0})"
proof -
  have s: "pool_reach True s' " if "pool_reach True s" "pool_step s s'" for s s'
    by (rule pool_reach.step [OF that]) simp
  have made: "pool_reach True (closing_pack p q (Some n) (Suc n) shut)" if "pool_reach True (closing_pack p q None n shut)" for p q n shut
  proof -
    from makes_pool [OF that, of 7]
    have "pool_reach True (goto 7 (Got (Some n)) (closing_pack p q (Some n) (Suc n) shut))" by (simp add: closing_goto)
    from s [OF this pool_step.again [of _ 7]] show ?thesis by (simp add: closing_goto) (simp add: goto_def)
  qed
  have "pool_reach True (closing_pack Idle Idle None 0 {})"
    using pool_reach.start [of True] by (simp add: closing_pack_def) (simp only: if_cancel)
  from made [OF this] have 1: "pool_reach True (closing_pack Idle Idle (Some 0) 1 {})" by simp
  have 2: "pool_reach True (closing_pack Closing Idle (Some 0) 1 {})"
    using s [OF 1 pool_step.close_check [of _ 1]] by (simp add: closing_goto)
  have 3: "pool_reach True (closing_pack Closing Closing (Some 0) 1 {})"
    using s [OF 2 pool_step.close_check [of _ 2]] by (simp add: closing_goto)
  have 4: "pool_reach True (closing_pack Clearing Closing (Some 0) 1 {0})"
    using s [OF 3 pool_step.close_shut [of _ 1]] by (simp add: closing_goto)
  have 5: "pool_reach True (closing_pack Clearing Clearing (Some 0) 1 {0})"
    using s [OF 4 pool_step.close_shut [of _ 2]] by (simp add: closing_goto)
  have 6: "pool_reach True (closing_pack Idle Clearing None 1 {0})"
    using s [OF 5 pool_step.close_clear [of _ 1]] by (simp add: closing_goto)
  from made [OF this] have 7: "pool_reach True (closing_pack Idle Clearing (Some 1) 2 {0})" by (simp add: numeral_2_eq_2)
  show ?thesis using s [OF 7 pool_step.close_clear [of _ 2]] by (simp add: closing_goto)
qed

section \<open>The tutorial pack\<close>

record echo_output =
  eo_original :: string
  eo_echoed :: string
  eo_word_count :: nat

definition echo_input_init :: "string \<Rightarrow> llm_exc + string" where
  "echo_input_init t = (if 1 \<le> length t \<and> length t \<le> 4000 then Inr t else Inl VALIDATION_ERROR)"

fun words :: "bool \<Rightarrow> string \<Rightarrow> nat" where
  \<comment> \<open>\<open>len(s.split())\<close>; the flag: inside a word\<close>
  "words inside [] = 0"
| "words inside (c # s) =
     (if py_isspace c then words False s else (if inside then 0 else 1) + words True s)"

definition echo_run_from_input :: "(string \<Rightarrow> string) \<Rightarrow> string \<Rightarrow> echo_output" where
  \<comment> \<open>\<open>str.upper\<close> is an argument\<close>
  "echo_run_from_input upper t = \<lparr>eo_original = t, eo_echoed = upper (strip t), eo_word_count = words False t\<rparr>"

definition echo_run :: "(string \<Rightarrow> string) \<Rightarrow> string \<Rightarrow> llm_exc + echo_output" where
  "echo_run upper q =
     (if blank q then Inl (exc_of ValueError) else map_sum id (echo_run_from_input upper) (echo_input_init (strip q)))"

definition echo_dump :: "echo_output \<Rightarrow> pydict" where
  "echo_dump out = [(''original'', VStr (eo_original out)), (''echoed'', VStr (eo_echoed out)),
     (''word_count'', VInt (int (eo_word_count out)))]"

definition echo_events :: "(string \<Rightarrow> string) \<Rightarrow> string \<Rightarrow> source" where
  "echo_events upper q =
     (let started = phase_event ''phase_started'' ''echo'' in
      case echo_run upper q of
        Inl e \<Rightarrow> \<lparr>yielded = [started], failure = Some e\<rparr>
      | Inr out \<Rightarrow>
          \<lparr>yielded = [started, phase_event ''phase_completed'' ''echo'',
              pack_stream_event ''pipeline_completed'' [(''result'', ModelDump (VDict (echo_dump out)))]], failure = None\<rparr>)"

lemma words_none: "words False s = 0 \<longleftrightarrow> (\<forall>c\<in>set s. py_isspace c)"
  by (induction s) auto

lemma words_blank: "words False s = 0 \<longleftrightarrow> blank s"
proof -
  have "\<not> py_isspace (hd (dropWhile py_isspace s))" if "dropWhile py_isspace s \<noteq> []" using hd_dropWhile [OF that] .
  then have "(\<forall>c\<in>set (dropWhile py_isspace s). py_isspace c) \<longleftrightarrow> dropWhile py_isspace s = []"
    by (cases "dropWhile py_isspace s") (auto simp del: dropWhile_eq_Nil_conv)
  then have "strip s = [] \<longleftrightarrow> dropWhile py_isspace s = []"
    unfolding strip_def lstrip_def rstrip_def rev_is_Nil_conv dropWhile_eq_Nil_conv [of _ "rev u" for u] set_rev .
  then show ?thesis by (simp only: words_none blank_iff dropWhile_eq_Nil_conv)
qed

text \<open>A text of blanks is refused by \<open>run\<close> and echoed as nothing by \<open>run_from_input\<close>.\<close>

lemma echo_answers:
  "echo_run upper q = Inr out \<longleftrightarrow> \<not> blank q \<and> length (strip q) \<le> 4000 \<and> out = echo_run_from_input upper (strip q)"
  by (auto simp: echo_run_def echo_input_init_def map_sum_def blank_iff Suc_le_eq split: sum.splits if_splits)

lemma echo_counts_words: "echo_run upper q = Inr out \<Longrightarrow> 0 < eo_word_count out"
  using words_blank [of "strip q"] by (auto simp: echo_answers echo_run_from_input_def blank_iff)

end
