(* ===== verification/Storage.thy ===== *)
theory Storage
  imports RunHistory Checkpointers
begin

text \<open>
  How the run histories of \<open>core/memory.py\<close> keep their rows: JSON text in two columns, written
  inside \<open>ConversationMemory._transaction\<close> and decoded when read (\<open>_row_to_dict\<close>, \<open>_decode\<close>), with
  opening, health checks and closing. Tables of text refine the tables of values of \<open>RunHistory\<close>.
\<close>

section \<open>Transactions\<close>

text \<open>A connection shows its owner the committed data with the writes of the open transaction. A body
  ends, raises an \<open>Exception\<close>, or is interrupted by a \<open>BaseException\<close> that is none (a keyboard
  interrupt, a generator that is closed).\<close>

record 'db connection =
  committed :: 'db
  working :: 'db

datatype ending = Ended | Raised exn | Interrupted

definition transaction :: "('db \<Rightarrow> ending \<times> 'db) \<Rightarrow> bool \<Rightarrow> 'db connection \<Rightarrow> ending \<times> 'db connection" where
  \<comment> \<open>the flag: the commit succeeds\<close>
  "transaction body commits c =
     (case body (working c) of
        (Ended, db) \<Rightarrow> if commits then (Ended, \<lparr>committed = db, working = db\<rparr>) else (Raised OtherError, c\<lparr>working := committed c\<rparr>)
      | (Raised e, db) \<Rightarrow> (Raised e, c\<lparr>working := committed c\<rparr>)
      | (Interrupted, db) \<Rightarrow> (Interrupted, c\<lparr>working := db\<rparr>))"

definition clean :: "'db connection \<Rightarrow> bool" where
  "clean c \<longleftrightarrow> working c = committed c"

lemma transaction_atomic:
  assumes "transaction body commits c = (x, c')" and "clean c" and "x \<noteq> Interrupted"
  shows "clean c' \<and> committed c' = (if x = Ended then snd (body (committed c)) else committed c)"
  using assms by (auto simp: transaction_def clean_def split: prod.splits ending.splits if_splits)

text \<open>The documentation promises a rollback on any exception. An interrupt gets none: what the body
  wrote stays in the open transaction, and the next one commits it.\<close>

lemma interrupted_write_committed_later:
  assumes "body db = (Interrupted, db')" and "clean c" and "committed c = db"
  shows "let c1 = snd (transaction body True c) in
    committed (snd (transaction (\<lambda>d. (Ended, d)) True c1)) = db'"
  using assms by (simp add: transaction_def clean_def Let_def)

section \<open>Rows of text\<close>

record text_row =
  tr_id :: nat
  tr_query :: string
  tr_result_json :: string
  tr_metadata_json :: string
  tr_created :: rat

type_synonym text_table = "(string \<times> text_row) list"

record json =
  to_text :: "pyval \<Rightarrow> string"           \<comment> \<open>\<open>json.dumps(..., default=str)\<close>\<close>
  of_text :: "string \<Rightarrow> pyval option"

definition decoded :: "json \<Rightarrow> string \<Rightarrow> pyval" where
  "decoded j t = (case of_text j t of Some v \<Rightarrow> v | None \<Rightarrow> VDict [])"

definition row_to_dict :: "json \<Rightarrow> string \<Rightarrow> text_row \<Rightarrow> pydict" where
  \<comment> \<open>\<open>created_at\<close> as a number\<close>
  "row_to_dict j run r =
     [(''id'', VInt (int (tr_id r))), (''run_id'', VStr run), (''query'', VStr (tr_query r)),
      (''result'', decoded j (tr_result_json r)), (''metadata'', decoded j (tr_metadata_json r)),
      (''created_at'', VFloat (tr_created r))]"

definition postgres_row_to_dict :: "json \<Rightarrow> nat \<times> string \<times> string \<times> string \<times> string \<times> rat \<Rightarrow> pydict" where
  "postgres_row_to_dict j = (\<lambda>(i, run, query, result_json, metadata_json, created).
     [(''id'', VInt (int i)), (''run_id'', VStr run), (''query'', VStr query), (''result'', decoded j result_json),
      (''metadata'', decoded j metadata_json), (''created_at'', VFloat created)])"

definition hash_get :: "(string \<times> string) list \<Rightarrow> string \<Rightarrow> string \<Rightarrow> string" where
  "hash_get d k dflt = (case map_of d k of None \<Rightarrow> dflt | Some v \<Rightarrow> v)"

definition redis_decode :: "json \<Rightarrow> (string \<times> string) list \<Rightarrow> pydict" where
  "redis_decode j d =
     [(''id'', VStr (hash_get d ''run_id'' [])), (''run_id'', VStr (hash_get d ''run_id'' [])),
      (''query'', VStr (hash_get d ''query'' [])), (''result'', decoded j (hash_get d ''result_json'' ''{}'')),
      (''metadata'', decoded j (hash_get d ''metadata_json'' ''{}'')),
      (''created_at'', VStr (hash_get d ''created_at'' []))]"

definition text_row_of :: "json \<Rightarrow> nat \<Rightarrow> text_table \<Rightarrow> string \<Rightarrow> string \<Rightarrow> pyval \<Rightarrow> pydict option \<Rightarrow> rat \<Rightarrow> text_row" where
  \<comment> \<open>the number is the database's; a row that is replaced keeps its own\<close>
  "text_row_of j nid t run query res meta now =
     \<lparr>tr_id = (case map_of t run of Some r \<Rightarrow> tr_id r | None \<Rightarrow> nid), tr_query = strip query, tr_result_json = to_text j res,
      tr_metadata_json = to_text j (VDict (case meta of None \<Rightarrow> [] | Some m \<Rightarrow> m)), tr_created = now\<rparr>"

definition text_save ::
  "json \<Rightarrow> nat \<Rightarrow> bool \<Rightarrow> bool \<Rightarrow> text_table connection \<Rightarrow> string \<Rightarrow> string \<Rightarrow> pyval \<Rightarrow> pydict option \<Rightarrow> rat \<Rightarrow> ending \<times> text_table connection" where
  \<comment> \<open>the flags: the statement and the commit succeed\<close>
  "text_save j nid writes commits c run query res meta now =
     (if blank run then (Raised ValueError, c)
      else if blank query then (Raised ValueError, c)
      else transaction
        (\<lambda>t. if writes then (Ended, AList.update run (text_row_of j nid t run query res meta now) t) else (Raised OtherError, t))
        commits c)"

definition text_get :: "json \<Rightarrow> text_table connection \<Rightarrow> string \<Rightarrow> pydict option" where
  "text_get j c run = map_option (row_to_dict j run) (map_of (working c) run)"

section \<open>Refinement\<close>

definition value_row :: "json \<Rightarrow> text_row \<Rightarrow> run_row" where
  "value_row j r = \<lparr>row_query = tr_query r, row_result = decoded j (tr_result_json r),
     row_meta = as_dict (decoded j (tr_metadata_json r)), row_created = tr_created r\<rparr>"

definition value_table :: "json \<Rightarrow> text_table \<Rightarrow> sql_runs" where
  "value_table j t = map (\<lambda>(run, r). (run, value_row j r)) t"

lemma value_table_update: "value_table j (AList.update run r t) = AList.update run (value_row j r) (value_table j t)"
  by (induction t) (auto simp: value_table_def)

lemma value_table_lookup: "map_of (value_table j t) run = map_option (value_row j) (map_of t run)"
  by (induction t) (auto simp: value_table_def)

text \<open>A save on a table of text that ends is the save on the table of values, and one that raises
  changes nothing, whether the statement or the commit fails; what is read back is the row that
  was saved, for every result and metadata that JSON gives back.\<close>

theorem text_history_refines:
  assumes "clean c" and "text_save j nid writes commits c run query res meta now = (x, c')"
    and "of_text j (to_text j res) = Some res"
    and "of_text j (to_text j (VDict (case meta of None \<Rightarrow> [] | Some m \<Rightarrow> m))) = Some (VDict (case meta of None \<Rightarrow> [] | Some m \<Rightarrow> m))"
  shows "clean c' \<and> (if x = Ended
      then sqlite_save (value_table j (committed c)) run query res meta now = Inr (value_table j (committed c'))
        \<and> (\<exists>i. text_get j c' run = Some [(''id'', VInt (int i)), (''run_id'', VStr run), (''query'', VStr (strip query)),
             (''result'', res), (''metadata'', VDict (case meta of None \<Rightarrow> [] | Some m \<Rightarrow> m)), (''created_at'', VFloat now)])
      else committed c' = committed c)"
proof -
  let ?r = "text_row_of j nid (committed c) run query res meta now"
  have row: "value_row j ?r = new_row query res meta now"
    using assms(3,4) by (simp add: value_row_def text_row_of_def new_row_def decoded_def)
  have read: "row_to_dict j run ?r = [(''id'', VInt (int (tr_id ?r))), (''run_id'', VStr run), (''query'', VStr (strip query)),
      (''result'', res), (''metadata'', VDict (case meta of None \<Rightarrow> [] | Some m \<Rightarrow> m)), (''created_at'', VFloat now)]"
    using assms(3,4) by (simp add: row_to_dict_def text_row_of_def decoded_def)
  show ?thesis
    using assms(1,2) read
    by (auto simp: text_save_def transaction_def clean_def sqlite_save_def value_table_update row text_get_def split: if_splits)
qed

text \<open>The three backends give back the same fields for the same row, except that Redis has no number
  of its own and repeats the run's id.\<close>

lemma rows_alike:
  "postgres_row_to_dict j (tr_id r, run, tr_query r, tr_result_json r, tr_metadata_json r, tr_created r) = row_to_dict j run r"
  by (simp add: postgres_row_to_dict_def row_to_dict_def)

lemma redis_row_alike:
  assumes "map_of d ''run_id'' = Some run" and "map_of d ''query'' = Some (tr_query r)"
    and "map_of d ''result_json'' = Some (tr_result_json r)" and "map_of d ''metadata_json'' = Some (tr_metadata_json r)"
  shows "\<forall>k\<in>{''run_id'', ''query'', ''result'', ''metadata''}. dget (redis_decode j d) k = dget (row_to_dict j run r) k"
    and "dget (redis_decode j d) ''id'' = VStr run"
  using assms by (simp_all add: redis_decode_def row_to_dict_def hash_get_def dget_def)

lemma broken_column: "of_text j t = None \<Longrightarrow> decoded j t = VDict []"
  by (simp add: decoded_def)

section \<open>Opening, health and closing\<close>

record 'db opened =
  db_path :: string
  conn :: "'db connection"

definition conversation_memory_init ::
  "(string \<Rightarrow> string) \<Rightarrow> (string \<Rightarrow> exn option) \<Rightarrow> (string \<Rightarrow> text_table result) \<Rightarrow> bool \<Rightarrow> string \<Rightarrow> text_table opened result" where
  \<comment> \<open>\<open>resolve\<close>, \<open>mkdir\<close> of the parent, \<open>connect\<close> (the data found there), and whether the schema can be applied\<close>
  "conversation_memory_init resolve mkdir connect schema path =
     (let p = (if path = '':memory:'' then path else resolve path) in
      case (if path = '':memory:'' then None else mkdir p) of
        Some e \<Rightarrow> Inl e
      | None \<Rightarrow> rbind (connect p) (\<lambda>found.
          case transaction (\<lambda>t. if schema then (Ended, t) else (Raised OtherError, t)) True \<lparr>committed = found, working = found\<rparr> of
            (Raised e, c) \<Rightarrow> Inl e
          | (_, c) \<Rightarrow> Inr \<lparr>db_path = p, conn = c\<rparr>))"

definition redis_history_init :: "(string \<Rightarrow> bool) \<Rightarrow> 'c result \<Rightarrow> 'c result" where
  \<comment> \<open>the client of \<open>from_url\<close>, which does not connect yet\<close>
  "redis_history_init has client = (if \<not> has ''redis'' then Inl ImportError else client)"

definition postgres_history_init :: "(string \<Rightarrow> bool) \<Rightarrow> 'c result \<Rightarrow> exn option \<Rightarrow> 'c result" where
  \<comment> \<open>the connection, and what the schema raises\<close>
  "postgres_history_init has connect ddl =
     (if \<not> has ''psycopg'' then Inl ImportError
      else rbind connect (\<lambda>c. case ddl of Some e \<Rightarrow> Inl e | None \<Rightarrow> Inr c))"

definition sqlite_health_check :: "(exn \<Rightarrow> string) \<Rightarrow> string \<Rightarrow> unit result \<Rightarrow> string \<times> string" where
  "sqlite_health_check text path probe =
     (case probe of Inr _ \<Rightarrow> (''ok'', path) | Inl e \<Rightarrow> (''degraded'', ''SQLite unreachable: '' @ text e))"

definition redis_health_check :: "(exn \<Rightarrow> string) \<Rightarrow> unit result \<Rightarrow> string \<times> string" where
  "redis_health_check text probe =
     (case probe of Inr _ \<Rightarrow> (''ok'', ''redis reachable'') | Inl e \<Rightarrow> (''degraded'', ''redis unreachable: '' @ text e))"

definition postgres_health_check :: "(exn \<Rightarrow> string) \<Rightarrow> unit result \<Rightarrow> string \<times> string" where
  "postgres_health_check text probe =
     (case probe of Inr _ \<Rightarrow> (''ok'', ''postgres reachable'') | Inl e \<Rightarrow> (''degraded'', ''postgres unreachable: '' @ text e))"

definition close_store :: "unit result \<Rightarrow> unit result" where
  \<comment> \<open>all three \<open>close\<close> methods swallow what the client raises\<close>
  "close_store closing = Inr ()"

lemma opened_clean: "conversation_memory_init resolve mkdir connect schema path = Inr s \<Longrightarrow> clean (conn s)"
  by (auto simp: conversation_memory_init_def Let_def rbind_Inr_iff transaction_def clean_def
      split: option.splits if_splits prod.splits ending.splits)

lemma health_total:
  "fst (sqlite_health_check text path probe) = (if isl probe then ''degraded'' else ''ok'')"
  "fst (redis_health_check text probe) = (if isl probe then ''degraded'' else ''ok'')"
  "fst (postgres_health_check text probe) = (if isl probe then ''degraded'' else ''ok'')"
  by (simp_all add: sqlite_health_check_def redis_health_check_def postgres_health_check_def split: sum.splits)

definition demo_json :: json where
  "demo_json = \<lparr>to_text = (\<lambda>v. case v of VStr s \<Rightarrow> s | _ \<Rightarrow> ''{}''), of_text = (\<lambda>t. if t = ''{}'' then Some (VDict []) else Some (VStr t))\<rparr>"

theorem text_history_refines_witness:
  "\<exists>c'. text_save demo_json 1 True True \<lparr>committed = [], working = []\<rparr> ''r1'' '' Why? '' (VStr ''so'') None 7 = (Ended, c')
     \<and> sqlite_save [] ''r1'' '' Why? '' (VStr ''so'') None 7 = Inr (value_table demo_json (committed c'))"
proof -
  have b: "\<not> blank ''r1''" "\<not> blank '' Why? ''" by code_simp+
  let ?c = "\<lparr>committed = [], working = []\<rparr> :: text_table connection"
  obtain x c' where save: "text_save demo_json 1 True True ?c ''r1'' '' Why? '' (VStr ''so'') None 7 = (x, c')" by fastforce
  then have "x = Ended" using b by (auto simp: text_save_def transaction_def)
  moreover have "clean ?c" by (simp add: clean_def)
  ultimately show ?thesis
    using text_history_refines [OF _ save] save by (simp add: demo_json_def value_table_def)
qed

end
