(* ===== verification/Spec2Isabelle.thy ===== *)
theory Spec2Isabelle
  imports InputSafety NetGuard LogSanitize RateLimit Sessions PackRegistry Policies Reviews
    RunHistory Checkpointers Cost LlmRetry Gateway PackStream PackApi OutputGuard Connectors StructuredPacks
    Research Analysis LegacyApi Calculator Tools Config Lifespan Summariser MockLlm Examples Evals
    Observability Lifecycle Storage Contracts
begin

text \<open>
  Verification of langgraph-agent-stack: a FastAPI service that runs domain packs, pipelines of
  LLM agents, behind an API key, a rate limit, budgets and a human-review queue.

  The service starts with settings that load (\<open>Config\<close>), in the order of \<open>Lifespan\<close>, with its log
  pipeline (\<open>Observability\<close>). A request passes the middlewares (\<open>Gateway\<close>, on the guards of
  \<open>NetGuard\<close> and the limiters of \<open>RateLimit\<close>) and reaches a pack endpoint (\<open>PackApi\<close>) or one of the
  older default-pack endpoints (\<open>LegacyApi\<close>). The endpoint resolves the pack's version
  (\<open>PackRegistry\<close>, with the version pinned by \<open>RunHistory\<close>), validates body and query
  (\<open>InputSafety\<close>, \<open>Policies\<close>), takes the session (\<open>Sessions\<close>), makes the pack (\<open>Lifecycle\<close>) and runs
  it, then records the run (\<open>RunHistory\<close>, kept as \<open>Storage\<close> says) and queues a review (\<open>Reviews\<close>).
  A pack is a structured vertical pack (\<open>StructuredPacks\<close>, whose answers pass \<open>OutputGuard\<close>), the
  summariser (\<open>Summariser\<close>), or a pipeline of the research agent (\<open>Research\<close>, with its \<open>Tools\<close> and
  \<open>Calculator\<close>) and the analyst (\<open>Analysis\<close>), which meet in \<open>Contracts\<close>; reference texts come from \<open>Connectors\<close>. LLM calls
  are retried and classified by \<open>LlmRetry\<close> and priced by \<open>Cost\<close>; \<open>MockLlm\<close> is the provider that
  needs no key. Streams send the events of \<open>PackStream\<close>. \<open>Evals\<close> is the offline harness over the
  same packs, \<open>Examples\<close> the graphs shown to readers.

  Theories and sources under \<open>src/\<close>:

    \<^item> \<open>InputSafety\<close>, \<open>NetGuard\<close>, \<open>LogSanitize\<close>, \<open>RateLimit\<close>, \<open>Sessions\<close>: \<open>core/security.py\<close>.
    \<^item> \<open>Observability\<close>: \<open>core/observability.py\<close>. \<open>Config\<close>: \<open>core/config.py\<close>, \<open>core/llm.py\<close>.
    \<^item> \<open>Lifespan\<close>: \<open>api/lifespan.py\<close>, \<open>api/state.py\<close>, \<open>api/endpoints/health.py\<close>,
      \<open>api/endpoints/packs.py\<close>, \<open>core/vectorstore.py\<close>.
    \<^item> \<open>PackRegistry\<close>: \<open>pack_kernel/registry.py\<close>, \<open>builtin_packs.py\<close>, \<open>plugins.py\<close>.
    \<^item> \<open>Policies\<close>: \<open>control_plane/\<close>, \<open>domain_packs/common/compliance.py\<close>.
    \<^item> \<open>Reviews\<close>: \<open>core/review_store.py\<close>, \<open>api/endpoints/reviews.py\<close>.
    \<^item> \<open>RunHistory\<close>, \<open>Storage\<close>, \<open>Checkpointers\<close>: \<open>core/memory.py\<close>.
    \<^item> \<open>Cost\<close>: \<open>core/cost.py\<close>. \<open>LlmRetry\<close>: \<open>agents/llm_retry.py\<close>, \<open>agents/base_agent.py\<close>.
    \<^item> \<open>Lifecycle\<close>: \<open>agents/base_agent.py\<close>, \<open>pack_kernel/base_pack.py\<close>, the constructors of the packs,
      \<open>examples/custom_pack/\<close>.
    \<^item> \<open>Gateway\<close>: \<open>api/middleware.py\<close>, \<open>api/app.py\<close>, \<open>api/dependencies.py\<close>.
    \<^item> \<open>PackStream\<close>: \<open>pack_kernel/base_pack.py\<close>. \<open>PackApi\<close>: \<open>api/router_factory.py\<close>.
      \<open>LegacyApi\<close>: \<open>api/endpoints/pipeline.py\<close>, \<open>api/endpoints/sessions.py\<close>.
    \<^item> \<open>OutputGuard\<close>: \<open>domain_packs/common/output_guard.py\<close>, \<open>prompt_safety.py\<close>.
      \<open>StructuredPacks\<close>: \<open>domain_packs/common/structured_llm.py\<close> and the nine vertical packs.
    \<^item> \<open>Research\<close>: \<open>agents/researcher.py\<close>. \<open>Contracts\<close>: \<open>agents/models.py\<close>. \<open>Analysis\<close>: \<open>agents/analyst.py\<close>, \<open>domain_packs/research/\<close>.
      \<open>Tools\<close>, \<open>Calculator\<close>: \<open>core/tools.py\<close>. \<open>Connectors\<close>: \<open>connectors/\<close>.
    \<^item> \<open>Summariser\<close>: \<open>domain_packs/productivity/summariser/\<close>. \<open>MockLlm\<close>: \<open>core/mock_llm.py\<close>.
      \<open>Evals\<close>: \<open>evals/\<close>. \<open>Examples\<close>: \<open>examples/\<close>.

  What is shown: of each store, limiter and registry that it does what its contract says, whichever
  backend is configured; of the gateway and the endpoints which requests get through, what a run
  leaves behind on every path, errors that no handler catches and the response model included, and that
  sessions, locks and (unless calls of \<open>close\<close> overlap) thread pools are not lost; of packs and
  agents that runs end, stay within their budget and give well-formed answers, and that streams
  tell what runs return; of settings and start-up which configurations are accepted, how start-up
  can fail and what a shutdown closes; of the log what never appears in it. Lemmas beside them
  record where the code departs from its documentation.

  Conventions are those of \<open>Prelude\<close>: exceptions are values, a \<open>str\<close> is a string over code points
  below 256, a \<open>float\<close> is a rational. Clocks, fresh ids, random numbers, hashes, address parsing,
  JSON rendering and the provider are arguments. Outages and time-outs of Redis and of the stores,
  and exceptions that end a request in the middle (\<open>fault\<close> of \<open>PackApi\<close>), are inputs of the
  operations that meet them; \<open>sqlite3\<close> refuses integers beyond 64 bits, \<open>hmac.compare_digest\<close> texts
  beyond ASCII. Locales state the contracts with several
  providers: \<open>sliding_limiter\<close> (in memory, Redis), \<open>session_registry\<close> (in memory, Redis),
  \<open>review_store\<close> (in memory, SQLite) and \<open>run_history\<close> (SQLite, PostgreSQL, Redis); each is
  interpreted on the code's own operations. Concurrency is interleaving of steps: of requests over
  one process (\<open>PackApi\<close>), of replicas over Redis (\<open>Sessions\<close>, \<open>RateLimit\<close>), of threads over a pack's
  executor (\<open>Lifecycle\<close>). A suspended graph (\<open>Examples\<close>) gets its messages one after the other and
  repeats a failed node when it is called again, as LangGraph does.

  Recursion is structural or on a size, with the code's own bounds where it loops: the search depth
  of \<open>find_auth_cause\<close>, the number of attempts of a retried call, the rounds of \<open>research_graph\<close>,
  LangGraph's limit on supersteps in \<open>supervisor_run\<close>; the values of \<open>Calculator\<close> are bounded by
  the size of the expression.

  Not modelled: how pydantic reads and validates values (an argument wherever it matters), float
  arithmetic (an argument of \<open>Calculator\<close>), the interpreter's recursion limit,
  Starlette's routing and CORS, the compilation of graphs and LangGraph's savers, formatters,
  exporters and metric objects, printing, the LLM providers' SDKs, and the external services behind
  the connectors, the search tools and the vector store.
\<close>

end
